(* ===== verification/Prelude.thy ===== *)
theory Prelude
  imports Main "HOL-Library.Word" "HOL-Library.Multiset"
begin

unbundle bit_operations_syntax

text \<open>
  Shared vocabulary of the development: the machine integers of the Rust sources as words,
  byte strings as lists, fallible results as sums (\<open>Inl\<close> is Rust's \<open>Err\<close>, \<open>Inr\<close> its
  \<open>Ok\<close>), the standard-library integer operations the sources call (saturating arithmetic,
  \<open>to_le_bytes\<close>, \<open>from_le_bytes\<close>, \<open>to_be_bytes\<close>, \<open>from_be_bytes\<close>), and the lemmas on
  slices, words and results that the component theories use.  Rust's \<open>+\<close> on an unsigned
  integer is the wrapping \<open>+\<close> of \<open>word\<close>: the release profile of the workspace does not
  enable overflow checks.
\<close>

section \<open>Types\<close>

type_synonym u8 = "8 word"
type_synonym u16 = "16 word"
type_synonym u32 = "32 word"
type_synonym u64 = "64 word"
type_synonym bytes = "u8 list"

section \<open>Lemma collections\<close>

named_theorems wire_simps \<open>evaluation of encoders and parsers on byte lists\<close>
named_theorems state_simps \<open>field projections of the state-changing operations\<close>

section \<open>Results\<close>

definition res_bind :: "'e + 'a \<Rightarrow> ('a \<Rightarrow> 'e + 'b) \<Rightarrow> 'e + 'b" where
  "res_bind r f = (case r of Inl e \<Rightarrow> Inl e | Inr x \<Rightarrow> f x)"

lemma res_bind_Inl [simp]: "res_bind (Inl e) f = Inl e"
  by (simp add: res_bind_def)

lemma res_bind_Inr [simp]: "res_bind (Inr x) f = f x"
  by (simp add: res_bind_def)

lemma res_bind_eq_Inr: "res_bind r f = Inr y \<longleftrightarrow> (\<exists>x. r = Inr x \<and> f x = Inr y)"
  by (cases r) auto

definition is_ok :: "'e + 'a \<Rightarrow> bool" where
  "is_ok r = (case r of Inl _ \<Rightarrow> False | Inr _ \<Rightarrow> True)"

lemma is_ok_simps [simp]: "is_ok (Inl e) = False" "is_ok (Inr x) = True"
  by (simp_all add: is_ok_def)

section \<open>Slices\<close>

text \<open>\<open>&xs[i..j]\<close> for \<open>i \<le> j \<le> len\<close>; callers check the bound first, as the source does.\<close>

definition subslice :: "'a list \<Rightarrow> nat \<Rightarrow> nat \<Rightarrow> 'a list" where
  "subslice xs i j = take (j - i) (drop i xs)"

lemma length_subslice [simp]: "length (subslice xs i j) = min (length xs - i) (j - i)"
  by (simp add: subslice_def)

lemma subslice_append_left [simp]: "j \<le> length xs \<Longrightarrow> subslice (xs @ ys) i j = subslice xs i j"
  by (simp add: subslice_def)

lemma subslice_all: "subslice (xs @ ys) 0 (length xs) = xs"
  by (simp add: subslice_def)

lemma nth_subslice: "i + k < j \<Longrightarrow> j \<le> length xs \<Longrightarrow> subslice xs i j ! k = xs ! (i + k)"
  by (simp add: subslice_def)

lemma subslice_update_out:
  "k < i \<or> j \<le> k \<Longrightarrow> subslice (xs[k := b]) i j = subslice xs i j"
  by (rule nth_equalityI) (auto simp: subslice_def nth_list_update)

lemma subslice_split:
  assumes "i \<le> j" "j \<le> length xs"
  shows "take i xs @ subslice xs i j @ drop j xs = xs"
proof -
  have "drop i xs = take (j - i) (drop i xs) @ drop (j - i) (drop i xs)"
    by (simp only: append_take_drop_id)
  then have "drop i xs = subslice xs i j @ drop j xs"
    using assms(1) by (simp add: subslice_def)
  then show ?thesis by (metis append_take_drop_id)
qed

lemma drop_subslice: "i \<le> j \<Longrightarrow> drop i xs = subslice xs i j @ drop j xs"
  unfolding subslice_def
  by (metis append_take_drop_id drop_drop le_add_diff_inverse2)

lemma subslice_0: "subslice xs 0 j = take j xs"
  by (simp add: subslice_def)

section \<open>Saturating arithmetic\<close>

definition sat_add :: "'a::len word \<Rightarrow> 'a word \<Rightarrow> 'a word" where
  "sat_add a b = (if unat a + unat b < 2 ^ LENGTH('a) then a + b else - 1)"

definition sat_sub :: "'a::len word \<Rightarrow> 'a word \<Rightarrow> 'a word" where
  "sat_sub a b = (if a \<le> b then 0 else a - b)"

lemma unat_sat_add:
  "unat (sat_add a b :: 'a::len word) = min (unat a + unat b) (2 ^ LENGTH('a) - 1)"
  by (auto simp: sat_add_def unat_word_ariths unsigned_minus_1_eq_mask mask_eq_exp_minus_1)

lemma unat_sat_sub: "unat (sat_sub a b) = unat a - unat b"
  by (auto simp: sat_sub_def word_le_nat_alt unat_sub)

text \<open>\<open>usize::saturating_sub\<close> is the truncating subtraction of \<open>nat\<close>; \<open>usize\<close> sums of
  buffer sizes stay far below \<open>2 ^ 64\<close> and are modelled as \<open>nat\<close> sums.\<close>

section \<open>Byte order\<close>

definition u16_to_le :: "u16 \<Rightarrow> bytes" where
  "u16_to_le w = [ucast w, ucast (drop_bit 8 w)]"

definition u16_to_be :: "u16 \<Rightarrow> bytes" where
  "u16_to_be w = [ucast (drop_bit 8 w), ucast w]"

definition u16_of :: "u8 \<Rightarrow> u8 \<Rightarrow> u16" where
  "u16_of hi lo = push_bit 8 (ucast hi) OR ucast lo"

definition u32_to_le :: "u32 \<Rightarrow> bytes" where
  "u32_to_le w = [ucast w, ucast (drop_bit 8 w), ucast (drop_bit 16 w), ucast (drop_bit 24 w)]"

text \<open>\<open>from_le_bytes\<close> over a slice, least significant byte first; callers pass exactly four bytes.\<close>

fun u32_of_le :: "bytes \<Rightarrow> u32" where
  "u32_of_le [] = 0"
| "u32_of_le (b # bs) = ucast b OR push_bit 8 (u32_of_le bs)"

lemma length_u16_to_le [simp]: "length (u16_to_le w) = 2"
  by (simp add: u16_to_le_def)

lemma length_u16_to_be [simp]: "length (u16_to_be w) = 2"
  by (simp add: u16_to_be_def)

lemma length_u32_to_le [simp]: "length (u32_to_le w) = 4"
  by (simp add: u32_to_le_def)

lemma bit_u8_high [simp]: "8 \<le> n \<Longrightarrow> bit (a :: u8) n = False"
  using bit_imp_le_length [of a n] by auto

lemma u16_of_parts [simp]: "u16_of (ucast (drop_bit 8 w)) (ucast w) = w"
  unfolding u16_of_def
  by (rule bit_word_eqI) (auto simp: bit_simps)

lemma u16_of_hi [simp]: "ucast (drop_bit 8 (u16_of hi lo)) = hi"
  unfolding u16_of_def
  by (rule bit_word_eqI) (auto simp: bit_simps dest: bit_imp_le_length)

lemma u16_of_lo [simp]: "ucast (u16_of hi lo) = lo"
  unfolding u16_of_def
  by (rule bit_word_eqI) (auto simp: bit_simps dest: bit_imp_le_length)

lemma u32_of_le_to_le [simp]: "u32_of_le (u32_to_le w) = w"
proof (rule bit_word_eqI)
  fix n assume "n < LENGTH(32)"
  then consider "n < 8" | "8 \<le> n" "n < 16" | "16 \<le> n" "n < 24" | "24 \<le> n" "n < 32"
    by fastforce
  then show "bit (u32_of_le (u32_to_le w)) n = bit w n"
    by cases (auto simp: u32_to_le_def bit_simps)
qed

lemma u32_to_le_of_le [simp]: "u32_to_le (u32_of_le [a, b, c, d]) = [a, b, c, d]"
  unfolding u32_to_le_def
  by (auto intro!: bit_word_eqI simp: bit_simps dest: bit_imp_le_length)

lemma u32_to_le_of_le_length: "length bs = 4 \<Longrightarrow> u32_to_le (u32_of_le bs) = bs"
  by (auto simp: numeral_eq_Suc length_Suc_conv simp del: u32_of_le.simps)

lemma take_u32_to_le [simp]: "take 4 (u32_to_le w @ bs) = u32_to_le w"
  and drop_u32_to_le [simp]: "drop 4 (u32_to_le w @ bs) = bs"
  by simp_all

section \<open>Big-endian byte strings of any width\<close>

text \<open>\<open>to_be_bytes\<close> and \<open>from_be_bytes\<close>; callers of the latter pass exactly the bytes of the type.\<close>

definition be_bytes :: "'a::len word \<Rightarrow> bytes" where
  "be_bytes w = map (\<lambda>i. ucast (drop_bit (8 * i) w)) (rev [0..<LENGTH('a) div 8])"

definition be_word :: "bytes \<Rightarrow> 'a::len word" where
  "be_word bs = foldl (\<lambda>a b. push_bit 8 a OR ucast b) 0 bs"

definition le_bytes :: "'a::len word \<Rightarrow> bytes" where
  "le_bytes w = rev (be_bytes w)"

definition le_word :: "bytes \<Rightarrow> 'a::len word" where
  "le_word bs = be_word (rev bs)"

lemma length_be_bytes [simp]: "length (be_bytes (w :: 'a::len word)) = LENGTH('a) div 8"
  by (simp add: be_bytes_def)

lemma length_le_bytes [simp]: "length (le_bytes (w :: 'a::len word)) = LENGTH('a) div 8"
  by (simp add: le_bytes_def)

lemma bit_be_word:
  "bit (be_word bs :: 'a::len word) n
     \<longleftrightarrow> n < LENGTH('a) \<and> n div 8 < length bs \<and> bit (rev bs ! (n div 8)) (n mod 8)"
proof (induction bs arbitrary: n rule: rev_induct)
  case Nil
  then show ?case by (simp add: be_word_def)
next
  case (snoc b bs)
  have "be_word (bs @ [b]) = push_bit 8 (be_word bs) OR (ucast b :: 'a word)"
    by (simp add: be_word_def)
  then have *: "bit (be_word (bs @ [b]) :: 'a word) n
      \<longleftrightarrow> n < LENGTH('a) \<and> (if n < 8 then bit b n else bit (be_word bs :: 'a word) (n - 8))"
    by (auto simp: bit_simps dest: bit_imp_le_length)
  show ?case
  proof (cases "n < 8")
    case True
    then show ?thesis by (simp add: *)
  next
    case False
    then have "n div 8 = Suc ((n - 8) div 8)" "n mod 8 = (n - 8) mod 8"
      by (simp_all add: le_div_geq le_mod_geq)
    then show ?thesis using False by (auto simp: * snoc.IH)
  qed
qed

lemma be_word_bytes:
  assumes "LENGTH('a) mod 8 = 0"
  shows "be_word (be_bytes w) = (w :: 'a::len word)"
proof (rule bit_word_eqI)
  fix n assume n: "n < LENGTH('a)"
  then have k: "n div 8 < LENGTH('a) div 8" using assms
    by (metis div_less_iff_less_mult dvd_div_mult_self mod_0_imp_dvd zero_less_numeral)
  then have "rev (be_bytes w) ! (n div 8) = ucast (drop_bit (8 * (n div 8)) w)"
    by (simp add: be_bytes_def rev_map)
  then show "bit (be_word (be_bytes w) :: 'a word) n = bit w n"
    using n k by (simp add: bit_be_word bit_simps)
qed

lemma be_bytes_word:
  assumes "LENGTH('a) = 8 * length bs"
  shows "be_bytes (be_word bs :: 'a::len word) = bs"
proof (rule nth_equalityI)
  show "length (be_bytes (be_word bs :: 'a word)) = length bs" using assms by simp
next
  fix i assume "i < length (be_bytes (be_word bs :: 'a word))"
  then have i: "i < length bs" using assms by simp
  then have "be_bytes (be_word bs :: 'a word) ! i = ucast (drop_bit (8 * (length bs - Suc i)) (be_word bs :: 'a word))"
    using assms by (simp add: be_bytes_def rev_nth)
  also have "\<dots> = bs ! i"
  proof (rule bit_word_eqI)
    fix j assume "j < LENGTH(8)"
    moreover from this i have "8 * (length bs - Suc i) + j < 8 * length bs" by simp
    ultimately show "bit (ucast (drop_bit (8 * (length bs - Suc i)) (be_word bs :: 'a word)) :: u8) j = bit (bs ! i) j"
      using i assms by (simp add: bit_simps bit_be_word rev_nth)
  qed
  finally show "be_bytes (be_word bs :: 'a word) ! i = bs ! i" .
qed

lemmas be_word_bytes_simps [simp] =
  be_word_bytes [where 'a = 16, simplified] be_word_bytes [where 'a = 32, simplified]
  be_word_bytes [where 'a = 64, simplified]

lemma le_word_bytes_simps [simp]:
  "le_word (le_bytes (w :: 16 word)) = w" "le_word (le_bytes (v :: 32 word)) = v" "le_word (le_bytes (u :: 64 word)) = u"
  by (simp_all add: le_word_def le_bytes_def)

lemma le_bytes_word: "LENGTH('a) = 8 * length bs \<Longrightarrow> le_bytes (le_word bs :: 'a::len word) = bs"
  by (simp add: le_word_def le_bytes_def be_bytes_word)

section \<open>Checksums\<close>

text \<open>The wrapping byte sum \<open>iter().fold(0u8, |a, b| a.wrapping_add(b))\<close>.\<close>

definition byte_sum :: "bytes \<Rightarrow> u8" where
  "byte_sum bs = fold (\<lambda>v acc. acc + v) bs 0"

lemma fold_add_acc: "fold (\<lambda>v acc. acc + v) bs (a :: 'a::len word) = a + fold (\<lambda>v acc. acc + v) bs 0"
proof (induction bs arbitrary: a)
  case Nil
  then show ?case by simp
next
  case (Cons b bs)
  show ?case
    using Cons.IH [of "a + b"] Cons.IH [of b] by simp
qed

lemma byte_sum_simps [simp]:
  "byte_sum [] = 0" "byte_sum (b # bs) = b + byte_sum bs" "byte_sum (bs @ cs) = byte_sum bs + byte_sum cs"
proof -
  show "byte_sum [] = 0" by (simp add: byte_sum_def)
  show "byte_sum (b # bs) = b + byte_sum bs"
    using fold_add_acc [of bs b] by (simp add: byte_sum_def)
  show "byte_sum (bs @ cs) = byte_sum bs + byte_sum cs"
    using fold_add_acc [of cs "fold (\<lambda>v acc. acc + v) bs 0"] by (simp add: byte_sum_def)
qed

lemma byte_sum_update:
  assumes "i < length bs"
  shows "byte_sum (bs[i := b]) = byte_sum bs - bs ! i + b"
proof -
  have "bs[i := b] = take i bs @ b # drop (Suc i) bs"
    using assms by (rule upd_conv_take_nth_drop)
  moreover have "bs = take i bs @ bs ! i # drop (Suc i) bs"
    using assms by (rule id_take_nth_drop)
  then have "byte_sum bs = byte_sum (take i bs) + (bs ! i + byte_sum (drop (Suc i) bs))"
    by (metis byte_sum_simps(2,3))
  ultimately show ?thesis by simp
qed

lemma ucast_add_u8: "(ucast (a + b :: u32) :: u8) = ucast a + ucast b"
  by (rule word_uint_eqI)
    (simp add: uint_word_ariths unsigned_ucast_eq take_bit_eq_mod mod_simps mod_mod_cancel)

lemma ucast_fold_sum:
  "(ucast (fold (\<lambda>b sum. sum + ucast b) bs (acc :: u32)) :: u8) = ucast acc + byte_sum bs"
  by (induction bs arbitrary: acc) (simp_all add: ucast_add_u8 add.assoc ucast_up_ucast_id is_up)

lemma ucast_of_nat_u8: "(ucast (of_nat n :: u32) :: u8) = of_nat n"
  by (simp add: word_unat_eq_iff unat_of_nat unsigned_ucast_eq take_bit_eq_mod mod_mod_cancel)

lemma nibble_small: "d < 16 \<Longrightarrow> (of_nat d :: u8) AND 0x0F = of_nat d"
proof -
  assume "d < 16"
  then have "of_nat d < (2 ^ 4 :: u8)"
    by (simp add: word_less_nat_alt unat_of_nat)
  then show ?thesis
    using less_mask_eq [of "of_nat d :: u8" 4] by (simp add: mask_eq_exp_minus_1)
qed

lemma nibble_pack:
  fixes h l :: u8
  assumes "h AND 0x0F = h" "l AND 0x0F = l"
  shows "drop_bit 4 (push_bit 4 h OR l) AND 0x0F = h" "(push_bit 4 h OR l) AND 0x0F = l"
proof -
  have m: "(0x0F :: u8) = mask 4" by (simp add: mask_eq_exp_minus_1)
  have h: "bit h n \<Longrightarrow> n < 4" and l: "bit l n \<Longrightarrow> n < 4" for n
    using assms by (metis bit_and_iff bit_mask_iff m)+
  show "drop_bit 4 (push_bit 4 h OR l) AND 0x0F = h"
    unfolding m by (rule bit_word_eqI) (auto simp: bit_simps dest: h l)
  show "(push_bit 4 h OR l) AND 0x0F = l"
    unfolding m by (rule bit_word_eqI) (auto simp: bit_simps dest: h l)
qed

end
