(* ===== verification/Dlt645_Defs.thy ===== *)
theory Dlt645_Defs
  imports Prelude
begin

text \<open>
  DL/T 645 driver, the protocol constants: versions (\<open>types.rs\<close>), error values
  (\<open>protocol/error.rs\<close>), baud rates, function codes, the control word and the meter address
  (\<open>protocol/frame/defs.rs\<close>, address strings and data identifiers from
  \<open>protocol/frame/mod.rs\<close>).  The lemmas show that function codes survive the control word
  in both protocol dialects, that requests never carry response flags, and that the
  textual address and its BCD form determine each other.
\<close>

section \<open>Versions and errors\<close>

datatype Dl645Version = V1997 | V2007 | V2021

datatype Dl645ExceptionCode =
    IllegalCommand
  | IllegalData
  | OperationNotAllowed
  | AuthenticationFailed
  | ObjectNotSupported
  | Vendor u8
  | Unknown u8

definition exception_from_byte :: "u8 \<Rightarrow> Dl645ExceptionCode" where
  "exception_from_byte b =
     (if b = 0x01 then IllegalCommand
      else if b = 0x02 then IllegalData
      else if b = 0x03 then OperationNotAllowed
      else if b = 0x04 then AuthenticationFailed
      else if b = 0x05 then ObjectNotSupported
      else if 0x80 \<le> b \<and> b \<le> 0xFF then Vendor b
      else Dl645ExceptionCode.Unknown b)"

text \<open>\<open>Timeout\<close> carries the configured duration in milliseconds, \<open>Io\<close> the text of the
  underlying error.\<close>

datatype ProtocolError =
    InvalidFrame string
  | ChecksumMismatch
  | InvalidControl u8
  | FrameTooLarge nat
  | Exception Dl645ExceptionCode
  | Semantic string
  | Timeout nat
  | Transport string
  | Io string

section \<open>Baud rates\<close>

datatype Dl645BaudRate = Bps600 | Bps1200 | Bps2400 | Bps4800 | Bps9600 | Bps19200

fun as_u32 :: "Dl645BaudRate \<Rightarrow> u32" where
  "as_u32 Bps600 = 600"
| "as_u32 Bps1200 = 1200"
| "as_u32 Bps2400 = 2400"
| "as_u32 Bps4800 = 4800"
| "as_u32 Bps9600 = 9600"
| "as_u32 Bps19200 = 19200"

fun as_code :: "Dl645BaudRate \<Rightarrow> Dl645Version \<Rightarrow> u8" where
  "as_code r V1997 =
     (case r of Bps600 \<Rightarrow> 0x04 | Bps1200 \<Rightarrow> 0x08 | Bps2400 \<Rightarrow> 0x10
      | Bps4800 \<Rightarrow> 0x20 | Bps9600 \<Rightarrow> 0x40 | Bps19200 \<Rightarrow> 0x80)"
| "as_code r _ =
     (case r of Bps600 \<Rightarrow> 0x01 | Bps1200 \<Rightarrow> 0x02 | Bps2400 \<Rightarrow> 0x04
      | Bps4800 \<Rightarrow> 0x08 | Bps9600 \<Rightarrow> 0x10 | Bps19200 \<Rightarrow> 0x20)"

definition baud_try_from :: "u32 \<Rightarrow> unit + Dl645BaudRate" where
  "baud_try_from v =
     (if v = 600 then Inr Bps600
      else if v = 1200 then Inr Bps1200
      else if v = 2400 then Inr Bps2400
      else if v = 4800 then Inr Bps4800
      else if v = 9600 then Inr Bps9600
      else if v = 19200 then Inr Bps19200
      else Inl ())"

lemma baud_roundtrip: "baud_try_from (as_u32 r) = Inr r"
  by (cases r) (simp_all add: baud_try_from_def)

section \<open>Function codes and the control word\<close>

datatype Dl645Direction = MasterToSlave | SlaveToMaster

datatype Dl645Function =
    Reserved
  | BroadcastTimeSync
  | ReadData
  | ReadNextData
  | ReReadData
  | ReadAddress
  | WriteData
  | WriteAddress
  | Freeze
  | UpdateBaudRate
  | ModifyPassword
  | ClearMaxDemand
  | ClearMeter
  | ClearEvents
  | Unknown u8

definition from_bits :: "u8 \<Rightarrow> Dl645Function" where
  "from_bits bits =
     (let b = bits AND 0x1F in
      if b = 0x00 then Reserved
      else if b = 0x01 then ReadData
      else if b = 0x11 then ReadData
      else if b = 0x02 then ReadNextData
      else if b = 0x12 then ReadNextData
      else if b = 0x03 then ReReadData
      else if b = 0x08 then BroadcastTimeSync
      else if b = 0x13 then ReadAddress
      else if b = 0x04 then WriteData
      else if b = 0x14 then WriteData
      else if b = 0x0A then WriteAddress
      else if b = 0x15 then WriteAddress
      else if b = 0x16 then Freeze
      else if b = 0x0C then UpdateBaudRate
      else if b = 0x17 then UpdateBaudRate
      else if b = 0x0F then ModifyPassword
      else if b = 0x18 then ModifyPassword
      else if b = 0x10 then ClearMaxDemand
      else if b = 0x19 then ClearMaxDemand
      else if b = 0x1A then ClearMeter
      else if b = 0x1B then ClearEvents
      else Unknown b)"

fun to_bits :: "Dl645Function \<Rightarrow> u8" where
  "to_bits Reserved = 0x00"
| "to_bits BroadcastTimeSync = 0x08"
| "to_bits ReadData = 0x11"
| "to_bits ReadNextData = 0x12"
| "to_bits ReReadData = 0x03"
| "to_bits ReadAddress = 0x13"
| "to_bits WriteData = 0x14"
| "to_bits WriteAddress = 0x15"
| "to_bits Freeze = 0x16"
| "to_bits UpdateBaudRate = 0x17"
| "to_bits ModifyPassword = 0x18"
| "to_bits ClearMaxDemand = 0x19"
| "to_bits ClearMeter = 0x1A"
| "to_bits ClearEvents = 0x1B"
| "to_bits (Unknown bits) = bits AND 0x1F"

record Dl645ControlWord =
  raw :: u8

definition control_new :: "u8 \<Rightarrow> Dl645ControlWord" where
  "control_new r = \<lparr>raw = r\<rparr>"

definition from_function :: "Dl645Function \<Rightarrow> Dl645ControlWord" where
  "from_function f = control_new (to_bits f)"

definition for_request :: "Dl645Version \<Rightarrow> Dl645Function \<Rightarrow> Dl645ControlWord" where
  "for_request version f =
     (case version of
        V1997 \<Rightarrow>
          (case f of
             ReadData \<Rightarrow> control_new 0x01
           | ReadNextData \<Rightarrow> control_new 0x02
           | ReReadData \<Rightarrow> control_new 0x03
           | WriteData \<Rightarrow> control_new 0x04
           | BroadcastTimeSync \<Rightarrow> control_new 0x08
           | WriteAddress \<Rightarrow> control_new 0x0A
           | UpdateBaudRate \<Rightarrow> control_new 0x0C
           | ModifyPassword \<Rightarrow> control_new 0x0F
           | ClearMaxDemand \<Rightarrow> control_new 0x10
           | other \<Rightarrow> from_function other)
      | _ \<Rightarrow> from_function f)"

definition function_bits :: "Dl645ControlWord \<Rightarrow> u8" where
  "function_bits c = raw c AND 0x1F"

definition control_function :: "Dl645ControlWord \<Rightarrow> Dl645Function" where
  "control_function c = from_bits (function_bits c)"

definition has_following_frame :: "Dl645ControlWord \<Rightarrow> bool" where
  "has_following_frame c \<longleftrightarrow> raw c AND 0x20 \<noteq> 0"

definition is_exception_response :: "Dl645ControlWord \<Rightarrow> bool" where
  "is_exception_response c \<longleftrightarrow> raw c AND 0x40 \<noteq> 0"

definition direction :: "Dl645ControlWord \<Rightarrow> Dl645Direction" where
  "direction c = (if raw c AND 0x80 \<noteq> 0 then SlaveToMaster else MasterToSlave)"

lemmas control_defs = control_new_def from_function_def for_request_def function_bits_def
  control_function_def has_following_frame_def is_exception_response_def direction_def

text \<open>A function code the standard names; \<open>Unknown\<close> carries a five-bit pattern that no named
  function uses.\<close>

definition known_function :: "Dl645Function \<Rightarrow> bool" where
  "known_function f = (case f of Unknown bits \<Rightarrow> from_bits bits = f | _ \<Rightarrow> True)"

lemma to_bits_five_bits: "to_bits f AND 0x1F = to_bits f"
  by (cases f) (simp_all add: and.assoc)

lemma from_bits_to_bits: "known_function f \<Longrightarrow> from_bits (to_bits f) = f"
  by (cases f) (auto simp: known_function_def from_bits_def)

lemma known_function_from_bits: "known_function (from_bits b)"
  by (auto simp: known_function_def from_bits_def Let_def and.assoc)

lemma for_request_function:
  assumes "known_function f"
  shows "control_function (for_request v f) = f"
proof (cases v)
  case V1997
  then show ?thesis
    using assms from_bits_to_bits [OF assms]
    by (cases f) (auto simp: control_defs from_bits_def known_function_def to_bits_five_bits)
qed (auto simp: control_defs to_bits_five_bits from_bits_to_bits assms)

lemma five_bits_no_flags:
  fixes b :: u8
  assumes "b AND 0x1F = b"
  shows "b AND 0x20 = 0" "b AND 0x40 = 0" "b AND 0x80 = 0"
proof -
  have "b AND 0x20 = b AND (0x1F AND 0x20)" "b AND 0x40 = b AND (0x1F AND 0x40)"
    "b AND 0x80 = b AND (0x1F AND 0x80)"
    using assms by (metis and.assoc)+
  then show "b AND 0x20 = 0" "b AND 0x40 = 0" "b AND 0x80 = 0" by simp_all
qed

lemma for_request_five_bits: "raw (for_request v f) AND 0x1F = raw (for_request v f)"
  by (cases v; cases f) (simp_all add: control_defs and.assoc)

lemma for_request_flags:
  "\<not> has_following_frame (for_request v f)" "\<not> is_exception_response (for_request v f)"
  "direction (for_request v f) = MasterToSlave"
  using five_bits_no_flags [OF for_request_five_bits]
  by (simp_all add: has_following_frame_def is_exception_response_def direction_def)

section \<open>Addresses\<close>

text \<open>\<open>Dl645Address\<close> wraps \<open>[u8; 6]\<close>, low byte first: a list of length six.\<close>

type_synonym Dl645Address = bytes

definition wf_address :: "Dl645Address \<Rightarrow> bool" where
  "wf_address a \<longleftrightarrow> length a = 6"

definition is_ascii_digit :: "char \<Rightarrow> bool" where
  "is_ascii_digit c \<longleftrightarrow> 48 \<le> (of_char c :: nat) \<and> (of_char c :: nat) \<le> 57"

definition char_byte :: "char \<Rightarrow> u8" where
  "char_byte c = of_nat (of_char c)"

definition byte_char :: "u8 \<Rightarrow> char" where
  "byte_char b = char_of (unat b)"

text \<open>One BCD byte from the two digits at \<open>2 * i\<close> and \<open>2 * i + 1\<close>.\<close>

definition address_byte :: "string \<Rightarrow> nat \<Rightarrow> u8" where
  "address_byte s i =
     (let hi = char_byte (s ! (2 * i)) - 48;
          lo = char_byte (s ! (2 * i + 1)) - 48
      in push_bit 4 hi OR lo)"

definition encode_address_from_str :: "string \<Rightarrow> ProtocolError + Dl645Address" where
  "encode_address_from_str s =
     (if length s \<noteq> 12 \<or> \<not> list_all is_ascii_digit s
      then Inl (InvalidFrame ''address must be 12 decimal digits'')
      else Inr (rev (map (address_byte s) [0..<6])))"

definition bcd_chars :: "u8 \<Rightarrow> string" where
  "bcd_chars b =
     (let hi = drop_bit 4 b AND 0x0F;
          lo = b AND 0x0F
      in [byte_char (48 + hi), byte_char (48 + lo)])"

definition decode_address_to_str :: "Dl645Address \<Rightarrow> string" where
  "decode_address_to_str a = concat (map bcd_chars (rev a))"

lemma digit_byte_cases:
  assumes "is_ascii_digit c"
  obtains d :: nat where "d < 10" "char_byte c - 48 = of_nat d" "byte_char (48 + of_nat d) = c"
proof -
  define d :: nat where "d = of_char c - 48"
  have d: "of_char c = (48 + d :: nat)" "d < 10"
    using assms by (auto simp: is_ascii_digit_def d_def)
  have "unat (48 + of_nat d :: u8) = 48 + d"
    using d(2) by (simp add: unat_word_ariths unat_of_nat)
  then have "byte_char (48 + of_nat d) = c"
    by (simp add: byte_char_def flip: d(1))
  then show thesis
    using that [of d] d by (simp add: char_byte_def)
qed

lemma bcd_chars_address_byte:
  assumes "2 * i + 1 < length s" "list_all is_ascii_digit s"
  shows "bcd_chars (address_byte s i) = [s ! (2 * i), s ! (2 * i + 1)]"
proof -
  have "is_ascii_digit (s ! (2 * i))" "is_ascii_digit (s ! (2 * i + 1))"
    using assms by (auto simp: list_all_length)
  then obtain h l where
      "h < 10" "char_byte (s ! (2 * i)) - 48 = of_nat h" "byte_char (48 + of_nat h) = s ! (2 * i)"
    and "l < 10" "char_byte (s ! (2 * i + 1)) - 48 = of_nat l" "byte_char (48 + of_nat l) = s ! (2 * i + 1)"
    by (metis digit_byte_cases)
  then show ?thesis
    using nibble_pack [OF nibble_small nibble_small, of h l]
    by (simp add: bcd_chars_def address_byte_def Let_def)
qed

lemma decode_encode_address:
  assumes "encode_address_from_str s = Inr a"
  shows "decode_address_to_str a = s"
proof -
  have s: "length s = 12" "list_all is_ascii_digit s" and a: "a = rev (map (address_byte s) [0..<6])"
    using assms by (auto simp: encode_address_from_str_def split: if_splits)
  have "decode_address_to_str a = concat (map (\<lambda>i. [s ! (2 * i), s ! (2 * i + 1)]) [0..<6])"
    unfolding a decode_address_to_str_def
    using bcd_chars_address_byte [of _ s] s by (auto simp: comp_def intro!: arg_cong [where f = concat])
  also have "\<dots> = map (\<lambda>i. s ! i) [0..<12]"
    by (simp add: upt_rec numeral_eq_Suc)
  also have "\<dots> = s" using s(1) by (metis map_nth)
  finally show ?thesis .
qed

lemma encode_address_wf: "encode_address_from_str s = Inr a \<Longrightarrow> wf_address a"
  by (auto simp: encode_address_from_str_def wf_address_def split: if_splits)

section \<open>Data identifiers as text\<close>

definition is_ascii_hexdigit :: "char \<Rightarrow> bool" where
  "is_ascii_hexdigit c \<longleftrightarrow>
     is_ascii_digit c
     \<or> 65 \<le> (of_char c :: nat) \<and> (of_char c :: nat) \<le> 70
     \<or> 97 \<le> (of_char c :: nat) \<and> (of_char c :: nat) \<le> 102"

definition hex_digit :: "char \<Rightarrow> u32" where
  "hex_digit c =
     (let n = (of_char c :: nat) in
      of_nat (if n \<le> 57 then n - 48 else if n \<le> 70 then n - 55 else n - 87))"

text \<open>\<open>u32::from_str_radix(di, 16)\<close> on at most eight hexadecimal digits, which never overflows.\<close>

definition from_str_radix16 :: "string \<Rightarrow> u32" where
  "from_str_radix16 s = foldl (\<lambda>acc c. acc * 16 + hex_digit c) 0 s"

definition parse_di_str :: "string \<Rightarrow> u32 option" where
  "parse_di_str di =
     (if \<not> (length di = 4 \<or> length di = 8) then None
      else if \<not> list_all is_ascii_hexdigit di then None
      else if length di = 4 then Some (from_str_radix16 di AND 0xFFFF)
      else Some (from_str_radix16 di))"

section \<open>Properties\<close>

text \<open>The control word of a request, in either dialect of the standard, reads back as the
  requested function, goes from master to slave, and carries neither the exception nor the
  more-follows flag.\<close>

theorem request_control_word:
  assumes "known_function f"
  shows "control_function (for_request v f) = f \<and> direction (for_request v f) = MasterToSlave
    \<and> \<not> is_exception_response (for_request v f) \<and> \<not> has_following_frame (for_request v f)"
  using for_request_function [OF assms] by (simp add: for_request_flags)

theorem request_control_word_witness:
  "control_function (for_request V1997 WriteData) = WriteData \<and> raw (for_request V1997 WriteData) = 0x04"
  using request_control_word [of WriteData V1997] by (simp add: known_function_def) (simp add: control_defs)

text \<open>A meter address text that is accepted has twelve digits, becomes six bytes, and reads
  back as the same text.\<close>

theorem address_text_roundtrip:
  assumes "encode_address_from_str s = Inr a"
  shows "decode_address_to_str a = s \<and> length s = 12 \<and> wf_address a"
  using assms decode_encode_address [OF assms] encode_address_wf [OF assms]
  by (auto simp: encode_address_from_str_def split: if_splits)

theorem address_text_roundtrip_witness:
  "\<exists>a. encode_address_from_str ''202401170042'' = Inr a \<and> decode_address_to_str a = ''202401170042''"
proof -
  have "list_all is_ascii_digit ''202401170042''" by (simp add: is_ascii_digit_def)
  then obtain a where "encode_address_from_str ''202401170042'' = Inr a"
    by (simp add: encode_address_from_str_def)
  with address_text_roundtrip [OF this] show ?thesis by blast
qed

end
