(* ===== verification/Wire.thy ===== *)
theory Wire
  imports Prelude
begin

text \<open>
  The wire-format contract of the SDK: the traits \<open>WireEncode\<close> and \<open>WireDecode\<close> of
  \<open>ng-gateway-sdk/src/southward/wire.rs\<close> as locales, with the laws every implementation in
  the drivers promises, and what follows from the contract for any implementation.  The
  DL/T 645 frame is generic over a body with this contract.

  \<open>encode_to\<close> appends to a write-only destination, so it is given by the bytes it appends and
  its result.  \<open>wf\<close> is the type invariant (fixed-size arrays are lists of that length);
  \<open>canonical\<close> holds of the values that survive a trip over the wire in a context.
\<close>

type_synonym 'e wrote = "bytes \<times> ('e + unit)"

locale wire_codec =
  fixes encoded_len :: "'b \<Rightarrow> 'c \<Rightarrow> nat"
    and encode_to :: "'b \<Rightarrow> 'c \<Rightarrow> 'e wrote"
    and parse :: "bytes \<Rightarrow> 'c \<Rightarrow> 'e + bytes \<times> 'b"
    and wf :: "'b \<Rightarrow> bool"
    and canonical :: "'c \<Rightarrow> 'b \<Rightarrow> bool"
  assumes canonical_wf: "canonical c b \<Longrightarrow> wf b"
    and canonical_encodes: "canonical c b \<Longrightarrow> snd (encode_to b c) = Inr ()"
    and encode_length: "wf b \<Longrightarrow> snd (encode_to b c) = Inr () \<Longrightarrow> length (fst (encode_to b c)) = encoded_len b c"
    and parse_encode: "canonical c b \<Longrightarrow> parse (fst (encode_to b c)) c = Inr ([], b)"
begin

lemma canonical_length: "canonical c b \<Longrightarrow> length (fst (encode_to b c)) = encoded_len b c"
  by (simp add: encode_length canonical_encodes canonical_wf)

text \<open>Two canonical values with the same encoding are the same value.\<close>

lemma encode_inject:
  assumes "canonical c a" "canonical c b" "fst (encode_to a c) = fst (encode_to b c)"
  shows "a = b"
proof -
  have "parse (fst (encode_to b c)) c = Inr ([], a)"
    using parse_encode [OF assms(1)] unfolding assms(3) .
  then show ?thesis by (simp add: parse_encode [OF assms(2)])
qed

end

text \<open>A codec that loses nothing: what was parsed, encoded again and followed by what was left
  over, is the input.\<close>

locale exact_wire_codec = wire_codec +
  assumes parse_wf: "parse bs c = Inr (rem, b) \<Longrightarrow> wf b"
    and encode_parse: "parse bs c = Inr (rem, b) \<Longrightarrow> snd (encode_to b c) = Inr () \<and> fst (encode_to b c) @ rem = bs"
begin

lemma parse_length:
  assumes "parse bs c = Inr (rem, b)"
  shows "encoded_len b c + length rem = length bs"
  using encode_length [OF parse_wf [OF assms]] encode_parse [OF assms]
  by (metis length_append)

lemma parse_remainder_suffix: "parse bs c = Inr (rem, b) \<Longrightarrow> \<exists>p. bs = p @ rem"
  using encode_parse by metis

end

end
