(* ===== verification/Dlt645_Body.thy ===== *)
theory Dlt645_Body
  imports Dlt645_Defs Wire
begin

text \<open>
  DL/T 645 frame bodies (\<open>protocol/frame/body.rs\<close>): one record per command structure, its
  \<open>WireEncode\<close> and \<open>WireDecode\<close> implementations, and the dispatching \<open>Dl645Body\<close>.  An
  \<open>encode_to\<close> is modelled by the bytes it appends to the destination together with its result,
  so that what a failing encoder has already written stays visible.  The \<open>parent\<close> argument
  of the Rust parsers only selects the owner of the returned \<open>Bytes\<close> and has no counterpart.

  The lemmas show that the announced \<open>encoded_len\<close> is the number of bytes written, and that
  parsing inverts encoding for every body in the canonical form of its version.
\<close>

section \<open>Context\<close>

record Dl645CodecContext =
  version :: Dl645Version
  function_code :: "Dl645Function option"
  is_exception :: bool

definition ctx_new :: "Dl645Version \<Rightarrow> Dl645CodecContext" where
  "ctx_new v = \<lparr>version = v, function_code = None, is_exception = False\<rparr>"

definition with_function :: "Dl645Function \<Rightarrow> Dl645CodecContext \<Rightarrow> Dl645CodecContext" where
  "with_function f c = c\<lparr>function_code := Some f\<rparr>"

definition with_exception :: "bool \<Rightarrow> Dl645CodecContext \<Rightarrow> Dl645CodecContext" where
  "with_exception e c = c\<lparr>is_exception := e\<rparr>"

lemma ctx_simps [simp]:
  "version (with_function f c) = version c" "version (with_exception e c) = version c"
  "function_code (with_function f c) = Some f" "function_code (with_exception e c) = function_code c"
  "is_exception (with_exception e c) = e" "is_exception (with_function f c) = is_exception c"
  "version (ctx_new v) = v"
  by (simp_all add: with_function_def with_exception_def ctx_new_def)

section \<open>Body structures\<close>

record ReadDataBody =
  rd_di :: u32
  rd_data :: bytes

record WriteDataBody =
  wd_di :: u32
  wd_value :: bytes
  wd_password :: u32
  wd_operator_code :: u32

record WriteAddressBody =
  wa_new_address :: Dl645Address

record BroadcastTimeSyncBody =
  ts_timestamp :: bytes

record FreezeBody =
  fz_pattern :: bytes

record UpdateBaudRateBody =
  br_code :: u8

record ModifyPasswordBody =
  mp_di :: "u32 option"
  mp_old_password :: u32
  mp_new_password :: u32

record ClearMaxDemandBody =
  cd_password :: u32
  cd_operator_code :: u32

record ClearMeterBody =
  cm_password :: u32
  cm_operator_code :: u32

record ClearEventsBody =
  ce_di :: u32
  ce_password :: u32
  ce_operator_code :: u32

datatype Dl645Body =
    ReadData ReadDataBody
  | WriteData WriteDataBody
  | WriteAddress WriteAddressBody
  | BroadcastTimeSync BroadcastTimeSyncBody
  | Freeze FreezeBody
  | UpdateBaudRate UpdateBaudRateBody
  | ModifyPassword ModifyPasswordBody
  | ClearMaxDemand ClearMaxDemandBody
  | ClearMeter ClearMeterBody
  | ClearEvents ClearEventsBody
  | Raw bytes

fun body_function_code :: "Dl645Body \<Rightarrow> Dl645Function" where
  "body_function_code (ReadData _) = Dl645Function.ReadData"
| "body_function_code (WriteData _) = Dl645Function.WriteData"
| "body_function_code (WriteAddress _) = Dl645Function.WriteAddress"
| "body_function_code (BroadcastTimeSync _) = Dl645Function.BroadcastTimeSync"
| "body_function_code (Freeze _) = Dl645Function.Freeze"
| "body_function_code (UpdateBaudRate _) = Dl645Function.UpdateBaudRate"
| "body_function_code (ModifyPassword _) = Dl645Function.ModifyPassword"
| "body_function_code (ClearMaxDemand _) = Dl645Function.ClearMaxDemand"
| "body_function_code (ClearMeter _) = Dl645Function.ClearMeter"
| "body_function_code (ClearEvents _) = Dl645Function.ClearEvents"
| "body_function_code (Raw _) = Dl645Function.Reserved"

fun data_payload :: "Dl645Body \<Rightarrow> bytes option" where
  "data_payload (ReadData b) = Some (rd_data b)"
| "data_payload (Raw b) = Some b"
| "data_payload _ = None"

section \<open>Data identifiers on the wire\<close>

definition di_len :: "Dl645Version \<Rightarrow> nat" where
  "di_len v = (case v of V1997 \<Rightarrow> 2 | _ \<Rightarrow> 4)"

definition di_bytes_full :: "u32 \<Rightarrow> bytes" where
  "di_bytes_full di =
     [ucast (di AND 0xFF), ucast (drop_bit 8 di AND 0xFF),
      ucast (drop_bit 16 di AND 0xFF), ucast (drop_bit 24 di AND 0xFF)]"

definition get_di_bytes :: "u32 \<Rightarrow> Dl645Version \<Rightarrow> bytes \<times> nat" where
  "get_di_bytes di v = (take (di_len v) (di_bytes_full di), di_len v)"

definition parse_di :: "bytes \<Rightarrow> Dl645Version \<Rightarrow> ProtocolError + bytes \<times> u32" where
  "parse_di input v =
     (if length input < di_len v then Inl (InvalidFrame ''Insufficient bytes for DI'')
      else let bs = take (di_len v) input; rem = drop (di_len v) input;
               di = fold (\<lambda>(i, b) di. di OR push_bit (8 * i) (ucast b)) (enumerate 0 bs) 0
           in Inr (rem, di))"

lemma ucast_and_ff: "(ucast (w AND 0xFF :: u32) :: u8) = ucast w"
proof -
  have m: "(0xFF :: u32) = mask 8" by (simp add: mask_eq_exp_minus_1)
  show ?thesis unfolding m by (auto intro!: bit_word_eqI simp: bit_simps)
qed

lemma di_bytes_full_eq: "di_bytes_full di = u32_to_le di"
  by (simp add: di_bytes_full_def u32_to_le_def ucast_and_ff)

lemma fold_di_bytes:
  "fold (\<lambda>(i, b) di. di OR push_bit (8 * i) (ucast b)) (enumerate n bs) (acc :: u32)
     = acc OR push_bit (8 * n) (u32_of_le bs)"
proof (induction bs arbitrary: n acc)
  case Nil
  then show ?case by simp
next
  case (Cons b bs)
  have "push_bit (8 * n) (ucast b OR push_bit 8 (u32_of_le bs))
          = push_bit (8 * n) (ucast b :: u32) OR push_bit (8 + 8 * n) (u32_of_le bs)"
    by (simp add: push_bit_or ac_simps)
  then show ?case
    using Cons.IH [of "Suc n" "acc OR push_bit (8 * n) (ucast b)"] by (simp add: or.assoc)
qed

lemma parse_di_eq:
  "parse_di input v =
     (if length input < di_len v then Inl (InvalidFrame ''Insufficient bytes for DI'')
      else Inr (drop (di_len v) input, u32_of_le (take (di_len v) input)))"
  using fold_di_bytes [of 0 _ 0] by (simp add: parse_di_def Let_def)

text \<open>Under DL/T 645-1997 an identifier has two bytes: only sixteen bits survive.\<close>

definition canonical_di :: "Dl645Version \<Rightarrow> u32 \<Rightarrow> bool" where
  "canonical_di v di \<longleftrightarrow> (v = V1997 \<longrightarrow> di AND 0xFFFF = di)"

lemma length_get_di_bytes [simp]: "length (fst (get_di_bytes di v)) = di_len v"
  by (cases v) (simp_all add: get_di_bytes_def di_len_def di_bytes_full_def)

lemma di_bytes_nonempty [simp]: "fst (get_di_bytes di v) \<noteq> []" "u32_to_le w \<noteq> []"
  by (cases v) (simp_all add: get_di_bytes_def di_len_def di_bytes_full_def u32_to_le_def)

lemma u32_of_le_two: "u32_of_le [ucast w, ucast (drop_bit 8 w)] = w AND 0xFFFF"
proof -
  have m: "(0xFFFF :: u32) = mask 16" by (simp add: mask_eq_exp_minus_1)
  show ?thesis unfolding m by (auto intro!: bit_word_eqI simp: bit_simps)
qed

lemma parse_get_di:
  assumes "canonical_di v di"
  shows "parse_di (fst (get_di_bytes di v) @ rest) v = Inr (rest, di)"
proof (cases v)
  case V1997
  have "take 2 (u32_to_le di) = [ucast di, ucast (drop_bit 8 di)]"
    by (simp add: u32_to_le_def)
  with V1997 assms show ?thesis
    using u32_of_le_two [of di]
    by (simp add: parse_di_eq get_di_bytes_def di_len_def di_bytes_full_eq canonical_di_def
        del: u32_of_le.simps)
qed (simp_all add: parse_di_eq get_di_bytes_def di_len_def di_bytes_full_eq)

section \<open>Encoding\<close>

definition read_data_encoded_len :: "ReadDataBody \<Rightarrow> Dl645CodecContext \<Rightarrow> nat" where
  "read_data_encoded_len b ctx = (case version ctx of V1997 \<Rightarrow> 2 | _ \<Rightarrow> 4) + length (rd_data b)"

definition read_data_encode_to :: "ReadDataBody \<Rightarrow> Dl645CodecContext \<Rightarrow> ProtocolError wrote" where
  "read_data_encode_to b ctx = (fst (get_di_bytes (rd_di b) (version ctx)) @ rd_data b, Inr ())"

definition write_data_encoded_len :: "WriteDataBody \<Rightarrow> Dl645CodecContext \<Rightarrow> nat" where
  "write_data_encoded_len b ctx =
     (case version ctx of V1997 \<Rightarrow> 2 + length (wd_value b) | _ \<Rightarrow> 4 + 4 + 4 + length (wd_value b))"

definition write_data_encode_to :: "WriteDataBody \<Rightarrow> Dl645CodecContext \<Rightarrow> ProtocolError wrote" where
  "write_data_encode_to b ctx =
     (let di_bytes = fst (get_di_bytes (wd_di b) (version ctx)) in
      case version ctx of
        V1997 \<Rightarrow> (di_bytes @ wd_value b, Inr ())
      | _ \<Rightarrow> (di_bytes @ u32_to_le (wd_password b) @ u32_to_le (wd_operator_code b) @ wd_value b, Inr ()))"

definition write_address_encode_to :: "WriteAddressBody \<Rightarrow> Dl645CodecContext \<Rightarrow> ProtocolError wrote" where
  "write_address_encode_to b ctx = (wa_new_address b, Inr ())"

definition time_sync_encode_to :: "BroadcastTimeSyncBody \<Rightarrow> Dl645CodecContext \<Rightarrow> ProtocolError wrote" where
  "time_sync_encode_to b ctx = (ts_timestamp b, Inr ())"

definition freeze_encode_to :: "FreezeBody \<Rightarrow> Dl645CodecContext \<Rightarrow> ProtocolError wrote" where
  "freeze_encode_to b ctx = (fz_pattern b, Inr ())"

definition update_baud_rate_encode_to :: "UpdateBaudRateBody \<Rightarrow> Dl645CodecContext \<Rightarrow> ProtocolError wrote" where
  "update_baud_rate_encode_to b ctx = ([br_code b], Inr ())"

definition modify_password_encoded_len :: "ModifyPasswordBody \<Rightarrow> Dl645CodecContext \<Rightarrow> nat" where
  "modify_password_encoded_len b ctx = (case version ctx of V1997 \<Rightarrow> 8 | _ \<Rightarrow> 12)"

definition modify_password_encode_to :: "ModifyPasswordBody \<Rightarrow> Dl645CodecContext \<Rightarrow> ProtocolError wrote" where
  "modify_password_encode_to b ctx =
     (case version ctx of
        V1997 \<Rightarrow> (u32_to_le (mp_old_password b) @ u32_to_le (mp_new_password b), Inr ())
      | v \<Rightarrow>
          (case mp_di b of
             None \<Rightarrow> ([], Inl (InvalidFrame ''DI is required for ModifyPassword V2007''))
           | Some di \<Rightarrow>
               (fst (get_di_bytes di v) @ u32_to_le (mp_old_password b) @ u32_to_le (mp_new_password b), Inr ())))"

definition clear_max_demand_encoded_len :: "ClearMaxDemandBody \<Rightarrow> Dl645CodecContext \<Rightarrow> nat" where
  "clear_max_demand_encoded_len b ctx = (case version ctx of V1997 \<Rightarrow> 0 | _ \<Rightarrow> 8)"

definition clear_max_demand_encode_to :: "ClearMaxDemandBody \<Rightarrow> Dl645CodecContext \<Rightarrow> ProtocolError wrote" where
  "clear_max_demand_encode_to b ctx =
     (if version ctx \<noteq> V1997
      then (u32_to_le (cd_password b) @ u32_to_le (cd_operator_code b), Inr ())
      else ([], Inr ()))"

definition clear_meter_encoded_len :: "ClearMeterBody \<Rightarrow> Dl645CodecContext \<Rightarrow> nat" where
  "clear_meter_encoded_len b ctx = (case version ctx of V1997 \<Rightarrow> 0 | _ \<Rightarrow> 8)"

definition clear_meter_encode_to :: "ClearMeterBody \<Rightarrow> Dl645CodecContext \<Rightarrow> ProtocolError wrote" where
  "clear_meter_encode_to b ctx =
     (if version ctx \<noteq> V1997
      then (u32_to_le (cm_password b) @ u32_to_le (cm_operator_code b), Inr ())
      else ([], Inr ()))"

definition clear_events_encoded_len :: "ClearEventsBody \<Rightarrow> Dl645CodecContext \<Rightarrow> nat" where
  "clear_events_encoded_len b ctx = (case version ctx of V1997 \<Rightarrow> 4 | _ \<Rightarrow> 12)"

definition clear_events_encode_to :: "ClearEventsBody \<Rightarrow> Dl645CodecContext \<Rightarrow> ProtocolError wrote" where
  "clear_events_encode_to b ctx =
     (case version ctx of
        V1997 \<Rightarrow> (di_bytes_full (ce_di b), Inr ())
      | _ \<Rightarrow> (u32_to_le (ce_password b) @ u32_to_le (ce_operator_code b) @ di_bytes_full (ce_di b), Inr ()))"

definition body_encoded_len :: "Dl645Body \<Rightarrow> Dl645CodecContext \<Rightarrow> nat" where
  "body_encoded_len body ctx =
     (case body of
        ReadData b \<Rightarrow> read_data_encoded_len b ctx
      | WriteData b \<Rightarrow> write_data_encoded_len b ctx
      | WriteAddress b \<Rightarrow> 6
      | BroadcastTimeSync b \<Rightarrow> length (ts_timestamp b)
      | Freeze b \<Rightarrow> length (fz_pattern b)
      | UpdateBaudRate b \<Rightarrow> 1
      | ModifyPassword b \<Rightarrow> modify_password_encoded_len b ctx
      | ClearMaxDemand b \<Rightarrow> clear_max_demand_encoded_len b ctx
      | ClearMeter b \<Rightarrow> clear_meter_encoded_len b ctx
      | ClearEvents b \<Rightarrow> clear_events_encoded_len b ctx
      | Raw b \<Rightarrow> length b)"

definition body_encode_to :: "Dl645Body \<Rightarrow> Dl645CodecContext \<Rightarrow> ProtocolError wrote" where
  "body_encode_to body ctx =
     (case body of
        ReadData b \<Rightarrow> read_data_encode_to b ctx
      | WriteData b \<Rightarrow> write_data_encode_to b ctx
      | WriteAddress b \<Rightarrow> write_address_encode_to b ctx
      | BroadcastTimeSync b \<Rightarrow> time_sync_encode_to b ctx
      | Freeze b \<Rightarrow> freeze_encode_to b ctx
      | UpdateBaudRate b \<Rightarrow> update_baud_rate_encode_to b ctx
      | ModifyPassword b \<Rightarrow> modify_password_encode_to b ctx
      | ClearMaxDemand b \<Rightarrow> clear_max_demand_encode_to b ctx
      | ClearMeter b \<Rightarrow> clear_meter_encode_to b ctx
      | ClearEvents b \<Rightarrow> clear_events_encode_to b ctx
      | Raw b \<Rightarrow> (b, Inr ()))"

lemmas body_encode_defs [wire_simps] =
  read_data_encode_to_def write_data_encode_to_def write_address_encode_to_def
  time_sync_encode_to_def freeze_encode_to_def update_baud_rate_encode_to_def
  modify_password_encode_to_def clear_max_demand_encode_to_def clear_meter_encode_to_def
  clear_events_encode_to_def

lemmas body_len_defs [wire_simps] =
  read_data_encoded_len_def write_data_encoded_len_def modify_password_encoded_len_def
  clear_max_demand_encoded_len_def clear_meter_encoded_len_def clear_events_encoded_len_def

section \<open>Parsing\<close>

definition read_data_parse :: "bytes \<Rightarrow> Dl645CodecContext \<Rightarrow> ProtocolError + bytes \<times> ReadDataBody" where
  "read_data_parse input ctx =
     res_bind (parse_di input (version ctx))
       (\<lambda>(rem, di). Inr ([], \<lparr>rd_di = di, rd_data = rem\<rparr>))"

definition write_data_parse :: "bytes \<Rightarrow> Dl645CodecContext \<Rightarrow> ProtocolError + bytes \<times> WriteDataBody" where
  "write_data_parse input ctx =
     res_bind (parse_di input (version ctx))
       (\<lambda>(rem, di).
          case version ctx of
            V1997 \<Rightarrow> Inr ([], \<lparr>wd_di = di, wd_value = rem, wd_password = 0, wd_operator_code = 0\<rparr>)
          | _ \<Rightarrow>
              if length rem < 8 then Inl (InvalidFrame ''Insufficient bytes for WriteData header'')
              else Inr ([], \<lparr>wd_di = di, wd_value = drop 4 (drop 4 rem),
                             wd_password = u32_of_le (take 4 rem),
                             wd_operator_code = u32_of_le (take 4 (drop 4 rem))\<rparr>))"

definition write_address_parse :: "bytes \<Rightarrow> Dl645CodecContext \<Rightarrow> ProtocolError + bytes \<times> WriteAddressBody" where
  "write_address_parse input ctx =
     (if length input < 6 then Inl (InvalidFrame ''Insufficient bytes for WriteAddress'')
      else Inr (drop 6 input, \<lparr>wa_new_address = take 6 input\<rparr>))"

definition time_sync_parse :: "bytes \<Rightarrow> Dl645CodecContext \<Rightarrow> ProtocolError + bytes \<times> BroadcastTimeSyncBody" where
  "time_sync_parse input ctx =
     (if length input < 6 then Inl (InvalidFrame ''Insufficient bytes for TimeSync'')
      else Inr (drop 6 input, \<lparr>ts_timestamp = take 6 input\<rparr>))"

definition freeze_parse :: "bytes \<Rightarrow> Dl645CodecContext \<Rightarrow> ProtocolError + bytes \<times> FreezeBody" where
  "freeze_parse input ctx =
     (if length input < 4 then Inl (InvalidFrame ''Insufficient bytes for Freeze'')
      else Inr (drop 4 input, \<lparr>fz_pattern = take 4 input\<rparr>))"

definition update_baud_rate_parse :: "bytes \<Rightarrow> Dl645CodecContext \<Rightarrow> ProtocolError + bytes \<times> UpdateBaudRateBody" where
  "update_baud_rate_parse input ctx =
     (case input of
        [] \<Rightarrow> Inl (InvalidFrame ''Insufficient bytes for UpdateBaudRate'')
      | code # rem \<Rightarrow> Inr (rem, \<lparr>br_code = code\<rparr>))"

definition modify_password_parse :: "bytes \<Rightarrow> Dl645CodecContext \<Rightarrow> ProtocolError + bytes \<times> ModifyPasswordBody" where
  "modify_password_parse input ctx =
     (case version ctx of
        V1997 \<Rightarrow>
          if length input < 8 then Inl (InvalidFrame ''Insufficient bytes for ModifyPassword V1997'')
          else Inr (drop 4 (drop 4 input),
                    \<lparr>mp_di = None, mp_old_password = u32_of_le (take 4 input),
                     mp_new_password = u32_of_le (take 4 (drop 4 input))\<rparr>)
      | _ \<Rightarrow>
          if length input < 12 then Inl (InvalidFrame ''Insufficient bytes for ModifyPassword'')
          else Inr (drop 4 (drop 4 (drop 4 input)),
                    \<lparr>mp_di = Some (u32_of_le (take 4 input)),
                     mp_old_password = u32_of_le (take 4 (drop 4 input)),
                     mp_new_password = u32_of_le (take 4 (drop 4 (drop 4 input)))\<rparr>))"

definition clear_max_demand_parse :: "bytes \<Rightarrow> Dl645CodecContext \<Rightarrow> ProtocolError + bytes \<times> ClearMaxDemandBody" where
  "clear_max_demand_parse input ctx =
     (if version ctx = V1997 then Inr (input, \<lparr>cd_password = 0, cd_operator_code = 0\<rparr>)
      else if length input < 8 then Inl (InvalidFrame ''Insufficient bytes for ClearMaxDemand'')
      else Inr (drop 4 (drop 4 input),
                \<lparr>cd_password = u32_of_le (take 4 input), cd_operator_code = u32_of_le (take 4 (drop 4 input))\<rparr>))"

definition clear_meter_parse :: "bytes \<Rightarrow> Dl645CodecContext \<Rightarrow> ProtocolError + bytes \<times> ClearMeterBody" where
  "clear_meter_parse input ctx =
     (if version ctx = V1997 then Inr (input, \<lparr>cm_password = 0, cm_operator_code = 0\<rparr>)
      else if length input < 8 then Inl (InvalidFrame ''Insufficient bytes for ClearMeter'')
      else Inr (drop 4 (drop 4 input),
                \<lparr>cm_password = u32_of_le (take 4 input), cm_operator_code = u32_of_le (take 4 (drop 4 input))\<rparr>))"

definition clear_events_parse :: "bytes \<Rightarrow> Dl645CodecContext \<Rightarrow> ProtocolError + bytes \<times> ClearEventsBody" where
  "clear_events_parse input ctx =
     (case version ctx of
        V1997 \<Rightarrow>
          if length input < 4 then Inl (InvalidFrame ''Insufficient bytes for ClearEvents DI'')
          else Inr (drop 4 input,
                    \<lparr>ce_di = u32_of_le (take 4 input), ce_password = 0, ce_operator_code = 0\<rparr>)
      | _ \<Rightarrow>
          if length input < 12 then Inl (InvalidFrame ''Insufficient bytes for ClearEvents PW/OP/DI'')
          else Inr (drop 4 (drop 4 (drop 4 input)),
                    \<lparr>ce_di = u32_of_le (take 4 (drop 4 (drop 4 input))),
                     ce_password = u32_of_le (take 4 input),
                     ce_operator_code = u32_of_le (take 4 (drop 4 input))\<rparr>))"

text \<open>\<open>Dl645Body::parse\<close>: the function code of the context selects the structure; an empty
  data field of a command is an acknowledgement and stays raw.\<close>

definition parse_as :: "('b \<Rightarrow> Dl645Body) \<Rightarrow> ProtocolError + bytes \<times> 'b \<Rightarrow> ProtocolError + bytes \<times> Dl645Body" where
  "parse_as mk r = res_bind r (\<lambda>(rem, b). Inr (rem, mk b))"

definition body_parse :: "bytes \<Rightarrow> Dl645CodecContext \<Rightarrow> ProtocolError + bytes \<times> Dl645Body" where
  "body_parse input ctx =
     (if is_exception ctx then Inr ([], Raw input)
      else case function_code ctx of
        None \<Rightarrow> Inl (InvalidFrame ''Function code missing in context for body decode'')
      | Some f \<Rightarrow>
         (case f of
            Dl645Function.ReadData \<Rightarrow> parse_as ReadData (read_data_parse input ctx)
          | Dl645Function.WriteData \<Rightarrow>
              if input = [] then Inr (input, Raw []) else parse_as WriteData (write_data_parse input ctx)
          | Dl645Function.WriteAddress \<Rightarrow>
              if input = [] then Inr (input, Raw []) else parse_as WriteAddress (write_address_parse input ctx)
          | Dl645Function.BroadcastTimeSync \<Rightarrow>
              if input = [] then Inr (input, Raw []) else parse_as BroadcastTimeSync (time_sync_parse input ctx)
          | Dl645Function.Freeze \<Rightarrow>
              if input = [] then Inr (input, Raw []) else parse_as Freeze (freeze_parse input ctx)
          | Dl645Function.UpdateBaudRate \<Rightarrow>
              if input = [] then Inr (input, Raw []) else parse_as UpdateBaudRate (update_baud_rate_parse input ctx)
          | Dl645Function.ModifyPassword \<Rightarrow> Inr ([], Raw input)
          | Dl645Function.ClearMaxDemand \<Rightarrow>
              if input = [] then Inr (input, Raw []) else parse_as ClearMaxDemand (clear_max_demand_parse input ctx)
          | Dl645Function.ClearMeter \<Rightarrow>
              if input = [] then Inr (input, Raw []) else parse_as ClearMeter (clear_meter_parse input ctx)
          | Dl645Function.ClearEvents \<Rightarrow>
              if input = [] then Inr (input, Raw []) else parse_as ClearEvents (clear_events_parse input ctx)
          | _ \<Rightarrow> Inr ([], Raw input)))"

lemmas body_parse_defs [wire_simps] =
  read_data_parse_def write_data_parse_def write_address_parse_def time_sync_parse_def
  freeze_parse_def update_baud_rate_parse_def clear_max_demand_parse_def
  clear_meter_parse_def clear_events_parse_def parse_as_def

section \<open>The body codec keeps the wire contract\<close>

definition wf_body :: "Dl645Body \<Rightarrow> bool" where
  "wf_body body = (case body of WriteAddress b \<Rightarrow> wf_address (wa_new_address b) | _ \<Rightarrow> True)"

text \<open>The bodies that the parser returns for a given context.  A password change is never
  parsed into its structure, an empty clear command of the 1997 dialect is read back as an
  acknowledgement, and its short forms carry no password.\<close>

definition raw_function :: "Dl645Function \<Rightarrow> bool" where
  "raw_function f \<longleftrightarrow>
     f \<notin> {Dl645Function.ReadData, Dl645Function.WriteData, Dl645Function.WriteAddress,
          Dl645Function.BroadcastTimeSync, Dl645Function.Freeze, Dl645Function.UpdateBaudRate,
          Dl645Function.ClearMaxDemand, Dl645Function.ClearMeter, Dl645Function.ClearEvents}"

definition canonical_fields :: "Dl645Version \<Rightarrow> Dl645Body \<Rightarrow> bool" where
  "canonical_fields v body =
     (case body of
        ReadData b \<Rightarrow> canonical_di v (rd_di b)
      | WriteData b \<Rightarrow> canonical_di v (wd_di b) \<and> (v = V1997 \<longrightarrow> wd_password b = 0 \<and> wd_operator_code b = 0)
      | WriteAddress b \<Rightarrow> wf_address (wa_new_address b)
      | BroadcastTimeSync b \<Rightarrow> length (ts_timestamp b) = 6
      | Freeze b \<Rightarrow> length (fz_pattern b) = 4
      | UpdateBaudRate b \<Rightarrow> True
      | ModifyPassword b \<Rightarrow> False
      | ClearMaxDemand b \<Rightarrow> v \<noteq> V1997
      | ClearMeter b \<Rightarrow> v \<noteq> V1997
      | ClearEvents b \<Rightarrow> v = V1997 \<longrightarrow> ce_password b = 0 \<and> ce_operator_code b = 0
      | Raw b \<Rightarrow> True)"

definition canonical_body :: "Dl645CodecContext \<Rightarrow> Dl645Body \<Rightarrow> bool" where
  "canonical_body ctx body =
     (case body of
        Raw b \<Rightarrow> is_exception ctx
          \<or> (\<exists>f. function_code ctx = Some f \<and> f \<noteq> Dl645Function.ReadData \<and> (raw_function f \<or> b = []))
      | _ \<Rightarrow> \<not> is_exception ctx \<and> function_code ctx = Some (body_function_code body)
            \<and> canonical_fields (version ctx) body)"

lemma body_encode_ok:
  "snd (body_encode_to b ctx) = Inr () \<longleftrightarrow>
     (\<forall>m. b = ModifyPassword m \<longrightarrow> version ctx = V1997 \<or> mp_di m \<noteq> None)"
  by (auto simp: body_encode_to_def wire_simps Let_def split: Dl645Body.splits Dl645Version.splits option.splits)

lemma body_encode_length:
  assumes "wf_body b" "snd (body_encode_to b ctx) = Inr ()"
  shows "length (fst (body_encode_to b ctx)) = body_encoded_len b ctx"
  using assms
  by (auto simp: body_encode_to_def body_encoded_len_def wire_simps Let_def wf_body_def wf_address_def
      di_len_def di_bytes_full_eq split: Dl645Body.splits Dl645Version.splits option.splits)

lemma body_parse_encode_raw:
  "canonical_body ctx (Raw bs) \<Longrightarrow> body_parse bs ctx = Inr ([], Raw bs)"
  by (auto simp: body_parse_def canonical_body_def raw_function_def split: Dl645Function.splits)

lemma body_parse_encode:
  assumes "canonical_body ctx b"
  shows "body_parse (fst (body_encode_to b ctx)) ctx = Inr ([], b)"
proof (cases "\<exists>bs. b = Raw bs")
  case True
  with assms show ?thesis by (auto simp: body_encode_to_def body_parse_encode_raw)
next
  case False
  with assms show ?thesis
    by (cases "version ctx"; cases b)
      (auto simp: body_parse_def body_encode_to_def canonical_body_def canonical_fields_def
        wire_simps parse_get_di wf_address_def di_bytes_full_eq)
qed

text \<open>Parsing loses nothing: the body, encoded again in the same version and followed by the
  unread remainder, is the data field.\<close>

lemma get_parse_di:
  assumes "parse_di input v = Inr (rem, di)"
  shows "fst (get_di_bytes di v) @ rem = input"
proof -
  have len: "di_len v \<le> length input" and rem: "rem = drop (di_len v) input"
    and di: "di = u32_of_le (take (di_len v) input)"
    using assms by (auto simp: parse_di_eq split: if_splits)
  have "fst (get_di_bytes di v) = take (di_len v) input"
  proof (cases v)
    case V1997
    with len obtain a b rest where "input = a # b # rest"
      by (metis Dl645Version.simps(7) di_len_def Suc_le_length_iff numeral_2_eq_2)
    then show ?thesis
      using u32_to_le_of_le [of a b 0 0]
      by (simp add: V1997 di get_di_bytes_def di_len_def di_bytes_full_eq numeral_2_eq_2)
  qed (use len in \<open>simp_all add: di get_di_bytes_def di_len_def di_bytes_full_eq u32_to_le_of_le_length\<close>)
  then show ?thesis by (simp add: rem)
qed

lemma u32_split:
  assumes "4 \<le> length bs"
  shows "u32_to_le (u32_of_le (take 4 bs)) @ drop 4 bs = bs"
  using assms by (simp add: u32_to_le_of_le_length)

lemma u32_split2:
  assumes "8 \<le> length bs"
  shows "u32_to_le (u32_of_le (take 4 bs)) @ u32_to_le (u32_of_le (take 4 (drop 4 bs))) @ drop 8 bs = bs"
  using assms u32_split [of bs] u32_split [of "drop 4 bs"] by simp

lemma u32_split3:
  assumes "12 \<le> length bs"
  shows "u32_to_le (u32_of_le (take 4 bs)) @ u32_to_le (u32_of_le (take 4 (drop 4 bs)))
           @ u32_to_le (u32_of_le (take 4 (drop 8 bs))) @ drop 12 bs = bs"
  using assms u32_split2 [of bs] u32_split [of "drop 8 bs"] by simp

lemma body_parse_exact:
  assumes "body_parse input ctx = Inr (rem, b)"
  shows "snd (body_encode_to b ctx) = Inr () \<and> fst (body_encode_to b ctx) @ rem = input"
proof (cases "is_exception ctx")
  case True
  with assms show ?thesis by (auto simp: body_parse_def body_encode_to_def)
next
  case False
  with assms obtain f where f: "function_code ctx = Some f"
    by (auto simp: body_parse_def split: option.splits)
  show ?thesis
    using assms False f
    by (cases "version ctx"; cases f)
      (auto simp: body_parse_def body_encode_to_def wire_simps res_bind_eq_Inr di_bytes_full_eq
          u32_split u32_split2 u32_split3 dest!: get_parse_di split: if_splits list.splits)
qed

lemma body_parse_wf: "body_parse input ctx = Inr (rem, b) \<Longrightarrow> wf_body b"
  by (auto simp: body_parse_def wf_body_def wf_address_def wire_simps res_bind_eq_Inr
      split: if_splits option.splits Dl645Function.splits)

text \<open>What the parser returns is canonical, with one exception: a non-empty data field behind a 1997
  clear command is not read at all.  Bytes are left unread only behind the commands of a fixed size.\<close>

definition bare_clear :: "Dl645CodecContext \<Rightarrow> Dl645Body \<Rightarrow> bool" where
  "bare_clear ctx b \<longleftrightarrow>
     version ctx = V1997 \<and> \<not> is_exception ctx \<and> function_code ctx = Some (body_function_code b)
     \<and> (b = ClearMaxDemand \<lparr>cd_password = 0, cd_operator_code = 0\<rparr> \<or> b = ClearMeter \<lparr>cm_password = 0, cm_operator_code = 0\<rparr>)"

fun fixed_size :: "Dl645Body \<Rightarrow> bool" where
  "fixed_size (WriteAddress _) = True"
| "fixed_size (BroadcastTimeSync _) = True"
| "fixed_size (Freeze _) = True"
| "fixed_size (UpdateBaudRate _) = True"
| "fixed_size (ClearMaxDemand _) = True"
| "fixed_size (ClearMeter _) = True"
| "fixed_size (ClearEvents _) = True"
| "fixed_size _ = False"

lemma parse_di_canonical:
  assumes "parse_di input v = Inr (rem, di)"
  shows "canonical_di v di"
proof (cases v)
  case V1997
  then have "2 \<le> length input" and di: "di = u32_of_le (take 2 input)"
    using assms by (auto simp: parse_di_eq di_len_def split: if_splits)
  then obtain a b rest where "input = a # b # rest" by (metis Suc_le_length_iff numeral_2_eq_2)
  then have "di = ucast a OR push_bit 8 (ucast b)" by (simp add: di)
  moreover have "(0xFFFF :: u32) = mask 16" by (simp add: mask_eq_exp_minus_1)
  moreover have "(ucast a OR push_bit 8 (ucast b)) AND mask 16 = (ucast a OR push_bit 8 (ucast b) :: u32)"
    by (rule bit_word_eqI) (auto simp: bit_simps dest: bit_imp_le_length)
  ultimately show ?thesis by (simp add: canonical_di_def)
qed (simp_all add: canonical_di_def)

lemma body_parse_canonical:
  assumes "body_parse input ctx = Inr (rem, b)"
  shows "canonical_body ctx b \<or> bare_clear ctx b \<and> input \<noteq> []"
proof (cases "is_exception ctx")
  case True
  with assms show ?thesis by (auto simp: body_parse_def canonical_body_def)
next
  case False
  with assms obtain f where f: "function_code ctx = Some f"
    by (auto simp: body_parse_def split: option.splits)
  show ?thesis
    using assms False f
    by (cases f)
      (auto simp: body_parse_def canonical_body_def canonical_fields_def bare_clear_def raw_function_def wire_simps
          res_bind_eq_Inr wf_address_def dest!: parse_di_canonical split: if_splits list.splits Dl645Version.splits)
qed

lemma body_parse_rem:
  assumes "body_parse input ctx = Inr (rem, b)" "rem \<noteq> []"
  shows "fixed_size b"
  using assms
  by (auto simp: body_parse_def wire_simps res_bind_eq_Inr
      split: if_splits option.splits Dl645Function.splits Dl645Version.splits list.splits)

lemma canonical_body_wf: "canonical_body ctx b \<Longrightarrow> wf_body b"
  by (auto simp: canonical_body_def canonical_fields_def wf_body_def split: Dl645Body.splits)

lemma canonical_body_encodes: "canonical_body ctx b \<Longrightarrow> snd (body_encode_to b ctx) = Inr ()"
  by (auto simp: canonical_body_def canonical_fields_def body_encode_ok)

text \<open>The contract the generic frame relies on: an exact wire codec whose encoder looks at
  nothing but the version in the context.\<close>

locale dl645_body_codec =
  exact_wire_codec encoded_len encode_to parse wf canonical
  for encoded_len :: "'b \<Rightarrow> Dl645CodecContext \<Rightarrow> nat"
    and encode_to :: "'b \<Rightarrow> Dl645CodecContext \<Rightarrow> ProtocolError wrote"
    and parse :: "bytes \<Rightarrow> Dl645CodecContext \<Rightarrow> ProtocolError + bytes \<times> 'b"
    and wf :: "'b \<Rightarrow> bool"
    and canonical :: "Dl645CodecContext \<Rightarrow> 'b \<Rightarrow> bool" +
  assumes encode_version: "version c = version c' \<Longrightarrow> encode_to b c = encode_to b c'"
    and encoded_len_version: "version c = version c' \<Longrightarrow> encoded_len b c = encoded_len b c'"

lemma body_encode_version: "version c = version c' \<Longrightarrow> body_encode_to b c = body_encode_to b c'"
  by (cases b) (simp_all add: body_encode_to_def wire_simps)

lemma body_encoded_len_version: "version c = version c' \<Longrightarrow> body_encoded_len b c = body_encoded_len b c'"
  by (cases b) (simp_all add: body_encoded_len_def wire_simps)

interpretation dl645_body: dl645_body_codec body_encoded_len body_encode_to body_parse wf_body canonical_body
  by unfold_locales
    (auto intro: canonical_body_wf canonical_body_encodes body_encode_length body_parse_encode
      body_parse_wf body_encode_version body_encoded_len_version dest: body_parse_exact)

end
