(* ===== verification/Dlt645_Frame.thy ===== *)
theory Dlt645_Frame
  imports Dlt645_Body
begin

text \<open>
  The DL/T 645 frame (\<open>protocol/frame/mod.rs\<close>) over any body with the wire contract, the
  borrowed frame view, the response view and the request builders
  (\<open>protocol/frame/builder.rs\<close>).

  The lemmas show that the parser inverts the encoder and stops exactly at the end of the
  frame, that everything it accepts carries the announced length, checksum and delimiters,
  that any single corrupted byte outside the length field is detected, and what a failing
  encoder leaves in the destination buffer.
\<close>

section \<open>The generic frame\<close>

record 'b Dl645Frame =
  address :: Dl645Address
  control :: Dl645ControlWord
  body :: 'b

type_synonym Dl645TypedFrame = "Dl645Body Dl645Frame"

definition frame_new :: "Dl645Address \<Rightarrow> Dl645ControlWord \<Rightarrow> 'b \<Rightarrow> 'b Dl645Frame" where
  "frame_new a c b = \<lparr>address = a, control = c, body = b\<rparr>"

definition new_request :: "Dl645Address \<Rightarrow> Dl645Body \<Rightarrow> Dl645Version \<Rightarrow> Dl645TypedFrame" where
  "new_request a b v = frame_new a (for_request v (body_function_code b)) b"

definition frame_encoded_len ::
    "('b \<Rightarrow> Dl645CodecContext \<Rightarrow> nat) \<Rightarrow> 'b Dl645Frame \<Rightarrow> Dl645CodecContext \<Rightarrow> nat" where
  "frame_encoded_len encoded_len f ctx = 12 + encoded_len (body f) ctx"

definition frame_header :: "Dl645Address \<Rightarrow> Dl645ControlWord \<Rightarrow> bytes" where
  "frame_header a c = [0x68] @ a @ [0x68] @ [raw c]"

definition frame_checksum :: "Dl645Address \<Rightarrow> Dl645ControlWord \<Rightarrow> nat \<Rightarrow> bytes \<Rightarrow> u32" where
  "frame_checksum a c body_len data =
     (let sum = fold (\<lambda>b sum. sum + ucast b) a 0x68;
          sum = sum + 0x68;
          sum = sum + ucast (raw c);
          sum = sum + of_nat body_len
      in fold (\<lambda>b sum. sum + ucast b) data sum)"

definition frame_encode_to ::
    "('b \<Rightarrow> Dl645CodecContext \<Rightarrow> nat) \<Rightarrow> ('b \<Rightarrow> Dl645CodecContext \<Rightarrow> ProtocolError wrote)
      \<Rightarrow> 'b Dl645Frame \<Rightarrow> Dl645CodecContext \<Rightarrow> ProtocolError wrote" where
  "frame_encode_to encoded_len encode_to f ctx =
     (let header = frame_header (address f) (control f);
          body_len = encoded_len (body f) ctx
      in if body_len > 255 then (header, Inl (FrameTooLarge body_len))
         else
           (case encode_to (body f) ctx of
              (_, Inl e) \<Rightarrow> (header @ [of_nat body_len], Inl e)
            | (body_buf, Inr _) \<Rightarrow>
                let data = map (\<lambda>b. b + 0x33) body_buf
                in (header @ [of_nat body_len] @ data
                     @ [ucast (frame_checksum (address f) (control f) body_len data), 0x16], Inr ())))"

definition frame_parse ::
    "(bytes \<Rightarrow> Dl645CodecContext \<Rightarrow> ProtocolError + bytes \<times> 'b)
      \<Rightarrow> bytes \<Rightarrow> Dl645CodecContext \<Rightarrow> ProtocolError + bytes \<times> 'b Dl645Frame" where
  "frame_parse parse input ctx =
     (if length input < 12 then Inl (InvalidFrame ''frame too short'')
      else if input ! 0 \<noteq> 0x68 then Inl (InvalidFrame ''missing leading 0x68'')
      else if input ! 7 \<noteq> 0x68 then Inl (InvalidFrame ''missing second 0x68'')
      else
        let a = subslice input 1 7;
            c = control_new (input ! 8);
            len = unat (input ! 9);
            expected_total_len = 10 + len + 2
        in if length input < expected_total_len
           then Inl (InvalidFrame ''buffer shorter than declared length'')
           else if input ! (10 + len) \<noteq> byte_sum (subslice input 0 (10 + len)) then Inl ChecksumMismatch
           else if input ! (10 + len + 1) \<noteq> 0x16 then Inl (InvalidFrame ''missing trailing 0x16'')
           else
             let cleaned = map (\<lambda>b. b - 0x33) (subslice input 10 (10 + len));
                 body_ctx = with_exception (is_exception_response c) (with_function (control_function c) ctx)
             in res_bind (parse cleaned body_ctx)
                  (\<lambda>(_, b). Inr (drop expected_total_len input,
                                 \<lparr>address = a, control = c, body = b\<rparr>)))"

section \<open>Lemmas about the layout\<close>

lemma ucast_frame_checksum:
  "(ucast (frame_checksum a c n data) :: u8) = byte_sum (frame_header a c @ [of_nat n] @ data)"
  by (simp add: frame_checksum_def frame_header_def Let_def ucast_fold_sum ucast_add_u8
      ucast_of_nat_u8 ucast_up_ucast_id is_up add.assoc)

text \<open>A frame with its data field already offset by \<open>0x33\<close>.\<close>

definition wire_frame :: "Dl645Address \<Rightarrow> Dl645ControlWord \<Rightarrow> bytes \<Rightarrow> bytes" where
  "wire_frame a c data =
     (let covered = frame_header a c @ [of_nat (length data)] @ data
      in covered @ [byte_sum covered, 0x16])"

lemma length_wire_frame: "wf_address a \<Longrightarrow> length (wire_frame a c data) = 12 + length data"
  by (simp add: wire_frame_def frame_header_def wf_address_def Let_def)

lemma wire_frame_nth:
  assumes "wf_address a"
  shows "wire_frame a c data ! 0 = 0x68" "wire_frame a c data ! 7 = 0x68"
    "wire_frame a c data ! 8 = raw c" "wire_frame a c data ! 9 = of_nat (length data)"
    "subslice (wire_frame a c data) (Suc 0) 7 = a"
  using assms
  by (simp_all add: wire_frame_def frame_header_def wf_address_def Let_def nth_append subslice_def)

lemma wire_frame_tail:
  assumes "wf_address a"
  shows "subslice (wire_frame a c data) 10 (10 + length data) = data"
    "wire_frame a c data ! (10 + length data) = byte_sum (subslice (wire_frame a c data) 0 (10 + length data))"
    "wire_frame a c data ! (11 + length data) = 0x16"
proof -
  define covered where "covered = frame_header a c @ [of_nat (length data)] @ data"
  have w: "wire_frame a c data = covered @ [byte_sum covered, 0x16]"
    by (simp add: wire_frame_def covered_def Let_def)
  have len: "length covered = 10 + length data"
    using assms by (simp add: covered_def frame_header_def wf_address_def)
  show "wire_frame a c data ! (10 + length data) = byte_sum (subslice (wire_frame a c data) 0 (10 + length data))"
    "wire_frame a c data ! (11 + length data) = 0x16"
    unfolding w by (simp_all add: len nth_append subslice_0)
  show "subslice (wire_frame a c data) 10 (10 + length data) = data"
    using assms by (simp add: w covered_def frame_header_def wf_address_def subslice_def)
qed

lemma control_new_raw [simp]: "control_new (raw c) = c" "raw (control_new r) = r"
  by (simp_all add: control_new_def)

lemma frame_parse_wire:
  assumes "wf_address a" "length data \<le> 255"
  shows "frame_parse parse (wire_frame a c data @ rest) ctx =
     res_bind (parse (map (\<lambda>b. b - 0x33) data)
                (with_exception (is_exception_response c) (with_function (control_function c) ctx)))
       (\<lambda>(_, b). Inr (rest, \<lparr>address = a, control = c, body = b\<rparr>))"
proof -
  let ?w = "wire_frame a c data"
  have len: "length ?w = 12 + length data" using assms(1) by (rule length_wire_frame)
  have n: "unat (?w ! 9) = length data"
    using assms by (simp add: wire_frame_nth unat_of_nat)
  have nth: "(?w @ rest) ! i = ?w ! i" if "i < 12 + length data" for i
    using that by (simp add: nth_append len)
  show ?thesis
    using assms(1) n
    by (simp add: frame_parse_def Let_def nth len wire_frame_nth wire_frame_tail)
qed

lemma frame_parse_checks:
  assumes "frame_parse parse input ctx = Inr (rest, f)"
  shows "12 + unat (input ! 9) \<le> length input" "input ! 0 = 0x68" "input ! 7 = 0x68"
    "input ! (10 + unat (input ! 9)) = byte_sum (take (10 + unat (input ! 9)) input)"
    "input ! (11 + unat (input ! 9)) = 0x16"
    "rest = drop (12 + unat (input ! 9)) input"
    "address f = subslice input 1 7" "control f = control_new (input ! 8)"
    "\<exists>rem. parse (map (\<lambda>b. b - 0x33) (subslice input 10 (10 + unat (input ! 9))))
           (with_exception (is_exception_response (control f)) (with_function (control_function (control f)) ctx))
         = Inr (rem, body f)"
  using assms
  by (auto simp: frame_parse_def Let_def res_bind_eq_Inr subslice_0 split: if_splits)

lemma frame_parse_is_wire:
  assumes "frame_parse parse input ctx = Inr (rest, f)"
  defines "data \<equiv> subslice input 10 (10 + unat (input ! 9))"
  shows "input = wire_frame (address f) (control f) data @ rest" "wf_address (address f)"
    "length data = unat (input ! 9)"
proof -
  note checks = frame_parse_checks [OF assms(1)]
  let ?n = "unat (input ! 9)"
  show len: "length data = ?n" using checks(1) by (simp add: data_def)
  show "wf_address (address f)" using checks(1) by (simp add: checks(7) wf_address_def)
  have c: "input ! i # drop (i + 1) input = drop i input" if "i < 12 + ?n" for i
    using that checks(1) by (simp add: Cons_nth_drop_Suc)
  have tail: "input ! (10 + ?n) # input ! (11 + ?n) # drop (12 + ?n) input = drop (10 + ?n) input"
    using c [of "11 + ?n"] c [of "10 + ?n"] by simp
  have "data @ drop (10 + ?n) input = drop 10 input"
    by (simp add: data_def drop_subslice [of 10 "10 + ?n" input, symmetric])
  then have mid: "input ! 7 # input ! 8 # input ! 9 # data @ drop (10 + ?n) input = drop 7 input"
    using c [of 7] c [of 8] c [of 9] by simp
  have "input ! 0 # subslice input 1 7 @ drop 7 input = input"
    using c [of 0] drop_subslice [of 1 7 input] by simp
  then have all: "(frame_header (address f) (control f) @ [of_nat (length data)] @ data)
      @ input ! (10 + ?n) # input ! (11 + ?n) # drop (12 + ?n) input = input"
    using mid by (simp add: tail frame_header_def checks(2,3,7,8) len)
  define covered where "covered = frame_header (address f) (control f) @ [of_nat (length data)] @ data"
  have "length covered = 10 + ?n"
    using len \<open>wf_address (address f)\<close> by (simp add: covered_def frame_header_def wf_address_def)
  then have "take (10 + ?n) (covered @ ts) = covered" for ts by simp
  with all have "take (10 + ?n) input = covered" unfolding covered_def by metis
  then have "input = covered @ [byte_sum covered, 0x16] @ rest"
    using all unfolding covered_def [symmetric] checks(4,5) checks(6) [symmetric] by simp
  then show "input = wire_frame (address f) (control f) data @ rest"
    by (simp add: wire_frame_def covered_def Let_def)
qed

text \<open>One corrupted byte is detected.  The length byte is the exception: a changed length moves
  the checksum position, so a corrupted length can still meet a matching byte.\<close>

lemma frame_parse_detects:
  assumes ok: "frame_parse parse input ctx = Inr (rest, f)"
    and i: "i < 12 + unat (input ! 9)" "i \<noteq> 9" and b: "b \<noteq> input ! i"
  shows "\<exists>e. frame_parse parse (input[i := b]) ctx = Inl e"
proof (rule ccontr)
  let ?n = "unat (input ! 9)"
  assume "\<nexists>e. frame_parse parse (input[i := b]) ctx = Inl e"
  then obtain rest' f' where ok': "frame_parse parse (input[i := b]) ctx = Inr (rest', f')"
    by (metis sum.exhaust surj_pair)
  note checks = frame_parse_checks [OF ok] and checks' = frame_parse_checks [OF ok']
  have n: "input[i := b] ! 9 = input ! 9" using i(2) by simp
  have len: "i < length input" using i(1) checks(1) by simp
  consider (covered) "i < 10 + ?n" | (cs) "i = 10 + ?n" | (tail) "i = 11 + ?n"
    using i(1) by linarith
  then show False
  proof cases
    case covered
    have "byte_sum (take (10 + ?n) input) = byte_sum ((take (10 + ?n) input)[i := b])"
      using checks(4) checks'(4) covered by (simp add: n take_update_swap)
    also have "\<dots> = byte_sum (take (10 + ?n) input) - input ! i + b"
      using covered checks(1) by (simp add: byte_sum_update)
    finally have "input ! i = b" by (simp add: algebra_simps)
    with b show False by simp
  next
    case cs
    have "b = byte_sum (take (10 + ?n) input)"
      using checks'(4) len by (simp add: n cs)
    with checks(4) cs b show False by simp
  next
    case tail
    have "b = 0x16" using checks'(5) len by (simp add: n tail)
    with checks(5) tail b show False by simp
  qed
qed

text \<open>A failing encoder has already written the header.\<close>

lemma frame_encode_failure:
  assumes "snd (frame_encode_to encoded_len encode_to f ctx) = Inl e"
  shows "\<exists>n. fst (frame_encode_to encoded_len encode_to f ctx) = frame_header (address f) (control f) @ n
           \<and> length n \<le> 1"
  using assms by (auto simp: frame_encode_to_def Let_def split: if_splits prod.splits sum.splits)

section \<open>The frame over any conforming body\<close>

definition frame_ctx :: "Dl645CodecContext \<Rightarrow> Dl645ControlWord \<Rightarrow> Dl645CodecContext" where
  "frame_ctx ctx c = with_exception (is_exception_response c) (with_function (control_function c) ctx)"

definition wf_frame :: "('b \<Rightarrow> bool) \<Rightarrow> 'b Dl645Frame \<Rightarrow> bool" where
  "wf_frame wfb f \<longleftrightarrow> wf_address (address f) \<and> wfb (body f)"

definition canonical_frame ::
    "('b \<Rightarrow> Dl645CodecContext \<Rightarrow> nat) \<Rightarrow> (Dl645CodecContext \<Rightarrow> 'b \<Rightarrow> bool)
      \<Rightarrow> Dl645CodecContext \<Rightarrow> 'b Dl645Frame \<Rightarrow> bool" where
  "canonical_frame encoded_len canonical ctx f \<longleftrightarrow>
     wf_address (address f) \<and> encoded_len (body f) ctx \<le> 255 \<and> canonical (frame_ctx ctx (control f)) (body f)"

lemma version_frame_ctx [simp]: "version (frame_ctx ctx c) = version ctx"
  by (simp add: frame_ctx_def)

lemma offset_inverse [simp]: "map (\<lambda>b. b - 0x33) (map (\<lambda>b. b + 0x33) bs) = (bs :: bytes)"
  by (simp add: comp_def)

lemma offset_inverse' [simp]: "map (\<lambda>b. b + 0x33) (map (\<lambda>b. b - 0x33) bs) = (bs :: bytes)"
  by (simp add: comp_def)

context dl645_body_codec
begin

lemma frame_encode_wire:
  assumes "wf (body f)" "snd (encode_to (body f) ctx) = Inr ()" "encoded_len (body f) ctx \<le> 255"
  shows "frame_encode_to encoded_len encode_to f ctx =
     (wire_frame (address f) (control f) (map (\<lambda>b. b + 0x33) (fst (encode_to (body f) ctx))), Inr ())"
proof -
  obtain bs where bs: "encode_to (body f) ctx = (bs, Inr ())"
    using assms(2) by (metis prod.collapse)
  then have "encoded_len (body f) ctx = length bs"
    using encode_length [OF assms(1,2)] by simp
  with assms(3) bs show ?thesis
    by (simp add: frame_encode_to_def Let_def wire_frame_def ucast_frame_checksum)
qed

lemma canonical_frame_encode:
  assumes "canonical_frame encoded_len canonical ctx f"
  shows "frame_encode_to encoded_len encode_to f ctx =
     (wire_frame (address f) (control f) (map (\<lambda>b. b + 0x33) (fst (encode_to (body f) ctx))), Inr ())"
    "length (fst (encode_to (body f) ctx)) = encoded_len (body f) ctx"
proof -
  have canon: "canonical (frame_ctx ctx (control f)) (body f)" and le: "encoded_len (body f) ctx \<le> 255"
    using assms by (simp_all add: canonical_frame_def)
  have ok: "snd (encode_to (body f) ctx) = Inr ()"
    using canonical_encodes [OF canon] encode_version [of ctx "frame_ctx ctx (control f)"] by simp
  show "frame_encode_to encoded_len encode_to f ctx =
     (wire_frame (address f) (control f) (map (\<lambda>b. b + 0x33) (fst (encode_to (body f) ctx))), Inr ())"
    using canonical_wf [OF canon] ok le by (rule frame_encode_wire)
  show "length (fst (encode_to (body f) ctx)) = encoded_len (body f) ctx"
    using canonical_wf [OF canon] ok by (rule encode_length)
qed

text \<open>The parser returns the encoded frame and stops exactly at its end.\<close>

lemma frame_parse_encode:
  assumes "canonical_frame encoded_len canonical ctx f"
  shows "frame_parse parse (fst (frame_encode_to encoded_len encode_to f ctx) @ rest) ctx = Inr (rest, f)"
proof -
  have canon: "canonical (frame_ctx ctx (control f)) (body f)" and wf: "wf_address (address f)"
    and le: "encoded_len (body f) ctx \<le> 255"
    using assms by (simp_all add: canonical_frame_def)
  have "parse (fst (encode_to (body f) ctx)) (frame_ctx ctx (control f)) = Inr ([], body f)"
    using parse_encode [OF canon] encode_version [of ctx "frame_ctx ctx (control f)"] by simp
  then show ?thesis
    using frame_parse_wire [OF wf, where parse = parse and ctx = ctx
        and data = "map (\<lambda>b. b + 0x33) (fst (encode_to (body f) ctx))"]
      canonical_frame_encode [OF assms] le
    by (simp add: frame_ctx_def del: map_map)
qed

text \<open>Conversely an accepted frame is the encoding of what was parsed, up to trailing bytes of
  the data field that the body parser leaves unread.\<close>

lemma frame_encode_parse:
  assumes "frame_parse parse input ctx = Inr (rest, f)"
  obtains rem where "input = wire_frame (address f) (control f)
                       (map (\<lambda>b. b + 0x33) (fst (encode_to (body f) ctx) @ rem)) @ rest"
    "parse (fst (encode_to (body f) ctx) @ rem) (frame_ctx ctx (control f)) = Inr (rem, body f)"
proof -
  define data where "data = subslice input 10 (10 + unat (input ! 9))"
  obtain rem where rem: "parse (map (\<lambda>b. b - 0x33) data) (frame_ctx ctx (control f)) = Inr (rem, body f)"
    using frame_parse_checks(9) [OF assms] unfolding data_def frame_ctx_def by blast
  then have enc: "fst (encode_to (body f) ctx) @ rem = map (\<lambda>b. b - 0x33) data"
    using encode_parse encode_version [of ctx "frame_ctx ctx (control f)"] by fastforce
  then have "map (\<lambda>b. b + 0x33) (fst (encode_to (body f) ctx) @ rem) = data"
    by (metis offset_inverse')
  then have "input = wire_frame (address f) (control f) (map (\<lambda>b. b + 0x33) (fst (encode_to (body f) ctx) @ rem)) @ rest"
    using frame_parse_is_wire(1) [OF assms] unfolding data_def by metis
  moreover have "parse (fst (encode_to (body f) ctx) @ rem) (frame_ctx ctx (control f)) = Inr (rem, body f)"
    using rem unfolding enc .
  ultimately show ?thesis by (rule that)
qed

text \<open>A frame that comes back from its own encoding has a body that comes back from its own.\<close>

lemma frame_back_body_back:
  assumes "wf_frame wf f" "snd (frame_encode_to encoded_len encode_to f ctx) = Inr ()"
    and "frame_parse parse (fst (frame_encode_to encoded_len encode_to f ctx) @ rest) ctx = Inr (rest, f)"
  shows "encoded_len (body f) ctx \<le> 255
       \<and> (\<exists>rem. parse (fst (encode_to (body f) ctx)) (frame_ctx ctx (control f)) = Inr (rem, body f))"
proof -
  have le: "encoded_len (body f) ctx \<le> 255" and ok: "snd (encode_to (body f) ctx) = Inr ()"
    using assms(2) by (auto simp: frame_encode_to_def Let_def split: if_splits prod.splits sum.splits)
  have wf: "wf_address (address f)" "wf (body f)" using assms(1) by (simp_all add: wf_frame_def)
  have "length (fst (encode_to (body f) ctx)) \<le> 255" using encode_length [OF wf(2) ok] le by simp
  then have "Inr (rest, f)
      = res_bind (parse (fst (encode_to (body f) ctx)) (frame_ctx ctx (control f)))
          (\<lambda>(_, b). Inr (rest, \<lparr>address = address f, control = control f, body = b\<rparr>))"
    using assms(3) frame_parse_wire [OF wf(1), where parse = parse and ctx = ctx
        and data = "map (\<lambda>b. b + 0x33) (fst (encode_to (body f) ctx))"]
    by (simp add: frame_encode_wire [OF wf(2) ok le] frame_ctx_def del: map_map)
  from this [symmetric] obtain rem b where
    b: "parse (fst (encode_to (body f) ctx)) (frame_ctx ctx (control f)) = Inr (rem, b)"
      "f = \<lparr>address = address f, control = control f, body = b\<rparr>"
    by (auto simp: res_bind_eq_Inr)
  from b(2) have "body f = b" by (metis Dl645Frame.select_convs(3))
  with b(1) le show ?thesis by blast
qed

end

text \<open>So a frame over a conforming body keeps the wire contract itself.\<close>

sublocale dl645_body_codec \<subseteq> framed: wire_codec "frame_encoded_len encoded_len"
    "frame_encode_to encoded_len encode_to" "frame_parse parse" "wf_frame wf"
    "canonical_frame encoded_len canonical"
proof unfold_locales
  fix c f assume canon: "canonical_frame encoded_len canonical c f"
  show "wf_frame wf f"
    using canon canonical_wf by (auto simp: canonical_frame_def wf_frame_def)
  show "snd (frame_encode_to encoded_len encode_to f c) = Inr ()"
    by (simp add: canonical_frame_encode [OF canon])
  show "frame_parse parse (fst (frame_encode_to encoded_len encode_to f c)) c = Inr ([], f)"
    using frame_parse_encode [OF canon, of "[]"] by simp
next
  fix f c assume wf: "wf_frame wf f" and ok: "snd (frame_encode_to encoded_len encode_to f c) = Inr ()"
  have le: "encoded_len (body f) c \<le> 255" and body_ok: "snd (encode_to (body f) c) = Inr ()"
    using ok by (auto simp: frame_encode_to_def Let_def split: if_splits prod.splits sum.splits)
  show "length (fst (frame_encode_to encoded_len encode_to f c)) = frame_encoded_len encoded_len f c"
    using wf frame_encode_wire [OF _ body_ok le] encode_length [OF _ body_ok]
    by (simp add: wf_frame_def length_wire_frame frame_encoded_len_def)
qed

section \<open>The borrowed frame view and the response view\<close>

record Dl645FrameRef =
  ref_address :: Dl645Address
  ref_control :: Dl645ControlWord
  ref_data :: bytes

definition frame_ref_decode :: "bytes \<Rightarrow> ProtocolError + Dl645FrameRef" where
  "frame_ref_decode buf =
     (if length buf < 12 then Inl (InvalidFrame ''frame too short'')
      else if buf ! 0 \<noteq> 0x68 \<or> buf ! 7 \<noteq> 0x68 then Inl (InvalidFrame ''missing 0x68'')
      else
        let len = unat (buf ! 9); expected_len = 12 + len
        in if length buf < expected_len then Inl (InvalidFrame ''buffer too short'')
           else if buf ! (10 + len) \<noteq> byte_sum (subslice buf 0 (10 + len)) then Inl ChecksumMismatch
           else if buf ! (11 + len) \<noteq> 0x16 then Inl (InvalidFrame ''missing 0x16'')
           else Inr \<lparr>ref_address = subslice buf 1 7, ref_control = control_new (buf ! 8),
                     ref_data = subslice buf 10 (10 + len)\<rparr>)"

text \<open>The borrowed view and the owning parser accept the same frames, up to the body.\<close>

lemma frame_ref_agrees:
  assumes "frame_parse parse input ctx = Inr (rest, f)"
  shows "\<exists>d. frame_ref_decode input = Inr \<lparr>ref_address = address f, ref_control = control f, ref_data = d\<rparr>"
proof -
  note checks = frame_parse_checks [OF assms]
  have "12 \<le> length input" using checks(1) by simp
  then show ?thesis
    using checks by (simp add: frame_ref_decode_def Let_def subslice_0)
qed

record Dl645ResponseFrameView =
  view_frame :: Dl645TypedFrame
  view_ctrl :: Dl645ControlWord
  view_function :: Dl645Function
  view_is_exception :: bool
  view_exception_code :: "Dl645ExceptionCode option"
  view_has_following_frame :: bool

definition as_response_view :: "Dl645TypedFrame \<Rightarrow> Dl645ResponseFrameView" where
  "as_response_view f =
     (let word = control f;
          is_exc = is_exception_response word;
          code = (if is_exc
                  then Option.bind (data_payload (body f))
                         (\<lambda>d. case d of [] \<Rightarrow> None | b # _ \<Rightarrow> Some (exception_from_byte b))
                  else None)
      in \<lparr>view_frame = f, view_ctrl = word, view_function = control_function word,
          view_is_exception = is_exc, view_exception_code = code,
          view_has_following_frame = has_following_frame word\<rparr>)"

section \<open>Request builders\<close>

definition build_read_data_frame :: "Dl645Version \<Rightarrow> Dl645Address \<Rightarrow> u32 \<Rightarrow> Dl645TypedFrame" where
  "build_read_data_frame v a di =
     frame_new a (for_request v Dl645Function.ReadData) (ReadData \<lparr>rd_di = di, rd_data = []\<rparr>)"

definition build_write_data_frame ::
    "Dl645Version \<Rightarrow> Dl645Address \<Rightarrow> u32 \<Rightarrow> bytes \<Rightarrow> u32 \<Rightarrow> u32 option \<Rightarrow> Dl645TypedFrame" where
  "build_write_data_frame v a di value_bytes password operator_code =
     frame_new a (for_request v Dl645Function.WriteData)
       (WriteData \<lparr>wd_di = di, wd_value = value_bytes, wd_password = password,
                   wd_operator_code = case_option 0 id operator_code\<rparr>)"

definition build_write_address_frame ::
    "Dl645Version \<Rightarrow> Dl645Address \<Rightarrow> Dl645Address \<Rightarrow> Dl645TypedFrame" where
  "build_write_address_frame v current new_address_bcd =
     frame_new current (for_request v Dl645Function.WriteAddress)
       (WriteAddress \<lparr>wa_new_address = new_address_bcd\<rparr>)"

definition build_broadcast_time_sync_frame :: "Dl645Version \<Rightarrow> bytes \<Rightarrow> Dl645TypedFrame" where
  "build_broadcast_time_sync_frame v timestamp_bcd =
     frame_new (replicate 6 0x99) (for_request v Dl645Function.BroadcastTimeSync)
       (BroadcastTimeSync \<lparr>ts_timestamp = timestamp_bcd\<rparr>)"

definition build_freeze_frame :: "Dl645Version \<Rightarrow> Dl645Address \<Rightarrow> bytes \<Rightarrow> Dl645TypedFrame" where
  "build_freeze_frame v a pattern_bcd =
     frame_new a (for_request v Dl645Function.Freeze) (Freeze \<lparr>fz_pattern = pattern_bcd\<rparr>)"

definition build_update_baud_rate_frame :: "Dl645Version \<Rightarrow> Dl645Address \<Rightarrow> u8 \<Rightarrow> Dl645TypedFrame" where
  "build_update_baud_rate_frame v a code =
     frame_new a (for_request v Dl645Function.UpdateBaudRate) (UpdateBaudRate \<lparr>br_code = code\<rparr>)"

definition build_modify_password_frame ::
    "Dl645Version \<Rightarrow> Dl645Address \<Rightarrow> u32 option \<Rightarrow> u32 \<Rightarrow> u32 \<Rightarrow> Dl645TypedFrame" where
  "build_modify_password_frame v a di old_password new_password =
     frame_new a (for_request v Dl645Function.ModifyPassword)
       (ModifyPassword \<lparr>mp_di = di, mp_old_password = old_password, mp_new_password = new_password\<rparr>)"

definition build_clear_max_demand_frame ::
    "Dl645Version \<Rightarrow> Dl645Address \<Rightarrow> u32 \<Rightarrow> u32 option \<Rightarrow> Dl645TypedFrame" where
  "build_clear_max_demand_frame v a password operator_code =
     frame_new a (for_request v Dl645Function.ClearMaxDemand)
       (ClearMaxDemand \<lparr>cd_password = password, cd_operator_code = case_option 0 id operator_code\<rparr>)"

definition build_clear_meter_frame ::
    "Dl645Version \<Rightarrow> Dl645Address \<Rightarrow> u32 \<Rightarrow> u32 option \<Rightarrow> Dl645TypedFrame" where
  "build_clear_meter_frame v a password operator_code =
     frame_new a (for_request v Dl645Function.ClearMeter)
       (ClearMeter \<lparr>cm_password = password, cm_operator_code = case_option 0 id operator_code\<rparr>)"

definition build_clear_events_frame ::
    "Dl645Version \<Rightarrow> Dl645Address \<Rightarrow> u32 \<Rightarrow> u32 \<Rightarrow> u32 option \<Rightarrow> Dl645TypedFrame" where
  "build_clear_events_frame v a di password operator_code =
     frame_new a (for_request v Dl645Function.ClearEvents)
       (ClearEvents \<lparr>ce_di = di, ce_password = password, ce_operator_code = case_option 0 id operator_code\<rparr>)"

lemmas builder_defs =
  build_read_data_frame_def build_write_data_frame_def build_write_address_frame_def
  build_broadcast_time_sync_frame_def build_freeze_frame_def build_update_baud_rate_frame_def
  build_modify_password_frame_def build_clear_max_demand_frame_def build_clear_meter_frame_def
  build_clear_events_frame_def

text \<open>Every builder is \<open>new_request\<close> on its body: the control word and the body agree.\<close>

lemma builders_are_requests:
  "build_read_data_frame v a di = new_request a (ReadData \<lparr>rd_di = di, rd_data = []\<rparr>) v"
  "build_write_data_frame v a di vs pw op_code =
     new_request a (WriteData \<lparr>wd_di = di, wd_value = vs, wd_password = pw,
                              wd_operator_code = case_option 0 id op_code\<rparr>) v"
  "build_write_address_frame v a a' = new_request a (WriteAddress \<lparr>wa_new_address = a'\<rparr>) v"
  "build_broadcast_time_sync_frame v ts =
     new_request (replicate 6 0x99) (BroadcastTimeSync \<lparr>ts_timestamp = ts\<rparr>) v"
  "build_freeze_frame v a pat = new_request a (Freeze \<lparr>fz_pattern = pat\<rparr>) v"
  "build_update_baud_rate_frame v a code = new_request a (UpdateBaudRate \<lparr>br_code = code\<rparr>) v"
  "build_modify_password_frame v a dio old new =
     new_request a (ModifyPassword \<lparr>mp_di = dio, mp_old_password = old, mp_new_password = new\<rparr>) v"
  "build_clear_max_demand_frame v a pw op_code =
     new_request a (ClearMaxDemand \<lparr>cd_password = pw, cd_operator_code = case_option 0 id op_code\<rparr>) v"
  "build_clear_meter_frame v a pw op_code =
     new_request a (ClearMeter \<lparr>cm_password = pw, cm_operator_code = case_option 0 id op_code\<rparr>) v"
  "build_clear_events_frame v a di pw op_code =
     new_request a (ClearEvents \<lparr>ce_di = di, ce_password = pw, ce_operator_code = case_option 0 id op_code\<rparr>) v"
  by (simp_all add: builder_defs new_request_def)

lemma new_request_canonical:
  assumes "wf_address a" "canonical_fields v b" "body_encoded_len b (ctx_new v) \<le> 255"
    and "\<forall>bs. b \<noteq> Raw bs"
  shows "canonical_frame body_encoded_len canonical_body (ctx_new v) (new_request a b v)"
proof -
  have "known_function (body_function_code b)" by (cases b) (simp_all add: known_function_def)
  then have "control_function (for_request v (body_function_code b)) = body_function_code b"
    by (rule for_request_function)
  with assms show ?thesis
    by (cases b) (simp_all add: canonical_frame_def new_request_def frame_new_def frame_ctx_def
        canonical_body_def for_request_flags)
qed

section \<open>Properties\<close>

text \<open>A read request to a concrete meter, used to instantiate the properties.\<close>

definition sample_address :: Dl645Address where
  "sample_address = [0x42, 0x00, 0x17, 0x01, 0x24, 0x20]"

definition sample_request :: Dl645TypedFrame where
  "sample_request = build_read_data_frame V2007 sample_address 0x00010000"

lemma sample_request_canonical:
  "canonical_frame body_encoded_len canonical_body (ctx_new V2007) sample_request"
  unfolding sample_request_def builders_are_requests(1)
  by (rule new_request_canonical)
    (simp_all add: sample_address_def wf_address_def canonical_fields_def canonical_di_def body_encoded_len_def
      wire_simps di_len_def)

lemma own_encoding_canonical:
  assumes "body_parse (fst (body_encode_to b ctx)) ctx' = Inr (rem, b)" "version ctx' = version ctx"
  shows "canonical_body ctx' b"
proof -
  have "fst (body_encode_to b ctx) = []" if "bare_clear ctx' b"
    using that assms(2) by (auto simp: bare_clear_def body_encode_to_def wire_simps)
  then show ?thesis using body_parse_canonical [OF assms(1)] by blast
qed



text \<open>In the 2007 and 2021 dialects the frames built for reading, writing, address, time,
  freeze, baud-rate and clearing requests survive the wire, when the address and the time and
  freeze fields have the lengths the standard gives them and the written value fits a frame.\<close>

theorem dl645_builders_sendable:
  assumes "wf_address a" "v \<noteq> V1997" "length vs \<le> 200" "wf_address a'" "length pat = 4" "length ts = 6"
  shows "list_all (canonical_frame body_encoded_len canonical_body (ctx_new v))
     [build_read_data_frame v a di, build_write_data_frame v a di vs pw op_code,
      build_write_address_frame v a a', build_broadcast_time_sync_frame v ts, build_freeze_frame v a pat,
      build_update_baud_rate_frame v a code, build_clear_max_demand_frame v a pw op_code,
      build_clear_meter_frame v a pw op_code, build_clear_events_frame v a di pw op_code]"
  unfolding builders_are_requests list.pred_inject
  using assms
  by (intro conjI TrueI new_request_canonical)
    (simp_all add: canonical_fields_def canonical_di_def body_encoded_len_def wire_simps di_len_def wf_address_def
      split: Dl645Version.splits)

theorem dl645_builders_sendable_witness:
  "canonical_frame body_encoded_len canonical_body (ctx_new V2021)
     (build_write_data_frame V2021 sample_address 0x04000101 [0x01, 0x02] 0x00000002 None)"
  using dl645_builders_sendable [where a = sample_address and v = V2021 and vs = "[0x01, 0x02]"
      and a' = sample_address and pat = "replicate 4 0" and ts = "replicate 6 0" and di = "0x04000101"
      and pw = "0x00000002" and op_code = None]
  by (simp add: sample_address_def wf_address_def)

text \<open>C12: whatever the parser accepts is the wire image of the frame it returns: same address,
  control word and body bytes, right length, checksum and delimiters, followed by the unread
  input.  The body is canonical for the control word, or it is a clear command of the 1997 dialect.
  Only the commands of a fixed size (address, time, freeze, baud rate and clearing) can have further
  bytes in the data field, which the parser ignores; reads, writes and raw bodies account for every byte.\<close>

theorem dl645_accepts_only_encodings:
  assumes "frame_parse body_parse input ctx = Inr (rest, f)"
  shows "\<exists>rem. input = wire_frame (address f) (control f)
                (map (\<lambda>b. b + 0x33) (fst (body_encode_to (body f) ctx) @ rem)) @ rest
           \<and> (rem \<noteq> [] \<longrightarrow> fixed_size (body f))
           \<and> (canonical_body (frame_ctx ctx (control f)) (body f) \<or> bare_clear (frame_ctx ctx (control f)) (body f))"
proof -
  obtain rem where "input = wire_frame (address f) (control f)
      (map (\<lambda>b. b + 0x33) (fst (body_encode_to (body f) ctx) @ rem)) @ rest"
    "body_parse (fst (body_encode_to (body f) ctx) @ rem) (frame_ctx ctx (control f)) = Inr (rem, body f)"
    using dl645_body.frame_encode_parse [OF assms] by blast
  then show ?thesis using body_parse_rem body_parse_canonical by blast
qed

text \<open>A read request leaves no byte of the data field unaccounted for.\<close>

theorem dl645_accepts_only_encodings_witness:
  "fst (frame_encode_to body_encoded_len body_encode_to sample_request (ctx_new V2007)) =
     wire_frame sample_address (for_request V2007 Dl645Function.ReadData)
       (map (\<lambda>b. b + 0x33) (fst (body_encode_to (body sample_request) (ctx_new V2007))))"
  using dl645_accepts_only_encodings
    [OF dl645_body.frame_parse_encode [OF sample_request_canonical, of "[]"]]
  by (auto simp: sample_request_def build_read_data_frame_def frame_new_def)

text \<open>C13: a frame accepted by the parser is rejected as soon as any single byte of it other than
  the length byte is changed.\<close>

theorem dl645_corruption_detected:
  assumes "frame_parse body_parse input ctx = Inr (rest, f)"
    and "i < 12 + unat (input ! 9)" "i \<noteq> 9" "b \<noteq> input ! i"
  shows "\<exists>e. frame_parse body_parse (input[i := b]) ctx = Inl e"
  using assms by (rule frame_parse_detects)

theorem dl645_corruption_detected_witness:
  "\<exists>e. frame_parse body_parse
     ((fst (frame_encode_to body_encoded_len body_encode_to sample_request (ctx_new V2007)))[0 := 0x69])
     (ctx_new V2007) = Inl e"
proof -
  let ?w = "fst (frame_encode_to body_encoded_len body_encode_to sample_request (ctx_new V2007))"
  have p: "frame_parse body_parse ?w (ctx_new V2007) = Inr ([], sample_request)"
    using dl645_body.frame_parse_encode [OF sample_request_canonical, of "[]"] by simp
  show ?thesis
    using frame_parse_checks(2) [OF p] by (intro dl645_corruption_detected [OF p]) simp_all
qed

end
