(* ===== verification/Framing.thy ===== *)
theory Framing
  imports Prelude
begin

text \<open>
  The contract between a frame codec and the stream it is driven by.  The drivers hand a
  \<open>Decoder\<close> to \<open>tokio_util\<close>'s \<open>Framed\<close>, which appends received bytes to a buffer and calls
  \<open>decode\<close> until it asks for more input or fails.  The contract says that a decoded frame
  consumes a non-empty prefix, that what asking for more input drops from the buffer would not have
  mattered, and that bytes still to come change neither a frame already complete nor a failure.  What
  follows for every decoder that keeps it: draining the buffer ends, and the frames delivered, the
  failure and the bytes left over do not depend on how the transport cuts the byte stream into chunks,
  whatever the bytes are.
\<close>

type_synonym ('e, 'f) decode_result = "('e + 'f option) \<times> bytes"

datatype 'e drain_end = Waiting bytes | Failed 'e

text \<open>Calling \<open>decode\<close> until it returns no frame; \<open>None\<close> if the fuel runs out first.\<close>

fun drain :: "nat \<Rightarrow> (bytes \<Rightarrow> ('e, 'f) decode_result) \<Rightarrow> bytes \<Rightarrow> ('f list \<times> 'e drain_end) option" where
  "drain 0 dec buf = None"
| "drain (Suc n) dec buf =
     (case dec buf of
        (Inl e, _) \<Rightarrow> Some ([], Failed e)
      | (Inr None, buf') \<Rightarrow> Some ([], Waiting buf')
      | (Inr (Some f), buf') \<Rightarrow> map_option (\<lambda>(fs, r). (f # fs, r)) (drain n dec buf'))"

lemma drain_mono:
  assumes "drain n dec buf = Some r" "n \<le> m"
  shows "drain m dec buf = Some r"
  using assms
proof (induction n arbitrary: m buf r)
  case 0
  then show ?case by simp
next
  case (Suc n)
  then obtain m' where m: "m = Suc m'" "n \<le> m'" by (cases m) auto
  show ?case
    using Suc.prems(1) Suc.IH [OF _ m(2)] m(1) by (auto split: prod.splits sum.splits option.splits)
qed

text \<open>\<open>Framed::poll_next\<close> over the chunks the transport delivers: each chunk goes behind what is left
  in the buffer, and \<open>decode\<close> is called until it asks for more; a failure ends the stream.\<close>

fun receive :: "(bytes \<Rightarrow> ('e, 'f) decode_result) \<Rightarrow> bytes \<Rightarrow> bytes list \<Rightarrow> ('f list \<times> 'e drain_end) option" where
  "receive dec buf [] = Some ([], Waiting buf)"
| "receive dec buf (chunk # chunks) =
     (case drain (Suc (length (buf @ chunk))) dec (buf @ chunk) of
        None \<Rightarrow> None
      | Some (fs, Failed e) \<Rightarrow> Some (fs, Failed e)
      | Some (fs, Waiting rest) \<Rightarrow> map_option (\<lambda>(gs, r). (fs @ gs, r)) (receive dec rest chunks))"

lemma concat_three_chunks: "concat [take m bs, take n (drop m bs), drop (m + n) bs] = bs"
  using append_take_drop_id [of n "drop m bs"] by (simp add: add.commute)

lemma drain_unique: "drain n dec buf = Some r \<Longrightarrow> drain m dec buf = Some r' \<Longrightarrow> r = r'"
  using drain_mono [of n dec buf r m] drain_mono [of m dec buf r' n] by (cases "n \<le> m") auto

locale stream_decoder =
  fixes decode :: "bytes \<Rightarrow> ('e, 'f) decode_result"
  assumes decode_progress: "decode buf = (Inr (Some f), buf') \<Longrightarrow> length buf' < length buf"
    and decode_waits: "decode buf = (Inr None, buf') \<Longrightarrow> decode (buf @ more) = decode (buf' @ more)"
    and decode_stable: "decode buf = (Inr (Some f), buf') \<Longrightarrow> decode (buf @ more) = (Inr (Some f), buf' @ more)"
    and decode_fails: "decode buf = (Inl e, buf') \<Longrightarrow> \<exists>buf''. decode (buf @ more) = (Inl e, buf'')"
    and decode_empty: "decode [] = (Inr None, [])"
begin

lemma drain_total: "length buf < n \<Longrightarrow> \<exists>fs r. drain n decode buf = Some (fs, r)"
proof (induction n arbitrary: buf)
  case 0
  then show ?case by simp
next
  case (Suc n)
  show ?case
  proof (cases "decode buf")
    case (Pair a buf')
    show ?thesis
    proof (cases "\<exists>f. a = Inr (Some f)")
      case True
      then obtain f where a: "a = Inr (Some f)" by blast
      with Pair Suc.prems have "length buf' < n" using decode_progress by fastforce
      then obtain fs r where "drain n decode buf' = Some (fs, r)" using Suc.IH by blast
      with Pair a show ?thesis by simp
    next
      case False
      with Pair show ?thesis by (cases a) (auto split: option.splits)
    qed
  qed
qed

text \<open>Chunking: the bytes that arrive later only add frames behind the ones already found.\<close>

lemma drain_chunks:
  assumes "drain n decode buf = Some (fs, Waiting rest)"
    and "drain m decode (rest @ more) = Some (gs, r)"
  shows "drain (n + m) decode (buf @ more) = Some (fs @ gs, r)"
  using assms(1)
proof (induction n arbitrary: buf fs)
  case 0
  then show ?case by simp
next
  case (Suc n)
  show ?case
  proof (cases "decode buf")
    case (Pair a buf')
    with Suc.prems consider (wait) "a = Inr None" "fs = []" "rest = buf'"
      | (frame) f fs' where "a = Inr (Some f)" "fs = f # fs'" "drain n decode buf' = Some (fs', Waiting rest)"
      by (auto split: sum.splits option.splits)
    then show ?thesis
    proof cases
      case wait
      then have "decode (buf @ more) = decode (rest @ more)" using Pair decode_waits [of buf buf'] by simp
      then have "drain m decode (buf @ more) = Some (gs, r)" using assms(2) by (cases m) simp_all
      then have "drain (Suc n + m) decode (buf @ more) = Some (gs, r)" by (rule drain_mono) simp
      then show ?thesis by (simp only: wait(2) append_Nil)
    next
      case frame
      then have "decode (buf @ more) = (Inr (Some f), buf' @ more)"
        using Pair decode_stable by simp
      moreover have "drain (n + m) decode (buf' @ more) = Some (fs' @ gs, r)"
        using frame(3) by (rule Suc.IH)
      ultimately show ?thesis using frame(2) by simp
    qed
  qed
qed

lemma drain_failed:
  assumes "drain n decode buf = Some (fs, Failed e)"
  shows "drain n decode (buf @ more) = Some (fs, Failed e)"
  using assms
proof (induction n arbitrary: buf fs)
  case 0
  then show ?case by simp
next
  case (Suc n)
  show ?case
  proof (cases "decode buf")
    case (Pair a buf')
    with Suc.prems consider (fail) "a = Inl e" "fs = []"
      | (frame) f fs' where "a = Inr (Some f)" "fs = f # fs'" "drain n decode buf' = Some (fs', Failed e)"
      by (auto split: sum.splits option.splits)
    then show ?thesis
    proof cases
      case fail
      then obtain buf'' where "decode (buf @ more) = (Inl e, buf'')" using Pair decode_fails by blast
      with fail show ?thesis by simp
    next
      case frame
      then have "decode (buf @ more) = (Inr (Some f), buf' @ more)" using Pair decode_stable by simp
      with frame Suc.IH show ?thesis by simp
    qed
  qed
qed

text \<open>What is left in the buffer after a drain holds no frame.\<close>

lemma drain_leaves:
  assumes "drain n decode buf = Some (fs, Waiting rest)"
  shows "decode rest = (Inr None, rest)"
  using assms
proof (induction n arbitrary: buf fs)
  case (Suc n)
  then show ?case
    using decode_waits [of buf rest "[]"] by (auto split: prod.splits sum.splits option.splits)
qed simp

text \<open>However the transport cuts a byte stream into chunks, what is received is what one drain of the
  whole stream gives: the same frames, in the same order, and the same end.\<close>

lemma receive_from:
  assumes "decode buf = (Inr None, buf)"
  shows "receive decode buf chunks = drain (Suc (length (buf @ concat chunks))) decode (buf @ concat chunks)"
  using assms
proof (induction chunks arbitrary: buf)
  case Nil
  then show ?case by simp
next
  case (Cons chunk chunks)
  let ?first = "buf @ chunk" and ?whole = "buf @ concat (chunk # chunks)"
  obtain fs end' where first: "drain (Suc (length ?first)) decode ?first = Some (fs, end')"
    using drain_total by blast
  obtain w where whole: "drain (Suc (length ?whole)) decode ?whole = Some w"
    using drain_total [of ?whole] by blast
  have split: "?whole = ?first @ concat chunks" by simp
  show ?case
  proof (cases end')
    case (Failed e)
    then have "drain (Suc (length ?first)) decode ?whole = Some (fs, Failed e)"
      unfolding split using first drain_failed by blast
    then have "w = (fs, Failed e)" using whole drain_unique by blast
    with first Failed whole show ?thesis by simp
  next
    case (Waiting rest)
    let ?later = "rest @ concat chunks"
    obtain gs r where later: "drain (Suc (length ?later)) decode ?later = Some (gs, r)"
      using drain_total by blast
    have "receive decode rest chunks = Some (gs, r)"
      using Cons.IH [of rest] drain_leaves first later unfolding Waiting by simp
    moreover have "drain (Suc (length ?first) + Suc (length ?later)) decode ?whole = Some (fs @ gs, r)"
      unfolding split using drain_chunks first later unfolding Waiting by blast
    then have "w = (fs @ gs, r)" using whole drain_unique by blast
    ultimately show ?thesis using first Waiting whole by simp
  qed
qed

lemma receive_chunks:
  "receive decode [] chunks = drain (Suc (length (concat chunks))) decode (concat chunks)"
  using receive_from [OF decode_empty] by simp

lemma receive_whole:
  assumes "drain n decode (concat chunks) = Some (fs, r)"
  shows "receive decode [] chunks = Some (fs, r)"
  unfolding receive_chunks using drain_total [of "concat chunks"] drain_unique assms by (metis lessI)

end

text \<open>A decoder together with the encoder of the same protocol.\<close>

locale framed_codec = stream_decoder decode
  for decode :: "bytes \<Rightarrow> ('e, 'f) decode_result" +
  fixes enc :: "'f \<Rightarrow> bytes" and good :: "'f \<Rightarrow> bool"
  assumes decode_encode: "good f \<Longrightarrow> decode (enc f @ rest) = (Inr (Some f), rest)"
begin

lemma drain_stream:
  assumes "list_all good fs" "decode rest = (Inr None, rest')"
  shows "drain (Suc (length fs)) decode (concat (map enc fs) @ rest) = Some (fs, Waiting rest')"
  using assms by (induction fs) (auto simp: decode_encode)

text \<open>A frame that is not complete yet is waited for.\<close>

lemma decode_partial:
  assumes "good f" "enc f = p @ q" "q \<noteq> []"
  obtains rest where "decode p = (Inr None, rest)"
proof (cases "decode p")
  case (Pair a rest)
  have whole: "decode (p @ q) = (Inr (Some f), [])" using decode_encode [OF assms(1), of "[]"] assms(2) by simp
  have "a \<noteq> Inl e" for e using Pair whole decode_fails [of p e rest q] by auto
  moreover have "a \<noteq> Inr (Some g)" for g using Pair whole decode_stable [of p g rest q] assms(3) by auto
  ultimately have "a = Inr None" by (metis not_None_eq sum.exhaust_sel)
  with Pair show ?thesis using that by blast
qed

text \<open>However a stream of frames is cut into chunks, exactly the frames are delivered; a part of
  another one behind them delivers nothing.\<close>

lemma receive_stream:
  assumes "list_all good fs" "concat chunks = concat (map enc fs)"
  shows "receive decode [] chunks = Some (fs, Waiting [])"
  by (rule receive_whole [of "Suc (length fs)"])
    (use drain_stream [OF assms(1) decode_empty] assms(2) in \<open>simp only: append_Nil2\<close>)

lemma receive_stream_partial:
  assumes "list_all good fs" "good f" "enc f = p @ q" "q \<noteq> []" "concat chunks = concat (map enc fs) @ p"
  shows "\<exists>rest. receive decode [] chunks = Some (fs, Waiting rest)"
proof -
  obtain rest where "decode p = (Inr None, rest)" using decode_partial assms(2-4) by blast
  then show ?thesis using receive_whole drain_stream [OF assms(1)] assms(5) by metis
qed

end

end
