(* ===== verification/Dlt645_Codec.thy ===== *)
theory Dlt645_Codec
  imports Dlt645_Frame Framing
begin

text \<open>
  The DL/T 645 stream codec (\<open>protocol/codec.rs\<close>): the scan for a complete frame in a byte
  buffer, and the \<open>Decoder\<close> and \<open>Encoder\<close> of \<open>Dl645FrameCodec\<close>.  The scan is shown to keep the
  stream-decoder contract, to deliver every well-formed frame stream however it is chunked,
  and to skip leading noise.
\<close>

section \<open>Scanning for a frame\<close>

abbreviation typed_parse :: "bytes \<Rightarrow> Dl645CodecContext \<Rightarrow> ProtocolError + bytes \<times> Dl645TypedFrame" where
  "typed_parse \<equiv> frame_parse body_parse"

abbreviation typed_encode :: "Dl645TypedFrame \<Rightarrow> Dl645CodecContext \<Rightarrow> ProtocolError wrote" where
  "typed_encode \<equiv> frame_encode_to body_encoded_len body_encode_to"

text \<open>The \<open>while\<close> loop of \<open>try_extract_frame\<close> from index \<open>i\<close>.\<close>

function extract_from :: "bytes \<Rightarrow> Dl645Version \<Rightarrow> nat \<Rightarrow> (Dl645TypedFrame \<times> nat) option" where
  "extract_from buf v i =
     (if i + 12 \<le> length buf then
        (if buf ! i \<noteq> 0x68 then extract_from buf v (i + 1)
         else if buf ! (i + 7) \<noteq> 0x68 then extract_from buf v (i + 1)
         else
           let len = unat (buf ! (i + 9)); frame_len = 10 + len + 2
           in if i + frame_len > length buf then None
              else (case typed_parse (subslice buf i (i + frame_len)) (ctx_new v) of
                      Inr (_, frame) \<Rightarrow> Some (frame, i + frame_len)
                    | Inl _ \<Rightarrow> extract_from buf v (i + 1)))
      else None)"
  by pat_completeness auto
termination
  by (relation "measure (\<lambda>(buf, v, i). length buf - i)") auto

declare extract_from.simps [simp del]

definition try_extract_frame :: "bytes \<Rightarrow> Dl645Version \<Rightarrow> ProtocolError + (Dl645TypedFrame \<times> nat) option" where
  "try_extract_frame buf v = (if length buf < 12 then Inr None else Inr (extract_from buf v 0))"

record Dl645FrameCodec =
  codec_version :: Dl645Version

definition codec_decode :: "Dl645FrameCodec \<Rightarrow> bytes \<Rightarrow> (string, Dl645TypedFrame) decode_result" where
  "codec_decode codec src =
     (if src = [] then (Inr None, src)
      else case try_extract_frame src (codec_version codec) of
        Inl e \<Rightarrow> (Inl ''InvalidData'', [])
      | Inr None \<Rightarrow> (Inr None, src)
      | Inr (Some (owned, consumed)) \<Rightarrow> (Inr (Some owned), drop consumed src))"

text \<open>\<open>Encoder::encode\<close> appends to the write buffer of the transport.\<close>

definition codec_encode :: "Dl645FrameCodec \<Rightarrow> Dl645TypedFrame \<Rightarrow> bytes \<Rightarrow> (string + unit) \<times> bytes" where
  "codec_encode codec item dst =
     (let ctx = \<lparr>version = codec_version codec, function_code = None, is_exception = False\<rparr>
      in case typed_encode item ctx of
           (w, Inr _) \<Rightarrow> (Inr (), dst @ w)
         | (w, Inl e) \<Rightarrow> (Inl ''InvalidData'', dst @ w))"

section \<open>What the scan finds\<close>

text \<open>The two outcomes of one position: a complete frame, or a reason to go on.\<close>

definition frame_end :: "bytes \<Rightarrow> nat \<Rightarrow> nat" where
  "frame_end buf i = i + (12 + unat (buf ! (i + 9)))"

definition frame_at :: "bytes \<Rightarrow> Dl645Version \<Rightarrow> nat \<Rightarrow> Dl645TypedFrame \<Rightarrow> bool" where
  "frame_at buf v i f \<longleftrightarrow> frame_end buf i \<le> length buf
     \<and> (\<exists>rem. typed_parse (subslice buf i (frame_end buf i)) (ctx_new v) = Inr (rem, f))"

definition skipped_at :: "bytes \<Rightarrow> Dl645Version \<Rightarrow> nat \<Rightarrow> bool" where
  "skipped_at buf v i \<longleftrightarrow> i + 12 \<le> length buf
     \<and> (buf ! i \<noteq> 0x68 \<or> buf ! (i + 7) \<noteq> 0x68
         \<or> frame_end buf i \<le> length buf
           \<and> \<not> is_ok (typed_parse (subslice buf i (frame_end buf i)) (ctx_new v)))"

lemma frame_at_marks:
  assumes "frame_at buf v i f"
  shows "i + 12 \<le> length buf" "buf ! i = 0x68" "buf ! (i + 7) = 0x68"
proof -
  from assms obtain rem where fits: "frame_end buf i \<le> length buf"
    and p: "typed_parse (subslice buf i (frame_end buf i)) (ctx_new v) = Inr (rem, f)"
    by (auto simp: frame_at_def)
  show "i + 12 \<le> length buf" using fits by (simp add: frame_end_def)
  have "subslice buf i (frame_end buf i) ! 0 = buf ! i" "subslice buf i (frame_end buf i) ! 7 = buf ! (i + 7)"
    using fits by (simp_all add: nth_subslice frame_end_def)
  with frame_parse_checks(2,3) [OF p] show "buf ! i = 0x68" "buf ! (i + 7) = 0x68" by simp_all
qed

lemma extract_from_hit: "frame_at buf v i f \<Longrightarrow> extract_from buf v i = Some (f, frame_end buf i)"
  using frame_at_marks [of buf v i f]
  by (subst extract_from.simps) (auto simp: frame_at_def frame_end_def Let_def)

lemma extract_from_skip: "skipped_at buf v i \<Longrightarrow> extract_from buf v i = extract_from buf v (Suc i)"
  by (subst extract_from.simps)
    (auto simp: skipped_at_def frame_end_def Let_def is_ok_def split: sum.splits)

lemma extract_from_stop:
  "\<not> skipped_at buf v i \<Longrightarrow> \<nexists>f. frame_at buf v i f \<Longrightarrow> extract_from buf v i = None"
  by (subst extract_from.simps)
    (auto simp: skipped_at_def frame_at_def frame_end_def Let_def is_ok_def split: sum.splits)

lemma extract_from_skips:
  "\<forall>j. i \<le> j \<and> j < k \<longrightarrow> skipped_at buf v j \<Longrightarrow> i \<le> k \<Longrightarrow> extract_from buf v i = extract_from buf v k"
proof (induction "k - i" arbitrary: i)
  case 0
  then show ?case by simp
next
  case (Suc n)
  then have "skipped_at buf v i" by simp
  then have "extract_from buf v i = extract_from buf v (Suc i)" by (rule extract_from_skip)
  with Suc show ?case by simp
qed

text \<open>The scan returns the first complete frame behind positions that hold none.\<close>

lemma extract_from_iff:
  "extract_from buf v i = Some (f, n) \<longleftrightarrow>
     (\<exists>k\<ge>i. (\<forall>j. i \<le> j \<and> j < k \<longrightarrow> skipped_at buf v j) \<and> frame_at buf v k f \<and> n = frame_end buf k)"
    (is "?L i \<longleftrightarrow> ?R i")
proof
  assume "?R i"
  then show "?L i" using extract_from_skips [of i _ buf v] by (auto simp: extract_from_hit)
next
  show "?L i \<Longrightarrow> ?R i"
  proof (induction "length buf - i" arbitrary: i rule: less_induct)
    case less
    consider (skip) "skipped_at buf v i" | (hit) g where "frame_at buf v i g"
      using less.prems extract_from_stop by fastforce
    then show ?case
    proof cases
      case skip
      then have "length buf - Suc i < length buf - i" by (auto simp: skipped_at_def)
      moreover have "?L (Suc i)" using less.prems extract_from_skip [OF skip] by simp
      ultimately obtain k where k: "Suc i \<le> k" "\<forall>j. Suc i \<le> j \<and> j < k \<longrightarrow> skipped_at buf v j"
          "frame_at buf v k f" "n = frame_end buf k"
        using less.hyps by blast
      have "\<forall>j. i \<le> j \<and> j < k \<longrightarrow> skipped_at buf v j"
        using k(2) skip by (metis le_antisym not_less_eq_eq)
      with k show ?thesis using Suc_leD by blast
    next
      case hit
      then show ?thesis using less.prems extract_from_hit [OF hit] by force
    qed
  qed
qed

lemma frame_end_append: "i + 12 \<le> length buf \<Longrightarrow> frame_end (buf @ extra) i = frame_end buf i"
  by (simp add: frame_end_def nth_append)

lemma frame_at_append: "frame_at buf v i f \<Longrightarrow> frame_at (buf @ extra) v i f"
  using frame_at_marks(1) [of buf v i f] by (auto simp: frame_at_def frame_end_append)

lemma skipped_at_append: "skipped_at buf v i \<Longrightarrow> skipped_at (buf @ extra) v i"
  by (auto simp: skipped_at_def frame_end_append nth_append)

lemma extract_from_bounds: "extract_from buf v i = Some (f, n) \<Longrightarrow> i < n \<and> n \<le> length buf"
  by (auto simp: extract_from_iff frame_at_def frame_end_def)

lemma extract_from_stable:
  assumes "extract_from buf v i = Some (f, n)"
  shows "extract_from (buf @ extra) v i = Some (f, n)"
proof -
  from assms obtain k where k: "i \<le> k" "\<forall>j. i \<le> j \<and> j < k \<longrightarrow> skipped_at buf v j"
      "frame_at buf v k f" "n = frame_end buf k"
    by (auto simp: extract_from_iff)
  then have "n = frame_end (buf @ extra) k"
    using frame_at_marks(1) by (simp add: frame_end_append)
  with k show ?thesis
    unfolding extract_from_iff using frame_at_append skipped_at_append by blast
qed

section \<open>The decoder contract\<close>

lemma codec_decode_some:
  "codec_decode codec src = (Inr (Some f), rest) \<longleftrightarrow>
     (\<exists>n. extract_from src (codec_version codec) 0 = Some (f, n) \<and> rest = drop n src)"
proof (cases "length src < 12")
  case True
  then have "extract_from src (codec_version codec) 0 = None"
    by (simp add: extract_from.simps)
  with True show ?thesis by (auto simp: codec_decode_def try_extract_frame_def)
next
  case False
  then show ?thesis
    by (auto simp: codec_decode_def try_extract_frame_def split: option.splits)
qed

lemma codec_decode_waits: "codec_decode codec src = (Inr None, rest) \<Longrightarrow> rest = src"
  by (auto simp: codec_decode_def split: if_splits sum.splits option.splits)

lemma codec_decode_total: "\<exists>r rest. codec_decode codec src = (Inr r, rest)"
  by (auto simp: codec_decode_def try_extract_frame_def split: option.splits)

text \<open>The frames a codec of a given version can send, and the bytes \<open>encode\<close> appends for one.\<close>

definition sendable :: "Dl645FrameCodec \<Rightarrow> Dl645TypedFrame \<Rightarrow> bool" where
  "sendable codec = canonical_frame body_encoded_len canonical_body (ctx_new (codec_version codec))"

definition codec_bytes :: "Dl645FrameCodec \<Rightarrow> Dl645TypedFrame \<Rightarrow> bytes" where
  "codec_bytes codec f = snd (codec_encode codec f [])"

lemma codec_encode_eq:
  "codec_encode codec f dst =
     (case snd (typed_encode f (ctx_new (codec_version codec))) of Inr _ \<Rightarrow> Inr () | Inl _ \<Rightarrow> Inl ''InvalidData'',
      dst @ fst (typed_encode f (ctx_new (codec_version codec))))"
  by (simp add: codec_encode_def ctx_new_def Let_def split: prod.splits sum.splits)

lemma codec_bytes_eq: "codec_bytes codec f = fst (typed_encode f (ctx_new (codec_version codec)))"
  by (simp add: codec_bytes_def codec_encode_eq)

lemma codec_bytes_frame:
  assumes "sendable codec f"
  shows "12 \<le> length (codec_bytes codec f)"
    and "frame_end (codec_bytes codec f @ rest) 0 = length (codec_bytes codec f)"
    and "typed_parse (codec_bytes codec f) (ctx_new (codec_version codec)) = Inr ([], f)"
proof -
  let ?ctx = "ctx_new (codec_version codec)"
  define data where "data = map (\<lambda>b. b + 0x33) (fst (body_encode_to (body f) ?ctx))"
  have canon: "canonical_frame body_encoded_len canonical_body ?ctx f"
    using assms by (simp add: sendable_def)
  have w: "codec_bytes codec f = wire_frame (address f) (control f) data"
    using dl645_body.canonical_frame_encode(1) [OF canon] by (simp add: codec_bytes_eq data_def)
  have a: "wf_address (address f)" and n: "length data \<le> 255"
    using canon dl645_body.canonical_frame_encode(2) [OF canon]
    by (simp_all add: canonical_frame_def data_def)
  show len: "12 \<le> length (codec_bytes codec f)" by (simp add: w length_wire_frame [OF a])
  show "frame_end (codec_bytes codec f @ rest) 0 = length (codec_bytes codec f)"
    using len n
    by (simp add: frame_end_def nth_append w wire_frame_nth [OF a] length_wire_frame [OF a] unat_of_nat)
  show "typed_parse (codec_bytes codec f) ?ctx = Inr ([], f)"
    using dl645_body.frame_parse_encode [OF canon, of "[]"] by (simp add: codec_bytes_eq)
qed

text \<open>Bytes without a start mark in front of a frame are skipped.\<close>

lemma extract_after_noise:
  assumes f: "sendable codec f" and noise: "0x68 \<notin> set noise"
  shows "extract_from (noise @ codec_bytes codec f @ rest) (codec_version codec) 0
           = Some (f, length noise + length (codec_bytes codec f))"
proof -
  let ?buf = "noise @ codec_bytes codec f @ rest"
  let ?k = "length noise"
  note fr = codec_bytes_frame [OF f]
  have shift: "frame_end ?buf ?k = ?k + frame_end (codec_bytes codec f @ rest) 0"
    by (simp add: frame_end_def nth_append)
  then have fin: "frame_end ?buf ?k = ?k + length (codec_bytes codec f)" by (simp add: fr(2))
  have sub: "subslice ?buf ?k (frame_end ?buf ?k) = codec_bytes codec f"
    unfolding fin by (simp add: subslice_def)
  have at: "frame_at ?buf (codec_version codec) ?k f"
    unfolding frame_at_def sub by (simp add: fin fr(3))
  have skip: "skipped_at ?buf (codec_version codec) j" if "j < ?k" for j
  proof -
    have "noise ! j \<noteq> 0x68" using noise that by (metis nth_mem)
    with that fr(1) show ?thesis by (simp add: skipped_at_def nth_append)
  qed
  show ?thesis
    unfolding extract_from_iff by (rule exI [of _ ?k]) (use at skip fin in simp)
qed

lemma decode_after_noise:
  assumes "sendable codec f" "0x68 \<notin> set noise"
  shows "codec_decode codec (noise @ codec_bytes codec f @ rest) = (Inr (Some f), rest)"
  using extract_after_noise [OF assms, of rest] by (simp add: codec_decode_some)

interpretation dl645_codec: framed_codec "codec_decode codec" "codec_bytes codec" "sendable codec"
  for codec
proof unfold_locales
  fix buf f buf'
  assume "codec_decode codec buf = (Inr (Some f), buf')"
  then obtain n where n: "extract_from buf (codec_version codec) 0 = Some (f, n)" "buf' = drop n buf"
    by (auto simp: codec_decode_some)
  then have b: "0 < n" "n \<le> length buf" using extract_from_bounds by blast+
  then show "length buf' < length buf" by (simp add: n(2))
  show "codec_decode codec (buf @ extra) = (Inr (Some f), buf' @ extra)" for extra
    using extract_from_stable [OF n(1)] b by (simp add: codec_decode_some n(2))
next
  show "codec_decode codec buf = (Inr None, buf') \<Longrightarrow> codec_decode codec (buf @ extra) = codec_decode codec (buf' @ extra)"
    for buf buf' extra by (auto dest: codec_decode_waits)
  show "codec_decode codec [] = (Inr None, [])" by (simp add: codec_decode_def)
  show "codec_decode codec buf = (Inl e, buf') \<Longrightarrow> \<exists>buf''. codec_decode codec (buf @ extra) = (Inl e, buf'')"
    for buf e buf' extra using codec_decode_total [of codec buf] by auto
  show "sendable codec f \<Longrightarrow> codec_decode codec (codec_bytes codec f @ rest) = (Inr (Some f), rest)" for f rest
    using decode_after_noise [of codec f "[]"] by simp
qed

section \<open>Properties\<close>

definition codec_2007 :: Dl645FrameCodec where
  "codec_2007 = \<lparr>codec_version = V2007\<rparr>"

lemma sample_sendable: "sendable codec_2007 sample_request"
  using sample_request_canonical by (simp add: sendable_def codec_2007_def)

text \<open>C5: however the transport cuts a byte stream into chunks, any number of them and at any
  place, decoding them as they arrive gives the frames and the end that decoding the whole stream
  at once gives.  If the stream is a sequence of encoded frames, every one of them is delivered, in
  order, and nothing is left behind.\<close>

theorem dl645_stream_chunks:
  "receive (codec_decode codec) [] chunks
     = drain (Suc (length (concat chunks))) (codec_decode codec) (concat chunks)
   \<and> (list_all (sendable codec) fs \<and> concat chunks = concat (map (codec_bytes codec) fs)
       \<longrightarrow> receive (codec_decode codec) [] chunks = Some (fs, Waiting []))"
  using dl645_codec.receive_chunks dl645_codec.receive_stream by blast

text \<open>Two requests arriving in three chunks, the cuts inside the frames.\<close>

theorem dl645_stream_chunks_witness:
  "let bs = codec_bytes codec_2007 sample_request @ codec_bytes codec_2007 sample_request
   in receive (codec_decode codec_2007) [] [take 5 bs, take 14 (drop 5 bs), drop (5 + 14) bs]
      = Some ([sample_request, sample_request], Waiting [])"
proof -
  define bs where "bs = codec_bytes codec_2007 sample_request @ codec_bytes codec_2007 sample_request"
  have "concat (map (codec_bytes codec_2007) [sample_request, sample_request]) = bs" by (simp add: bs_def)
  then show ?thesis
    unfolding Let_def bs_def [symmetric]
    using dl645_stream_chunks [of codec_2007 "[take 5 bs, take 14 (drop 5 bs), drop (5 + 14) bs]" "[sample_request, sample_request]", THEN conjunct2]
      concat_three_chunks [of 5 bs 14] sample_sendable by (simp only: list.pred_inject simp_thms)
qed

text \<open>Bytes without a start mark in front of a frame, such as wake-up preambles, are skipped,
  and decoding stops at the end of the frame.\<close>

theorem dl645_resync_after_noise:
  assumes "sendable codec f" "0x68 \<notin> set noise"
  shows "codec_decode codec (noise @ codec_bytes codec f @ rest) = (Inr (Some f), rest)"
  using assms by (rule decode_after_noise)

theorem dl645_resync_after_noise_witness:
  "codec_decode codec_2007 ([0xFE, 0xFE, 0xFE, 0xFE] @ codec_bytes codec_2007 sample_request @ [0xFE])
     = (Inr (Some sample_request), [0xFE])"
  using dl645_resync_after_noise [OF sample_sendable, of "[0xFE, 0xFE, 0xFE, 0xFE]" "[0xFE]"] by simp

text \<open>Two marks at the right distance announce a frame even inside noise; while its announced
  end has not been received nothing behind it is decoded, complete frames included.\<close>

theorem dl645_false_start_blocks:
  assumes "12 \<le> length buf" "buf ! 0 = 0x68" "buf ! 7 = 0x68" "length buf < 12 + unat (buf ! 9)"
  shows "codec_decode codec buf = (Inr None, buf)"
proof -
  have "extract_from buf (codec_version codec) 0 = None"
    by (rule extract_from_stop) (use assms in \<open>auto simp: skipped_at_def frame_at_def frame_end_def\<close>)
  then show ?thesis by (simp add: codec_decode_def try_extract_frame_def)
qed

theorem dl645_false_start_blocks_witness:
  "codec_decode codec_2007 ([0x68, 0, 0, 0, 0, 0, 0, 0x68, 0, 0xFF] @ codec_bytes codec_2007 sample_request)
     = (Inr None, [0x68, 0, 0, 0, 0, 0, 0, 0x68, 0, 0xFF] @ codec_bytes codec_2007 sample_request)"
proof (rule dl645_false_start_blocks)
  have "length (codec_bytes codec_2007 sample_request) = 16"
    using dl645_body.canonical_frame_encode [OF sample_request_canonical]
    by (simp add: codec_bytes_eq codec_2007_def length_wire_frame)
      (simp add: sample_request_def build_read_data_frame_def frame_new_def sample_address_def wf_address_def
        length_wire_frame body_encoded_len_def wire_simps di_len_def)
  then show "12 \<le> length ([0x68, 0, 0, 0, 0, 0, 0, 0x68, 0, 0xFF] @ codec_bytes codec_2007 sample_request)"
    "length ([0x68, 0, 0, 0, 0, 0, 0, 0x68, 0, 0xFF] @ codec_bytes codec_2007 sample_request)
       < 12 + unat (([0x68, 0, 0, 0, 0, 0, 0, 0x68, 0, 0xFF] @ codec_bytes codec_2007 sample_request) ! 9)"
    by simp_all
qed simp_all

text \<open>When encoding fails, the frame header has already been appended to the write buffer of
  the transport, with at most the length byte behind it.\<close>

theorem dl645_failed_encode_leaves_header:
  assumes "codec_encode codec f dst = (Inl e, dst')"
  shows "\<exists>n. dst' = dst @ frame_header (address f) (control f) @ n \<and> length n \<le> 1"
proof -
  obtain e' where "snd (typed_encode f (ctx_new (codec_version codec))) = Inl e'"
    using assms by (auto simp: codec_encode_eq split: sum.splits)
  then show ?thesis using frame_encode_failure assms by (fastforce simp: codec_encode_eq)
qed

theorem dl645_failed_encode_leaves_header_witness:
  "\<exists>n. snd (codec_encode codec_2007 (build_modify_password_frame V2007 sample_address None 1 2) [])
        = frame_header sample_address (for_request V2007 Dl645Function.ModifyPassword) @ n \<and> length n \<le> 1"
proof -
  let ?f = "build_modify_password_frame V2007 sample_address None 1 2"
  have "\<exists>e. snd (typed_encode ?f (ctx_new V2007)) = Inl e"
    by (simp add: frame_encode_to_def build_modify_password_frame_def frame_new_def body_encode_to_def
        body_encoded_len_def wire_simps Let_def split: sum.splits)
  then obtain e where "snd (typed_encode ?f (ctx_new V2007)) = Inl e" by blast
  then have "codec_encode codec_2007 ?f [] = (Inl ''InvalidData'', fst (typed_encode ?f (ctx_new V2007)))"
    by (simp add: codec_encode_eq codec_2007_def)
  from dl645_failed_encode_leaves_header [OF this] show ?thesis
    by (simp add: codec_encode_eq codec_2007_def build_modify_password_frame_def frame_new_def)
qed

end
