(* ===== verification/Dlt645_Session.thy ===== *)
theory Dlt645_Session
  imports Dlt645_Codec "HOL-Library.Signed_Division"
begin

text \<open>
  The DL/T 645 session (\<open>protocol/session/mod.rs\<close>): the request parameters and the helpers that
  build them, the aggregation of multi-frame responses \<open>request_full\<close>, the semantic requests
  of the \<open>Dl645Session\<close> trait and its implementation over a framed transport.

  The trait's required methods and the \<open>tokio\<close> transport are parameters (records of
  functions on an arbitrary transport state); \<open>request_full\<close> is characterised completely: it
  succeeds exactly on a well-formed chain of response frames within the limit, and then
  returns that chain and its concatenated payload.
\<close>

section \<open>Request parameters\<close>

record SessionConfig =
  wakeup_preamble :: bytes
  cfg_version :: Dl645Version

record WriteDataParams =
  wdp_version :: Dl645Version
  wdp_address :: Dl645Address
  wdp_di :: u32
  wdp_value_bytes :: bytes
  wdp_password :: u32
  wdp_operator_code :: "u32 option"

record ReadDataParams =
  rdp_version :: Dl645Version
  rdp_address :: Dl645Address
  rdp_di :: u32

record WriteAddressParams =
  wap_version :: Dl645Version
  wap_current_address :: Dl645Address
  wap_new_address :: Dl645Address

record BroadcastTimeSyncParams =
  tsp_version :: Dl645Version
  tsp_timestamp_bcd :: bytes

record FreezeParams =
  fzp_version :: Dl645Version
  fzp_address :: Dl645Address
  fzp_pattern_bcd :: bytes

record UpdateBaudRateParams =
  brp_version :: Dl645Version
  brp_address :: Dl645Address
  brp_code :: u8

record ModifyPasswordParams =
  mpp_version :: Dl645Version
  mpp_address :: Dl645Address
  mpp_di :: "u32 option"
  mpp_old_password :: u32
  mpp_new_password :: u32

record ClearMaxDemandParams =
  cdp_version :: Dl645Version
  cdp_address :: Dl645Address
  cdp_password :: u32
  cdp_operator_code :: "u32 option"

record ClearMeterParams =
  cmp_version :: Dl645Version
  cmp_address :: Dl645Address
  cmp_password :: u32
  cmp_operator_code :: "u32 option"

record ClearEventsParams =
  cep_version :: Dl645Version
  cep_address :: Dl645Address
  cep_di :: u32
  cep_password :: u32
  cep_operator_code :: "u32 option"

definition from_new_address ::
    "Dl645Version \<Rightarrow> Dl645Address \<Rightarrow> Dl645Address \<Rightarrow> ProtocolError + WriteAddressParams" where
  "from_new_address v current new =
     Inr \<lparr>wap_version = v, wap_current_address = current, wap_new_address = new\<rparr>"

text \<open>The broken-down UTC time \<open>chrono\<close> computes from a timestamp; the computation itself is a
  parameter.\<close>

record utc_time =
  utc_year :: int
  utc_month :: u32
  utc_day :: u32
  utc_hour :: u32
  utc_minute :: u32
  utc_second :: u32

definition to_bcd :: "u32 \<Rightarrow> u8" where
  "to_bcd v = (push_bit 4 (ucast (v div 10)) OR ucast (v mod 10))"

definition from_unix_secs ::
    "(int \<Rightarrow> utc_time option) \<Rightarrow> Dl645Version \<Rightarrow> int \<Rightarrow> ProtocolError + BroadcastTimeSyncParams" where
  "from_unix_secs timestamp_opt v ts_secs =
     (if ts_secs < 0
      then Inl (InvalidFrame ''DL/T 645 time sync value must be non-negative Unix timestamp'')
      else case timestamp_opt ts_secs of
        None \<Rightarrow> Inl (InvalidFrame ''DL/T 645 time sync timestamp is invalid or out of range'')
      | Some dt \<Rightarrow>
          let year = (word_of_int (utc_year dt smod 100) :: u32)
          in Inr \<lparr>tsp_version = v,
                  tsp_timestamp_bcd = [to_bcd (utc_second dt), to_bcd (utc_minute dt), to_bcd (utc_hour dt),
                                       to_bcd (utc_day dt), to_bcd (utc_month dt), to_bcd year]\<rparr>)"

text \<open>\<open>str::parse::<u32>\<close>: an optional plus sign and at least one digit, checked for overflow.\<close>

definition dec_value :: "string \<Rightarrow> nat" where
  "dec_value s = fold (\<lambda>c acc. 10 * acc + unat (char_byte c - 48)) s 0"

definition parse_u32 :: "string \<Rightarrow> u32 option" where
  "parse_u32 s =
     (let ds = (case s of c # cs \<Rightarrow> if c = CHR ''+'' then cs else s | [] \<Rightarrow> [])
      in if ds \<noteq> [] \<and> list_all is_ascii_digit ds \<and> dec_value ds < 2 ^ 32
         then Some (of_nat (dec_value ds)) else None)"

definition to_bcd_from_dec_str :: "string \<Rightarrow> ProtocolError + u8" where
  "to_bcd_from_dec_str s =
     (case parse_u32 s of
        None \<Rightarrow> Inl (InvalidFrame ''DL/T 645 freeze pattern numeric component out of range'')
      | Some v \<Rightarrow>
          if v > 99 then Inl (InvalidFrame ''DL/T 645 freeze pattern component must be between 0 and 99'')
          else Inr (push_bit 4 (ucast (v div 10)) OR ucast (v mod 10)))"

definition from_pattern_str ::
    "Dl645Version \<Rightarrow> Dl645Address \<Rightarrow> string \<Rightarrow> ProtocolError + FreezeParams" where
  "from_pattern_str v a pattern =
     (if length pattern \<noteq> 8 \<or> \<not> list_all is_ascii_digit pattern
      then Inl (InvalidFrame ''DL/T 645 freeze pattern must be 8 decimal digits (MMDDhhmm)'')
      else
        let mm = subslice pattern 0 2; dd = subslice pattern 2 4;
            hh = subslice pattern 4 6; min = subslice pattern 6 8
        in res_bind (to_bcd_from_dec_str min) (\<lambda>b0.
           res_bind (to_bcd_from_dec_str hh) (\<lambda>b1.
           res_bind (to_bcd_from_dec_str dd) (\<lambda>b2.
           res_bind (to_bcd_from_dec_str mm) (\<lambda>b3.
             Inr \<lparr>fzp_version = v, fzp_address = a, fzp_pattern_bcd = [b0, b1, b2, b3]\<rparr>)))))"

section \<open>The session trait\<close>

text \<open>The required methods of \<open>Dl645Session\<close>, on the state \<open>'s\<close> of whatever implements them.
  Durations are in milliseconds.\<close>

record 's Dl645Session =
  send_only :: "Dl645TypedFrame \<Rightarrow> nat \<Rightarrow> 's \<Rightarrow> (ProtocolError + unit) \<times> 's"
  request :: "Dl645TypedFrame \<Rightarrow> nat \<Rightarrow> 's \<Rightarrow> (ProtocolError + Dl645TypedFrame) \<times> 's"
  read_next_frame :: "nat \<Rightarrow> 's \<Rightarrow> (ProtocolError + Dl645TypedFrame) \<times> 's"
  close_session :: "'s \<Rightarrow> (ProtocolError + unit) \<times> 's"

record Dl645LogicalResponse =
  resp_address :: Dl645Address
  resp_frames :: "Dl645TypedFrame list"
  resp_payload :: bytes

text \<open>What one frame contributes to the payload: raw data as it is, a structured body encoded
  again, or its payload when that fails.\<close>

definition frame_payload :: "Dl645Version \<Rightarrow> Dl645TypedFrame \<Rightarrow> bytes" where
  "frame_payload v f =
     (case body f of
        Raw data \<Rightarrow> data
      | other \<Rightarrow>
          (case body_encode_to other (ctx_new v) of
             (buf, Inr _) \<Rightarrow> buf
           | (_, Inl _) \<Rightarrow> (case data_payload other of Some data \<Rightarrow> data | None \<Rightarrow> [])))"

definition view_error :: "Dl645ResponseFrameView \<Rightarrow> ProtocolError" where
  "view_error view =
     Exception (case view_exception_code view of Some c \<Rightarrow> c | None \<Rightarrow> Dl645ExceptionCode.Unknown 0)"

text \<open>The loop over subsequent frames; the first argument counts the iterations left.\<close>

fun read_following ::
    "nat \<Rightarrow> 's Dl645Session \<Rightarrow> nat \<Rightarrow> Dl645Version \<Rightarrow> Dl645Function \<Rightarrow> Dl645TypedFrame list \<Rightarrow> bytes
      \<Rightarrow> 's \<Rightarrow> (ProtocolError + Dl645LogicalResponse) \<times> 's" where
  "read_following 0 ses t v first_function frames payload s =
     (Inl (Semantic ''too many subsequent frames, possible protocol loop''), s)"
| "read_following (Suc n) ses t v first_function frames payload s =
     (case read_next_frame ses t s of
        (Inl e, s1) \<Rightarrow> (Inl e, s1)
      | (Inr next, s1) \<Rightarrow>
          let next_view = as_response_view next
          in if address next \<noteq> address (frames ! 0)
             then (Inl (Semantic ''address mismatch in subsequent frame''), s1)
             else if direction (view_ctrl next_view) \<noteq> SlaveToMaster
             then (Inl (Semantic ''unexpected direction in subsequent frame''), s1)
             else if view_function next_view \<noteq> first_function
             then (Inl (Semantic ''function code mismatch in subsequent frame''), s1)
             else if view_is_exception next_view then (Inl (view_error next_view), s1)
             else
               let payload = payload @ frame_payload v next;
                   has_more = view_has_following_frame next_view;
                   frames = frames @ [next]
               in if \<not> has_more
                  then (Inr \<lparr>resp_address = address (frames ! 0), resp_frames = frames,
                             resp_payload = payload\<rparr>, s1)
                  else read_following n ses t v first_function frames payload s1)"

definition request_full ::
    "'s Dl645Session \<Rightarrow> Dl645TypedFrame \<Rightarrow> nat \<Rightarrow> nat \<Rightarrow> Dl645Version
      \<Rightarrow> 's \<Rightarrow> (ProtocolError + Dl645LogicalResponse) \<times> 's" where
  "request_full ses request_frame t max_frames v s =
     (if max_frames = 0 then (Inl (Semantic ''DL/T645: max_frames must be greater than zero''), s)
      else case request ses request_frame t s of
        (Inl e, s1) \<Rightarrow> (Inl e, s1)
      | (Inr first_resp, s1) \<Rightarrow>
          let view = as_response_view first_resp
          in if direction (view_ctrl view) \<noteq> SlaveToMaster
             then (Inl (Semantic ''unexpected direction in first response''), s1)
             else if view_is_exception view then (Inl (view_error view), s1)
             else
               let payload = frame_payload v first_resp; frames = [first_resp]
               in if \<not> view_has_following_frame view
                  then (Inr \<lparr>resp_address = address (frames ! 0), resp_frames = frames,
                             resp_payload = payload\<rparr>, s1)
                  else read_following (max_frames - 1) ses t v (view_function view) frames payload s1)"

section \<open>Semantic requests\<close>

definition read_data ::
    "'s Dl645Session \<Rightarrow> ReadDataParams \<Rightarrow> nat \<Rightarrow> nat \<Rightarrow> 's \<Rightarrow> (ProtocolError + Dl645LogicalResponse) \<times> 's" where
  "read_data ses p t max_frames =
     request_full ses (build_read_data_frame (rdp_version p) (rdp_address p) (rdp_di p)) t max_frames
       (rdp_version p)"

definition write_data ::
    "'s Dl645Session \<Rightarrow> WriteDataParams \<Rightarrow> nat \<Rightarrow> nat \<Rightarrow> 's \<Rightarrow> (ProtocolError + Dl645LogicalResponse) \<times> 's" where
  "write_data ses p t max_frames =
     request_full ses
       (build_write_data_frame (wdp_version p) (wdp_address p) (wdp_di p) (wdp_value_bytes p)
          (wdp_password p) (wdp_operator_code p)) t max_frames (wdp_version p)"

definition write_address ::
    "'s Dl645Session \<Rightarrow> WriteAddressParams \<Rightarrow> nat \<Rightarrow> 's \<Rightarrow> (ProtocolError + Dl645LogicalResponse) \<times> 's" where
  "write_address ses p t =
     request_full ses (build_write_address_frame (wap_version p) (wap_current_address p) (wap_new_address p))
       t 1 (wap_version p)"

definition broadcast_time_sync ::
    "'s Dl645Session \<Rightarrow> BroadcastTimeSyncParams \<Rightarrow> nat \<Rightarrow> 's \<Rightarrow> (ProtocolError + unit) \<times> 's" where
  "broadcast_time_sync ses p t =
     send_only ses (build_broadcast_time_sync_frame (tsp_version p) (tsp_timestamp_bcd p)) t"

definition freeze_meter ::
    "'s Dl645Session \<Rightarrow> FreezeParams \<Rightarrow> nat \<Rightarrow> 's \<Rightarrow> (ProtocolError + Dl645LogicalResponse) \<times> 's" where
  "freeze_meter ses p t =
     request_full ses (build_freeze_frame (fzp_version p) (fzp_address p) (fzp_pattern_bcd p)) t 1
       (fzp_version p)"

definition update_baud_rate ::
    "'s Dl645Session \<Rightarrow> UpdateBaudRateParams \<Rightarrow> nat \<Rightarrow> 's \<Rightarrow> (ProtocolError + Dl645LogicalResponse) \<times> 's" where
  "update_baud_rate ses p t =
     request_full ses (build_update_baud_rate_frame (brp_version p) (brp_address p) (brp_code p)) t 1
       (brp_version p)"

definition modify_password ::
    "'s Dl645Session \<Rightarrow> ModifyPasswordParams \<Rightarrow> nat \<Rightarrow> 's \<Rightarrow> (ProtocolError + Dl645LogicalResponse) \<times> 's" where
  "modify_password ses p t =
     request_full ses
       (build_modify_password_frame (mpp_version p) (mpp_address p) (mpp_di p) (mpp_old_password p)
          (mpp_new_password p)) t 1 (mpp_version p)"

definition clear_max_demand ::
    "'s Dl645Session \<Rightarrow> ClearMaxDemandParams \<Rightarrow> nat \<Rightarrow> 's \<Rightarrow> (ProtocolError + unit) \<times> 's" where
  "clear_max_demand ses p t =
     send_only ses
       (build_clear_max_demand_frame (cdp_version p) (cdp_address p) (cdp_password p) (cdp_operator_code p)) t"

definition clear_meter ::
    "'s Dl645Session \<Rightarrow> ClearMeterParams \<Rightarrow> nat \<Rightarrow> 's \<Rightarrow> (ProtocolError + Dl645LogicalResponse) \<times> 's" where
  "clear_meter ses p t =
     request_full ses
       (build_clear_meter_frame (cmp_version p) (cmp_address p) (cmp_password p) (cmp_operator_code p)) t 1
       (cmp_version p)"

definition clear_events ::
    "'s Dl645Session \<Rightarrow> ClearEventsParams \<Rightarrow> nat \<Rightarrow> 's \<Rightarrow> (ProtocolError + Dl645LogicalResponse) \<times> 's" where
  "clear_events ses p t =
     request_full ses
       (build_clear_events_frame (cep_version p) (cep_address p) (cep_di p) (cep_password p)
          (cep_operator_code p)) t 1 (cep_version p)"

section \<open>The implementation over a framed transport\<close>

text \<open>What the implementation uses of \<open>tokio\<close> and \<open>tokio_util\<close>, on the transport state \<open>'s\<close>:
  \<open>write_all\<close> and \<open>close\<close> of the stream, \<open>send\<close> and \<open>next\<close> of \<open>Framed\<close>, the last two also under
  \<open>timeout\<close>, where \<open>None\<close> means that the time was up.\<close>

record 's framed_io =
  io_write_all :: "bytes \<Rightarrow> 's \<Rightarrow> (string + unit) \<times> 's"
  io_send :: "Dl645TypedFrame \<Rightarrow> 's \<Rightarrow> (string + unit) \<times> 's"
  io_send_within :: "nat \<Rightarrow> Dl645TypedFrame \<Rightarrow> 's \<Rightarrow> (string + unit) option \<times> 's"
  io_next_within :: "nat \<Rightarrow> 's \<Rightarrow> (string + Dl645TypedFrame) option option \<times> 's"
  io_close :: "'s \<Rightarrow> (string + unit) \<times> 's"

definition write_preamble :: "SessionConfig \<Rightarrow> 's framed_io \<Rightarrow> 's \<Rightarrow> (ProtocolError + unit) \<times> 's" where
  "write_preamble cfg io s =
     (if wakeup_preamble cfg \<noteq> []
      then case io_write_all io (wakeup_preamble cfg) s of
             (Inl e, s1) \<Rightarrow> (Inl (Io e), s1)
           | (Inr _, s1) \<Rightarrow> (Inr (), s1)
      else (Inr (), s))"

definition impl_send_only ::
    "SessionConfig \<Rightarrow> 's framed_io \<Rightarrow> Dl645TypedFrame \<Rightarrow> nat \<Rightarrow> 's \<Rightarrow> (ProtocolError + unit) \<times> 's" where
  "impl_send_only cfg io frame t s =
     (case write_preamble cfg io s of
        (Inl e, s1) \<Rightarrow> (Inl e, s1)
      | (Inr _, s1) \<Rightarrow>
          (case io_send_within io t frame s1 of
             (Some (Inr _), s2) \<Rightarrow> (Inr (), s2)
           | (Some (Inl e), s2) \<Rightarrow> (Inl (Io e), s2)
           | (None, s2) \<Rightarrow> (Inl (Timeout t), s2)))"

definition impl_read_next_frame ::
    "'s framed_io \<Rightarrow> nat \<Rightarrow> 's \<Rightarrow> (ProtocolError + Dl645TypedFrame) \<times> 's" where
  "impl_read_next_frame io t s =
     (case io_next_within io t s of
        (Some (Some (Inr resp)), s1) \<Rightarrow> (Inr resp, s1)
      | (Some (Some (Inl e)), s1) \<Rightarrow> (Inl (Io e), s1)
      | (Some None, s1) \<Rightarrow> (Inl (Transport ''Connection closed''), s1)
      | (None, s1) \<Rightarrow> (Inl (Timeout t), s1))"

definition impl_request ::
    "SessionConfig \<Rightarrow> 's framed_io \<Rightarrow> Dl645TypedFrame \<Rightarrow> nat \<Rightarrow> 's \<Rightarrow> (ProtocolError + Dl645TypedFrame) \<times> 's" where
  "impl_request cfg io frame t s =
     (case write_preamble cfg io s of
        (Inl e, s1) \<Rightarrow> (Inl e, s1)
      | (Inr _, s1) \<Rightarrow>
          (case io_send io frame s1 of
             (Inl e, s2) \<Rightarrow> (Inl (Io e), s2)
           | (Inr _, s2) \<Rightarrow>
               (case io_next_within io t s2 of
                  (Some (Some (Inr resp)), s3) \<Rightarrow> (Inr resp, s3)
                | (Some (Some (Inl e)), s3) \<Rightarrow> (Inl (Io e), s3)
                | (Some None, s3) \<Rightarrow> (Inl (Transport ''Connection closed''), s3)
                | (None, s3) \<Rightarrow> (Inl (Timeout t), s3))))"

definition impl_close :: "'s framed_io \<Rightarrow> 's \<Rightarrow> (ProtocolError + unit) \<times> 's" where
  "impl_close io s = (case io_close io s of (Inl e, s1) \<Rightarrow> (Inl (Io e), s1) | (Inr _, s1) \<Rightarrow> (Inr (), s1))"

definition Dl645SessionImpl :: "SessionConfig \<Rightarrow> 's framed_io \<Rightarrow> 's Dl645Session" where
  "Dl645SessionImpl cfg io =
     \<lparr>send_only = impl_send_only cfg io, request = impl_request cfg io,
      read_next_frame = impl_read_next_frame io, close_session = impl_close io\<rparr>"

section \<open>What a logical response is\<close>

text \<open>The frames of one response: same address and function, all from the meter, none an
  exception, and the more-follows flag set on all but the last.\<close>

definition response_frames :: "Dl645TypedFrame list \<Rightarrow> bool" where
  "response_frames fs \<longleftrightarrow> fs \<noteq> []
     \<and> list_all (\<lambda>f. address f = address (hd fs) \<and> direction (control f) = SlaveToMaster
          \<and> control_function (control f) = control_function (control (hd fs))
          \<and> \<not> is_exception_response (control f)) fs
     \<and> list_all (\<lambda>f. has_following_frame (control f)) (butlast fs)
     \<and> \<not> has_following_frame (control (last fs))"

definition logical_response :: "Dl645Version \<Rightarrow> Dl645TypedFrame list \<Rightarrow> Dl645LogicalResponse" where
  "logical_response v fs =
     \<lparr>resp_address = address (hd fs), resp_frames = fs, resp_payload = concat (map (frame_payload v) fs)\<rparr>"

text \<open>The transport hands out the frames \<open>fs\<close> one after the other.\<close>

fun delivers :: "'s Dl645Session \<Rightarrow> nat \<Rightarrow> 's \<Rightarrow> Dl645TypedFrame list \<Rightarrow> 's \<Rightarrow> bool" where
  "delivers ses t s [] s' = (s' = s)"
| "delivers ses t s (f # fs) s' = (\<exists>s1. read_next_frame ses t s = (Inr f, s1) \<and> delivers ses t s1 fs s')"

text \<open>The frames behind the first one, given its address and function.\<close>

fun following_ok :: "Dl645Address \<Rightarrow> Dl645Function \<Rightarrow> Dl645TypedFrame list \<Rightarrow> bool" where
  "following_ok a fn [] = False"
| "following_ok a fn (f # fs) \<longleftrightarrow>
     address f = a \<and> direction (control f) = SlaveToMaster \<and> control_function (control f) = fn
       \<and> \<not> is_exception_response (control f)
       \<and> (if has_following_frame (control f) then following_ok a fn fs else fs = [])"

lemma view_simps [simp]:
  "view_ctrl (as_response_view f) = control f"
  "view_function (as_response_view f) = control_function (control f)"
  "view_is_exception (as_response_view f) = is_exception_response (control f)"
  "view_has_following_frame (as_response_view f) = has_following_frame (control f)"
  by (simp_all add: as_response_view_def Let_def)

lemma ex_list_iff: "(\<exists>xs. P xs) \<longleftrightarrow> P [] \<or> (\<exists>x xs. P (x # xs))"
  by (metis neq_Nil_conv)

lemma read_following_iff:
  assumes "frames \<noteq> []"
  shows "read_following n ses t v fn frames payload s = (Inr r, s') \<longleftrightarrow>
     (\<exists>fs. delivers ses t s fs s' \<and> following_ok (address (hd frames)) fn fs \<and> length fs \<le> n
        \<and> r = \<lparr>resp_address = address (hd frames), resp_frames = frames @ fs,
                resp_payload = payload @ concat (map (frame_payload v) fs)\<rparr>)"
  using assms
proof (induction n arbitrary: frames payload s)
  case 0
  then show ?case by auto
next
  case (Suc n)
  have 0: "frames ! 0 = hd frames" "(frames @ [f]) ! 0 = hd frames" for f
    using Suc.prems by (simp_all add: hd_conv_nth nth_append)
  obtain res s1 where read: "read_next_frame ses t s = (res, s1)" by fastforce
  show ?case
  proof (cases res)
    case (Inl e)
    then have "\<not> (delivers ses t s fs s' \<and> following_ok (address (hd frames)) fn fs)" for fs
      using read by (cases fs) auto
    with read Inl show ?thesis by auto
  next
    case (Inr f)
    then show ?thesis
      using read Suc.IH [of "frames @ [f]" "payload @ frame_payload v f" s1] Suc.prems
      by (subst ex_list_iff) (auto simp: 0 Let_def hd_append)
  qed
qed

lemma response_frames_Cons:
  "response_frames (f # fs) \<longleftrightarrow>
     direction (control f) = SlaveToMaster \<and> \<not> is_exception_response (control f)
       \<and> (if has_following_frame (control f)
           then following_ok (address f) (control_function (control f)) fs else fs = [])"
proof -
  have "following_ok a fn gs \<longleftrightarrow> gs \<noteq> []
     \<and> list_all (\<lambda>f. address f = a \<and> direction (control f) = SlaveToMaster
          \<and> control_function (control f) = fn \<and> \<not> is_exception_response (control f)) gs
     \<and> list_all (\<lambda>f. has_following_frame (control f)) (butlast gs)
     \<and> \<not> has_following_frame (control (last gs))" for a fn gs
    by (induction gs) auto
  then show ?thesis by (cases fs) (auto simp: response_frames_def)
qed

lemma request_full_succeeds_iff:
  "request_full ses req t n v s = (Inr r, s') \<longleftrightarrow>
     (\<exists>f fs s1. request ses req t s = (Inr f, s1) \<and> delivers ses t s1 fs s'
        \<and> response_frames (f # fs) \<and> length (f # fs) \<le> n \<and> r = logical_response v (f # fs))"
proof (cases "n = 0")
  case True
  then show ?thesis by (simp add: request_full_def)
next
  case False
  obtain res s1 where req: "request ses req t s = (res, s1)" by fastforce
  show ?thesis
  proof (cases res)
    case (Inl e)
    with req False show ?thesis by (simp add: request_full_def)
  next
    case (Inr f)
    have "length fs \<le> n - 1 \<longleftrightarrow> Suc (length fs) \<le> n" for fs :: "Dl645TypedFrame list"
      using False by linarith
    then show ?thesis
      using req Inr False
      by (auto simp: request_full_def response_frames_Cons read_following_iff logical_response_def Let_def)
  qed
qed

text \<open>An exception answer is reported with the code the meter sent.\<close>

lemma request_full_exception:
  assumes "request ses req t s = (Inr f, s1)" "0 < n"
    and "direction (control f) = SlaveToMaster" "is_exception_response (control f)"
  shows "request_full ses req t n v s =
     (Inl (Exception (case data_payload (body f) of
                        Some (b # _) \<Rightarrow> exception_from_byte b
                      | _ \<Rightarrow> Dl645ExceptionCode.Unknown 0)), s1)"
  using assms
  by (auto simp: request_full_def view_error_def as_response_view_def Let_def
      split: option.splits list.splits bind_splits)

lemma frame_payload_encode:
  assumes "snd (body_encode_to (body f) (ctx_new v)) = Inr ()"
  shows "frame_payload v f = fst (body_encode_to (body f) (ctx_new v))"
  using assms by (auto simp: frame_payload_def body_encode_to_def split: Dl645Body.splits prod.splits)

text \<open>For frames parsed off the wire the payload is the data field, up to bytes the body parser
  leaves unread.\<close>

lemma frame_payload_parsed:
  assumes "typed_parse input (ctx_new v) = Inr (rest, f)"
  shows "\<exists>rem. map (\<lambda>b. b - 0x33) (subslice input 10 (10 + unat (input ! 9))) = frame_payload v f @ rem"
proof -
  obtain rem where rem: "body_parse (map (\<lambda>b. b - 0x33) (subslice input 10 (10 + unat (input ! 9))))
      (frame_ctx (ctx_new v) (control f)) = Inr (rem, body f)"
    using frame_parse_checks(9) [OF assms] unfolding frame_ctx_def by blast
  have "body_encode_to (body f) (frame_ctx (ctx_new v) (control f)) = body_encode_to (body f) (ctx_new v)"
    by (rule body_encode_version) simp
  with body_parse_exact [OF rem] show ?thesis using frame_payload_encode by metis
qed

section \<open>Receiving a response over the codec\<close>

text \<open>The documented behaviour of \<open>Framed::next\<close> the session relies on: when the receive buffer
  already holds what the codec decodes to a frame, that frame is returned and its bytes are gone.\<close>

definition framed_reads :: "Dl645FrameCodec \<Rightarrow> 's framed_io \<Rightarrow> ('s \<Rightarrow> bytes) \<Rightarrow> bool" where
  "framed_reads codec io rx \<longleftrightarrow>
     (\<forall>t s f rest. codec_decode codec (rx s) = (Inr (Some f), rest)
        \<longrightarrow> (\<exists>s'. io_next_within io t s = (Some (Some (Inr f)), s') \<and> rx s' = rest))"

lemma framed_reads_next:
  assumes "framed_reads codec io rx" "rx s = noise @ codec_bytes codec f @ rest"
    and "sendable codec f" "0x68 \<notin> set noise"
  shows "\<exists>s'. io_next_within io t s = (Some (Some (Inr f)), s') \<and> rx s' = rest"
  using assms decode_after_noise [of codec f noise rest] by (simp add: framed_reads_def)

lemma delivers_stream:
  assumes "framed_reads codec io rx" "list_all (sendable codec) fs"
    and "rx s = concat (map (codec_bytes codec) fs) @ rest"
  shows "\<exists>s'. delivers (Dl645SessionImpl cfg io) t s fs s' \<and> rx s' = rest"
  using assms(2,3)
proof (induction fs arbitrary: s)
  case Nil
  then show ?case by simp
next
  case (Cons f fs)
  then obtain s1 where s1: "io_next_within io t s = (Some (Some (Inr f)), s1)"
      "rx s1 = concat (map (codec_bytes codec) fs) @ rest"
    using framed_reads_next [OF assms(1), of s "[]" f _ t] by auto
  then obtain s' where "delivers (Dl645SessionImpl cfg io) t s1 fs s'" "rx s' = rest"
    using Cons.IH [of s1] Cons.prems(1) by auto
  with s1 show ?case by (auto simp: Dl645SessionImpl_def impl_read_next_frame_def)
qed

lemma session_receives_response:
  assumes io: "framed_reads codec io rx"
    and pre: "write_preamble cfg io s = (Inr (), s1)" and snd: "io_send io req s1 = (Inr (), s2)"
    and rx: "rx s2 = noise @ concat (map (codec_bytes codec) fs) @ rest" and noise: "0x68 \<notin> set noise"
    and fs: "list_all (sendable codec) fs" "response_frames fs" "length fs \<le> n"
  shows "\<exists>s'. request_full (Dl645SessionImpl cfg io) req t n (codec_version codec) s
               = (Inr (logical_response (codec_version codec) fs), s') \<and> rx s' = rest"
proof -
  obtain f gs where f: "fs = f # gs" using fs(2) by (cases fs) (auto simp: response_frames_def)
  then obtain s3 where s3: "io_next_within io t s2 = (Some (Some (Inr f)), s3)"
      "rx s3 = concat (map (codec_bytes codec) gs) @ rest"
    using framed_reads_next [OF io, of s2 noise f] rx noise fs(1) by auto
  then have req: "request (Dl645SessionImpl cfg io) req t s = (Inr f, s3)"
    using pre snd by (simp add: Dl645SessionImpl_def impl_request_def)
  obtain s' where "delivers (Dl645SessionImpl cfg io) t s3 gs s'" "rx s' = rest"
    using delivers_stream [OF io _ s3(2)] fs(1) f by auto
  with req fs f show ?thesis by (auto simp: request_full_succeeds_iff)
qed

section \<open>Parameters built from text and time\<close>

lemma bcd_two_digits:
  assumes "is_ascii_digit c" "is_ascii_digit d"
  shows "\<exists>b. to_bcd_from_dec_str [c, d] = Inr b \<and> bcd_chars b = [c, d]"
proof -
  obtain h l where h: "h < 10" "char_byte c - 48 = of_nat h" "byte_char (48 + of_nat h) = c"
    and l: "l < 10" "char_byte d - 48 = of_nat l" "byte_char (48 + of_nat l) = d"
    using assms by (metis digit_byte_cases)
  have c: "c \<noteq> CHR ''+''" using assms(1) by (auto simp: is_ascii_digit_def)
  define k where "k = 10 * h + l"
  have k: "k < 100" "k div 10 = h" "k mod 10 = l" using h(1) l(1) by (simp_all add: k_def)
  have "dec_value [c, d] = k"
    using h l by (simp add: dec_value_def unat_of_nat k_def)
  then have p: "parse_u32 [c, d] = Some (of_nat k)"
    using assms c k(1) by (simp add: parse_u32_def)
  have u: "unat (of_nat k :: u32) = k" using k(1) by (simp add: unat_of_nat)
  have "(of_nat k :: u32) div 10 = of_nat h" "(of_nat k :: u32) mod 10 = of_nat l"
    using k h(1) l(1) u by (simp_all add: word_unat_eq_iff unat_div unat_mod unat_of_nat)
  moreover have "(ucast (of_nat n :: u32) :: u8) = of_nat n" for n by (rule ucast_of_nat_u8)
  moreover have "\<not> (99 :: u32) < of_nat k"
    using k(1) u by (simp add: word_less_nat_alt)
  ultimately have "to_bcd_from_dec_str [c, d] = Inr (push_bit 4 (of_nat h) OR of_nat l)"
    using p h(1) l(1) by (simp add: to_bcd_from_dec_str_def)
  moreover have "bcd_chars (push_bit 4 (of_nat h) OR of_nat l) = [c, d]"
    using nibble_pack [OF nibble_small nibble_small, of h l] h l by (simp add: bcd_chars_def Let_def)
  ultimately show ?thesis by blast
qed

lemma pattern_roundtrip:
  assumes "length p = 8" "list_all is_ascii_digit p"
  shows "\<exists>bcd. from_pattern_str v a p = Inr \<lparr>fzp_version = v, fzp_address = a, fzp_pattern_bcd = bcd\<rparr>
           \<and> length bcd = 4 \<and> concat (map bcd_chars (rev bcd)) = p"
proof -
  obtain c0 c1 c2 c3 c4 c5 c6 c7 where p: "p = [c0, c1, c2, c3, c4, c5, c6, c7]"
    using assms(1) by (auto simp: length_Suc_conv numeral_eq_Suc)
  then have d: "is_ascii_digit c0" "is_ascii_digit c1" "is_ascii_digit c2" "is_ascii_digit c3"
      "is_ascii_digit c4" "is_ascii_digit c5" "is_ascii_digit c6" "is_ascii_digit c7"
    using assms(2) by simp_all
  from bcd_two_digits [OF d(1,2)] bcd_two_digits [OF d(3,4)] bcd_two_digits [OF d(5,6)]
    bcd_two_digits [OF d(7,8)]
  show ?thesis
    using assms by (auto simp: from_pattern_str_def p subslice_def res_bind_def Let_def)
qed

section \<open>Properties\<close>

text \<open>C2: \<open>request_full\<close> succeeds exactly when the transport answers with a chain of at most
  \<open>max_frames\<close> frames from one address with one function, none of them an exception, the
  more-follows flag set on all but the last; it then returns that chain, its address, and
  the concatenation of the payloads, and it has read no further.\<close>

theorem request_full_correct:
  "request_full ses req t max_frames v s = (Inr r, s') \<longleftrightarrow>
     (\<exists>f fs s1. request ses req t s = (Inr f, s1) \<and> delivers ses t s1 fs s'
        \<and> response_frames (f # fs) \<and> length (f # fs) \<le> max_frames \<and> r = logical_response v (f # fs))"
  by (rule request_full_succeeds_iff)

text \<open>A transport whose state is the receive buffer, for concrete runs.\<close>

definition buffer_io :: "bytes framed_io" where
  "buffer_io =
     \<lparr>io_write_all = \<lambda>_ s. (Inr (), s), io_send = \<lambda>_ s. (Inr (), s),
      io_send_within = \<lambda>_ _ s. (Some (Inr ()), s),
      io_next_within = \<lambda>_ s. (case codec_decode codec_2007 s of
          (Inr (Some f), rest) \<Rightarrow> (Some (Some (Inr f)), rest)
        | (Inr None, rest) \<Rightarrow> (None, rest)
        | (Inl e, rest) \<Rightarrow> (Some (Some (Inl e)), rest)),
      io_close = \<lambda>s. (Inr (), s)\<rparr>"

definition sample_config :: SessionConfig where
  "sample_config = \<lparr>wakeup_preamble = [0xFE, 0xFE], cfg_version = V2007\<rparr>"

definition sample_response :: "Dl645Address \<Rightarrow> Dl645TypedFrame" where
  "sample_response a =
     \<lparr>address = a, control = control_new 0x91, body = ReadData \<lparr>rd_di = 0x00010000, rd_data = [0x12, 0x34]\<rparr>\<rparr>"

lemma framed_reads_buffer: "framed_reads codec_2007 buffer_io id"
  by (simp add: framed_reads_def buffer_io_def)

lemma sample_response_facts:
  assumes "wf_address a"
  shows "sendable codec_2007 (sample_response a)" "response_frames [sample_response a]"
  using assms
  by (simp_all add: sendable_def codec_2007_def canonical_frame_def sample_response_def body_encoded_len_def
      wire_simps di_len_def canonical_body_def frame_ctx_def control_defs from_bits_def canonical_fields_def
      canonical_di_def response_frames_def)

text \<open>C6: over the codec, a session whose request was sent and whose meter answers with the
  encoded frames of one logical response, after noise without a start mark, returns that
  response and leaves the bytes behind it in the buffer.\<close>

theorem session_receives_encoded_response:
  assumes "framed_reads codec io rx"
    and "write_preamble cfg io s = (Inr (), s1)" "io_send io req s1 = (Inr (), s2)"
    and "rx s2 = noise @ concat (map (codec_bytes codec) fs) @ rest" "0x68 \<notin> set noise"
    and "list_all (sendable codec) fs" "response_frames fs" "length fs \<le> n"
  shows "\<exists>s'. request_full (Dl645SessionImpl cfg io) req t n (codec_version codec) s
               = (Inr (logical_response (codec_version codec) fs), s') \<and> rx s' = rest"
  using assms by (rule session_receives_response)

theorem session_receives_encoded_response_witness:
  "\<exists>s'. request_full (Dl645SessionImpl sample_config buffer_io) sample_request 500 8 V2007
          ([0xFE] @ codec_bytes codec_2007 (sample_response sample_address) @ [0x00])
        = (Inr (logical_response V2007 [sample_response sample_address]), s') \<and> s' = [0x00]"
proof -
  let ?s = "[0xFE] @ codec_bytes codec_2007 (sample_response sample_address) @ [0x00]"
  have a: "wf_address sample_address" by (simp add: sample_address_def wf_address_def)
  have "write_preamble sample_config buffer_io ?s = (Inr (), ?s)" "io_send buffer_io sample_request ?s = (Inr (), ?s)"
    by (simp_all add: write_preamble_def buffer_io_def sample_config_def)
  from session_receives_encoded_response [OF framed_reads_buffer this, where noise = "[0xFE]"
      and fs = "[sample_response sample_address]" and rest = "[0x00]" and n = 8 and t = 500]
  show ?thesis using sample_response_facts [OF a] by (simp add: codec_2007_def)
qed

text \<open>An exception answer ends the request with the code the meter sent in its first data
  byte.\<close>

theorem request_full_reports_exception:
  assumes "request ses req t s = (Inr f, s_after)" "0 < n"
    and "direction (control f) = SlaveToMaster" "is_exception_response (control f)"
  shows "request_full ses req t n v s =
     (Inl (Exception (case data_payload (body f) of
                        Some (b # _) \<Rightarrow> exception_from_byte b
                      | _ \<Rightarrow> Dl645ExceptionCode.Unknown 0)), s_after)"
  using assms by (rule request_full_exception)

text \<open>A session that answers every request with a fixed frame.\<close>

definition echo_session :: "Dl645TypedFrame \<Rightarrow> unit Dl645Session" where
  "echo_session f =
     \<lparr>send_only = \<lambda>_ _ s. (Inr (), s), request = \<lambda>_ _ s. (Inr f, s), read_next_frame = \<lambda>_ s. (Inr f, s),
      close_session = \<lambda>s. (Inr (), s)\<rparr>"

theorem request_full_reports_exception_witness:
  "fst (request_full (echo_session \<lparr>address = sample_address, control = control_new 0xD1, body = Raw [0x04]\<rparr>)
      sample_request 500 1 V2007 ()) = Inl (Exception AuthenticationFailed)"
  using request_full_reports_exception
    [where ses = "echo_session \<lparr>address = sample_address, control = control_new 0xD1, body = Raw [0x04]\<rparr>"
      and req = sample_request and t = 500 and s = "()" and s_after = "()" and n = 1 and v = V2007
      and f = "\<lparr>address = sample_address, control = control_new 0xD1, body = Raw [0x04]\<rparr>"]
  by (simp add: echo_session_def control_defs exception_from_byte_def)

text \<open>An answer from any meter is taken for the answer to the request: neither its address nor
  its function is compared with the request, so a late answer to an earlier request is
  returned as the result of the next one.\<close>

theorem request_full_ignores_request_address:
  assumes "request ses req t s = (Inr f, s_after)" "response_frames [f]" "0 < n"
  shows "request_full ses req t n v s = (Inr (logical_response v [f]), s_after)"
  using assms by (auto simp: request_full_succeeds_iff intro!: exI [of _ f] exI [of _ "[]"])

theorem request_full_ignores_request_address_witness:
  "fst (read_data (echo_session (sample_response (replicate 6 0x11)))
      \<lparr>rdp_version = V2007, rdp_address = sample_address, rdp_di = 0x00010000\<rparr> 500 8 ())
     = Inr (logical_response V2007 [sample_response (replicate 6 0x11)])"
proof -
  have "wf_address (replicate 6 0x11)" by (simp add: wf_address_def)
  then show ?thesis
    using request_full_ignores_request_address [where ses = "echo_session (sample_response (replicate 6 0x11))"
        and req = sample_request and t = 500 and s = "()" and s_after = "()" and n = 8 and v = V2007
        and f = "sample_response (replicate 6 0x11)"] sample_response_facts(2)
    by (simp add: read_data_def sample_request_def echo_session_def)
qed

text \<open>For a frame parsed off the wire the payload handed to the application is the data field
  with the \<open>0x33\<close> offset removed, up to bytes at its end the body parser leaves unread.\<close>

theorem payload_is_data_field:
  assumes "typed_parse input (ctx_new v) = Inr (rest, f)"
  shows "\<exists>rem. map (\<lambda>b. b - 0x33) (subslice input 10 (10 + unat (input ! 9))) = frame_payload v f @ rem"
  using assms by (rule frame_payload_parsed)

theorem payload_is_data_field_witness:
  "\<exists>rem. map (\<lambda>b. b - 0x33) (subslice (codec_bytes codec_2007 sample_request) 10
            (10 + unat (codec_bytes codec_2007 sample_request ! 9)))
        = frame_payload V2007 sample_request @ rem"
  using payload_is_data_field [of "codec_bytes codec_2007 sample_request" V2007]
    codec_bytes_frame(3) [OF sample_sendable] by (simp add: codec_2007_def)

text \<open>A freeze pattern of eight digits is accepted and its four BCD bytes, read from the last
  to the first, spell the pattern.\<close>

theorem freeze_pattern_roundtrip:
  assumes "length p = 8" "list_all is_ascii_digit p"
  shows "\<exists>bcd. from_pattern_str v a p = Inr \<lparr>fzp_version = v, fzp_address = a, fzp_pattern_bcd = bcd\<rparr>
           \<and> length bcd = 4 \<and> concat (map bcd_chars (rev bcd)) = p"
  using assms by (rule pattern_roundtrip)

theorem freeze_pattern_roundtrip_witness:
  "\<exists>bcd. from_pattern_str V2007 sample_address ''99990000''
      = Inr \<lparr>fzp_version = V2007, fzp_address = sample_address, fzp_pattern_bcd = bcd\<rparr>
      \<and> concat (map bcd_chars (rev bcd)) = ''99990000''"
  using freeze_pattern_roundtrip [of "''99990000''" V2007 sample_address] by (auto simp: is_ascii_digit_def)

end
