(* ===== verification/Iec104_TypeId.thy ===== *)
theory Iec104_TypeId
  imports Prelude
begin

text \<open>
  The type identifications of IEC 60870-5-104 (\<open>frame/asdu.rs\<close>): their codes, the reader
  \<open>TypeID::try_from\<close>, and the mapping from measurement types to command types.  The lemmas show
  that the reader inverts the codes, which bytes it reads to a type with another code, and
  that the command mapping is idempotent.
\<close>

section \<open>Type identification\<close>

datatype (plugins only:) TypeID =
  M_SP_NA_1 | M_SP_TA_1 | M_DP_NA_1 | M_DP_TA_1 | M_ST_NA_1 | M_ST_TA_1 | M_BO_NA_1 | M_BO_TA_1 |
  M_ME_NA_1 | M_ME_TA_1 | M_ME_NB_1 | M_ME_TB_1 | M_ME_NC_1 | M_ME_TC_1 | M_IT_NA_1 | M_IT_TA_1 |
  M_EP_TA_1 | M_EP_TB_1 | M_EP_TC_1 | M_PS_NA_1 | M_ME_ND_1 | M_SP_TB_1 | M_DP_TB_1 | M_ST_TB_1 |
  M_BO_TB_1 | M_ME_TD_1 | M_ME_TE_1 | M_ME_TF_1 | M_IT_TB_1 | M_EP_TD_1 | M_EP_TE_1 | M_EP_TF_1 |
  S_IT_TC_1 | C_SC_NA_1 | C_DC_NA_1 | C_RC_NA_1 | C_SE_NA_1 | C_SE_NB_1 | C_SE_NC_1 | C_BO_NA_1 |
  C_SC_TA_1 | C_DC_TA_1 | C_RC_TA_1 | C_SE_TA_1 | C_SE_TB_1 | C_SE_TC_1 | C_BO_TA_1 | M_EI_NA_1 |
  S_CH_NA_1 | S_RP_NA_1 | S_AR_NA_1 | S_KR_NA_1 | S_KS_NA_1 | S_KC_NA_1 | S_ER_NA_1 | S_US_NA_1 |
  S_UQ_NA_1 | S_UR_NA_1 | S_UK_NA_1 | S_UA_NA_1 | S_UC_NA_1 | C_IC_NA_1 | C_CI_NA_1 | C_RD_NA_1 |
  C_CS_NA_1 | C_TS_NA_1 | C_RP_NA_1 | C_CD_NA_1 | C_TS_TA_1 | P_ME_NA_1 | P_ME_NB_1 | P_ME_NC_1 |
  P_AC_NA_1 | F_FR_NA_1 | F_SR_NA_1 | F_SC_NA_1 | F_LS_NA_1 | F_AF_NA_1 | F_SG_NA_1 | F_DR_TA_1 |
  F_SC_NB_1

primrec type_id_code :: "TypeID \<Rightarrow> u8" where
  "type_id_code M_SP_NA_1 = 1"
| "type_id_code M_SP_TA_1 = 2"
| "type_id_code M_DP_NA_1 = 3"
| "type_id_code M_DP_TA_1 = 4"
| "type_id_code M_ST_NA_1 = 5"
| "type_id_code M_ST_TA_1 = 6"
| "type_id_code M_BO_NA_1 = 7"
| "type_id_code M_BO_TA_1 = 8"
| "type_id_code M_ME_NA_1 = 9"
| "type_id_code M_ME_TA_1 = 10"
| "type_id_code M_ME_NB_1 = 11"
| "type_id_code M_ME_TB_1 = 12"
| "type_id_code M_ME_NC_1 = 13"
| "type_id_code M_ME_TC_1 = 14"
| "type_id_code M_IT_NA_1 = 15"
| "type_id_code M_IT_TA_1 = 16"
| "type_id_code M_EP_TA_1 = 17"
| "type_id_code M_EP_TB_1 = 18"
| "type_id_code M_EP_TC_1 = 19"
| "type_id_code M_PS_NA_1 = 20"
| "type_id_code M_ME_ND_1 = 21"
| "type_id_code M_SP_TB_1 = 30"
| "type_id_code M_DP_TB_1 = 31"
| "type_id_code M_ST_TB_1 = 32"
| "type_id_code M_BO_TB_1 = 33"
| "type_id_code M_ME_TD_1 = 34"
| "type_id_code M_ME_TE_1 = 35"
| "type_id_code M_ME_TF_1 = 36"
| "type_id_code M_IT_TB_1 = 37"
| "type_id_code M_EP_TD_1 = 38"
| "type_id_code M_EP_TE_1 = 39"
| "type_id_code M_EP_TF_1 = 40"
| "type_id_code S_IT_TC_1 = 41"
| "type_id_code C_SC_NA_1 = 45"
| "type_id_code C_DC_NA_1 = 46"
| "type_id_code C_RC_NA_1 = 47"
| "type_id_code C_SE_NA_1 = 48"
| "type_id_code C_SE_NB_1 = 49"
| "type_id_code C_SE_NC_1 = 50"
| "type_id_code C_BO_NA_1 = 51"
| "type_id_code C_SC_TA_1 = 58"
| "type_id_code C_DC_TA_1 = 59"
| "type_id_code C_RC_TA_1 = 60"
| "type_id_code C_SE_TA_1 = 61"
| "type_id_code C_SE_TB_1 = 62"
| "type_id_code C_SE_TC_1 = 63"
| "type_id_code C_BO_TA_1 = 64"
| "type_id_code M_EI_NA_1 = 70"
| "type_id_code S_CH_NA_1 = 81"
| "type_id_code S_RP_NA_1 = 82"
| "type_id_code S_AR_NA_1 = 83"
| "type_id_code S_KR_NA_1 = 84"
| "type_id_code S_KS_NA_1 = 85"
| "type_id_code S_KC_NA_1 = 86"
| "type_id_code S_ER_NA_1 = 87"
| "type_id_code S_US_NA_1 = 90"
| "type_id_code S_UQ_NA_1 = 91"
| "type_id_code S_UR_NA_1 = 92"
| "type_id_code S_UK_NA_1 = 93"
| "type_id_code S_UA_NA_1 = 94"
| "type_id_code S_UC_NA_1 = 95"
| "type_id_code C_IC_NA_1 = 100"
| "type_id_code C_CI_NA_1 = 101"
| "type_id_code C_RD_NA_1 = 102"
| "type_id_code C_CS_NA_1 = 103"
| "type_id_code C_TS_NA_1 = 104"
| "type_id_code C_RP_NA_1 = 105"
| "type_id_code C_CD_NA_1 = 106"
| "type_id_code C_TS_TA_1 = 107"
| "type_id_code P_ME_NA_1 = 110"
| "type_id_code P_ME_NB_1 = 111"
| "type_id_code P_ME_NC_1 = 112"
| "type_id_code P_AC_NA_1 = 113"
| "type_id_code F_FR_NA_1 = 120"
| "type_id_code F_SR_NA_1 = 121"
| "type_id_code F_SC_NA_1 = 122"
| "type_id_code F_LS_NA_1 = 123"
| "type_id_code F_AF_NA_1 = 124"
| "type_id_code F_SG_NA_1 = 125"
| "type_id_code F_DR_TA_1 = 126"
| "type_id_code F_SC_NB_1 = 127"

text \<open>The arms of \<open>TypeID::try_from\<close>, in order.\<close>

definition type_id_table :: "(u8 \<times> TypeID) list" where
  "type_id_table =
     [(1, M_SP_NA_1), (2, M_SP_TA_1), (3, M_DP_NA_1), (4, M_DP_TA_1), (5, M_ST_NA_1),
      (6, M_ST_TA_1), (7, M_BO_NA_1), (8, M_BO_TA_1), (9, M_ME_NA_1), (10, M_ME_TA_1),
      (11, M_ME_NB_1), (12, M_ME_TB_1), (13, M_ME_NC_1), (14, M_ME_TC_1), (15, M_IT_NA_1),
      (16, M_IT_TA_1), (17, M_EP_TA_1), (18, M_EP_TB_1), (19, M_EP_TC_1), (20, M_PS_NA_1),
      (21, M_ME_ND_1), (30, M_SP_TB_1), (31, M_DP_TB_1), (32, M_ST_TB_1), (33, M_BO_TB_1),
      (34, M_ME_TD_1), (35, M_ME_TE_1), (36, M_ME_TF_1), (37, M_IT_TB_1), (38, M_EP_TD_1),
      (39, M_EP_TE_1), (40, M_EP_TF_1), (41, S_IT_TC_1), (45, C_SC_NA_1), (46, C_DC_NA_1),
      (47, C_RC_NA_1), (48, C_SE_NA_1), (49, C_SE_NB_1), (50, C_SE_NC_1), (51, C_BO_NA_1),
      (52, M_IT_TA_1), (53, M_IT_TA_1), (54, M_IT_TA_1), (55, M_IT_TA_1), (56, M_IT_TA_1),
      (57, M_IT_TA_1), (58, C_SC_TA_1), (59, C_DC_TA_1), (60, C_RC_TA_1), (61, C_SE_TA_1),
      (62, C_SE_TB_1), (63, C_SE_TC_1), (64, C_BO_TA_1), (70, M_EI_NA_1), (81, S_CH_NA_1),
      (82, S_RP_NA_1), (83, S_AR_NA_1), (84, S_KR_NA_1), (85, S_KS_NA_1), (86, S_KC_NA_1),
      (87, S_ER_NA_1), (90, S_US_NA_1), (91, S_UQ_NA_1), (92, S_UR_NA_1), (93, S_UK_NA_1),
      (94, S_UA_NA_1), (95, S_UC_NA_1), (100, C_IC_NA_1), (101, C_CI_NA_1), (102, C_RD_NA_1),
      (103, C_CS_NA_1), (104, C_TS_NA_1), (105, C_RP_NA_1), (106, C_CD_NA_1), (107, C_TS_TA_1),
      (110, P_ME_NA_1), (111, P_ME_NB_1), (112, P_ME_NC_1), (113, P_AC_NA_1), (120, F_FR_NA_1),
      (121, F_SR_NA_1), (122, F_SC_NA_1), (123, F_LS_NA_1), (124, F_AF_NA_1), (125, F_SG_NA_1),
      (126, F_DR_TA_1), (127, F_SC_NB_1)]"

definition type_id_try_from :: "u8 \<Rightarrow> TypeID option" where
  "type_id_try_from value = map_of type_id_table value"

definition needs_time :: "TypeID \<Rightarrow> bool" where
  "needs_time t \<longleftrightarrow> t \<in> {C_SC_TA_1, C_DC_TA_1, C_RC_TA_1, C_BO_TA_1, C_SE_TA_1, C_SE_TB_1, C_SE_TC_1}"

definition is_command :: "TypeID \<Rightarrow> bool" where
  "is_command t \<longleftrightarrow> t \<in> {C_SC_NA_1, C_SC_TA_1, C_DC_NA_1, C_DC_TA_1, C_RC_NA_1, C_RC_TA_1, C_BO_NA_1,
     C_BO_TA_1, C_SE_NA_1, C_SE_TA_1, C_SE_NB_1, C_SE_TB_1, C_SE_NC_1, C_SE_TC_1}"

definition measurement_command :: "TypeID \<Rightarrow> TypeID option" where
  "measurement_command t =
     (case t of
        M_SP_NA_1 \<Rightarrow> Some C_SC_NA_1
      | M_SP_TA_1 \<Rightarrow> Some C_SC_TA_1 | M_SP_TB_1 \<Rightarrow> Some C_SC_TA_1
      | M_DP_NA_1 \<Rightarrow> Some C_DC_NA_1
      | M_DP_TA_1 \<Rightarrow> Some C_DC_TA_1 | M_DP_TB_1 \<Rightarrow> Some C_DC_TA_1
      | M_ST_NA_1 \<Rightarrow> Some C_RC_NA_1
      | M_ST_TA_1 \<Rightarrow> Some C_RC_TA_1 | M_ST_TB_1 \<Rightarrow> Some C_RC_TA_1
      | M_BO_NA_1 \<Rightarrow> Some C_BO_NA_1
      | M_BO_TA_1 \<Rightarrow> Some C_BO_TA_1 | M_BO_TB_1 \<Rightarrow> Some C_BO_TA_1
      | M_ME_NA_1 \<Rightarrow> Some C_SE_NA_1 | M_ME_ND_1 \<Rightarrow> Some C_SE_NA_1
      | M_ME_TA_1 \<Rightarrow> Some C_SE_TA_1 | M_ME_TD_1 \<Rightarrow> Some C_SE_TA_1
      | M_ME_NB_1 \<Rightarrow> Some C_SE_NB_1
      | M_ME_TB_1 \<Rightarrow> Some C_SE_TB_1 | M_ME_TE_1 \<Rightarrow> Some C_SE_TB_1
      | M_ME_NC_1 \<Rightarrow> Some C_SE_NC_1
      | M_ME_TC_1 \<Rightarrow> Some C_SE_TC_1 | M_ME_TF_1 \<Rightarrow> Some C_SE_TC_1
      | _ \<Rightarrow> None)"

definition map_to_command :: "TypeID \<Rightarrow> TypeID option" where
  "map_to_command t = (if is_command t then Some t else measurement_command t)"

lemma type_id_roundtrip: "type_id_try_from (type_id_code t) = Some t"
  by (cases t) (simp_all add: type_id_try_from_def type_id_table_def)

text \<open>Reading a type and writing it back keeps the code, except for the six reserved codes that
  are read as integrated totals.\<close>

lemma type_id_code_try_from:
  assumes "type_id_try_from b = Some t"
  shows "type_id_code t = b \<or> (b \<in> {52, 53, 54, 55, 56, 57} \<and> t = M_IT_TA_1)"
proof -
  have "list_all (\<lambda>(b, t). type_id_code t = b \<or> (b \<in> {52, 53, 54, 55, 56, 57} \<and> t = M_IT_TA_1)) type_id_table"
    by (simp add: type_id_table_def)
  moreover have "(b, t) \<in> set type_id_table"
    using assms by (simp add: type_id_try_from_def map_of_SomeD)
  ultimately show ?thesis by (auto simp: list_all_iff)
qed

text \<open>Commands and only commands are the targets of the mapping, and whether a time tag is
  needed is decided by the command.\<close>

lemma map_to_command_is_command: "map_to_command t = Some c \<Longrightarrow> is_command c \<and> map_to_command c = Some c"
  by (cases t) (auto simp: map_to_command_def is_command_def measurement_command_def)

section \<open>Properties\<close>

text \<open>Every type identification is read back from its code, and a byte is read to a type with
  that code, with six exceptions: the reserved codes 52 to 57 are read as integrated totals
  with time tag, whose own code is 16.\<close>

theorem iec104_type_codes:
  "type_id_try_from (type_id_code t) = Some t
   \<and> (\<forall>b t'. type_id_try_from b = Some t' \<longrightarrow> type_id_code t' = b \<or> b \<in> {52, 53, 54, 55, 56, 57} \<and> t' = M_IT_TA_1)"
  using type_id_roundtrip type_id_code_try_from by blast

theorem iec104_type_codes_witness:
  "type_id_try_from 100 = Some C_IC_NA_1 \<and> type_id_try_from 53 = Some M_IT_TA_1 \<and> type_id_code M_IT_TA_1 = 16"
  using iec104_type_codes [of C_IC_NA_1] by (simp add: type_id_try_from_def type_id_table_def)

end
