(* ===== verification/Iec104_Frame.thy ===== *)
theory Iec104_Frame
  imports Framing Iec104_TypeId
begin

text \<open>
  IEC 60870-5-104 frames: the application service data unit (\<open>frame/asdu.rs\<close>), the control field
  in its I, S and U formats (\<open>frame/apci.rs\<close>) and the stream codec (\<open>codec.rs\<close>).

  The lemmas show that sequence numbers survive the control field, that encoding and decoding
  an application unit are inverse, and that the codec keeps the stream-decoder contract, so a
  stream of frames is delivered unchanged however the transport cuts it.
\<close>

section \<open>The application service data unit\<close>

text \<open>\<open>VariableStruct\<close> and \<open>CauseOfTransmission\<close> are bit fields generated by the \<open>bit_struct\<close>
  crate; they are represented by the byte their \<open>raw\<close> method returns.  Which bytes their
  \<open>try_from\<close> accepts is a parameter.\<close>

record Identifier =
  type_id :: TypeID
  variable_struct :: u8
  cot :: u8
  orig_addr :: u8
  common_addr :: u16

record Asdu =
  ident :: Identifier
  asdu_raw :: bytes

record bit_layout =
  variable_struct_ok :: "u8 \<Rightarrow> bool"
  cot_ok :: "u8 \<Rightarrow> bool"

definition asdu_to_bytes :: "Asdu \<Rightarrow> bytes" where
  "asdu_to_bytes a =
     [type_id_code (type_id (ident a)), variable_struct (ident a), cot (ident a),
      orig_addr (ident a)] @ u16_to_le (common_addr (ident a)) @ asdu_raw a"

definition asdu_try_from :: "bit_layout \<Rightarrow> bytes \<Rightarrow> string + Asdu" where
  "asdu_try_from l bs =
     (if length bs < 1 then Inl ''failed to fill whole buffer''
      else case type_id_try_from (bs ! 0) of
        None \<Rightarrow> Inl ''Unknown TypeId''
      | Some t \<Rightarrow>
          if length bs < 2 then Inl ''failed to fill whole buffer''
          else if \<not> variable_struct_ok l (bs ! 1) then Inl ''invalid variable struct''
          else if length bs < 3 then Inl ''failed to fill whole buffer''
          else if \<not> cot_ok l (bs ! 2) then Inl ''invalid cause of transmission''
          else if length bs < 6 then Inl ''failed to fill whole buffer''
          else Inr \<lparr>ident = \<lparr>type_id = t, variable_struct = bs ! 1, cot = bs ! 2,
                                   orig_addr = bs ! 3, common_addr = u16_of (bs ! 5) (bs ! 4)\<rparr>,
                    asdu_raw = drop 6 bs\<rparr>)"

definition wf_asdu :: "bit_layout \<Rightarrow> Asdu \<Rightarrow> bool" where
  "wf_asdu l a \<longleftrightarrow> variable_struct_ok l (variable_struct (ident a)) \<and> cot_ok l (cot (ident a))"

section \<open>The control field\<close>

record Apci =
  start :: u8
  apdu_length :: u8
  ctrl1 :: u8
  ctrl2 :: u8
  ctrl3 :: u8
  ctrl4 :: u8

text \<open>\<open>I_kind\<close> has the send and the receive sequence number, \<open>S_kind\<close> the receive sequence
  number, \<open>U_kind\<close> the function.\<close>

datatype ApciKind =
    I_kind u16 u16
  | S_kind u16
  | U_kind u8

record Apdu =
  apci :: Apci
  asdu :: "Asdu option"

definition sn_of_ctrl :: "u8 \<Rightarrow> u8 \<Rightarrow> u16" where
  "sn_of_ctrl lo hi = drop_bit 1 (ucast lo) + push_bit 7 (ucast hi)"

definition apci_kind :: "Apci \<Rightarrow> ApciKind" where
  "apci_kind a =
     (if ctrl1 a AND 0x01 = 0
      then I_kind (sn_of_ctrl (ctrl1 a) (ctrl2 a)) (sn_of_ctrl (ctrl3 a) (ctrl4 a))
      else if ctrl1 a AND 0x03 = 0x01 then S_kind (sn_of_ctrl (ctrl3 a) (ctrl4 a))
      else U_kind (ctrl1 a AND 0xFC))"

definition U_STARTDT_ACTIVE :: u8 where "U_STARTDT_ACTIVE = 0x04"
definition U_STARTDT_CONFIRM :: u8 where "U_STARTDT_CONFIRM = 0x08"
definition U_STOPDT_ACTIVE :: u8 where "U_STOPDT_ACTIVE = 0x10"
definition U_STOPDT_CONFIRM :: u8 where "U_STOPDT_CONFIRM = 0x20"
definition U_TESTFR_ACTIVE :: u8 where "U_TESTFR_ACTIVE = 0x40"
definition U_TESTFR_CONFIRM :: u8 where "U_TESTFR_CONFIRM = 0x80"

lemmas u_function_defs = U_STARTDT_ACTIVE_def U_STARTDT_CONFIRM_def U_STOPDT_ACTIVE_def
  U_STOPDT_CONFIRM_def U_TESTFR_ACTIVE_def U_TESTFR_CONFIRM_def

definition new_iframe :: "Asdu \<Rightarrow> u16 \<Rightarrow> u16 \<Rightarrow> Apdu" where
  "new_iframe a send_sn rcv_sn =
     \<lparr>apci = \<lparr>start = 0x68, apdu_length = 4 + 6 + of_nat (length (asdu_raw a)),
              ctrl1 = ucast (push_bit 1 send_sn), ctrl2 = ucast (drop_bit 7 send_sn),
              ctrl3 = ucast (push_bit 1 rcv_sn), ctrl4 = ucast (drop_bit 7 rcv_sn)\<rparr>,
      asdu = Some a\<rparr>"

definition iframe_wire_size_for_asdu :: "Asdu \<Rightarrow> nat" where
  "iframe_wire_size_for_asdu a = 6 + 6 + length (asdu_raw a)"

definition new_sframe :: "u16 \<Rightarrow> Apdu" where
  "new_sframe rcv_sn =
     \<lparr>apci = \<lparr>start = 0x68, apdu_length = 4, ctrl1 = 0x01, ctrl2 = 0x00,
              ctrl3 = ucast (push_bit 1 rcv_sn), ctrl4 = ucast (drop_bit 7 rcv_sn)\<rparr>,
      asdu = None\<rparr>"

definition new_uframe :: "u8 \<Rightarrow> Apdu" where
  "new_uframe fn =
     \<lparr>apci = \<lparr>start = 0x68, apdu_length = 4, ctrl1 = fn OR 0x03, ctrl2 = 0x00, ctrl3 = 0x00, ctrl4 = 0x00\<rparr>,
      asdu = None\<rparr>"

section \<open>The stream codec\<close>

definition apdu_encode :: "Apdu \<Rightarrow> bytes" where
  "apdu_encode p =
     [start (apci p), apdu_length (apci p), ctrl1 (apci p), ctrl2 (apci p), ctrl3 (apci p), ctrl4 (apci p)]
     @ (case asdu p of None \<Rightarrow> [] | Some a \<Rightarrow> asdu_to_bytes a)"

definition apdu_decode :: "bit_layout \<Rightarrow> bytes \<Rightarrow> (string, Apdu) decode_result" where
  "apdu_decode l buf =
     (if length buf < 6 then (Inr None, buf)
      else
        let len = unat (buf ! 1) + 2
        in if len < 6 \<or> len > 255 then (Inl ''Invalid APDU length'', buf)
           else if length buf < len then (Inr None, buf)
           else
             let rest = drop 6 buf
             in if buf ! 0 \<noteq> 0x68 then (Inl ''Invalid start frame'', rest)
                else
                  let c = \<lparr>start = buf ! 0, apdu_length = buf ! 1, ctrl1 = buf ! 2, ctrl2 = buf ! 3,
                           ctrl3 = buf ! 4, ctrl4 = buf ! 5\<rparr>
                  in case apci_kind c of
                       I_kind _ _ \<Rightarrow>
                         (case asdu_try_from l (take (len - 6) rest) of
                            Inr a \<Rightarrow> (Inr (Some \<lparr>apci = c, asdu = Some a\<rparr>), drop (len - 6) rest)
                          | Inl e \<Rightarrow> (Inr (Some \<lparr>apci = c, asdu = None\<rparr>), drop (len - 6) rest))
                     | _ \<Rightarrow> (Inr (Some \<lparr>apci = c, asdu = None\<rparr>), rest))"

section \<open>Sequence numbers in the control field\<close>

lemma sn_take_bit: "(sn :: u16) < 32768 \<Longrightarrow> take_bit 15 sn = sn"
  using less_mask_eq [of sn 15] by (simp only: take_bit_eq_mask) simp

lemma sn_of_ctrl_roundtrip:
  assumes "sn < 32768"
  shows "sn_of_ctrl (ucast (push_bit 1 sn)) (ucast (drop_bit 7 sn)) = sn"
proof -
  have b: "bit sn n \<Longrightarrow> n < 15" for n
    using sn_take_bit [OF assms] by (metis bit_take_bit_iff)
  have "sn_of_ctrl (ucast (push_bit 1 sn)) (ucast (drop_bit 7 sn))
     = drop_bit 1 (ucast (ucast (push_bit 1 sn) :: u8)) OR push_bit 7 (ucast (ucast (drop_bit 7 sn) :: u8))"
    unfolding sn_of_ctrl_def by (rule disjunctive_add) (auto simp: bit_simps)
  also have "\<dots> = sn"
    by (rule bit_word_eqI) (auto simp: bit_simps simp del: One_nat_def push_bit_Suc dest: b)
  finally show ?thesis .
qed

lemma sn_ctrl1_even: "(ucast (push_bit 1 (sn :: u16)) :: u8) AND 1 = 0"
  by (rule bit_word_eqI) (auto simp: bit_simps simp del: One_nat_def push_bit_Suc)

text \<open>The kind of frame, and the numbers it carries, are recovered from the control field.\<close>

lemma kind_new_iframe:
  assumes "send_sn < 32768" "rcv_sn < 32768"
  shows "apci_kind (apci (new_iframe a send_sn rcv_sn)) = I_kind send_sn rcv_sn"
  using assms
  by (simp add: apci_kind_def new_iframe_def sn_of_ctrl_roundtrip sn_ctrl1_even del: One_nat_def push_bit_Suc)

lemma kind_new_sframe: "rcv_sn < 32768 \<Longrightarrow> apci_kind (apci (new_sframe rcv_sn)) = S_kind rcv_sn"
  by (simp add: apci_kind_def new_sframe_def sn_of_ctrl_roundtrip del: One_nat_def push_bit_Suc)

lemma or_3_odd: "(fn OR 3 :: u8) AND 1 \<noteq> 0"
proof
  assume "(fn OR 3) AND 1 = 0"
  then have "bit ((fn OR 3) AND 1) 0 = bit (0 :: u8) 0" by (rule arg_cong)
  then show False by (simp add: bit_simps)
qed

lemma or_3_low: "(fn OR 3 :: u8) AND 3 = 3"
  by (rule bit_word_eqI) (auto simp: bit_simps)

lemma kind_new_uframe: "fn AND 3 = 0 \<Longrightarrow> apci_kind (apci (new_uframe fn)) = U_kind fn"
proof -
  assume fn: "fn AND 3 = 0"
  have "(fn OR 3) AND 0xFC = fn AND 0xFC" by (simp add: bit.conj_disj_distrib2)
  also have "\<dots> = fn AND 0xFC OR fn AND 3" by (simp add: fn)
  also have "\<dots> = fn AND (0xFC OR 3)" by (simp only: bit.conj_disj_distrib)
  also have "(0xFC OR 3 :: u8) = - 1" by simp
  finally show ?thesis using or_3_odd [of fn] or_3_low [of fn] by (simp add: apci_kind_def new_uframe_def)
qed

section \<open>Application units on the wire\<close>

lemma length_asdu_to_bytes: "length (asdu_to_bytes a) = 6 + length (asdu_raw a)"
  by (simp add: asdu_to_bytes_def)

lemma asdu_parse_encode: "wf_asdu l a \<Longrightarrow> asdu_try_from l (asdu_to_bytes a) = Inr a"
  by (simp add: asdu_try_from_def asdu_to_bytes_def wf_asdu_def type_id_roundtrip u16_to_le_def)

text \<open>Reading is exact but for the reserved type codes, which change on the way back.\<close>

lemma asdu_encode_parse:
  assumes "asdu_try_from l bs = Inr a" "bs ! 0 \<notin> {52, 53, 54, 55, 56, 57}"
  shows "asdu_to_bytes a = bs"
proof -
  have len: "6 \<le> length bs" and "type_id_try_from (bs ! 0) = Some (type_id (ident a))"
    and a: "variable_struct (ident a) = bs ! 1" "cot (ident a) = bs ! 2" "orig_addr (ident a) = bs ! 3"
      "common_addr (ident a) = u16_of (bs ! 5) (bs ! 4)" "asdu_raw a = drop 6 bs"
    using assms(1) by (auto simp: asdu_try_from_def split: if_splits option.splits)
  then have code: "type_id_code (type_id (ident a)) = bs ! 0"
    using type_id_code_try_from assms(2) by blast
  obtain b0 b1 b2 b3 b4 b5 r where "bs = b0 # b1 # b2 # b3 # b4 # b5 # r"
    using len by (auto simp: Suc_le_length_iff numeral_eq_Suc)
  then show ?thesis by (simp add: asdu_to_bytes_def a code u16_to_le_def)
qed

section \<open>The codec keeps the framing contract\<close>

definition wf_apdu :: "bit_layout \<Rightarrow> Apdu \<Rightarrow> bool" where
  "wf_apdu l p \<longleftrightarrow> start (apci p) = 0x68
     \<and> (case asdu p of
          None \<Rightarrow> apdu_length (apci p) = 4
        | Some a \<Rightarrow> wf_asdu l a \<and> length (asdu_raw a) \<le> 243
            \<and> apdu_length (apci p) = 10 + of_nat (length (asdu_raw a))
            \<and> (\<exists>s r. apci_kind (apci p) = I_kind s r))"

lemma wf_new_frames:
  "wf_apdu l (new_sframe sn)" "wf_apdu l (new_uframe fn)"
  "wf_asdu l a \<Longrightarrow> iframe_wire_size_for_asdu a \<le> 255 \<Longrightarrow> s < 32768 \<Longrightarrow> r < 32768
     \<Longrightarrow> wf_apdu l (new_iframe a s r)"
  using kind_new_iframe [of s r a]
  by (simp_all add: wf_apdu_def new_sframe_def new_uframe_def new_iframe_def iframe_wire_size_for_asdu_def)

lemma apdu_decode_encode:
  assumes "wf_apdu l p"
  shows "apdu_decode l (apdu_encode p @ rest) = (Inr (Some p), rest)"
proof (cases "asdu p")
  case None
  have c: "\<lparr>start = 0x68, apdu_length = 4, ctrl1 = ctrl1 (apci p), ctrl2 = ctrl2 (apci p),
             ctrl3 = ctrl3 (apci p), ctrl4 = ctrl4 (apci p)\<rparr> = apci p"
    using assms None by (simp add: wf_apdu_def)
  have "\<lparr>apci = apci p, asdu = None\<rparr> = p" using None by simp
  then show ?thesis
    using assms None
    by (auto simp: wf_apdu_def apdu_encode_def apdu_decode_def Let_def c asdu_try_from_def split: ApciKind.splits)
next
  case (Some a)
  define n where "n = length (asdu_raw a)"
  have n: "n \<le> 243" and len: "apdu_length (apci p) = 10 + of_nat n" and a: "wf_asdu l a"
    and st: "start (apci p) = 0x68"
    using assms Some by (simp_all add: wf_apdu_def n_def)
  obtain s r where kind: "apci_kind (apci p) = I_kind s r"
    using assms Some by (auto simp: wf_apdu_def)
  have u: "unat (10 + of_nat n :: u8) = 10 + n"
    using n by (simp add: unat_word_ariths unat_of_nat)
  have c: "\<lparr>start = 0x68, apdu_length = 10 + of_nat n, ctrl1 = ctrl1 (apci p), ctrl2 = ctrl2 (apci p),
             ctrl3 = ctrl3 (apci p), ctrl4 = ctrl4 (apci p)\<rparr> = apci p"
    by (simp flip: st len)
  have p: "\<lparr>apci = apci p, asdu = Some a\<rparr> = p" by (simp flip: Some)
  have "length (asdu_to_bytes a) = 6 + n" by (simp add: length_asdu_to_bytes n_def)
  then have "take (n + 6) (asdu_to_bytes a @ rest) = asdu_to_bytes a"
    "drop (n + 6) (asdu_to_bytes a @ rest) = rest" by simp_all
  then show ?thesis
    using n by (simp add: apdu_encode_def apdu_decode_def Let_def Some st len u c kind p
        asdu_parse_encode [OF a] length_asdu_to_bytes flip: n_def)
qed

lemma apdu_decode_some:
  assumes "apdu_decode l buf = (Inr (Some p), rest)"
  shows "6 \<le> length buf \<and> (rest = drop 6 buf \<or> 6 \<le> unat (buf ! 1) + 2 \<and> rest = drop (unat (buf ! 1) + 2) buf)"
  using assms
  by (auto simp: apdu_decode_def Let_def split: if_splits ApciKind.splits sum.splits)

lemma apdu_decode_append:
  assumes "apdu_decode l buf = (Inr (Some p), rest)"
  shows "apdu_decode l (buf @ extra) = (Inr (Some p), rest @ extra)"
proof -
  have len: "unat (buf ! 1) + 2 \<le> length buf" "6 \<le> length buf"
    using assms by (auto simp: apdu_decode_def Let_def split: if_splits)
  have nth: "(buf @ extra) ! i = buf ! i" if "i < 6" for i
    using that len(2) by (simp add: nth_append)
  have "take (unat (buf ! 1) + 2 - 6) (drop 6 (buf @ extra)) = take (unat (buf ! 1) + 2 - 6) (drop 6 buf)"
    using len by simp
  with assms len show ?thesis
    by (auto simp: apdu_decode_def Let_def nth split: if_splits ApciKind.splits sum.splits)
qed

lemma apdu_decode_fails:
  assumes "apdu_decode l buf = (Inl e, rest)"
  shows "\<exists>rest'. apdu_decode l (buf @ extra) = (Inl e, rest')"
proof -
  have len: "6 \<le> length buf" using assms by (auto simp: apdu_decode_def split: if_splits)
  have nth: "(buf @ extra) ! i = buf ! i" if "i < 6" for i
    using that len by (simp add: nth_append)
  from assms len show ?thesis
    by (auto simp: apdu_decode_def Let_def nth split: if_splits ApciKind.splits sum.splits)
qed

interpretation iec104_codec: framed_codec "apdu_decode l" apdu_encode "wf_apdu l" for l
proof unfold_locales
  show "apdu_decode l buf = (Inr (Some f), buf') \<Longrightarrow> length buf' < length buf" for buf f buf'
    using apdu_decode_some [of l buf f buf'] by auto
  have "apdu_decode l buf = (Inr None, buf') \<Longrightarrow> buf' = buf" for buf buf'
    by (auto simp: apdu_decode_def Let_def split: if_splits ApciKind.splits sum.splits)
  then show "apdu_decode l buf = (Inr None, buf') \<Longrightarrow> apdu_decode l (buf @ extra) = apdu_decode l (buf' @ extra)"
    for buf buf' extra by blast
  show "apdu_decode l buf = (Inr (Some f), buf') \<Longrightarrow>
      apdu_decode l (buf @ extra) = (Inr (Some f), buf' @ extra)" for buf f buf' extra
    by (rule apdu_decode_append)
  show "wf_apdu l f \<Longrightarrow> apdu_decode l (apdu_encode f @ rest) = (Inr (Some f), rest)" for f rest
    by (rule apdu_decode_encode)
  show "apdu_decode l [] = (Inr None, [])" by (simp add: apdu_decode_def)
  show "apdu_decode l buf = (Inl e, buf') \<Longrightarrow> \<exists>buf''. apdu_decode l (buf @ extra) = (Inl e, buf'')" for buf e buf' extra
    by (rule apdu_decode_fails)
qed

section \<open>Properties\<close>

text \<open>The layout \<open>bit_struct\<close> documents: every variable structure byte is valid, and a cause of
  transmission is valid when its low six bits name one of the 48 causes.\<close>

definition iec104_layout :: bit_layout where
  "iec104_layout = \<lparr>variable_struct_ok = \<lambda>_. True, cot_ok = \<lambda>b. b AND 0x3F < 48\<rparr>"

definition sample_asdu :: Asdu where
  "sample_asdu =
     \<lparr>ident = \<lparr>type_id = C_IC_NA_1, variable_struct = 1, cot = 6, orig_addr = 0, common_addr = 0x0102\<rparr>,
      asdu_raw = [0, 0, 0, 20]\<rparr>"

lemma sample_asdu_wf: "wf_asdu iec104_layout sample_asdu"
  by (simp add: wf_asdu_def iec104_layout_def sample_asdu_def)

text \<open>C11: however the transport cuts a byte stream into chunks, any number of them and at any
  place, decoding them as they arrive gives the frames, the failure or the rest that decoding the
  whole stream at once gives.  If the stream is a sequence of encoded frames, every one of them is
  delivered, in order, and nothing is left behind.\<close>

theorem iec104_stream_chunks:
  "receive (apdu_decode l) [] chunks = drain (Suc (length (concat chunks))) (apdu_decode l) (concat chunks)
   \<and> (list_all (wf_apdu l) fs \<and> concat chunks = concat (map apdu_encode fs)
       \<longrightarrow> receive (apdu_decode l) [] chunks = Some (fs, Waiting []))"
  using iec104_codec.receive_chunks iec104_codec.receive_stream by blast

text \<open>A start frame and an information frame arriving in three chunks, both cuts inside a frame.\<close>

theorem iec104_stream_chunks_witness:
  "let fs = [new_uframe U_STARTDT_ACTIVE, new_iframe sample_asdu 3 4]; bs = concat (map apdu_encode fs)
   in receive (apdu_decode iec104_layout) [] [take 5 bs, take 4 (drop 5 bs), drop (5 + 4) bs] = Some (fs, Waiting [])"
proof -
  define fs where "fs = [new_uframe U_STARTDT_ACTIVE, new_iframe sample_asdu 3 4]"
  define bs where "bs = concat (map apdu_encode fs)"
  have wf: "list_all (wf_apdu iec104_layout) fs"
    using wf_new_frames(3) [OF sample_asdu_wf, of 3 4]
    by (simp add: fs_def wf_new_frames(2) iframe_wire_size_for_asdu_def sample_asdu_def)
  have "receive (apdu_decode iec104_layout) [] [take 5 bs, take 4 (drop 5 bs), drop (5 + 4) bs] = Some (fs, Waiting [])"
    using iec104_stream_chunks [of iec104_layout "[take 5 bs, take 4 (drop 5 bs), drop (5 + 4) bs]" fs, THEN conjunct2]
      concat_three_chunks [of 5 bs 4] wf bs_def by (simp only: simp_thms)
  then show ?thesis unfolding Let_def fs_def [symmetric] bs_def [symmetric] .
qed

text \<open>The kind of a frame and the sequence numbers below 32768 it carries are recovered from
  its control field, in all three formats.\<close>

theorem iec104_control_field:
  assumes "snd_sn < 32768" "rcv_sn < 32768" "fn AND 3 = 0"
  shows "apci_kind (apci (new_iframe a snd_sn rcv_sn)) = I_kind snd_sn rcv_sn
    \<and> apci_kind (apci (new_sframe rcv_sn)) = S_kind rcv_sn \<and> apci_kind (apci (new_uframe fn)) = U_kind fn"
  using assms by (simp add: kind_new_iframe kind_new_sframe kind_new_uframe)

theorem iec104_control_field_witness:
  "apci_kind (apci (new_iframe sample_asdu 32767 129)) = I_kind 32767 129"
  using iec104_control_field [of 32767 129 U_TESTFR_ACTIVE sample_asdu] by (simp add: u_function_defs)

text \<open>C15: an application unit with valid bit fields is read back from its bytes, and a unit read
  from bytes is written back as the same bytes unless its type code is one of the reserved
  codes 52 to 57.\<close>

theorem iec104_asdu_roundtrip:
  "(wf_asdu l a \<longrightarrow> asdu_try_from l (asdu_to_bytes a) = Inr a)
   \<and> (asdu_try_from l bs = Inr a' \<and> bs ! 0 \<notin> {52, 53, 54, 55, 56, 57} \<longrightarrow> asdu_to_bytes a' = bs)"
  using asdu_parse_encode asdu_encode_parse by blast

theorem iec104_asdu_roundtrip_witness:
  "asdu_try_from iec104_layout (asdu_to_bytes sample_asdu) = Inr sample_asdu"
  using iec104_asdu_roundtrip [of iec104_layout sample_asdu] sample_asdu_wf by blast

text \<open>An S- or U-frame that announces more than its four control bytes is returned after
  consuming six bytes only, so its remaining bytes are decoded as the start of a frame.\<close>

theorem iec104_long_control_frame:
  assumes "4 \<le> unat len" "unat len \<le> 253" "length body = unat len - 4" "c1 AND 1 = 1"
  shows "\<exists>p. apdu_decode l ([0x68, len, c1, c2, c3, c4] @ body @ rest) = (Inr (Some p), body @ rest)"
  using assms by (auto simp: apdu_decode_def apci_kind_def Let_def)

theorem iec104_long_control_frame_witness:
  "\<exists>p. apdu_decode iec104_layout ([0x68, 6, 0x43, 0, 0, 0, 0xAA, 0xBB] @ apdu_encode (new_sframe 0))
      = (Inr (Some p), [0xAA, 0xBB] @ apdu_encode (new_sframe 0))"
  using iec104_long_control_frame [of 6 "[0xAA, 0xBB]" "0x43" iec104_layout 0 0 0 "apdu_encode (new_sframe 0)"]
  by simp

end
