(* ===== verification/Iec104_State.thy ===== *)
theory Iec104_State
  imports Iec104_Frame "HOL-Library.Signed_Division"
begin

text \<open>
  The link-layer state of an IEC 60870-5-104 session (\<open>session/state.rs\<close>): sequence counters,
  the queue of unacknowledged I-frames, the timers, and every operation on them, with the
  default configuration.

  The lemmas give the sequence arithmetic its meaning modulo 32768, show that the window
  operations keep the counters valid and the window bounded, that an acknowledgement removes
  exactly the acknowledged frames while the window does not wrap, and what happens when it
  does.
\<close>

section \<open>Configuration and data\<close>

datatype SessionLifecycleState =
  Idle | Connecting | Handshaking | Active | Inactive | Closing | Closed | Failed string

datatype SessionEvent =
    LifecycleChanged SessionLifecycleState
  | WindowFullDrop
  | LowPriorityMerged
  | MemoryBudgetDrop
  | FrameTooLargeDrop
  | T1Timeout

record SessionConfig =
  connection_timeout_ms :: u64
  t0_ms :: u64
  t1_ms :: u64
  t2_ms :: u64
  t3_ms :: u64
  k_window :: u16
  w_threshold :: u16
  send_queue_capacity :: nat
  tcp_nodelay :: bool
  max_pending_asdu_bytes :: u64
  discard_low_priority_when_window_full :: bool
  merge_low_priority :: bool
  low_prio_flush_max_age_ms :: u64

definition default_config :: SessionConfig where
  "default_config =
     \<lparr>connection_timeout_ms = 10000, t0_ms = 10000, t1_ms = 15000, t2_ms = 10000, t3_ms = 20000,
      k_window = 12, w_threshold = 8, send_queue_capacity = 1024, tcp_nodelay = True,
      max_pending_asdu_bytes = 1024 * 1024, discard_low_priority_when_window_full = True,
      merge_low_priority = True, low_prio_flush_max_age_ms = 2000\<rparr>"

datatype ApplicationState = app_Inactive | app_Active

text \<open>The atomic cell holds the discriminant; anything but 1 reads as inactive.\<close>

definition cell_store :: "ApplicationState \<Rightarrow> u8" where
  "cell_store st = (case st of app_Inactive \<Rightarrow> 0 | app_Active \<Rightarrow> 1)"

definition cell_load :: "u8 \<Rightarrow> ApplicationState" where
  "cell_load c = (if c = 1 then app_Active else app_Inactive)"

definition cell_is_active :: "u8 \<Rightarrow> bool" where
  "cell_is_active c \<longleftrightarrow> cell_load c = app_Active"

text \<open>Instants are nanoseconds since the epoch.  \<open>DateTime::<Utc>::MAX_UTC\<close>, the value of an
  unarmed timer, is a constant of \<open>chrono\<close> and a parameter.  Elapsed milliseconds are truncated
  and cast from \<open>i64\<close> to \<open>u64\<close>.\<close>

type_synonym utc = int

definition signed_ms :: "utc \<Rightarrow> utc \<Rightarrow> int" where
  "signed_ms now since = (now - since) sdiv 1000000"

definition elapsed_ms :: "utc \<Rightarrow> utc \<Rightarrow> u64" where
  "elapsed_ms now since = word_of_int (signed_ms now since)"

record SeqPending =
  seq :: u16
  send_time :: utc
  size_bytes :: u64

record SessionState =
  send_sn :: u16
  ack_sendsn :: u16
  rcv_sn :: u16
  ack_rcvsn :: u16
  idle_since :: utc
  test_sent_since :: utc
  start_sent_since :: utc
  stop_sent_since :: utc
  unacked_rcv_since :: utc
  consecutive_t1_timeouts :: u32
  pending :: "SeqPending list"
  pending_bytes :: u64
  last_low_prio :: "Asdu option"
  last_low_prio_since :: "utc option"

definition state_new :: "utc \<Rightarrow> utc \<Rightarrow> SessionState" where
  "state_new max_utc now =
     \<lparr>send_sn = 0, ack_sendsn = 0, rcv_sn = 0, ack_rcvsn = 0, idle_since = now,
      test_sent_since = max_utc, start_sent_since = max_utc, stop_sent_since = max_utc,
      unacked_rcv_since = max_utc, consecutive_t1_timeouts = 0, pending = [], pending_bytes = 0,
      last_low_prio = None, last_low_prio_since = None\<rparr>"

section \<open>Sequence arithmetic\<close>

definition seq_add :: "u16 \<Rightarrow> u16 \<Rightarrow> u16" where
  "seq_add s delta = ucast ((ucast s + ucast delta :: u32) mod 32768)"

definition seq_distance :: "u16 \<Rightarrow> u16 \<Rightarrow> u16" where
  "seq_distance from to = word_of_int ((uint to - uint from + 32768) smod 32768)"

definition seq_in_range_inclusive :: "u16 \<Rightarrow> u16 \<Rightarrow> u16 \<Rightarrow> bool" where
  "seq_in_range_inclusive st en x \<longleftrightarrow> seq_distance st x \<le> seq_distance st en"

definition seq_lte :: "u16 \<Rightarrow> u16 \<Rightarrow> bool" where
  "seq_lte a b \<longleftrightarrow> seq_distance 0 a \<le> seq_distance 0 b"

section \<open>Operations\<close>

definition inflight_count :: "SessionState \<Rightarrow> u16" where
  "inflight_count s = seq_distance (ack_sendsn s) (send_sn s)"

definition window_has_capacity :: "SessionState \<Rightarrow> u16 \<Rightarrow> bool" where
  "window_has_capacity s k \<longleftrightarrow> inflight_count s < k"

definition window_available_slots :: "SessionState \<Rightarrow> u16 \<Rightarrow> u16" where
  "window_available_slots s k = sat_sub k (inflight_count s)"

definition push_pending :: "u16 \<Rightarrow> utc \<Rightarrow> u64 \<Rightarrow> SessionState \<Rightarrow> SessionState" where
  "push_pending sn now sz s =
     s\<lparr>pending := pending s @ [\<lparr>seq = sn, send_time = now, size_bytes = sz\<rparr>],
       pending_bytes := sat_add (pending_bytes s) sz\<rparr>"

text \<open>The loop of \<open>pop_pending_until\<close> over the queue and its byte count.\<close>

fun pop_until :: "u16 \<Rightarrow> SeqPending list \<Rightarrow> u64 \<Rightarrow> nat \<Rightarrow> SeqPending list \<times> u64 \<times> nat" where
  "pop_until up_to [] bytes removed = ([], bytes, removed)"
| "pop_until up_to (front # rest) bytes removed =
     (if seq_lte (seq front) up_to
      then pop_until up_to rest (sat_sub bytes (size_bytes front)) (Suc removed)
      else (front # rest, bytes, removed))"

definition pop_pending_until :: "u16 \<Rightarrow> SessionState \<Rightarrow> nat \<times> SessionState" where
  "pop_pending_until up_to s =
     (case pop_until up_to (pending s) (pending_bytes s) 0 of
        (q, bytes, removed) \<Rightarrow> (removed, s\<lparr>pending := q, pending_bytes := bytes\<rparr>))"

definition clear_pending :: "SessionState \<Rightarrow> nat \<times> SessionState" where
  "clear_pending s = (length (pending s), s\<lparr>pending := [], pending_bytes := 0\<rparr>)"

definition update_send_ack :: "u16 \<Rightarrow> SessionState \<Rightarrow> bool \<times> SessionState" where
  "update_send_ack ack_rcv_no s =
     (if \<not> seq_in_range_inclusive (ack_sendsn s) (send_sn s) ack_rcv_no then (False, s)
      else
        let (_, s1) = pop_pending_until (seq_add ack_rcv_no 32767) s
        in (True, s1\<lparr>ack_sendsn := ack_rcv_no\<rparr>))"

definition advance_receive_seq :: "u16 \<Rightarrow> SessionState \<Rightarrow> bool \<times> SessionState" where
  "advance_receive_seq incoming_send_sn s =
     (if incoming_send_sn \<noteq> rcv_sn s then (False, s)
      else (True, s\<lparr>rcv_sn := seq_add (rcv_sn s) 1\<rparr>))"

definition should_send_s_ack :: "utc \<Rightarrow> u64 \<Rightarrow> u16 \<Rightarrow> SessionState \<Rightarrow> bool" where
  "should_send_s_ack now t2 w s =
     (if ack_rcvsn s = rcv_sn s then False
      else if w \<le> seq_distance (ack_rcvsn s) (rcv_sn s) then True
      else t2 \<le> elapsed_ms now (unacked_rcv_since s))"

definition decay_t1 :: "SessionState \<Rightarrow> SessionState" where
  "decay_t1 s =
     (if consecutive_t1_timeouts s > 0
      then s\<lparr>consecutive_t1_timeouts := consecutive_t1_timeouts s - 1\<rparr> else s)"

definition check_and_handle_t1_timeout :: "utc \<Rightarrow> u64 \<Rightarrow> SessionState \<Rightarrow> u16 option \<times> SessionState" where
  "check_and_handle_t1_timeout now t1 s =
     (if ack_sendsn s = send_sn s then (None, s\<lparr>consecutive_t1_timeouts := 0\<rparr>)
      else case pending s of
        front # rest \<Rightarrow>
          if t1 \<le> elapsed_ms now (send_time front)
          then (Some (seq front),
                s\<lparr>pending := rest, ack_sendsn := seq_add (ack_sendsn s) 1,
                  consecutive_t1_timeouts := sat_add (consecutive_t1_timeouts s) 1\<rparr>)
          else (None, decay_t1 s)
      | [] \<Rightarrow> (None, decay_t1 s))"

definition mark_unacked_receive :: "utc \<Rightarrow> SessionState \<Rightarrow> SessionState" where
  "mark_unacked_receive now s =
     (if ack_rcvsn s = rcv_sn s then s\<lparr>unacked_rcv_since := now\<rparr> else s)"

definition mark_s_ack_sent :: "SessionState \<Rightarrow> SessionState" where
  "mark_s_ack_sent s = s\<lparr>ack_rcvsn := rcv_sn s\<rparr>"

definition total_pending_bytes :: "SessionState \<Rightarrow> u64" where
  "total_pending_bytes s = pending_bytes s"

definition set_last_low_prio :: "Asdu \<Rightarrow> utc \<Rightarrow> SessionState \<Rightarrow> SessionState" where
  "set_last_low_prio a now s = s\<lparr>last_low_prio := Some a, last_low_prio_since := Some now\<rparr>"

definition take_last_low_prio :: "SessionState \<Rightarrow> Asdu option \<times> SessionState" where
  "take_last_low_prio s = (last_low_prio s, s\<lparr>last_low_prio_since := None, last_low_prio := None\<rparr>)"

definition should_flush_low_prio :: "utc \<Rightarrow> u64 \<Rightarrow> SessionState \<Rightarrow> bool" where
  "should_flush_low_prio now max_age s =
     (case (last_low_prio s, last_low_prio_since s) of
        (Some _, Some since) \<Rightarrow> max_age \<le> elapsed_ms now since
      | _ \<Rightarrow> False)"

text \<open>The acknowledgement routine kept in \<open>frame/apci.rs\<close>, on the same data.\<close>

definition seq_no_count :: "u16 \<Rightarrow> u16 \<Rightarrow> u16" where
  "seq_no_count next_ack_no next_send_no =
     (let next_send_no = (if next_ack_no > next_send_no then next_send_no + 32768 else next_send_no)
      in next_send_no - next_ack_no)"

fun pop_acked :: "u16 \<Rightarrow> SeqPending list \<Rightarrow> SeqPending list" where
  "pop_acked ack_no [] = []"
| "pop_acked ack_no (p # q) = (if seq p = ack_no - 1 then q else pop_acked ack_no q)"

definition update_ack_no_out ::
    "u16 \<Rightarrow> u16 \<Rightarrow> u16 \<Rightarrow> SeqPending list \<Rightarrow> bool \<times> u16 \<times> SeqPending list" where
  "update_ack_no_out ack_no ack_sn snd_sn q =
     (if ack_no = ack_sn then (True, ack_sn, q)
      else if seq_no_count ack_sn snd_sn < seq_no_count ack_no snd_sn then (False, ack_sn, q)
      else (True, ack_no, pop_acked ack_no q))"

section \<open>Sequence numbers modulo 32768\<close>

definition valid_seq :: "u16 \<Rightarrow> bool" where
  "valid_seq x \<longleftrightarrow> unat x < 32768"

lemma unat_seq_add: "unat (seq_add a d) = (unat a + unat d) mod 32768"
proof -
  have less: "unat x < 65536" for x :: u16 using unsigned_less [of x] by simp
  have "unat (ucast x :: u32) = unat x" for x :: u16
    using less [of x] by (simp add: unsigned_ucast_eq take_bit_eq_mod)
  then have "unat (ucast a + ucast d :: u32) = unat a + unat d"
    using less [of a] less [of d] by (simp add: unat_word_ariths)
  then have "unat ((ucast a + ucast d :: u32) mod 32768) = (unat a + unat d) mod 32768"
    by (simp add: unat_mod)
  then show ?thesis by (simp add: seq_add_def unsigned_ucast_eq take_bit_eq_mod)
qed

lemma valid_seq_add [simp]: "valid_seq (seq_add a d)"
  by (simp add: valid_seq_def unat_seq_add)

lemma valid_seq_0 [simp]: "valid_seq 0"
  by (simp add: valid_seq_def)

lemma unat_seq_next: "valid_seq a \<Longrightarrow> unat (seq_add a 1) = (if unat a = 32767 then 0 else unat a + 1)"
  by (simp add: valid_seq_def unat_seq_add)

lemma unat_seq_prev: "valid_seq a \<Longrightarrow> unat (seq_add a 32767) = (if unat a = 0 then 32767 else unat a - 1)"
proof -
  assume "valid_seq a"
  then have "(unat a + 32767) mod 32768 = (if unat a = 0 then 32767 else unat a - 1)"
    by (auto simp: valid_seq_def le_mod_geq)
  then show ?thesis by (simp add: unat_seq_add)
qed

lemma unat_seq_distance:
  assumes "valid_seq a" "valid_seq b"
  shows "unat (seq_distance a b) =
     (if unat a \<le> unat b then unat b - unat a else unat b + 32768 - unat a)"
proof -
  have ab: "unat a < 32768" "unat b < 32768" using assms by (simp_all add: valid_seq_def)
  define n where "n = unat b + 32768 - unat a"
  have "uint b - uint a + 32768 = int n"
    using ab by (simp add: n_def of_nat_diff)
  moreover have "int n smod 32768 = int (n mod 32768)"
    using smod_mod_positive [of "int n" 32768] by (simp add: zmod_int)
  ultimately have "unat (seq_distance a b) = n mod 32768"
    by (simp add: seq_distance_def unat_of_nat)
  also have "\<dots> = (if unat a \<le> unat b then unat b - unat a else unat b + 32768 - unat a)"
    using ab by (auto simp: n_def le_mod_geq)
  finally show ?thesis .
qed

lemma seq_distance_less: "valid_seq a \<Longrightarrow> valid_seq b \<Longrightarrow> unat (seq_distance a b) < 32768"
  by (auto simp: unat_seq_distance valid_seq_def)

lemma seq_distance_0: "valid_seq a \<Longrightarrow> valid_seq b \<Longrightarrow> seq_distance a b = 0 \<longleftrightarrow> a = b"
  by (auto simp: word_unat_eq_iff unat_seq_distance valid_seq_def)

lemma seq_distance_step:
  assumes "valid_seq a" "valid_seq b" "unat (seq_distance a b) < 32767"
  shows "unat (seq_distance a (seq_add b 1)) = unat (seq_distance a b) + 1"
  using assms by (auto simp: unat_seq_distance unat_seq_next valid_seq_def split: if_splits)

lemma seq_distance_shrink:
  assumes "valid_seq a" "valid_seq b" "a \<noteq> b"
  shows "unat (seq_distance (seq_add a 1) b) = unat (seq_distance a b) - 1"
  using assms by (auto simp: unat_seq_distance unat_seq_next valid_seq_def word_unat_eq_iff)

lemma seq_distance_ack:
  assumes "valid_seq a" "valid_seq b" "valid_seq x" "seq_in_range_inclusive a b x"
  shows "unat (seq_distance x b) = unat (seq_distance a b) - unat (seq_distance a x)"
    "unat (seq_distance a x) \<le> unat (seq_distance a b)"
  using assms
  by (auto simp: unat_seq_distance valid_seq_def seq_in_range_inclusive_def word_le_nat_alt split: if_splits)

lemma seq_lte_iff: "valid_seq a \<Longrightarrow> valid_seq b \<Longrightarrow> seq_lte a b \<longleftrightarrow> unat a \<le> unat b"
  by (simp add: seq_lte_def word_le_nat_alt unat_seq_distance)

section \<open>The window\<close>

definition valid_counters :: "SessionState \<Rightarrow> bool" where
  "valid_counters s \<longleftrightarrow> valid_seq (send_sn s) \<and> valid_seq (ack_sendsn s) \<and> valid_seq (rcv_sn s)
     \<and> valid_seq (ack_rcvsn s)"

definition inflight :: "SessionState \<Rightarrow> nat" where
  "inflight s = unat (inflight_count s)"

text \<open>What the loop does when it has sent an I-frame.\<close>

definition record_sent :: "u16 \<Rightarrow> utc \<Rightarrow> u64 \<Rightarrow> SessionState \<Rightarrow> SessionState" where
  "record_sent sn now sz s =
     (let s1 = push_pending sn now sz s; s2 = s1\<lparr>ack_rcvsn := rcv_sn s1\<rparr>
      in s2\<lparr>send_sn := seq_add (send_sn s2) 1\<rparr>)"

lemma update_send_ack_fields:
  assumes "update_send_ack a s = (ok, s')"
  shows "send_sn s' = send_sn s" "rcv_sn s' = rcv_sn s" "ack_rcvsn s' = ack_rcvsn s"
    "unacked_rcv_since s' = unacked_rcv_since s"
    "ok \<longleftrightarrow> seq_in_range_inclusive (ack_sendsn s) (send_sn s) a"
    "ack_sendsn s' = (if ok then a else ack_sendsn s)"
  using assms by (auto simp: update_send_ack_def pop_pending_until_def split: if_splits prod.splits)

lemma valid_record_sent: "valid_counters s \<Longrightarrow> valid_counters (record_sent sn now sz s)"
  by (simp add: valid_counters_def record_sent_def push_pending_def Let_def)

lemma valid_update_send_ack:
  "valid_counters s \<Longrightarrow> valid_seq a \<Longrightarrow> update_send_ack a s = (ok, s') \<Longrightarrow> valid_counters s'"
  using update_send_ack_fields [of a s ok s'] by (simp add: valid_counters_def)

lemma valid_advance: "valid_counters s \<Longrightarrow> advance_receive_seq n s = (ok, s') \<Longrightarrow> valid_counters s'"
  by (auto simp: valid_counters_def advance_receive_seq_def split: if_splits)

lemma valid_t1: "valid_counters s \<Longrightarrow> check_and_handle_t1_timeout now t1 s = (r, s') \<Longrightarrow> valid_counters s'"
  by (auto simp: valid_counters_def check_and_handle_t1_timeout_def decay_t1_def
      split: if_splits list.splits)

lemma inflight_record_sent:
  assumes "valid_counters s" "inflight s < 32767"
  shows "inflight (record_sent sn now sz s) = inflight s + 1"
  using assms seq_distance_step [of "ack_sendsn s" "send_sn s"]
  by (simp add: inflight_def inflight_count_def valid_counters_def record_sent_def push_pending_def Let_def)

lemma inflight_update_send_ack:
  assumes "valid_counters s" "valid_seq a" "update_send_ack a s = (True, s')"
  shows "inflight s' = inflight s - unat (seq_distance (ack_sendsn s) a)"
  using update_send_ack_fields [OF assms(3)] assms(1,2)
    seq_distance_ack(1) [of "ack_sendsn s" "send_sn s" a]
  by (simp add: inflight_def inflight_count_def valid_counters_def)

lemma inflight_t1:
  assumes "valid_counters s" "check_and_handle_t1_timeout now t1 s = (r, s')"
  shows "inflight s' = (if r = None then inflight s else inflight s - 1)"
  using assms seq_distance_shrink [of "ack_sendsn s" "send_sn s"]
  by (auto simp: inflight_def inflight_count_def valid_counters_def check_and_handle_t1_timeout_def
      decay_t1_def split: if_splits list.splits)

lemma window_capacity_iff: "window_has_capacity s k \<longleftrightarrow> inflight s < unat k"
  by (simp add: window_has_capacity_def inflight_def word_less_nat_alt)

lemma window_slots: "unat (window_available_slots s k) = unat k - inflight s"
  by (simp add: window_available_slots_def inflight_def unat_sat_sub)

section \<open>Acknowledging\<close>

text \<open>The unacknowledged frames are those from \<open>ack_sendsn\<close> up to \<open>send_sn\<close>, oldest first.\<close>

definition window_ok :: "SessionState \<Rightarrow> bool" where
  "window_ok s \<longleftrightarrow> map seq (pending s) = map (\<lambda>i. seq_add (ack_sendsn s) (of_nat i)) [0..<inflight s]"

lemma pop_until_queue: "fst (pop_until u q bytes n) = dropWhile (\<lambda>p. seq_lte (seq p) u) q"
  by (induction q arbitrary: bytes n) simp_all

lemma update_send_ack_queue:
  "update_send_ack a s = (True, s') \<Longrightarrow>
     pending s' = dropWhile (\<lambda>p. seq_lte (seq p) (seq_add a 32767)) (pending s)"
  using pop_until_queue [of "seq_add a 32767" "pending s" "pending_bytes s" 0]
  by (auto simp: update_send_ack_def pop_pending_until_def split: if_splits prod.splits)

lemma window_ok_nth:
  assumes "window_ok s" "valid_counters s" "i < inflight s" "unat (ack_sendsn s) \<le> unat (send_sn s)"
  shows "length (pending s) = inflight s" "unat (seq (pending s ! i)) = unat (ack_sendsn s) + i"
    "valid_seq (seq (pending s ! i))"
proof -
  have "map seq (pending s) = map (\<lambda>i. seq_add (ack_sendsn s) (of_nat i)) [0..<inflight s]"
    using assms(1) by (simp add: window_ok_def)
  then show len: "length (pending s) = inflight s" by (metis length_map length_upt minus_nat.diff_0)
  have "seq (pending s ! i) = map seq (pending s) ! i" using len assms(3) by simp
  also have "\<dots> = seq_add (ack_sendsn s) (of_nat i)"
    using assms(1,3) by (simp add: window_ok_def)
  finally have sq: "seq (pending s ! i) = seq_add (ack_sendsn s) (of_nat i)" .
  then show "valid_seq (seq (pending s ! i))" by simp
  have "inflight s = unat (send_sn s) - unat (ack_sendsn s)" "unat (send_sn s) < 32768"
    using assms(2,4) by (auto simp: inflight_def inflight_count_def valid_counters_def unat_seq_distance valid_seq_def)
  with assms(3) show "unat (seq (pending s ! i)) = unat (ack_sendsn s) + i"
    by (simp add: sq unat_seq_add unat_of_nat)
qed

text \<open>While the window does not wrap past zero, an acknowledgement removes exactly the
  frames before the acknowledged number.\<close>

lemma update_send_ack_exact:
  assumes "valid_counters s" "window_ok s" "valid_seq a"
    and "unat (ack_sendsn s) \<le> unat (send_sn s)" "0 < unat a"
    and upd: "update_send_ack a s = (True, s')"
  shows "pending s' = drop (unat (seq_distance (ack_sendsn s) a)) (pending s)"
proof -
  let ?P = "\<lambda>p. seq_lte (seq p) (seq_add a 32767)"
  let ?n = "unat (seq_distance (ack_sendsn s) a)"
  have v: "valid_seq (ack_sendsn s)" "valid_seq (send_sn s)" using assms(1) by (simp_all add: valid_counters_def)
  have range: "seq_in_range_inclusive (ack_sendsn s) (send_sn s) a"
    using update_send_ack_fields(5) [OF upd] by simp
  have n: "?n \<le> inflight s"
    using seq_distance_ack(2) [OF v assms(3) range] by (simp add: inflight_def inflight_count_def)
  have "unat (ack_sendsn s) \<le> unat a"
    using range assms(4) v(2) assms(3)
    by (auto simp: seq_in_range_inclusive_def word_le_nat_alt unat_seq_distance v assms(3) valid_seq_def
        split: if_splits)
  then have a: "unat a = unat (ack_sendsn s) + ?n" by (simp add: unat_seq_distance v assms(3))
  have P: "?P (pending s ! i) \<longleftrightarrow> i < ?n" if "i < inflight s" for i
    using window_ok_nth [OF assms(2,1) that assms(4)] unat_seq_prev [OF assms(3)] assms(5) a
    by (auto simp: seq_lte_iff)
  have len: "length (pending s) = inflight s"
    using assms(2) unfolding window_ok_def by (metis length_map length_upt minus_nat.diff_0)
  have "takeWhile ?P (pending s) = take ?n (pending s)"
    by (rule takeWhile_eq_take_P_nth) (use P len in auto)
  then have "dropWhile ?P (pending s) = drop ?n (pending s)"
    using n len by (simp add: dropWhile_eq_drop)
  then show ?thesis using update_send_ack_queue [OF upd] by simp
qed

lemma seq_add_distance: "valid_seq a \<Longrightarrow> valid_seq b \<Longrightarrow> seq_add a (seq_distance a b) = b"
  by (auto simp: word_unat_eq_iff unat_seq_add unat_seq_distance valid_seq_def le_mod_geq)

lemma seq_add_add: "seq_add (seq_add a x) y = seq_add a (seq_add x y)"
  by (simp add: word_unat_eq_iff unat_seq_add mod_simps ac_simps)

lemma seq_add_of_nat: "n < 32768 \<Longrightarrow> m < 32768 \<Longrightarrow> n + m < 32768 \<Longrightarrow>
    seq_add (of_nat n) (of_nat m) = of_nat (n + m)"
  by (simp add: word_unat_eq_iff unat_seq_add unat_of_nat flip: of_nat_add)

text \<open>The window invariant under the three operations that move the window.\<close>

lemma window_ok_record_sent:
  assumes "valid_counters s" "window_ok s" "inflight s < 32767"
  shows "window_ok (record_sent (send_sn s) now sz s)"
proof -
  have "of_nat (inflight s) = seq_distance (ack_sendsn s) (send_sn s)"
    by (simp add: inflight_def inflight_count_def)
  then have "seq_add (ack_sendsn s) (of_nat (inflight s)) = send_sn s"
    using assms(1) by (simp add: seq_add_distance valid_counters_def)
  then show ?thesis
    using assms(2) inflight_record_sent [OF assms(1,3), of "send_sn s" now sz]
    by (simp add: window_ok_def) (simp add: record_sent_def push_pending_def Let_def)
qed

lemma window_shift:
  assumes "map seq q = map (\<lambda>i. seq_add a (of_nat i)) [0..<n]" "m \<le> n" "n < 32768"
  shows "map seq (drop m q) = map (\<lambda>i. seq_add (seq_add a (of_nat m)) (of_nat i)) [0..<n - m]"
proof -
  have "map seq (drop m q) = drop m (map (\<lambda>i. seq_add a (of_nat i)) [0..<n])"
    by (simp only: drop_map [symmetric] assms(1))
  also have "\<dots> = map (\<lambda>i. seq_add a (of_nat i)) (map (\<lambda>i. i + m) [0..<n - m])"
    using assms(2) by (simp add: drop_map map_add_upt)
  also have "\<dots> = map (\<lambda>i. seq_add (seq_add a (of_nat m)) (of_nat i)) [0..<n - m]"
    using assms(3) by (simp add: seq_add_add seq_add_of_nat add.commute)
  finally show ?thesis .
qed

lemma window_ok_ack:
  assumes "valid_counters s" "window_ok s" "valid_seq a"
    and "unat (ack_sendsn s) \<le> unat (send_sn s)" "0 < unat a"
    and upd: "update_send_ack a s = (True, s')"
  shows "window_ok s'"
proof -
  let ?n = "unat (seq_distance (ack_sendsn s) a)"
  have v: "valid_seq (ack_sendsn s)" "valid_seq (send_sn s)" using assms(1) by (simp_all add: valid_counters_def)
  have le: "?n \<le> inflight s"
    using seq_distance_ack(2) [OF v assms(3)] update_send_ack_fields(5) [OF upd]
    by (simp add: inflight_def inflight_count_def)
  have "inflight s < 32768" using seq_distance_less [OF v] by (simp add: inflight_def inflight_count_def)
  then have "map seq (drop ?n (pending s)) =
      map (\<lambda>i. seq_add (seq_add (ack_sendsn s) (of_nat ?n)) (of_nat i)) [0..<inflight s - ?n]"
    using assms(2) le by (intro window_shift) (simp_all add: window_ok_def)
  then show ?thesis
    using update_send_ack_exact [OF assms] inflight_update_send_ack [OF assms(1,3) upd]
      update_send_ack_fields(6) [OF upd] v(1) assms(3)
    by (simp add: window_ok_def seq_add_distance)
qed

lemma window_ok_t1:
  assumes "valid_counters s" "window_ok s" "check_and_handle_t1_timeout now t1 s = (r, s')"
  shows "window_ok s'"
proof (cases r)
  case None
  then have "pending s' = pending s" "ack_sendsn s' = ack_sendsn s"
    using assms(3) by (auto simp: check_and_handle_t1_timeout_def decay_t1_def split: if_splits list.splits)
  then show ?thesis
    using assms(2) inflight_t1 [OF assms(1,3)] None by (simp add: window_ok_def)
next
  case (Some d)
  have v: "valid_seq (ack_sendsn s)" "valid_seq (send_sn s)" using assms(1) by (simp_all add: valid_counters_def)
  from Some obtain rest where q: "pending s' = drop 1 (pending s)" "pending s = rest # pending s'"
      "ack_sendsn s' = seq_add (ack_sendsn s) (of_nat 1)"
    using assms(3) by (auto simp: check_and_handle_t1_timeout_def split: if_splits list.splits)
  have pos: "1 \<le> inflight s" using assms(2) q(2) by (cases "inflight s") (auto simp: window_ok_def)
  have "inflight s < 32768" using seq_distance_less [OF v] by (simp add: inflight_def inflight_count_def)
  then have "map seq (drop 1 (pending s)) =
      map (\<lambda>i. seq_add (seq_add (ack_sendsn s) (of_nat 1)) (of_nat i)) [0..<inflight s - 1]"
    using assms(2) pos by (intro window_shift) (simp_all add: window_ok_def)
  then show ?thesis
    using inflight_t1 [OF assms(1,3)] Some unfolding window_ok_def q(1,3) by simp
qed

text \<open>Acknowledging number zero empties the queue, whatever is in it.\<close>

lemma ack_zero_empties:
  assumes "update_send_ack 0 s = (True, s')" "list_all (\<lambda>p. valid_seq (seq p)) (pending s)"
  shows "pending s' = []"
proof -
  have "seq_lte x (seq_add 0 32767)" if "valid_seq x" for x
    using that unat_seq_prev [of 0] by (simp add: seq_lte_iff) (simp add: valid_seq_def)
  then have "dropWhile (\<lambda>p. seq_lte (seq p) (seq_add 0 32767)) (pending s) = []"
    using assms(2) by (auto simp: dropWhile_eq_Nil_conv list_all_iff)
  then show ?thesis using update_send_ack_queue [OF assms(1)] by simp
qed

section \<open>The acknowledgement timer\<close>

text \<open>An instant in the future reads as an enormous elapsed time.\<close>

lemma elapsed_future:
  assumes "now + 1000000 \<le> since" "since - now \<le> 2 ^ 63 * 1000000"
  shows "2 ^ 63 \<le> unat (elapsed_ms now since)"
proof -
  define m where "m = (since - now) div 1000000"
  have m: "1 \<le> m" "m \<le> 2 ^ 63"
    using assms zdiv_mono1 [of 1000000 "since - now" 1000000]
      zdiv_mono1 [of "since - now" "2 ^ 63 * 1000000" 1000000] by (simp_all add: m_def)
  have "(now - since) sdiv 1000000 = - m"
    using assms signed_divide_int_eq_divide_int [of "since - now" 1000000] minus_sdiv_eq [of "since - now" 1000000]
    by (simp add: m_def)
  then have "elapsed_ms now since = word_of_int (- m)" by (simp only: elapsed_ms_def signed_ms_def)
  then have "uint (elapsed_ms now since) = (- m) mod 2 ^ 64" by (simp only: uint_word_of_int) simp
  also have "\<dots> = 2 ^ 64 - m"
    using m by (simp add: zmod_zminus1_eq_if)
  finally have "2 ^ 63 \<le> uint (elapsed_ms now since)" using m(2) by simp
  then have "nat (2 ^ 63) \<le> nat (uint (elapsed_ms now since))" by (rule nat_mono)
  then show ?thesis by simp
qed

lemma s_ack_when_unarmed:
  assumes "unacked_rcv_since s = max_utc" "now + 1000000 \<le> max_utc" "max_utc - now \<le> 2 ^ 63 * 1000000"
    and "unat t2 \<le> 2 ^ 63"
  shows "should_send_s_ack now t2 w s \<longleftrightarrow> ack_rcvsn s \<noteq> rcv_sn s"
  using elapsed_future [OF assms(2,3)] assms(1,4)
  by (auto simp: should_send_s_ack_def word_le_nat_alt)

lemma receive_does_not_arm:
  assumes "valid_counters s" "seq_distance (ack_rcvsn s) (rcv_sn s) \<noteq> 32767"
    and "advance_receive_seq n s = (True, s')"
  shows "unacked_rcv_since (mark_unacked_receive now s') = unacked_rcv_since s"
proof -
  have v: "valid_seq (ack_rcvsn s)" "valid_seq (rcv_sn s)" using assms(1) by (simp_all add: valid_counters_def)
  have d: "unat (seq_distance (ack_rcvsn s) (rcv_sn s)) < 32767"
    using assms(2) seq_distance_less [OF v] by (simp add: word_unat_eq_iff)
  have "ack_rcvsn s \<noteq> seq_add (rcv_sn s) 1"
    using seq_distance_step [OF v d] seq_distance_0 [OF v(1) valid_seq_add, of "rcv_sn s" 1] by auto
  then show ?thesis
    using assms(3) by (auto simp: advance_receive_seq_def mark_unacked_receive_def split: if_splits)
qed

section \<open>Properties\<close>

text \<open>A state with the I-frames 0, 1 and 2 unacknowledged.\<close>

definition sample_state :: SessionState where
  "sample_state = record_sent 2 30 20 (record_sent 1 20 20 (record_sent 0 10 20 (state_new 1000000000 0)))"

lemma sample_state_counters:
  "send_sn sample_state = 3" "ack_sendsn sample_state = 0" "rcv_sn sample_state = 0" "ack_rcvsn sample_state = 0"
  "map seq (pending sample_state) = [0, 1, 2]" "pending_bytes sample_state = 60"
  by (simp_all add: sample_state_def state_new_def record_sent_def push_pending_def seq_add_def sat_add_def Let_def)

lemma sample_state_ok: "valid_counters sample_state" "window_ok sample_state" "inflight sample_state = 3"
proof -
  show v: "valid_counters sample_state" by (simp add: valid_counters_def sample_state_counters valid_seq_def)
  show n: "inflight sample_state = 3"
    by (simp add: inflight_def inflight_count_def sample_state_counters unat_seq_distance valid_seq_def)
  show "window_ok sample_state"
    by (simp add: window_ok_def n sample_state_counters upt_rec seq_add_def)
qed

text \<open>C14: while the window does not wrap past zero, an accepted acknowledgement of a number other than
  zero removes exactly the frames before the acknowledged number from the queue, oldest first,
  and the queue again holds the frames of the remaining window.  (What the number zero does is
  \<open>iec104_ack_zero_forgets_all\<close>.)\<close>

theorem iec104_ack_removes_acked:
  assumes "valid_counters s" "window_ok s" "valid_seq a" "unat (ack_sendsn s) \<le> unat (send_sn s)" "0 < unat a"
    and "update_send_ack a s = (True, s')"
  shows "pending s' = drop (unat (seq_distance (ack_sendsn s) a)) (pending s) \<and> ack_sendsn s' = a
    \<and> inflight s' = inflight s - unat (seq_distance (ack_sendsn s) a) \<and> window_ok s'"
  using update_send_ack_exact [OF assms] window_ok_ack [OF assms]
    inflight_update_send_ack [OF assms(1,3,6)] update_send_ack_fields(6) [OF assms(6)] by simp

theorem iec104_ack_removes_acked_witness:
  "pending (snd (update_send_ack 2 sample_state)) = drop 2 (pending sample_state)"
proof -
  have v: "valid_seq 2" by (simp add: valid_seq_def)
  have d: "unat (seq_distance 0 2) = 2" "unat (seq_distance 0 3) = 3"
    by (simp_all add: unat_seq_distance valid_seq_def)
  then have "update_send_ack 2 sample_state = (True, snd (update_send_ack 2 sample_state))"
    by (simp add: update_send_ack_def seq_in_range_inclusive_def sample_state_counters word_le_nat_alt split: prod.splits)
  from iec104_ack_removes_acked [OF sample_state_ok(1,2) v _ _ this] show ?thesis
    by (simp add: sample_state_counters d)
qed

text \<open>Acknowledging number zero empties the queue of unacknowledged frames, whatever it holds;
  at the start of a session a peer that has not acknowledged anything does just that.\<close>

theorem iec104_ack_zero_forgets_all:
  assumes "update_send_ack 0 s = (True, s')" "list_all (\<lambda>p. valid_seq (seq p)) (pending s)"
  shows "pending s' = []"
  using assms by (rule ack_zero_empties)

theorem iec104_ack_zero_forgets_all_witness:
  "pending (snd (update_send_ack 0 sample_state)) = [] \<and> inflight (snd (update_send_ack 0 sample_state)) = 3"
proof -
  have d: "unat (seq_distance 0 0) = 0" by (simp add: unat_seq_distance)
  then have upd: "update_send_ack 0 sample_state = (True, snd (update_send_ack 0 sample_state))"
    by (simp add: update_send_ack_def seq_in_range_inclusive_def sample_state_counters word_le_nat_alt split: prod.splits)
  have "list_all valid_seq (map seq (pending sample_state))"
    by (simp add: sample_state_counters valid_seq_def)
  then have "list_all (\<lambda>p. valid_seq (seq p)) (pending sample_state)" by (simp add: list_all_iff)
  with upd have "pending (snd (update_send_ack 0 sample_state)) = []" by (rule iec104_ack_zero_forgets_all)
  then show ?thesis
    using inflight_update_send_ack [OF sample_state_ok(1) valid_seq_0 upd] d
    by (simp add: sample_state_ok sample_state_counters)
qed

text \<open>Once the window has wrapped, an acknowledgement numerically below the oldest queued frame
  removes nothing, although every queued frame before it is acknowledged.\<close>

theorem iec104_ack_after_wrap_removes_nothing:
  assumes "update_send_ack a s = (True, s')" "pending s = p # q" "valid_seq a" "valid_seq (seq p)"
    and "0 < unat a" "unat a \<le> unat (seq p)"
  shows "pending s' = pending s"
  using update_send_ack_queue [OF assms(1)] assms(2-6) by (simp add: seq_lte_iff unat_seq_prev)

theorem iec104_ack_after_wrap_removes_nothing_witness:
  "let s = (state_new 1000000000 0)\<lparr>send_sn := 1, ack_sendsn := 32766,
       pending := [\<lparr>seq = 32766, send_time = 0, size_bytes = 20\<rparr>, \<lparr>seq = 32767, send_time = 0, size_bytes = 20\<rparr>,
                   \<lparr>seq = 0, send_time = 0, size_bytes = 20\<rparr>]\<rparr>
   in pending (snd (update_send_ack 1 s)) = pending s \<and> inflight (snd (update_send_ack 1 s)) = 0"
proof -
  define s where "s = (state_new 1000000000 0)\<lparr>send_sn := 1, ack_sendsn := 32766,
       pending := [\<lparr>seq = 32766, send_time = 0, size_bytes = 20\<rparr>, \<lparr>seq = 32767, send_time = 0, size_bytes = 20\<rparr>,
                   \<lparr>seq = 0, send_time = 0, size_bytes = 20\<rparr>]\<rparr>"
  have v: "valid_seq 1" "valid_seq 32766" "valid_counters s"
    by (simp_all add: valid_seq_def valid_counters_def s_def state_new_def)
  have d: "unat (seq_distance 32766 1) = 3" using v by (simp add: unat_seq_distance)
  then have upd: "update_send_ack 1 s = (True, snd (update_send_ack 1 s))"
    by (simp add: update_send_ack_def seq_in_range_inclusive_def s_def state_new_def split: prod.splits)
  have "pending (snd (update_send_ack 1 s)) = pending s"
    by (rule iec104_ack_after_wrap_removes_nothing [OF upd, of "hd (pending s)" "tl (pending s)"])
      (simp_all add: s_def valid_seq_def)
  moreover have "inflight s = 3" using d by (simp add: inflight_def inflight_count_def s_def state_new_def)
  ultimately show ?thesis
    using inflight_update_send_ack [OF v(3,1) upd] d unfolding s_def [symmetric]
    by (simp add: Let_def) (simp add: s_def state_new_def)
qed

text \<open>C16: receiving an I-frame does not start the T2 timer, and while the timer is not running
  every tick acknowledges whatever is unacknowledged, however young: neither \<open>t2\<close> nor \<open>w\<close> delays
  an S-frame.\<close>

theorem iec104_t2_never_delays:
  assumes "valid_counters s" "seq_distance (ack_rcvsn s) (rcv_sn s) \<noteq> 32767" "unacked_rcv_since s = max_utc"
    and "advance_receive_seq n s = (True, s')" "now + 1000000 \<le> max_utc" "max_utc - now \<le> 2 ^ 63 * 1000000"
    and "unat t2 \<le> 2 ^ 63"
  shows "should_send_s_ack now t2 w (mark_unacked_receive rcv_time s') \<longleftrightarrow>
    ack_rcvsn (mark_unacked_receive rcv_time s') \<noteq> rcv_sn (mark_unacked_receive rcv_time s')"
  using receive_does_not_arm [OF assms(1,2,4), of rcv_time] assms(3)
  by (intro s_ack_when_unarmed [OF _ assms(5-7)]) simp

theorem iec104_t2_never_delays_witness:
  "should_send_s_ack 2000000 10000 8 (mark_unacked_receive 1000000 (snd (advance_receive_seq 0 sample_state)))"
proof -
  have un: "unacked_rcv_since sample_state = 1000000000"
    by (simp add: sample_state_def state_new_def record_sent_def push_pending_def Let_def)
  have "seq_distance 0 0 = 0" by (simp add: seq_distance_0)
  moreover have adv: "advance_receive_seq 0 sample_state = (True, sample_state\<lparr>rcv_sn := seq_add 0 1\<rparr>)"
    by (simp add: advance_receive_seq_def sample_state_counters)
  moreover have "seq_add 0 1 = 1" by (simp add: seq_add_def)
  ultimately show ?thesis
    using iec104_t2_never_delays [OF sample_state_ok(1) _ un adv, of 2000000 10000 8 1000000]
    by (simp add: sample_state_counters mark_unacked_receive_def)
qed

text \<open>Dropping a frame on a T1 timeout advances the window by one but keeps the frame's bytes
  in the byte count, so the budget shrinks with every timeout.\<close>

theorem iec104_t1_drop_leaks_bytes:
  assumes "check_and_handle_t1_timeout now t1 s = (Some d, s')"
  shows "\<exists>p. pending s = p # pending s' \<and> d = seq p \<and> ack_sendsn s' = seq_add (ack_sendsn s) 1
    \<and> pending_bytes s' = pending_bytes s"
  using assms by (auto simp: check_and_handle_t1_timeout_def split: if_splits list.splits)

theorem iec104_t1_drop_leaks_bytes_witness:
  "pending_bytes (snd (check_and_handle_t1_timeout 20000000000 15000 sample_state)) = 60
   \<and> map seq (pending (snd (check_and_handle_t1_timeout 20000000000 15000 sample_state))) = [1, 2]"
proof -
  obtain p q where pq: "pending sample_state = p # q" "seq p = 0" "map seq q = [1, 2]"
    using sample_state_counters(5) by (cases "pending sample_state") auto
  have "send_time p = 10"
    using pq(1) by (auto simp: sample_state_def state_new_def record_sent_def push_pending_def Let_def)
  then have "check_and_handle_t1_timeout 20000000000 15000 sample_state
      = (Some 0, snd (check_and_handle_t1_timeout 20000000000 15000 sample_state))"
    using pq by (simp add: check_and_handle_t1_timeout_def sample_state_counters elapsed_ms_def signed_ms_def)
  from iec104_t1_drop_leaks_bytes [OF this] show ?thesis using pq by (simp add: sample_state_counters)
qed

end
