(* ===== verification/Iec104_Session.thy ===== *)
theory Iec104_Session
  imports Iec104_State
begin

text \<open>
  The event loop of an IEC 60870-5-104 session (\<open>run_connection_with_stream\<close> in
  \<open>session/mod.rs\<close>): the periodic tick with the timers T0 to T3, requests from the application,
  frames from the wire, and the way out.  One iteration of the \<open>select!\<close> is one step on the
  loop state; runs are sequences of steps.

  The invariants proved for every reachable state: counters stay valid and the number of
  unacknowledged I-frames never exceeds \<open>k\<close>; the I-frames on the wire carry consecutive send
  numbers and are sent only while the link is active; queues stay within their limits; every
  exit ends in \<open>Closed\<close> with the sender gone.
\<close>

section \<open>The loop state\<close>

datatype Priority = High | Low

datatype Request = Req_I Asdu Priority | Req_U u8 | Req_S u16

text \<open>The variables of the loop, the shared session fields it writes, and what it has put out so
  far: broadcast events, application units handed to the application channel, requests put
  back into its own channel, frames handed to the transport.\<close>

record link =
  st :: SessionState
  hi_queue :: "(Asdu \<times> u64) list"
  hi_queue_bytes :: u64
  test_since :: utc
  start_since :: utc
  stop_since :: utc
  lifecycle :: SessionLifecycleState
  sender_open :: bool
  events :: "SessionEvent list"
  delivered :: "Asdu list"
  requeued :: "Request list"
  wire :: "Apdu list"

text \<open>What the environment decides in one iteration: whether \<open>framed.send\<close> of a frame succeeds,
  and whether the two bounded channels have room for \<open>try_send\<close>.\<close>

record env =
  send_ok :: "Apdu \<Rightarrow> bool"
  app_has_room :: bool
  queue_has_room :: bool

datatype flow = Continue | Break

definition emit :: "SessionEvent \<Rightarrow> link \<Rightarrow> link" where
  "emit ev l = l\<lparr>events := events l @ [ev]\<rparr>"

definition set_lifecycle :: "SessionLifecycleState \<Rightarrow> link \<Rightarrow> link" where
  "set_lifecycle ls l = (emit (LifecycleChanged ls) l)\<lparr>lifecycle := ls\<rparr>"

definition send_frame :: "env \<Rightarrow> Apdu \<Rightarrow> link \<Rightarrow> bool \<times> link" where
  "send_frame e p l = (if send_ok e p then (True, l\<lparr>wire := wire l @ [p]\<rparr>) else (False, l))"

section \<open>The tick\<close>

definition tick_t1 :: "SessionConfig \<Rightarrow> utc \<Rightarrow> link \<Rightarrow> flow \<times> link" where
  "tick_t1 cfg now l =
     (case check_and_handle_t1_timeout now (t1_ms cfg) (st l) of
        (Some _, s) \<Rightarrow>
          let l1 = emit T1Timeout (l\<lparr>st := s\<rparr>)
          in (if consecutive_t1_timeouts s \<ge> 5 then Break else Continue, l1)
      | (None, s) \<Rightarrow> (Continue, l\<lparr>st := s\<rparr>))"

text \<open>T3: the flag is false when sending the test frame failed and the iteration ends.\<close>

definition tick_t3 :: "SessionConfig \<Rightarrow> env \<Rightarrow> utc \<Rightarrow> link \<Rightarrow> bool \<times> link" where
  "tick_t3 cfg e now l =
     (if elapsed_ms now (idle_since (st l)) \<ge> t3_ms cfg
      then
        let l1 = l\<lparr>test_since := now\<rparr>
        in case send_frame e (new_uframe U_TESTFR_ACTIVE) l1 of
             (False, l2) \<Rightarrow> (False, l2)
           | (True, l2) \<Rightarrow> (True, l2\<lparr>st := (st l2)\<lparr>idle_since := now\<rparr>\<rparr>)
      else (True, l))"

definition tick_s_ack :: "SessionConfig \<Rightarrow> env \<Rightarrow> utc \<Rightarrow> link \<Rightarrow> link" where
  "tick_s_ack cfg e now l =
     (if should_send_s_ack now (t2_ms cfg) (w_threshold cfg) (st l)
      then let (_, l1) = send_frame e (new_sframe (rcv_sn (st l))) l in l1\<lparr>st := mark_s_ack_sent (st l1)\<rparr>
      else l)"

text \<open>The \<open>while slots > 0\<close> loop over the backlog.\<close>

fun flush_backlog :: "nat \<Rightarrow> env \<Rightarrow> utc \<Rightarrow> link \<Rightarrow> link" where
  "flush_backlog 0 e now l = l"
| "flush_backlog (Suc slots) e now l =
     (case hi_queue l of
        [] \<Rightarrow> l
      | (a, sz) # rest \<Rightarrow>
          let l1 = l\<lparr>hi_queue := rest\<rparr>;
              p = new_iframe a (send_sn (st l1)) (rcv_sn (st l1))
          in case apci_kind (apci p) of
               I_kind sn _ \<Rightarrow>
                 (case send_frame e p l1 of
                    (False, l2) \<Rightarrow> l2
                  | (True, l2) \<Rightarrow>
                      flush_backlog slots e now
                        (l2\<lparr>st := record_sent sn now sz (st l2),
                            hi_queue_bytes := sat_sub (hi_queue_bytes l2) sz\<rparr>))
             | _ \<Rightarrow> l1)"

definition flush_low_prio :: "SessionConfig \<Rightarrow> env \<Rightarrow> utc \<Rightarrow> link \<Rightarrow> link" where
  "flush_low_prio cfg e now l =
     (if hi_queue l = [] \<and> low_prio_flush_max_age_ms cfg > 0
         \<and> should_flush_low_prio now (low_prio_flush_max_age_ms cfg) (st l)
      then
        (case take_last_low_prio (st l) of
           (Some a, s) \<Rightarrow>
             if queue_has_room e then l\<lparr>st := s, requeued := requeued l @ [Req_I a Low]\<rparr>
             else l\<lparr>st := s\<rparr>
         | (None, s) \<Rightarrow> l\<lparr>st := s\<rparr>)
      else l)"

definition tick_backlog :: "SessionConfig \<Rightarrow> env \<Rightarrow> utc \<Rightarrow> link \<Rightarrow> link" where
  "tick_backlog cfg e now l =
     (if lifecycle l = Active \<and> window_has_capacity (st l) (k_window cfg)
      then flush_low_prio cfg e now
             (flush_backlog (unat (window_available_slots (st l) (k_window cfg))) e now l)
      else l)"

definition t0_exceeded :: "SessionConfig \<Rightarrow> utc \<Rightarrow> utc \<Rightarrow> bool" where
  "t0_exceeded cfg now since \<longleftrightarrow> signed_ms now since \<ge> 0 \<and> elapsed_ms now since \<ge> t0_ms cfg"

definition tick_t0 :: "SessionConfig \<Rightarrow> utc \<Rightarrow> link \<Rightarrow> flow" where
  "tick_t0 cfg now l =
     (if t0_exceeded cfg now (test_since l) \<or> t0_exceeded cfg now (start_since l)
         \<or> t0_exceeded cfg now (stop_since l)
      then Break else Continue)"

definition on_tick :: "SessionConfig \<Rightarrow> env \<Rightarrow> utc \<Rightarrow> link \<Rightarrow> flow \<times> link" where
  "on_tick cfg e now l =
     (case tick_t1 cfg now l of
        (Break, l1) \<Rightarrow> (Break, l1)
      | (Continue, l1) \<Rightarrow>
          (case tick_t3 cfg e now l1 of
             (False, l2) \<Rightarrow> (Continue, l2)
           | (True, l2) \<Rightarrow>
               let l3 = tick_s_ack cfg e now l2; l4 = tick_backlog cfg e now l3
               in (tick_t0 cfg now l4, l4)))"

section \<open>Requests from the application\<close>

definition within_budget :: "SessionConfig \<Rightarrow> u64 \<Rightarrow> link \<Rightarrow> bool" where
  "within_budget cfg sz l \<longleftrightarrow>
     sat_add (sat_add (total_pending_bytes (st l)) (hi_queue_bytes l)) sz \<le> max_pending_asdu_bytes cfg"

definition enqueue_or_drop :: "SessionConfig \<Rightarrow> Asdu \<Rightarrow> u64 \<Rightarrow> link \<Rightarrow> link" where
  "enqueue_or_drop cfg a sz l =
     (if length (hi_queue l) < send_queue_capacity cfg \<and> within_budget cfg sz l
      then l\<lparr>hi_queue := hi_queue l @ [(a, sz)], hi_queue_bytes := sat_add (hi_queue_bytes l) sz\<rparr>
      else emit WindowFullDrop l)"

definition window_full :: "SessionConfig \<Rightarrow> utc \<Rightarrow> Asdu \<Rightarrow> Priority \<Rightarrow> u64 \<Rightarrow> link \<Rightarrow> link" where
  "window_full cfg now a prio sz l =
     (case prio of
        High \<Rightarrow> enqueue_or_drop cfg a sz l
      | Low \<Rightarrow>
          if discard_low_priority_when_window_full cfg then emit WindowFullDrop l
          else if merge_low_priority cfg
          then emit LowPriorityMerged (l\<lparr>st := set_last_low_prio a now (st l)\<rparr>)
          else enqueue_or_drop cfg a sz l)"

definition over_budget :: "SessionConfig \<Rightarrow> utc \<Rightarrow> Asdu \<Rightarrow> Priority \<Rightarrow> link \<Rightarrow> link" where
  "over_budget cfg now a prio l =
     (case prio of
        High \<Rightarrow> emit MemoryBudgetDrop l
      | Low \<Rightarrow>
          if discard_low_priority_when_window_full cfg then emit MemoryBudgetDrop l
          else if merge_low_priority cfg
          then emit LowPriorityMerged (l\<lparr>st := set_last_low_prio a now (st l)\<rparr>)
          else emit MemoryBudgetDrop l)"

definition send_now :: "env \<Rightarrow> utc \<Rightarrow> Asdu \<Rightarrow> u64 \<Rightarrow> link \<Rightarrow> flow \<times> link" where
  "send_now e now a sz l =
     (let p = new_iframe a (send_sn (st l)) (rcv_sn (st l))
      in case apci_kind (apci p) of
           I_kind sn _ \<Rightarrow>
             (case send_frame e p l of
                (False, l1) \<Rightarrow> (Break, l1)
              | (True, l1) \<Rightarrow> (Continue, l1\<lparr>st := record_sent sn now sz (st l1)\<rparr>))
         | _ \<Rightarrow> (Continue, l))"

definition on_i_request :: "SessionConfig \<Rightarrow> env \<Rightarrow> utc \<Rightarrow> Asdu \<Rightarrow> Priority \<Rightarrow> link \<Rightarrow> flow \<times> link" where
  "on_i_request cfg e now a prio l =
     (if lifecycle l \<noteq> Active then (Continue, l)
      else
        let size = iframe_wire_size_for_asdu a; sz = (of_nat size :: u64)
        in if size > 255 then (Continue, emit FrameTooLargeDrop l)
           else if \<not> window_has_capacity (st l) (k_window cfg)
           then (Continue, window_full cfg now a prio sz l)
           else if \<not> within_budget cfg sz l then (Continue, over_budget cfg now a prio l)
           else send_now e now a sz l)"

definition on_request :: "SessionConfig \<Rightarrow> env \<Rightarrow> utc \<Rightarrow> Request option \<Rightarrow> link \<Rightarrow> flow \<times> link" where
  "on_request cfg e now req l =
     (case req of
        Some (Req_I a prio) \<Rightarrow> on_i_request cfg e now a prio l
      | Some (Req_U fn) \<Rightarrow>
          let l1 = (if fn = U_STARTDT_ACTIVE then l\<lparr>start_since := now\<rparr>
                    else if fn = U_STOPDT_ACTIVE then l\<lparr>stop_since := now\<rparr> else l);
              (ok, l2) = send_frame e (new_uframe fn) l1
          in (if ok then Continue else Break, l2)
      | Some (Req_S sn) \<Rightarrow>
          let (ok, l1) = send_frame e (new_sframe sn) l in (if ok then Continue else Break, l1)
      | None \<Rightarrow> (Break, l))"

section \<open>Frames from the wire\<close>

definition on_i_frame :: "env \<Rightarrow> utc \<Rightarrow> u16 \<Rightarrow> u16 \<Rightarrow> Asdu option \<Rightarrow> link \<Rightarrow> flow \<times> link" where
  "on_i_frame e now snd_sn rcv_no a l =
     (case update_send_ack rcv_no (st l) of
        (False, s) \<Rightarrow> (Break, l\<lparr>st := s\<rparr>)
      | (True, s) \<Rightarrow>
          (case advance_receive_seq snd_sn s of
             (False, s1) \<Rightarrow> (Break, l\<lparr>st := s1\<rparr>)
           | (True, s1) \<Rightarrow>
               let l1 = l\<lparr>st := mark_unacked_receive now s1\<rparr>
               in (case a of
                     Some u \<Rightarrow>
                       (Continue, if app_has_room e then l1\<lparr>delivered := delivered l1 @ [u]\<rparr> else l1)
                   | None \<Rightarrow> (Continue, l1))))"

definition on_u_frame :: "utc \<Rightarrow> env \<Rightarrow> u8 \<Rightarrow> link \<Rightarrow> link" where
  "on_u_frame max_utc e fn l =
     (if fn = U_STARTDT_CONFIRM then set_lifecycle Active (l\<lparr>start_since := max_utc\<rparr>)
      else if fn = U_STOPDT_CONFIRM then set_lifecycle Inactive (l\<lparr>stop_since := max_utc\<rparr>)
      else if fn = U_TESTFR_CONFIRM then l\<lparr>test_since := max_utc\<rparr>
      else if fn = U_STARTDT_ACTIVE
      then let (ok, l1) = send_frame e (new_uframe U_STARTDT_CONFIRM) l
           in if ok then set_lifecycle Active l1 else l1
      else if fn = U_STOPDT_ACTIVE
      then let (ok, l1) = send_frame e (new_uframe U_STOPDT_CONFIRM) l
           in if ok then set_lifecycle Inactive l1 else l1
      else if fn = U_TESTFR_ACTIVE then snd (send_frame e (new_uframe U_TESTFR_CONFIRM) l)
      else l)"

definition on_apdu :: "utc \<Rightarrow> env \<Rightarrow> utc \<Rightarrow> utc \<Rightarrow> Apdu option \<Rightarrow> link \<Rightarrow> flow \<times> link" where
  "on_apdu max_utc e now now' incoming l =
     (case incoming of
        None \<Rightarrow> (Break, l)
      | Some p \<Rightarrow>
          let l1 = l\<lparr>st := (st l)\<lparr>idle_since := now\<rparr>\<rparr>
          in case apci_kind (apci p) of
               I_kind snd_sn rcv_no \<Rightarrow> on_i_frame e now' snd_sn rcv_no (asdu p) l1
             | U_kind fn \<Rightarrow> (Continue, on_u_frame max_utc e fn l1)
             | S_kind rcv_no \<Rightarrow>
                 (case update_send_ack rcv_no (st l1) of
                    (ok, s) \<Rightarrow> (if ok then Continue else Break, l1\<lparr>st := s\<rparr>)))"

section \<open>The whole loop\<close>

text \<open>The start: hand over the sender, announce \<open>Handshaking\<close> and \<open>Inactive\<close>, send STARTDT.\<close>

definition link_new :: "utc \<Rightarrow> utc \<Rightarrow> link" where
  "link_new max_utc now =
     \<lparr>st = state_new max_utc now, hi_queue = [], hi_queue_bytes = 0, test_since = max_utc,
      start_since = max_utc, stop_since = max_utc, lifecycle = Connecting, sender_open = True,
      events = [], delivered = [], requeued = [], wire = []\<rparr>"

definition finish :: "link \<Rightarrow> link" where
  "finish l =
     (let l1 = (case lifecycle l of
                  Closing \<Rightarrow> l | Closed \<Rightarrow> l | Failed _ \<Rightarrow> l
                | _ \<Rightarrow> set_lifecycle Closing l)
      in set_lifecycle Closed (l1\<lparr>sender_open := False\<rparr>))"

definition startup :: "utc \<Rightarrow> env \<Rightarrow> utc \<Rightarrow> utc \<Rightarrow> flow \<times> link" where
  "startup max_utc e now now' =
     (let l = set_lifecycle Inactive (set_lifecycle Handshaking (link_new max_utc now));
          l1 = l\<lparr>start_since := now'\<rparr>
      in case send_frame e (new_uframe U_STARTDT_ACTIVE) l1 of
           (False, l2) \<Rightarrow> (Break, set_lifecycle Closed ((set_lifecycle Closing l2)\<lparr>sender_open := False\<rparr>))
         | (True, l2) \<Rightarrow> (Continue, l2))"

text \<open>The branch the \<open>select!\<close> takes, with what the environment supplies.\<close>

datatype branch =
    Cancelled
  | Ticked utc
  | Requested utc "Request option"
  | Received utc utc "Apdu option"

definition step :: "SessionConfig \<Rightarrow> utc \<Rightarrow> env \<Rightarrow> branch \<Rightarrow> link \<Rightarrow> flow \<times> link" where
  "step cfg max_utc e b l =
     (case b of
        Cancelled \<Rightarrow> (Break, l)
      | Ticked now \<Rightarrow> on_tick cfg e now l
      | Requested now req \<Rightarrow> on_request cfg e now req l
      | Received now now' p \<Rightarrow> on_apdu max_utc e now now' p l)"

text \<open>A run of the loop over a sequence of iterations, with the clean-up when it breaks.\<close>

fun run :: "SessionConfig \<Rightarrow> utc \<Rightarrow> (env \<times> branch) list \<Rightarrow> link \<Rightarrow> flow \<times> link" where
  "run cfg max_utc [] l = (Continue, l)"
| "run cfg max_utc ((e, b) # bs) l =
     (case step cfg max_utc e b l of
        (Break, l1) \<Rightarrow> (Break, finish l1)
      | (Continue, l1) \<Rightarrow> run cfg max_utc bs l1)"

definition run_connection_with_stream ::
    "SessionConfig \<Rightarrow> utc \<Rightarrow> env \<Rightarrow> utc \<Rightarrow> utc \<Rightarrow> (env \<times> branch) list \<Rightarrow> flow \<times> link" where
  "run_connection_with_stream cfg max_utc e now now' bs =
     (case startup max_utc e now now' of
        (Break, l) \<Rightarrow> (Break, l)
      | (Continue, l) \<Rightarrow> run cfg max_utc bs l)"

section \<open>The invariant\<close>

text \<open>The send numbers of the I-frames among the frames put on the wire.\<close>

definition i_numbers :: "Apdu \<Rightarrow> u16 list" where
  "i_numbers p = (case apci_kind (apci p) of I_kind sn _ \<Rightarrow> [sn] | _ \<Rightarrow> [])"

definition sent_numbers :: "link \<Rightarrow> u16 list" where
  "sent_numbers l = concat (map i_numbers (wire l))"

definition queue_sum :: "link \<Rightarrow> nat" where
  "queue_sum l = sum_list (map (\<lambda>(_, sz). unat sz) (hi_queue l))"

definition window_inv :: "SessionConfig \<Rightarrow> link \<Rightarrow> bool" where
  "window_inv cfg l \<longleftrightarrow> valid_counters (st l) \<and> inflight (st l) \<le> unat (k_window cfg)"

text \<open>The numbers counted from zero modulo 32768, and the number that comes next.\<close>

definition numbered :: "u16 list \<Rightarrow> u16 \<Rightarrow> bool" where
  "numbered ns next \<longleftrightarrow>
     ns = map (\<lambda>i. of_nat (i mod 32768)) [0..<length ns] \<and> next = of_nat (length ns mod 32768)"

definition numbers_inv :: "link \<Rightarrow> bool" where
  "numbers_inv l \<longleftrightarrow> numbered (sent_numbers l) (send_sn (st l))"

definition queue_inv :: "SessionConfig \<Rightarrow> link \<Rightarrow> bool" where
  "queue_inv cfg l \<longleftrightarrow> length (hi_queue l) \<le> send_queue_capacity cfg
     \<and> queue_sum l \<le> unat (hi_queue_bytes l)
     \<and> unat (pending_bytes (st l)) + unat (hi_queue_bytes l) \<le> unat (max_pending_asdu_bytes cfg)"

definition link_inv :: "SessionConfig \<Rightarrow> link \<Rightarrow> bool" where
  "link_inv cfg l \<longleftrightarrow> window_inv cfg l \<and> numbers_inv l \<and> queue_inv cfg l"

lemma numbered_step: "numbered ns n \<Longrightarrow> numbered (ns @ [n]) (seq_add n 1)"
proof -
  assume "numbered ns n"
  then have ns: "ns = map (\<lambda>i. of_nat (i mod 32768)) [0..<length ns]" and n: "n = of_nat (length ns mod 32768)"
    by (simp_all add: numbered_def)
  have "seq_add n 1 = of_nat (Suc (length ns) mod 32768)"
    unfolding n by (simp add: word_unat_eq_iff unat_seq_add unat_of_nat mod_simps)
  moreover have "ns @ [n] = map (\<lambda>i. of_nat (i mod 32768)) [0..<Suc (length ns)]"
    using ns n by (metis (no_types, lifting) list.simps(8,9) map_append upt_Suc_append zero_le)
  ultimately show ?thesis by (simp add: numbered_def)
qed

lemmas inv_defs = link_inv_def window_inv_def numbers_inv_def queue_inv_def queue_sum_def

lemma i_numbers_other [simp]: "i_numbers (new_uframe fn) = []" "i_numbers (new_sframe sn) = []"
  using or_3_odd [of fn] or_3_low [of fn]
  by (simp_all add: i_numbers_def apci_kind_def new_uframe_def new_sframe_def)

lemma i_numbers_iframe: "valid_seq ssn \<Longrightarrow> valid_seq rsn \<Longrightarrow> i_numbers (new_iframe a ssn rsn) = [ssn]"
  by (simp add: i_numbers_def kind_new_iframe valid_seq_def word_less_nat_alt)

text \<open>The invariant only looks at the counters, the byte count, the queue and the wire, so
  changes elsewhere keep it.\<close>

lemma link_inv_cong:
  assumes "send_sn (st l') = send_sn (st l)" "ack_sendsn (st l') = ack_sendsn (st l)"
    "rcv_sn (st l') = rcv_sn (st l)" "valid_seq (ack_rcvsn (st l'))"
    "pending_bytes (st l') = pending_bytes (st l)"
    "hi_queue l' = hi_queue l" "hi_queue_bytes l' = hi_queue_bytes l" "sent_numbers l' = sent_numbers l"
    and "link_inv cfg l"
  shows "link_inv cfg l'"
  using assms by (simp add: inv_defs valid_counters_def inflight_def inflight_count_def)

lemma link_inv_valid: "link_inv cfg l \<Longrightarrow> valid_counters (st l)"
  by (simp add: inv_defs)

lemma send_frame_other:
  assumes "send_frame e p l = (ok, l')" "i_numbers p = []"
  shows "sent_numbers l' = sent_numbers l" "st l' = st l" "hi_queue l' = hi_queue l"
    "hi_queue_bytes l' = hi_queue_bytes l" "lifecycle l' = lifecycle l"
  using assms by (auto simp: send_frame_def sent_numbers_def split: if_splits)

lemma link_inv_send_other:
  "send_frame e p l = (ok, l') \<Longrightarrow> i_numbers p = [] \<Longrightarrow> link_inv cfg l \<Longrightarrow> link_inv cfg l'"
  using send_frame_other [of e p l ok l'] by (simp add: inv_defs)

text \<open>Putting an I-frame on the wire and recording it.\<close>

lemma link_inv_send_i:
  assumes inv: "window_inv cfg l" "numbers_inv l" and cap: "inflight (st l) < unat (k_window cfg)"
    and k: "unat (k_window cfg) \<le> 32767"
    and p: "p = new_iframe a (send_sn (st l)) (rcv_sn (st l))"
    and l': "st l' = record_sent (send_sn (st l)) now sz (st l)" "wire l' = wire l @ [p]"
  shows "window_inv cfg l'" "numbers_inv l'"
proof -
  have v: "valid_counters (st l)" using inv(1) by (simp add: window_inv_def)
  have "inflight (st l') = inflight (st l) + 1"
    unfolding l'(1) by (rule inflight_record_sent [OF v]) (use cap k in linarith)
  then show "window_inv cfg l'"
    using inv(1) cap l'(1) by (simp add: window_inv_def valid_record_sent)
  have sent: "sent_numbers l' = sent_numbers l @ [send_sn (st l)]"
    using v by (simp add: sent_numbers_def l'(2) p i_numbers_iframe valid_counters_def)
  have "send_sn (st l') = seq_add (send_sn (st l)) 1"
    using l'(1) by (simp add: record_sent_def push_pending_def Let_def)
  then show "numbers_inv l'"
    using numbered_step inv(2) sent by (simp add: numbers_inv_def)
qed

lemma unat_sat_add_le: "unat (sat_add a b :: u64) \<le> unat a + unat b"
  by (simp add: unat_sat_add)

lemma pending_bytes_record: "pending_bytes (record_sent sn now sz s) = sat_add (pending_bytes s) sz"
  by (simp add: record_sent_def push_pending_def Let_def)

lemma kind_next_iframe:
  "valid_counters s \<Longrightarrow> apci_kind (apci (new_iframe a (send_sn s) (rcv_sn s))) = I_kind (send_sn s) (rcv_sn s)"
  by (simp add: kind_new_iframe valid_counters_def valid_seq_def word_less_nat_alt)

lemma flush_backlog_inv:
  assumes "link_inv cfg l" "slots \<le> unat (k_window cfg) - inflight (st l)" "unat (k_window cfg) \<le> 32767"
  shows "link_inv cfg (flush_backlog slots e now l)"
  using assms(1,2)
proof (induction slots arbitrary: l)
  case 0
  then show ?case by simp
next
  case (Suc slots)
  show ?case
  proof (cases "hi_queue l")
    case Nil
    then show ?thesis using Suc.prems by simp
  next
    case (Cons x rest)
    obtain a sz where x: "x = (a, sz)" by fastforce
    let ?p = "new_iframe a (send_sn (st l)) (rcv_sn (st l))"
    let ?l2 = "l\<lparr>hi_queue := rest, wire := wire l @ [?p], st := record_sent (send_sn (st l)) now sz (st l),
                 hi_queue_bytes := sat_sub (hi_queue_bytes l) sz\<rparr>"
    have v: "valid_counters (st l)" using Suc.prems(1) by (rule link_inv_valid)
    show ?thesis
    proof (cases "send_ok e ?p")
      case True
      have w: "window_inv cfg ?l2" "numbers_inv ?l2"
        using link_inv_send_i [of cfg l ?p a ?l2 now sz] Suc.prems assms(3) by (simp_all add: link_inv_def)
      have "queue_inv cfg ?l2"
        using Suc.prems(1) Cons x unat_sat_add_le [of "pending_bytes (st l)" sz]
        by (auto simp: inv_defs pending_bytes_record unat_sat_sub)
      moreover have "slots \<le> unat (k_window cfg) - inflight (st ?l2)"
        using inflight_record_sent [OF v, of "send_sn (st l)" now sz] Suc.prems(2) assms(3) by simp
      ultimately have "link_inv cfg (flush_backlog slots e now ?l2)"
        using Suc.IH [of ?l2] w by (simp add: link_inv_def)
      then show ?thesis using True Cons x by (simp add: kind_next_iframe [OF v] send_frame_def Let_def)
    next
      case False
      have "link_inv cfg (l\<lparr>hi_queue := rest\<rparr>)"
        using Suc.prems(1) Cons by (auto simp: inv_defs sent_numbers_def)
      then show ?thesis using False Cons x by (simp add: kind_next_iframe [OF v] send_frame_def Let_def)
    qed
  qed
qed

lemma flush_low_prio_inv: "link_inv cfg l \<Longrightarrow> link_inv cfg (flush_low_prio cfg e now l)"
  by (auto simp: flush_low_prio_def take_last_low_prio_def inv_defs valid_counters_def inflight_def
      inflight_count_def sent_numbers_def split: option.splits)

lemma tick_backlog_inv:
  "link_inv cfg l \<Longrightarrow> unat (k_window cfg) \<le> 32767 \<Longrightarrow> link_inv cfg (tick_backlog cfg e now l)"
  by (simp add: tick_backlog_def flush_low_prio_inv flush_backlog_inv window_slots)

lemma tick_t1_inv:
  assumes "link_inv cfg l" "tick_t1 cfg now l = (fl, l')"
  shows "link_inv cfg l'"
proof -
  obtain r s where t1: "check_and_handle_t1_timeout now (t1_ms cfg) (st l) = (r, s)" by fastforce
  have l': "st l' = s" "hi_queue l' = hi_queue l" "hi_queue_bytes l' = hi_queue_bytes l" "wire l' = wire l"
    using assms(2) t1 by (auto simp: tick_t1_def emit_def Let_def split: option.splits)
  have "send_sn s = send_sn (st l)" "pending_bytes s = pending_bytes (st l)"
    using t1 by (auto simp: check_and_handle_t1_timeout_def decay_t1_def split: if_splits list.splits)
  with assms(1) l' show ?thesis
    using valid_t1 [OF link_inv_valid t1] inflight_t1 [OF link_inv_valid t1] assms(1)
    by (auto simp: inv_defs sent_numbers_def split: if_splits)
qed

lemma tick_t3_inv:
  assumes "link_inv cfg l" "tick_t3 cfg e now l = (go, l')"
  shows "link_inv cfg l'"
  using assms link_inv_cong [OF _ _ _ _ _ _ _ _ assms(1), of l'] link_inv_valid [OF assms(1)]
  by (auto simp: tick_t3_def send_frame_def sent_numbers_def valid_counters_def Let_def split: if_splits)

lemma tick_s_ack_inv:
  assumes "link_inv cfg l"
  shows "link_inv cfg (tick_s_ack cfg e now l)"
  by (rule link_inv_cong [OF _ _ _ _ _ _ _ _ assms])
    (use link_inv_valid [OF assms] in \<open>auto simp: tick_s_ack_def send_frame_def sent_numbers_def
        mark_s_ack_sent_def valid_counters_def Let_def\<close>)

lemma on_tick_inv:
  assumes "link_inv cfg l" "unat (k_window cfg) \<le> 32767" "on_tick cfg e now l = (fl, l')"
  shows "link_inv cfg l'"
proof -
  obtain fl1 l1 where 1: "tick_t1 cfg now l = (fl1, l1)" by fastforce
  obtain go l2 where 2: "tick_t3 cfg e now l1 = (go, l2)" by fastforce
  have i1: "link_inv cfg l1" using assms(1) 1 by (rule tick_t1_inv)
  have i2: "link_inv cfg l2" using i1 2 by (rule tick_t3_inv)
  show ?thesis
    using assms(3) 1 2 i1 i2 tick_backlog_inv [OF tick_s_ack_inv [OF i2] assms(2)]
    by (auto simp: on_tick_def Let_def split: flow.splits bool.splits)
qed

lemma within_budget_sum:
  assumes "within_budget cfg sz l" "unat (pending_bytes (st l)) + unat (hi_queue_bytes l) \<le> unat (max_pending_asdu_bytes cfg)"
    and "unat (max_pending_asdu_bytes cfg) < 2 ^ 64 - 1"
  shows "unat (pending_bytes (st l)) + unat (hi_queue_bytes l) + unat sz \<le> unat (max_pending_asdu_bytes cfg)"
  using assms
  by (auto simp: within_budget_def total_pending_bytes_def word_le_nat_alt unat_sat_add split: if_splits)

text \<open>Configurations the window arithmetic and the saturating byte counters are made for.\<close>

definition cfg_ok :: "SessionConfig \<Rightarrow> bool" where
  "cfg_ok cfg \<longleftrightarrow> unat (k_window cfg) \<le> 32767 \<and> unat (max_pending_asdu_bytes cfg) < 2 ^ 64 - 1"

lemma emit_inv [simp]: "link_inv cfg (emit ev l) = link_inv cfg l"
  by (simp add: inv_defs emit_def sent_numbers_def)

lemma set_lifecycle_inv [simp]: "link_inv cfg (set_lifecycle ls l) = link_inv cfg l"
  by (simp add: inv_defs set_lifecycle_def emit_def sent_numbers_def)

lemma low_prio_inv [simp]: "link_inv cfg (l\<lparr>st := set_last_low_prio a now (st l)\<rparr>) = link_inv cfg l"
  by (simp add: inv_defs set_last_low_prio_def sent_numbers_def valid_counters_def inflight_def inflight_count_def)

lemma enqueue_inv:
  assumes "link_inv cfg l" "cfg_ok cfg"
  shows "link_inv cfg (enqueue_or_drop cfg a sz l)"
proof (cases "length (hi_queue l) < send_queue_capacity cfg \<and> within_budget cfg sz l")
  case True
  have "unat (pending_bytes (st l)) + unat (hi_queue_bytes l) \<le> unat (max_pending_asdu_bytes cfg)"
    using assms(1) by (simp add: inv_defs)
  with True have sum: "unat (pending_bytes (st l)) + unat (hi_queue_bytes l) + unat sz
      \<le> unat (max_pending_asdu_bytes cfg)"
    using assms(2) by (intro within_budget_sum) (simp_all add: cfg_ok_def)
  then have "unat (sat_add (hi_queue_bytes l) sz) = unat (hi_queue_bytes l) + unat sz"
    using assms(2) by (simp add: unat_sat_add cfg_ok_def)
  with True assms(1) sum show ?thesis
    by (auto simp: enqueue_or_drop_def inv_defs sent_numbers_def)
next
  case False
  then show ?thesis using assms(1) by (auto simp: enqueue_or_drop_def)
qed

lemma send_now_inv:
  assumes "link_inv cfg l" "cfg_ok cfg" "window_has_capacity (st l) (k_window cfg)" "within_budget cfg sz l"
    and "send_now e now a sz l = (fl, l')"
  shows "link_inv cfg l'"
proof -
  let ?p = "new_iframe a (send_sn (st l)) (rcv_sn (st l))"
  have v: "valid_counters (st l)" using assms(1) by (rule link_inv_valid)
  show ?thesis
  proof (cases "send_ok e ?p")
    case True
    then have l': "l' = l\<lparr>wire := wire l @ [?p], st := record_sent (send_sn (st l)) now sz (st l)\<rparr>"
      using assms(5) by (simp add: send_now_def kind_next_iframe [OF v] send_frame_def Let_def)
    have "window_inv cfg l'" "numbers_inv l'"
      using link_inv_send_i [of cfg l ?p a l' now sz] assms(1-3) l'
      by (simp_all add: link_inv_def cfg_ok_def window_capacity_iff)
    moreover have "unat (pending_bytes (st l)) + unat (hi_queue_bytes l) + unat sz
        \<le> unat (max_pending_asdu_bytes cfg)"
      using assms(1,2,4) by (intro within_budget_sum) (simp_all add: cfg_ok_def inv_defs)
    ultimately show ?thesis
      using assms(1) unat_sat_add_le [of "pending_bytes (st l)" sz]
      by (auto simp: link_inv_def queue_inv_def queue_sum_def l' pending_bytes_record)
  next
    case False
    then show ?thesis
      using assms(1,5) by (simp add: send_now_def kind_next_iframe [OF v] send_frame_def Let_def)
  qed
qed

lemma on_i_request_inv:
  assumes "link_inv cfg l" "cfg_ok cfg" "on_i_request cfg e now a prio l = (fl, l')"
  shows "link_inv cfg l'"
  using assms send_now_inv [OF assms(1,2), of "of_nat (iframe_wire_size_for_asdu a)" e now a fl l']
    enqueue_inv [OF assms(1,2)]
  by (auto simp: on_i_request_def window_full_def over_budget_def Let_def split: if_splits Priority.splits)

lemma timers_inv [simp]:
  "link_inv cfg (l\<lparr>start_since := t\<rparr>) = link_inv cfg l" "link_inv cfg (l\<lparr>stop_since := t\<rparr>) = link_inv cfg l"
  "link_inv cfg (l\<lparr>test_since := t\<rparr>) = link_inv cfg l" "link_inv cfg (l\<lparr>sender_open := b\<rparr>) = link_inv cfg l"
  "link_inv cfg (l\<lparr>delivered := d\<rparr>) = link_inv cfg l"
  "link_inv cfg (l\<lparr>st := (st l)\<lparr>idle_since := t\<rparr>\<rparr>) = link_inv cfg l"
  by (simp_all add: inv_defs sent_numbers_def valid_counters_def inflight_def inflight_count_def)

lemma on_request_inv:
  assumes "link_inv cfg l" "cfg_ok cfg" "on_request cfg e now req l = (fl, l')"
  shows "link_inv cfg l'"
proof (cases req)
  case None
  then show ?thesis using assms by (simp add: on_request_def)
next
  case (Some r)
  show ?thesis
  proof (cases r)
    case (Req_I a prio)
    then show ?thesis using Some assms on_i_request_inv by (simp add: on_request_def)
  next
    case (Req_U fn)
    define l1 where "l1 = (if fn = U_STARTDT_ACTIVE then l\<lparr>start_since := now\<rparr>
      else if fn = U_STOPDT_ACTIVE then l\<lparr>stop_since := now\<rparr> else l)"
    have "link_inv cfg l1" using assms(1) by (simp add: l1_def)
    moreover have "\<exists>ok. send_frame e (new_uframe fn) l1 = (ok, l')"
      using assms(3) Some Req_U by (auto simp: on_request_def l1_def Let_def split: prod.splits)
    ultimately show ?thesis using link_inv_send_other [of e "new_uframe fn" l1 _ l' cfg] by auto
  next
    case (Req_S sn)
    then have "\<exists>ok. send_frame e (new_sframe sn) l = (ok, l')"
      using assms(3) Some by (auto simp: on_request_def Let_def split: prod.splits)
    then show ?thesis using link_inv_send_other [of e "new_sframe sn" l _ l' cfg] assms(1) by auto
  qed
qed

lemma valid_sn_of_ctrl: "valid_seq (sn_of_ctrl lo hi)"
proof -
  have "unat lo < 256" "unat hi < 256" using unsigned_less [of lo] unsigned_less [of hi] by simp_all
  moreover from this have "unat (ucast lo :: u16) = unat lo" "unat (ucast hi :: u16) = unat hi"
    by (simp_all add: unsigned_ucast_eq take_bit_eq_mod)
  ultimately have "unat (drop_bit 1 (ucast lo :: u16)) = unat lo div 2"
    "unat (push_bit 7 (ucast hi :: u16)) = 128 * unat hi"
    by (simp_all add: drop_bit_eq_div push_bit_eq_mult unat_div unat_word_ariths)
  then have "unat (sn_of_ctrl lo hi) \<le> unat lo div 2 + 128 * unat hi"
    by (simp add: sn_of_ctrl_def unat_word_ariths del: One_nat_def drop_bit_Suc)
  with \<open>unat lo < 256\<close> \<open>unat hi < 256\<close> show ?thesis by (simp add: valid_seq_def)
qed

lemma valid_kind:
  "apci_kind c = I_kind ssn rsn \<Longrightarrow> valid_seq ssn \<and> valid_seq rsn"
  "apci_kind c = S_kind rsn \<Longrightarrow> valid_seq rsn"
  by (auto simp: apci_kind_def valid_sn_of_ctrl split: if_splits)

lemma pop_until_bytes: "unat (fst (snd (pop_until u q bytes n))) \<le> unat bytes"
proof (induction q arbitrary: bytes n)
  case (Cons p q)
  then show ?case using Cons [of "sat_sub bytes (size_bytes p)" "Suc n"] by (auto simp: unat_sat_sub)
qed simp

lemma update_send_ack_bytes:
  "update_send_ack a s = (ok, s') \<Longrightarrow> unat (pending_bytes s') \<le> unat (pending_bytes s)"
  using pop_until_bytes [of "seq_add a 32767" "pending s" "pending_bytes s" 0]
  by (auto simp: update_send_ack_def pop_pending_until_def split: if_splits prod.splits)

lemma link_inv_ack:
  assumes "link_inv cfg l" "valid_seq a" "update_send_ack a (st l) = (ok, s)"
  shows "link_inv cfg (l\<lparr>st := s\<rparr>)"
proof (cases ok)
  case True
  have v: "valid_counters (st l)" using assms(1) by (rule link_inv_valid)
  show ?thesis
    using assms(1) True valid_update_send_ack [OF v assms(2,3)] update_send_ack_bytes [OF assms(3)]
      inflight_update_send_ack [OF v assms(2)] update_send_ack_fields(1) [OF assms(3)] assms(3)
    by (auto simp: inv_defs sent_numbers_def)
next
  case False
  then have "s = st l" using assms(3) by (auto simp: update_send_ack_def split: if_splits prod.splits)
  then show ?thesis using assms(1) by simp
qed

lemma on_i_frame_inv:
  assumes "link_inv cfg l" "valid_seq rcv_no" "on_i_frame e now snd_sn rcv_no a l = (fl, l')"
  shows "link_inv cfg l'"
proof -
  obtain ok s where upd: "update_send_ack rcv_no (st l) = (ok, s)" by fastforce
  obtain ok1 s1 where adv: "advance_receive_seq snd_sn s = (ok1, s1)" by fastforce
  have i: "link_inv cfg (l\<lparr>st := s\<rparr>)" using assms(1,2) upd by (rule link_inv_ack)
  have s1: "send_sn s1 = send_sn s" "ack_sendsn s1 = ack_sendsn s" "pending_bytes s1 = pending_bytes s"
    using adv by (auto simp: advance_receive_seq_def split: if_splits)
  have "valid_counters s1" using link_inv_valid [OF i] adv by (auto intro: valid_advance)
  then have i1: "link_inv cfg (l\<lparr>st := s1\<rparr>)"
    using i s1 by (simp add: inv_defs sent_numbers_def inflight_def inflight_count_def)
  then have "link_inv cfg (l\<lparr>st := mark_unacked_receive now s1\<rparr>)"
    by (simp add: mark_unacked_receive_def inv_defs sent_numbers_def valid_counters_def inflight_def inflight_count_def)
  then show ?thesis
    using assms(3) upd adv i i1
    by (auto simp: on_i_frame_def Let_def split: bool.splits option.splits if_splits)
qed

lemma on_u_frame_inv:
  assumes "link_inv cfg l"
  shows "link_inv cfg (on_u_frame max_utc e fn l)"
proof -
  have "link_inv cfg (snd (send_frame e (new_uframe f) l))" for f
    using link_inv_send_other [of e "new_uframe f" l _ _ cfg] assms by (metis i_numbers_other(1) prod.collapse)
  then show ?thesis using assms by (auto simp: on_u_frame_def Let_def case_prod_beta)
qed

lemma on_apdu_inv:
  assumes "link_inv cfg l" "on_apdu max_utc e now now' p l = (fl, l')"
  shows "link_inv cfg l'"
proof (cases p)
  case None
  then show ?thesis using assms by (simp add: on_apdu_def)
next
  case (Some q)
  let ?l1 = "l\<lparr>st := (st l)\<lparr>idle_since := now\<rparr>\<rparr>"
  have i: "link_inv cfg ?l1" using assms(1) by simp
  show ?thesis
  proof (cases "apci_kind (apci q)")
    case (I_kind ssn rsn)
    then show ?thesis
      using Some assms(2) on_i_frame_inv [OF i, of rsn] valid_kind(1) [OF I_kind] by (simp add: on_apdu_def Let_def)
  next
    case (S_kind rsn)
    obtain ok s where upd: "update_send_ack rsn (st ?l1) = (ok, s)" by fastforce
    have "link_inv cfg (?l1\<lparr>st := s\<rparr>)" using i valid_kind(2) [OF S_kind] upd by (rule link_inv_ack)
    then show ?thesis using Some S_kind upd assms(2) by (simp add: on_apdu_def Let_def)
  next
    case (U_kind fn)
    then show ?thesis using Some assms(2) on_u_frame_inv [OF i] by (auto simp: on_apdu_def Let_def)
  qed
qed

lemma step_inv:
  assumes "link_inv cfg l" "cfg_ok cfg" "step cfg max_utc e b l = (fl, l')"
  shows "link_inv cfg l'"
proof (cases b)
  case (Ticked now)
  then show ?thesis using assms on_tick_inv [OF assms(1), of e now] by (simp add: step_def cfg_ok_def)
next
  case (Requested now req)
  then show ?thesis using assms(3) on_request_inv [OF assms(1,2), of e now req] by (simp add: step_def)
next
  case (Received now now' p)
  then show ?thesis using assms(3) on_apdu_inv [OF assms(1), of max_utc e now now' p] by (simp add: step_def)
qed (use assms in \<open>simp add: step_def\<close>)

lemma startup_inv:
  assumes "cfg_ok cfg" "startup max_utc e now now' = (fl, l)"
  shows "link_inv cfg l"
proof -
  let ?l1 = "(set_lifecycle Inactive (set_lifecycle Handshaking (link_new max_utc now)))\<lparr>start_since := now'\<rparr>"
  have "link_inv cfg (link_new max_utc now)"
    by (simp add: inv_defs link_new_def state_new_def sent_numbers_def numbered_def valid_counters_def
        inflight_def inflight_count_def unat_seq_distance)
  then have i: "link_inv cfg ?l1" by simp
  obtain ok l2 where s: "send_frame e (new_uframe U_STARTDT_ACTIVE) ?l1 = (ok, l2)" by fastforce
  have "link_inv cfg l2" using link_inv_send_other [OF s _ i] by simp
  then show ?thesis
    using assms(2) s by (cases ok) (auto simp: startup_def Let_def)
qed

lemma finish_inv [simp]: "link_inv cfg (finish l) = link_inv cfg l"
  by (auto simp: finish_def Let_def split: SessionLifecycleState.splits)

lemma run_inv:
  assumes "link_inv cfg l" "cfg_ok cfg" "run cfg max_utc bs l = (fl, l')"
  shows "link_inv cfg l'"
  using assms(1,3)
proof (induction bs arbitrary: l)
  case Nil
  then show ?case by simp
next
  case (Cons x bs)
  obtain e b where x: "x = (e, b)" by fastforce
  obtain fl1 l1 where st: "step cfg max_utc e b l = (fl1, l1)" by fastforce
  have "link_inv cfg l1" using Cons.prems(1) assms(2) st by (rule step_inv)
  then show ?case using Cons x st by (auto split: flow.splits)
qed

lemma connection_inv:
  assumes "cfg_ok cfg" "run_connection_with_stream cfg max_utc e now now' bs = (fl, l)"
  shows "link_inv cfg l"
proof -
  obtain fl1 l1 where s: "startup max_utc e now now' = (fl1, l1)" by fastforce
  then have "link_inv cfg l1" using assms(1) startup_inv by blast
  then show ?thesis
    using s assms run_inv by (auto simp: run_connection_with_stream_def split: flow.splits)
qed

section \<open>Activity, delivery and exit\<close>

lemma send_frame_numbers:
  "i_numbers p = [] \<Longrightarrow> sent_numbers (snd (send_frame e p l)) = sent_numbers l"
  by (simp add: send_frame_def sent_numbers_def)

lemma sent_numbers_simps [simp]:
  "sent_numbers (emit ev l) = sent_numbers l" "sent_numbers (set_lifecycle ls l) = sent_numbers l"
  "sent_numbers (l\<lparr>st := s\<rparr>) = sent_numbers l" "sent_numbers (l\<lparr>start_since := t\<rparr>) = sent_numbers l"
  "sent_numbers (l\<lparr>stop_since := t\<rparr>) = sent_numbers l" "sent_numbers (l\<lparr>test_since := t\<rparr>) = sent_numbers l"
  "sent_numbers (l\<lparr>delivered := d\<rparr>) = sent_numbers l"
  by (simp_all add: sent_numbers_def emit_def set_lifecycle_def)

lemma on_u_frame_numbers: "sent_numbers (on_u_frame max_utc e fn l) = sent_numbers l"
  by (simp add: on_u_frame_def Let_def case_prod_beta send_frame_numbers)

lemma on_apdu_numbers: "sent_numbers (snd (on_apdu max_utc e now now' p l)) = sent_numbers l"
  by (auto simp: on_apdu_def on_i_frame_def on_u_frame_numbers Let_def
      split: option.splits ApciKind.splits prod.splits bool.splits)

lemma tick_before_backlog:
  "tick_t1 cfg now l = (fl, l1) \<Longrightarrow> lifecycle l1 = lifecycle l \<and> sent_numbers l1 = sent_numbers l"
  "tick_t3 cfg e now l1 = (go, l2) \<Longrightarrow> lifecycle l2 = lifecycle l1 \<and> sent_numbers l2 = sent_numbers l1"
  "lifecycle (tick_s_ack cfg e now l2) = lifecycle l2 \<and> sent_numbers (tick_s_ack cfg e now l2) = sent_numbers l2"
  by (auto simp: tick_t1_def tick_t3_def tick_s_ack_def emit_def send_frame_def sent_numbers_def Let_def
      split: option.splits if_splits prod.splits)

lemma inactive_tick_numbers:
  assumes "lifecycle l \<noteq> Active" "on_tick cfg e now l = (fl, l')"
  shows "sent_numbers l' = sent_numbers l"
proof -
  obtain fl1 l1 where 1: "tick_t1 cfg now l = (fl1, l1)" by fastforce
  obtain go l2 where 2: "tick_t3 cfg e now l1 = (go, l2)" by fastforce
  have "lifecycle (tick_s_ack cfg e now l2) \<noteq> Active"
    using assms(1) tick_before_backlog(1) [OF 1] tick_before_backlog(2) [OF 2]
      tick_before_backlog(3) [of cfg e now l2] by simp
  then have "tick_backlog cfg e now (tick_s_ack cfg e now l2) = tick_s_ack cfg e now l2"
    by (simp add: tick_backlog_def)
  then show ?thesis
    using assms(2) 1 2 tick_before_backlog(1) [OF 1] tick_before_backlog(2) [OF 2]
      tick_before_backlog(3) [of cfg e now l2]
    by (auto simp: on_tick_def Let_def split: flow.splits bool.splits)
qed

lemma inactive_sends_no_i_frame:
  assumes "lifecycle l \<noteq> Active" "step cfg max_utc e b l = (fl, l')"
  shows "sent_numbers l' = sent_numbers l"
proof (cases b)
  case (Ticked now)
  then show ?thesis using assms inactive_tick_numbers by (simp add: step_def)
next
  case (Requested now req)
  then have r: "on_request cfg e now req l = (fl, l')" using assms(2) by (simp add: step_def)
  show ?thesis
    using r assms(1) send_frame_numbers
    by (auto simp: on_request_def on_i_request_def send_frame_def sent_numbers_def Let_def
        split: option.splits Request.splits if_splits)
next
  case (Received now now' p)
  then show ?thesis using assms(2) on_apdu_numbers [of max_utc e now now' p l] by (simp add: step_def)
qed (use assms in \<open>simp add: step_def\<close>)

text \<open>The send numbers of the I-frames received in a sequence of iterations.\<close>

definition received_numbers :: "branch \<Rightarrow> u16 list" where
  "received_numbers b = (case b of Received _ _ (Some p) \<Rightarrow> i_numbers p | _ \<Rightarrow> [])"

lemma flush_backlog_rcv [simp]: "rcv_sn (st (flush_backlog n e now l)) = rcv_sn (st l)"
  by (induction n arbitrary: l)
    (auto simp: send_frame_def record_sent_def push_pending_def Let_def split: list.splits ApciKind.splits)

lemma tick_rcv:
  assumes "on_tick cfg e now l = (fl, l')"
  shows "rcv_sn (st l') = rcv_sn (st l)"
proof -
  have t1: "tick_t1 cfg now l = (f, l1) \<Longrightarrow> rcv_sn (st l1) = rcv_sn (st l)" for f l1
    by (auto simp: tick_t1_def check_and_handle_t1_timeout_def decay_t1_def emit_def Let_def
        split: option.splits if_splits list.splits)
  have t3: "tick_t3 cfg e now l1 = (go, l2) \<Longrightarrow> rcv_sn (st l2) = rcv_sn (st l1)" for go l1 l2
    by (auto simp: tick_t3_def send_frame_def Let_def split: if_splits)
  have ack: "rcv_sn (st (tick_s_ack cfg e now l2)) = rcv_sn (st l2)" for l2
    by (auto simp: tick_s_ack_def send_frame_def mark_s_ack_sent_def Let_def)
  have bl: "rcv_sn (st (tick_backlog cfg e now l3)) = rcv_sn (st l3)" for l3
    by (auto simp: tick_backlog_def flush_low_prio_def take_last_low_prio_def split: option.splits)
  show ?thesis
    using assms t1 t3 by (auto simp: on_tick_def ack bl Let_def split: prod.splits flow.splits bool.splits)
qed

lemma request_rcv:
  assumes "on_request cfg e now req l = (fl, l')"
  shows "rcv_sn (st l') = rcv_sn (st l)"
  using assms
  by (auto simp: on_request_def on_i_request_def window_full_def over_budget_def enqueue_or_drop_def
      send_now_def send_frame_def emit_def set_last_low_prio_def record_sent_def push_pending_def Let_def
      split: option.splits Request.splits if_splits Priority.splits ApciKind.splits)

lemma u_frame_rcv [simp]: "rcv_sn (st (on_u_frame max_utc e fn l)) = rcv_sn (st l)"
  by (simp add: on_u_frame_def send_frame_def set_lifecycle_def emit_def Let_def case_prod_beta)

lemma apdu_rcv:
  assumes "on_apdu max_utc e now now' (Some p) l = (Continue, l')"
  shows "i_numbers p = [] \<and> rcv_sn (st l') = rcv_sn (st l)
    \<or> i_numbers p = [rcv_sn (st l)] \<and> rcv_sn (st l') = seq_add (rcv_sn (st l)) 1"
proof (cases "apci_kind (apci p)")
  case (I_kind ssn rsn)
  let ?l1 = "l\<lparr>st := (st l)\<lparr>idle_since := now\<rparr>\<rparr>"
  obtain ok s where upd: "update_send_ack rsn (st ?l1) = (ok, s)" by fastforce
  have "rcv_sn s = rcv_sn (st l)" using update_send_ack_fields(2) [OF upd] by simp
  then show ?thesis
    using assms upd I_kind
    by (auto simp: on_apdu_def on_i_frame_def i_numbers_def advance_receive_seq_def mark_unacked_receive_def
        Let_def split: bool.splits if_splits option.splits)
next
  case (S_kind rsn)
  then show ?thesis
    using assms update_send_ack_fields(2)
    by (auto simp: on_apdu_def i_numbers_def Let_def split: prod.splits if_splits)
next
  case (U_kind fn)
  then show ?thesis using assms by (auto simp: on_apdu_def i_numbers_def Let_def)
qed

lemma run_numbers:
  assumes "run cfg max_utc bs l = (Continue, l')" "numbered ns (rcv_sn (st l))"
  shows "numbered (ns @ concat (map (received_numbers \<circ> snd) bs)) (rcv_sn (st l'))"
  using assms
proof (induction bs arbitrary: l ns)
  case Nil
  then show ?case by simp
next
  case (Cons x bs)
  obtain e b where x: "x = (e, b)" by fastforce
  obtain l1 where st: "step cfg max_utc e b l = (Continue, l1)" and run: "run cfg max_utc bs l1 = (Continue, l')"
    using Cons.prems(1) x by (auto split: prod.splits flow.splits)
  have "received_numbers b = [] \<and> rcv_sn (st l1) = rcv_sn (st l)
      \<or> received_numbers b = [rcv_sn (st l)] \<and> rcv_sn (st l1) = seq_add (rcv_sn (st l)) 1"
    using st tick_rcv request_rcv apdu_rcv
    by (cases b) (auto simp: step_def received_numbers_def on_apdu_def split: option.splits)
  then have "numbered (ns @ received_numbers b) (rcv_sn (st l1))"
    using Cons.prems(2) numbered_step by auto
  from Cons.IH [OF run this] show ?case by (simp add: x)
qed

lemma finish_closed:
  "lifecycle (finish l) = Closed \<and> \<not> sender_open (finish l) \<and> last (events (finish l)) = LifecycleChanged Closed"
  by (simp add: finish_def set_lifecycle_def emit_def Let_def)

lemma run_break_closed:
  "run cfg max_utc bs l = (Break, l') \<Longrightarrow>
     lifecycle l' = Closed \<and> \<not> sender_open l' \<and> last (events l') = LifecycleChanged Closed"
  by (induction bs arbitrary: l) (auto simp: finish_closed split: prod.splits flow.splits)

section \<open>A silent peer is detected\<close>

text \<open>What the later parts of a tick leave alone once T1 has been checked.\<close>

definition t1_kept :: "link \<Rightarrow> link \<Rightarrow> bool" where
  "t1_kept l l' \<longleftrightarrow> consecutive_t1_timeouts (st l') = consecutive_t1_timeouts (st l)
     \<and> (\<exists>extra. pending (st l') = pending (st l) @ extra) \<and> inflight (st l) \<le> inflight (st l')"

lemma t1_kept_trans: "t1_kept l l1 \<Longrightarrow> t1_kept l1 l2 \<Longrightarrow> t1_kept l l2"
  by (auto simp: t1_kept_def)

lemma t1_kept_same:
  "consecutive_t1_timeouts (st l') = consecutive_t1_timeouts (st l) \<Longrightarrow> pending (st l') = pending (st l)
     \<Longrightarrow> ack_sendsn (st l') = ack_sendsn (st l) \<Longrightarrow> send_sn (st l') = send_sn (st l) \<Longrightarrow> t1_kept l l'"
  by (simp add: t1_kept_def inflight_def inflight_count_def)

lemma flush_backlog_t1_kept:
  assumes "valid_counters (st l)" "slots \<le> unat k - inflight (st l)" "unat k \<le> 32767"
  shows "t1_kept l (flush_backlog slots e now l)"
  using assms(1,2)
proof (induction slots arbitrary: l)
  case 0
  then show ?case by (simp add: t1_kept_def)
next
  case (Suc slots)
  show ?case
  proof (cases "hi_queue l")
    case Nil
    then show ?thesis by (simp add: t1_kept_def)
  next
    case (Cons x rest)
    obtain a sz where x: "x = (a, sz)" by fastforce
    let ?p = "new_iframe a (send_sn (st l)) (rcv_sn (st l))"
    let ?l2 = "l\<lparr>hi_queue := rest, wire := wire l @ [?p], st := record_sent (send_sn (st l)) now sz (st l),
                 hi_queue_bytes := sat_sub (hi_queue_bytes l) sz\<rparr>"
    have n: "inflight (st ?l2) = inflight (st l) + 1"
      using inflight_record_sent [OF Suc.prems(1), of "send_sn (st l)" now sz] Suc.prems(2) assms(3) by simp
    have "t1_kept l ?l2"
      using n by (simp add: t1_kept_def) (simp add: record_sent_def push_pending_def Let_def)
    moreover have "t1_kept ?l2 (flush_backlog slots e now ?l2)"
      using Suc.IH [of ?l2] Suc.prems n by (simp add: valid_record_sent)
    ultimately have "t1_kept l (flush_backlog slots e now ?l2)" by (rule t1_kept_trans)
    moreover have "t1_kept l (l\<lparr>hi_queue := rest\<rparr>)" by (rule t1_kept_same) simp_all
    ultimately show ?thesis
      using Cons x by (simp add: kind_next_iframe [OF Suc.prems(1)] send_frame_def Let_def)
  qed
qed

lemma tick_rest_t1_kept:
  assumes "valid_counters (st l)" "unat (k_window cfg) \<le> 32767"
  shows "tick_t3 cfg e now l = (go, l') \<Longrightarrow> t1_kept l l'" "t1_kept l (tick_s_ack cfg e now l)"
    "t1_kept l (tick_backlog cfg e now l)"
proof -
  show "t1_kept l l'" if "tick_t3 cfg e now l = (go, l')"
    by (rule t1_kept_same) (use that in \<open>auto simp: tick_t3_def send_frame_def Let_def split: if_splits\<close>)
  show "t1_kept l (tick_s_ack cfg e now l)"
    by (rule t1_kept_same) (auto simp: tick_s_ack_def send_frame_def mark_s_ack_sent_def Let_def)
  have "t1_kept l1 (flush_low_prio cfg e now l1)" for l1
    by (rule t1_kept_same) (auto simp: flush_low_prio_def take_last_low_prio_def split: option.splits)
  then have "t1_kept l (flush_low_prio cfg e now
      (flush_backlog (unat (k_window cfg) - inflight (st l)) e now l))"
    using flush_backlog_t1_kept [OF assms(1) order_refl assms(2)] t1_kept_trans by blast
  then show "t1_kept l (tick_backlog cfg e now l)"
    by (simp add: tick_backlog_def window_slots t1_kept_def [of l l])
qed

text \<open>The oldest \<open>n\<close> unacknowledged frames are overdue at the times \<open>ts\<close>.\<close>

definition overdue :: "SessionConfig \<Rightarrow> nat \<Rightarrow> utc list \<Rightarrow> link \<Rightarrow> bool" where
  "overdue cfg n ts l \<longleftrightarrow> n \<le> inflight (st l) \<and> n \<le> length (pending (st l))
     \<and> (\<forall>p \<in> set (take n (pending (st l))). \<forall>now \<in> set ts. t1_ms cfg \<le> elapsed_ms now (send_time p))"

lemma overdue_tick:
  assumes inv: "link_inv cfg l" "cfg_ok cfg" and due: "overdue cfg (Suc n) (now # ts) l"
    and tick: "on_tick cfg e now l = (Continue, l')" and c: "consecutive_t1_timeouts (st l) < 5"
  shows "overdue cfg n ts l'" "unat (consecutive_t1_timeouts (st l')) = Suc (unat (consecutive_t1_timeouts (st l)))"
    "consecutive_t1_timeouts (st l') < 5"
proof -
  have v: "valid_counters (st l)" using inv(1) by (rule link_inv_valid)
  obtain p q where pq: "pending (st l) = p # q" using due by (cases "pending (st l)") (auto simp: overdue_def)
  have ne: "ack_sendsn (st l) \<noteq> send_sn (st l)"
    using due v seq_distance_0 [of "ack_sendsn (st l)" "send_sn (st l)"]
    by (auto simp: overdue_def inflight_def inflight_count_def valid_counters_def)
  obtain s where t1: "check_and_handle_t1_timeout now (t1_ms cfg) (st l) = (Some (seq p), s)" "pending s = q"
      "consecutive_t1_timeouts s = sat_add (consecutive_t1_timeouts (st l)) 1"
    using due pq ne by (simp add: overdue_def check_and_handle_t1_timeout_def)
  define l1 where "l1 = emit T1Timeout (l\<lparr>st := s\<rparr>)"
  have l1: "tick_t1 cfg now l = (if 5 \<le> consecutive_t1_timeouts s then Break else Continue, l1)"
    by (simp add: tick_t1_def t1(1) l1_def Let_def)
  have st1: "st l1 = s" by (simp add: l1_def emit_def)
  have k: "unat (k_window cfg) \<le> 32767" using inv(2) by (simp add: cfg_ok_def)
  obtain go l2 where l2: "tick_t3 cfg e now l1 = (go, l2)" by fastforce
  have i1: "link_inv cfg l1" using inv(1) l1 by (auto intro: tick_t1_inv)
  have i2: "link_inv cfg l2" using i1 l2 by (rule tick_t3_inv)
  have "t1_kept l2 (tick_backlog cfg e now (tick_s_ack cfg e now l2))"
    using tick_rest_t1_kept(2,3) t1_kept_trans k link_inv_valid [OF i2] link_inv_valid [OF tick_s_ack_inv [OF i2]]
    by blast
  moreover have "t1_kept l1 l2" using tick_rest_t1_kept(1) [OF link_inv_valid [OF i1] k l2] .
  ultimately have kept: "t1_kept l1 l'" and small: "\<not> 5 \<le> consecutive_t1_timeouts s"
    using tick l1 l2 t1_kept_trans
    by (auto simp: on_tick_def Let_def split: if_splits bool.splits flow.splits)
  have "inflight s = inflight (st l) - 1" using inflight_t1 [OF v t1(1)] by simp
  then show "overdue cfg n ts l'"
    using kept due pq t1(2) st1 by (auto simp: overdue_def t1_kept_def)
  have cs: "consecutive_t1_timeouts (st l') = consecutive_t1_timeouts s"
    using kept st1 by (simp add: t1_kept_def)
  with small show "consecutive_t1_timeouts (st l') < 5" by (simp add: not_le)
  show "unat (consecutive_t1_timeouts (st l')) = Suc (unat (consecutive_t1_timeouts (st l)))"
    using c cs t1(3) by (simp add: unat_sat_add word_less_nat_alt)
qed

lemma overdue_run_breaks:
  assumes "cfg_ok cfg" "link_inv cfg l" "overdue cfg (length bs) (map snd bs) l"
    and "5 \<le> unat (consecutive_t1_timeouts (st l)) + length bs" "consecutive_t1_timeouts (st l) < 5"
  shows "fst (run cfg max_utc (map (\<lambda>(e, now). (e, Ticked now)) bs) l) = Break"
  using assms(2-5)
proof (induction bs arbitrary: l)
  case Nil
  then show ?case by (simp add: word_less_nat_alt)
next
  case (Cons x bs)
  obtain e now where x: "x = (e, now)" by fastforce
  obtain fl l1 where tick: "on_tick cfg e now l = (fl, l1)" by fastforce
  show ?case
  proof (cases fl)
    case Break
    then show ?thesis using tick x by (simp add: step_def)
  next
    case Continue
    have due: "overdue cfg (Suc (length bs)) (now # map snd bs) l" using Cons.prems(2) x by simp
    note next_tick = overdue_tick [OF Cons.prems(1) assms(1) due tick [unfolded Continue] Cons.prems(4)]
    have "link_inv cfg l1" using Cons.prems(1) assms(1) tick on_tick_inv by (simp add: cfg_ok_def)
    then have "fst (run cfg max_utc (map (\<lambda>(e, now). (e, Ticked now)) bs) l1) = Break"
      using next_tick Cons.prems(3) by (intro Cons.IH) simp_all
    then show ?thesis using tick x Continue by (simp add: step_def)
  qed
qed

section \<open>Properties\<close>

definition good_env :: env where
  "good_env = \<lparr>send_ok = \<lambda>_. True, app_has_room = True, queue_has_room = True\<rparr>"

lemma default_config_ok: "cfg_ok default_config"
  by (simp add: cfg_ok_def default_config_def)

text \<open>The link is started, confirmed, and sends two commands.\<close>

definition sample_run :: "(env \<times> branch) list" where
  "sample_run = [(good_env, Received 1 1 (Some (new_uframe U_STARTDT_CONFIRM))),
     (good_env, Requested 2 (Some (Req_I sample_asdu High))), (good_env, Requested 3 (Some (Req_I sample_asdu High)))]"

text \<open>C1: in every state a connection can reach, the number of unacknowledged I-frames is at most
  the configured window \<open>k\<close>.\<close>

theorem iec104_window_bounded:
  assumes "cfg_ok cfg"
  shows "inflight_count (st (snd (run_connection_with_stream cfg max_utc e now now' bs))) \<le> k_window cfg"
  using connection_inv [OF assms prod.collapse [symmetric], of max_utc e now now' bs]
  by (simp add: link_inv_def window_inv_def inflight_def word_le_nat_alt)

theorem iec104_window_bounded_witness:
  "inflight_count (st (snd (run_connection_with_stream default_config (10 ^ 20) good_env 0 0 sample_run))) \<le> 12"
  using iec104_window_bounded [OF default_config_ok, of "10 ^ 20" good_env 0 0 sample_run]
  by (simp add: default_config_def)

text \<open>C4: the I-frames a connection puts on the wire, immediate and from the backlog alike, carry
  the send numbers 0, 1, 2, and so on modulo 32768, without gap or repetition.\<close>

theorem iec104_send_numbers_consecutive:
  assumes "cfg_ok cfg"
  shows "numbered (sent_numbers (snd (run_connection_with_stream cfg max_utc e now now' bs)))
     (send_sn (st (snd (run_connection_with_stream cfg max_utc e now now' bs))))"
  using connection_inv [OF assms prod.collapse [symmetric], of max_utc e now now' bs]
  by (simp add: link_inv_def numbers_inv_def)

theorem iec104_send_numbers_consecutive_witness:
  "numbered (sent_numbers (snd (run_connection_with_stream default_config (10 ^ 20) good_env 0 0 sample_run)))
     (send_sn (st (snd (run_connection_with_stream default_config (10 ^ 20) good_env 0 0 sample_run))))"
  using iec104_send_numbers_consecutive [OF default_config_ok] .

text \<open>C9: the backlog never holds more entries than its capacity, and the bytes accounted to
  unacknowledged and queued frames together never exceed the configured budget.\<close>

theorem iec104_queues_bounded:
  assumes "cfg_ok cfg" "run_connection_with_stream cfg max_utc e now now' bs = (fl, l)"
  shows "length (hi_queue l) \<le> send_queue_capacity cfg \<and> queue_sum l \<le> unat (hi_queue_bytes l)
    \<and> unat (total_pending_bytes (st l)) + unat (hi_queue_bytes l) \<le> unat (max_pending_asdu_bytes cfg)"
  using connection_inv [OF assms] by (simp add: link_inv_def queue_inv_def total_pending_bytes_def)

theorem iec104_queues_bounded_witness:
  "length (hi_queue (snd (run_connection_with_stream default_config (10 ^ 20) good_env 0 0 sample_run))) \<le> 1024"
  using iec104_queues_bounded [OF default_config_ok prod.collapse [symmetric], of "10 ^ 20" good_env 0 0 sample_run]
  by (simp add: default_config_def)

text \<open>C10: no iteration of the loop puts an I-frame on the wire unless the link is active at its
  beginning.\<close>

theorem iec104_no_data_before_start:
  assumes "lifecycle l \<noteq> Active" "step cfg max_utc e b l = (fl, l')"
  shows "sent_numbers l' = sent_numbers l"
  using assms by (rule inactive_sends_no_i_frame)

theorem iec104_no_data_before_start_witness:
  "sent_numbers (snd (step default_config (10 ^ 20) good_env (Requested 5 (Some (Req_I sample_asdu High)))
     (link_new (10 ^ 20) 0))) = []"
  using iec104_no_data_before_start [OF _ prod.collapse [symmetric], of "link_new (10 ^ 20) 0"]
  by (simp add: link_new_def sent_numbers_def)

text \<open>C8: as long as the loop keeps running, the I-frames it has received carried the send numbers
  0, 1, 2, and so on modulo 32768; a lost, repeated or reordered frame ends the connection.\<close>

theorem iec104_receives_in_order:
  assumes "run_connection_with_stream cfg max_utc e now now' bs = (Continue, l)"
  shows "numbered (concat (map (received_numbers \<circ> snd) bs)) (rcv_sn (st l))"
proof -
  obtain l1 where st: "startup max_utc e now now' = (Continue, l1)" and run: "run cfg max_utc bs l1 = (Continue, l)"
    using assms by (auto simp: run_connection_with_stream_def split: prod.splits flow.splits)
  have "rcv_sn (st l1) = 0"
    using st by (auto simp: startup_def link_new_def state_new_def send_frame_def set_lifecycle_def emit_def Let_def
        split: if_splits)
  then have "numbered [] (rcv_sn (st l1))" by (simp add: numbered_def)
  from run_numbers [OF run this] show ?thesis by simp
qed

theorem iec104_receives_in_order_witness:
  "fst (run_connection_with_stream default_config (10 ^ 20) good_env 0 0
      [(good_env, Received 1 1 (Some (new_iframe sample_asdu 0 0)))]) = Continue
   \<and> numbered [0] (rcv_sn (st (snd (run_connection_with_stream default_config (10 ^ 20) good_env 0 0
      [(good_env, Received 1 1 (Some (new_iframe sample_asdu 0 0)))]))))"
proof -
  let ?bs = "[(good_env, Received 1 1 (Some (new_iframe sample_asdu 0 0)))]"
  have k: "apci_kind (apci (new_iframe sample_asdu 0 0)) = I_kind 0 0" by (simp add: kind_new_iframe)
  have c: "fst (run_connection_with_stream default_config (10 ^ 20) good_env 0 0 ?bs) = Continue"
    by (simp add: run_connection_with_stream_def startup_def send_frame_def good_env_def link_new_def state_new_def
        set_lifecycle_def emit_def step_def on_apdu_def k on_i_frame_def update_send_ack_def pop_pending_until_def
        seq_in_range_inclusive_def advance_receive_seq_def Let_def split: option.splits)
  then have "run_connection_with_stream default_config (10 ^ 20) good_env 0 0 ?bs
      = (Continue, snd (run_connection_with_stream default_config (10 ^ 20) good_env 0 0 ?bs))"
    by (metis prod.collapse)
  from iec104_receives_in_order [OF this] c show ?thesis by (simp add: received_numbers_def i_numbers_def k)
qed

text \<open>However a connection ends, the session is left \<open>Closed\<close>, its sender is gone, and the
  last event published says so.\<close>

theorem iec104_ends_closed:
  assumes "run_connection_with_stream cfg max_utc e now now' bs = (Break, l)"
  shows "lifecycle l = Closed \<and> \<not> sender_open l \<and> last (events l) = LifecycleChanged Closed"
  using assms run_break_closed
  by (auto simp: run_connection_with_stream_def startup_def set_lifecycle_def emit_def Let_def
      split: prod.splits flow.splits bool.splits)

theorem iec104_ends_closed_witness:
  "lifecycle (snd (run_connection_with_stream default_config (10 ^ 20) good_env 0 0 [(good_env, Cancelled)])) = Closed"
proof -
  have "fst (run_connection_with_stream default_config (10 ^ 20) good_env 0 0 [(good_env, Cancelled)]) = Break"
    by (simp add: run_connection_with_stream_def startup_def send_frame_def good_env_def step_def Let_def)
  then show ?thesis using iec104_ends_closed by (metis prod.collapse)
qed

text \<open>C7: a peer that stops acknowledging is noticed: when the five oldest unacknowledged frames
  are overdue, at most five ticks end the connection, whatever else the ticks do.\<close>

theorem iec104_silent_peer_detected:
  assumes "cfg_ok cfg" "link_inv cfg l" "length bs = 5" "overdue cfg 5 (map snd bs) l"
    and "consecutive_t1_timeouts (st l) < 5"
  shows "fst (run cfg max_utc (map (\<lambda>(e, now). (e, Ticked now)) bs) l) = Break"
  using assms by (intro overdue_run_breaks) simp_all

text \<open>A link with five commands sent at time zero and no answer.\<close>

fun send_all :: "nat \<Rightarrow> link \<Rightarrow> link" where
  "send_all 0 l = l"
| "send_all (Suc n) l = send_all n (snd (send_now good_env 0 sample_asdu 16 l))"

definition silent_link :: link where
  "silent_link = send_all 5 (link_new (10 ^ 20) 0)"

lemma send_now_good:
  assumes "valid_counters (st l)"
  shows "snd (send_now good_env now a sz l) =
     l\<lparr>wire := wire l @ [new_iframe a (send_sn (st l)) (rcv_sn (st l))],
       st := record_sent (send_sn (st l)) now sz (st l)\<rparr>"
  using assms by (simp add: send_now_def kind_next_iframe send_frame_def good_env_def Let_def)

lemma send_all_facts:
  assumes "link_inv default_config l" "inflight (st l) + n \<le> 12"
    and "unat (pending_bytes (st l)) + 16 * n \<le> 160" "hi_queue_bytes l = 0"
    and "consecutive_t1_timeouts (st l) = 0" "list_all (\<lambda>p. send_time p = 0) (pending (st l))"
  shows "link_inv default_config (send_all n l) \<and> inflight (st (send_all n l)) = inflight (st l) + n
    \<and> length (pending (st (send_all n l))) = length (pending (st l)) + n
    \<and> list_all (\<lambda>p. send_time p = 0) (pending (st (send_all n l)))
    \<and> consecutive_t1_timeouts (st (send_all n l)) = 0"
  using assms
proof (induction n arbitrary: l)
  case 0
  then show ?case by simp
next
  case (Suc n)
  let ?l1 = "snd (send_now good_env 0 sample_asdu 16 l)"
  have v: "valid_counters (st l)" using Suc.prems(1) by (rule link_inv_valid)
  note l1 = send_now_good [OF v, of 0 sample_asdu 16]
  have k: "unat (k_window default_config) = 12" by (simp add: default_config_def)
  have pb: "unat (pending_bytes (st ?l1)) = unat (pending_bytes (st l)) + 16"
    using Suc.prems(3) by (simp add: l1 pending_bytes_record unat_sat_add)
  have n: "inflight (st ?l1) = inflight (st l) + 1"
    using inflight_record_sent [OF v, of "send_sn (st l)" 0 16] Suc.prems(2) by (simp add: l1)
  have "within_budget default_config 16 l"
    using Suc.prems(3,4)
    by (simp add: within_budget_def total_pending_bytes_def word_le_nat_alt unat_sat_add default_config_def)
  then have "link_inv default_config ?l1"
    using send_now_inv [OF Suc.prems(1) default_config_ok _ _ prod.collapse [symmetric]] Suc.prems(2) k
    by (simp add: window_capacity_iff)
  with Suc.IH [of ?l1] Suc.prems n pb show ?case
    by (simp add: l1) (simp add: record_sent_def push_pending_def Let_def)
qed

theorem iec104_silent_peer_detected_witness:
  "fst (run default_config (10 ^ 20)
      (map (\<lambda>(e, now). (e, Ticked now)) (map (\<lambda>i. (good_env, (16 + i) * 10 ^ 9)) [0, 1, 2, 3, 4])) silent_link) = Break"
proof -
  have "link_inv default_config (link_new (10 ^ 20) 0)"
    by (simp add: inv_defs link_new_def state_new_def sent_numbers_def numbered_def valid_counters_def
        inflight_def inflight_count_def unat_seq_distance)
  then have facts: "link_inv default_config silent_link" "inflight (st silent_link) = 5"
      "length (pending (st silent_link)) = 5" "list_all (\<lambda>p. send_time p = 0) (pending (st silent_link))"
      "consecutive_t1_timeouts (st silent_link) = 0"
    using send_all_facts [of "link_new (10 ^ 20) 0" 5]
    by (simp_all add: silent_link_def link_new_def state_new_def inflight_def inflight_count_def unat_seq_distance)
  have "\<forall>now \<in> set (map snd (map (\<lambda>i. (good_env, (16 + i) * 10 ^ 9)) [0, 1, 2, 3, 4])).
      t1_ms default_config \<le> elapsed_ms now 0"
    by (simp add: default_config_def elapsed_ms_def signed_ms_def)
  then have "overdue default_config 5 (map snd (map (\<lambda>i. (good_env, (16 + i) * 10 ^ 9)) [0, 1, 2, 3, 4])) silent_link"
    using facts by (auto simp: overdue_def list_all_iff)
  then show ?thesis using facts by (intro iec104_silent_peer_detected [OF default_config_ok]) simp_all
qed

text \<open>A request that arrives while the window has room is sent at once, even when older
  requests are still waiting in the backlog: it overtakes them.\<close>

theorem iec104_request_overtakes_backlog:
  assumes "lifecycle l = Active" "valid_counters (st l)" "window_has_capacity (st l) (k_window cfg)"
    and "iframe_wire_size_for_asdu a \<le> 255" "within_budget cfg (of_nat (iframe_wire_size_for_asdu a)) l"
    and "send_ok e (new_iframe a (send_sn (st l)) (rcv_sn (st l)))"
  shows "\<exists>l'. on_i_request cfg e now a prio l = (Continue, l') \<and> hi_queue l' = hi_queue l
    \<and> wire l' = wire l @ [new_iframe a (send_sn (st l)) (rcv_sn (st l))]"
  using assms by (simp add: on_i_request_def send_now_def kind_next_iframe send_frame_def Let_def)

theorem iec104_request_overtakes_backlog_witness:
  "let l = (link_new (10 ^ 20) 0)\<lparr>lifecycle := Active, hi_queue := [(sample_asdu, 16)], hi_queue_bytes := 16\<rparr>
   in hi_queue (snd (on_i_request default_config good_env 1 sample_asdu High l)) = [(sample_asdu, 16)]
      \<and> length (wire (snd (on_i_request default_config good_env 1 sample_asdu High l))) = 1"
proof -
  define l where "l = (link_new (10 ^ 20) 0)\<lparr>lifecycle := Active, hi_queue := [(sample_asdu, 16)], hi_queue_bytes := 16\<rparr>"
  have "valid_counters (st l)" "inflight (st l) = 0"
    by (simp_all add: l_def link_new_def state_new_def valid_counters_def inflight_def inflight_count_def unat_seq_distance)
  then have "\<exists>l'. on_i_request default_config good_env 1 sample_asdu High l = (Continue, l') \<and> hi_queue l' = hi_queue l
    \<and> wire l' = wire l @ [new_iframe sample_asdu (send_sn (st l)) (rcv_sn (st l))]"
    by (intro iec104_request_overtakes_backlog)
      (simp_all add: l_def link_new_def state_new_def window_capacity_iff default_config_def good_env_def
        iframe_wire_size_for_asdu_def sample_asdu_def within_budget_def total_pending_bytes_def sat_add_def)
  then show ?thesis unfolding l_def [symmetric] by (auto simp: l_def link_new_def)
qed

end
