(* ===== verification/Sdk_Float.thy ===== *)
theory Sdk_Float
  imports Complex_Main Prelude "HOL-Library.Log_Nat"
begin

text \<open>
  The floating-point numbers of the Rust language, as far as the value codec of the SDK uses
  them: \<open>f32\<close> and \<open>f64\<close> are the IEEE 754 binary formats.  A number is a sign, a mantissa and an
  exponent of two, and every operation computes the exact rational result and rounds it to the
  nearest representable number, ties to even.  The theory has the conversions between the formats,
  from and to integers (\<open>as\<close> saturates and maps NaN to zero) and from and to bits, and shows that
  integers of at most 53 bits survive a conversion, that rounding is the identity on
  representable numbers, and that bits determine the number they encode and back.
\<close>

section \<open>Formats and numbers\<close>

text \<open>A format: the precision with the implicit bit, the least and the greatest exponent of the
  mantissa's unit, and the width of the exponent field.\<close>

record fp_format =
  prec :: nat
  emin :: int
  emax :: int
  ebits :: nat

definition F32 :: fp_format where
  "F32 = \<lparr>prec = 24, emin = - 149, emax = 104, ebits = 8\<rparr>"

definition F64 :: fp_format where
  "F64 = \<lparr>prec = 53, emin = - 1074, emax = 971, ebits = 11\<rparr>"

lemma F32_simps [simp]: "prec F32 = 24" "emin F32 = - 149" "emax F32 = 104" "ebits F32 = 8"
  by (simp_all add: F32_def)

lemma F64_simps [simp]: "prec F64 = 53" "emin F64 = - 1074" "emax F64 = 971" "ebits F64 = 11"
  by (simp_all add: F64_def)

text \<open>\<open>Fin s m e\<close> is \<open>(-1)^s * m * 2^e\<close>; a NaN keeps its sign and payload.\<close>

datatype fp = NaN bool nat | Inf bool | Fin bool nat int

fun is_finite :: "fp \<Rightarrow> bool" where
  "is_finite (Fin _ _ _) = True"
| "is_finite _ = False"

fun fp_abs :: "fp \<Rightarrow> rat" where
  "fp_abs (Fin _ m e) = of_nat m * 2 powi e"
| "fp_abs _ = 0"

fun fp_val :: "fp \<Rightarrow> rat" where
  "fp_val (Fin s m e) = (if s then - 1 else 1) * (of_nat m * 2 powi e)"
| "fp_val _ = 0"

fun fp_neg :: "fp \<Rightarrow> fp" where
  "fp_neg (NaN s pl) = NaN (\<not> s) pl"
| "fp_neg (Inf s) = Inf (\<not> s)"
| "fp_neg (Fin s m e) = Fin (\<not> s) m e"

text \<open>The NaN an operation produces.\<close>

definition qnan :: fp where
  "qnan = NaN False (2 ^ 51)"

section \<open>Rounding\<close>

text \<open>The binary logarithm of a positive rational, rounded down.\<close>

definition lg :: "rat \<Rightarrow> int" where
  "lg q = (let (a, b) = quotient_of q; k = int (floorlog 2 (nat a)) - int (floorlog 2 (nat b))
           in if 2 powi k \<le> q then k else k - 1)"

text \<open>The nearest integer, ties to even.\<close>

definition rne :: "rat \<Rightarrow> int" where
  "rne x = (let f = \<lfloor>x\<rfloor>; r = x - of_int f
            in if r < 1 / 2 \<or> r = 1 / 2 \<and> even f then f else f + 1)"

definition fp_round :: "fp_format \<Rightarrow> bool \<Rightarrow> rat \<Rightarrow> fp" where
  "fp_round F s q =
     (if q \<le> 0 then Fin s 0 (emin F)
      else
        let e = max (emin F) (lg q - int (prec F) + 1);
            m = nat (rne (q / 2 powi e));
            (m', e') = (if m = 2 ^ prec F then (2 ^ (prec F - 1), e + 1) else (m, e))
        in if e' > emax F then Inf s else Fin s m' e')"

definition fp_of_rat :: "fp_format \<Rightarrow> rat \<Rightarrow> fp" where
  "fp_of_rat F q = fp_round F (q < 0) \<bar>q\<bar>"

text \<open>\<open>i as f64\<close>\<close>

definition f64_of_int :: "int \<Rightarrow> fp" where
  "f64_of_int i = fp_of_rat F64 (of_int i)"

definition f32_of_int :: "int \<Rightarrow> fp" where
  "f32_of_int i = fp_of_rat F32 (of_int i)"

text \<open>\<open>x as f32\<close> and \<open>x as f64\<close>: the payload of a NaN is aligned at its most significant bit.\<close>

fun f64_as_f32 :: "fp \<Rightarrow> fp" where
  "f64_as_f32 (NaN s pl) = NaN s (2 ^ 22 + (pl div 2 ^ 29) mod 2 ^ 22)"
| "f64_as_f32 (Inf s) = Inf s"
| "f64_as_f32 (Fin s m e) = fp_round F32 s (of_nat m * 2 powi e)"

fun f32_as_f64 :: "fp \<Rightarrow> fp" where
  "f32_as_f64 (NaN s pl) = NaN s (2 ^ 51 + (pl mod 2 ^ 22) * 2 ^ 29)"
| "f32_as_f64 (Inf s) = Inf s"
| "f32_as_f64 (Fin s m e) = fp_round F64 s (of_nat m * 2 powi e)"

section \<open>Arithmetic of \<open>f64\<close>\<close>

fun f64_mul :: "fp \<Rightarrow> fp \<Rightarrow> fp" where
  "f64_mul (Fin s m e) (Fin t n d) = fp_round F64 (s \<noteq> t) (of_nat m * 2 powi e * (of_nat n * 2 powi d))"
| "f64_mul (Inf s) (Fin t n d) = (if n = 0 then qnan else Inf (s \<noteq> t))"
| "f64_mul (Fin s m e) (Inf t) = (if m = 0 then qnan else Inf (s \<noteq> t))"
| "f64_mul (Inf s) (Inf t) = Inf (s \<noteq> t)"
| "f64_mul (NaN s pl) y = NaN s pl"
| "f64_mul x (NaN s pl) = NaN s pl"

fun f64_add :: "fp \<Rightarrow> fp \<Rightarrow> fp" where
  "f64_add (Fin s m e) (Fin t n d) =
     (let v = fp_val (Fin s m e) + fp_val (Fin t n d)
      in if v = 0 then Fin (s \<and> t) 0 (emin F64) else fp_of_rat F64 v)"
| "f64_add (Inf s) (Fin t n d) = Inf s"
| "f64_add (Fin s m e) (Inf t) = Inf t"
| "f64_add (Inf s) (Inf t) = (if s = t then Inf s else qnan)"
| "f64_add (NaN s pl) y = NaN s pl"
| "f64_add x (NaN s pl) = NaN s pl"

definition f64_sub :: "fp \<Rightarrow> fp \<Rightarrow> fp" where
  "f64_sub x y = f64_add x (fp_neg y)"

fun f64_div :: "fp \<Rightarrow> fp \<Rightarrow> fp" where
  "f64_div (Fin s m e) (Fin t n d) =
     (if n = 0 then (if m = 0 then qnan else Inf (s \<noteq> t))
      else fp_round F64 (s \<noteq> t) (of_nat m * 2 powi e / (of_nat n * 2 powi d)))"
| "f64_div (Inf s) (Fin t n d) = Inf (s \<noteq> t)"
| "f64_div (Fin s m e) (Inf t) = Fin (s \<noteq> t) 0 (emin F64)"
| "f64_div (Inf s) (Inf t) = qnan"
| "f64_div (NaN s pl) y = NaN s pl"
| "f64_div x (NaN s pl) = NaN s pl"

text \<open>\<open>f64::round\<close>: the nearest integer, ties away from zero.\<close>

fun f64_round :: "fp \<Rightarrow> fp" where
  "f64_round (Fin s m e) = fp_round F64 s (of_int \<lfloor>of_nat m * 2 powi e + 1 / 2 :: rat\<rfloor>)"
| "f64_round x = x"

fun fp_le :: "fp \<Rightarrow> fp \<Rightarrow> bool" where
  "fp_le (NaN _ _) _ = False"
| "fp_le _ (NaN _ _) = False"
| "fp_le (Inf s) (Inf t) = (s \<or> \<not> t)"
| "fp_le (Inf s) (Fin _ _ _) = s"
| "fp_le (Fin _ _ _) (Inf t) = (\<not> t)"
| "fp_le (Fin s m e) (Fin t n d) = (fp_val (Fin s m e) \<le> fp_val (Fin t n d))"

fun fp_lt :: "fp \<Rightarrow> fp \<Rightarrow> bool" where
  "fp_lt (NaN _ _) _ = False"
| "fp_lt _ (NaN _ _) = False"
| "fp_lt x y = (\<not> fp_le y x)"

text \<open>\<open>x as iN\<close>, \<open>x as uN\<close>: towards zero, saturating at the bounds of the target.\<close>

definition rat_trunc :: "rat \<Rightarrow> int" where
  "rat_trunc q = (if q < 0 then - \<lfloor>- q\<rfloor> else \<lfloor>q\<rfloor>)"

fun fp_as_int :: "int \<Rightarrow> int \<Rightarrow> fp \<Rightarrow> int" where
  "fp_as_int lo hi (NaN _ _) = 0"
| "fp_as_int lo hi (Inf s) = (if s then lo else hi)"
| "fp_as_int lo hi (Fin s m e) = max lo (min hi (rat_trunc (fp_val (Fin s m e))))"

section \<open>Bits\<close>

definition fp_of_bits :: "fp_format \<Rightarrow> nat \<Rightarrow> fp" where
  "fp_of_bits F n =
     (let h = 2 ^ (prec F - 1); frac = n mod h; ex = n div h mod 2 ^ ebits F;
          s = (n div h div 2 ^ ebits F mod 2 = 1)
      in if ex = 2 ^ ebits F - 1 then (if frac = 0 then Inf s else NaN s frac)
         else if ex = 0 then Fin s frac (emin F)
         else Fin s (h + frac) (emin F + int ex - 1))"

fun fp_to_bits :: "fp_format \<Rightarrow> fp \<Rightarrow> nat" where
  "fp_to_bits F (NaN s pl) =
     ((if s then 2 ^ ebits F else 0) + (2 ^ ebits F - 1)) * 2 ^ (prec F - 1) + pl"
| "fp_to_bits F (Inf s) =
     ((if s then 2 ^ ebits F else 0) + (2 ^ ebits F - 1)) * 2 ^ (prec F - 1)"
| "fp_to_bits F (Fin s m e) =
     (if m < 2 ^ (prec F - 1) then (if s then 2 ^ ebits F else 0) * 2 ^ (prec F - 1) + m
      else ((if s then 2 ^ ebits F else 0) + nat (e - emin F + 1)) * 2 ^ (prec F - 1)
             + (m - 2 ^ (prec F - 1)))"

definition f64_of_bits :: "u64 \<Rightarrow> fp" where "f64_of_bits w = fp_of_bits F64 (unat w)"
definition f64_to_bits :: "fp \<Rightarrow> u64" where "f64_to_bits x = of_nat (fp_to_bits F64 x)"
definition f32_of_bits :: "u32 \<Rightarrow> fp" where "f32_of_bits w = fp_of_bits F32 (unat w)"
definition f32_to_bits :: "fp \<Rightarrow> u32" where "f32_to_bits x = of_nat (fp_to_bits F32 x)"

section \<open>Rounding is exact on representable numbers\<close>

definition fp_ok :: "fp_format \<Rightarrow> fp \<Rightarrow> bool" where
  "fp_ok F x = (case x of Fin s m e \<Rightarrow> m < 2 ^ prec F \<and> emin F \<le> e \<and> e \<le> emax F
                | NaN s pl \<Rightarrow> 0 < pl \<and> pl < 2 ^ (prec F - 1) | Inf s \<Rightarrow> True)"

lemma floorlog_bounds:
  assumes "0 < n"
  shows "2 ^ (floorlog 2 n - 1) \<le> n" "n < 2 ^ floorlog 2 n" "0 < floorlog 2 n"
  using assms floorlog_bounds [of n 2] by (auto simp: floorlog_def)

lemma powi_le_iff [simp]: "(2 :: rat) powi a \<le> 2 powi b \<longleftrightarrow> a \<le> b"
  by (metis linorder_not_less nle_le one_less_numeral_iff power_int_strict_increasing semiring_norm(76) order_less_imp_le)

lemma powi_less_iff [simp]: "(2 :: rat) powi a < 2 powi b \<longleftrightarrow> a < b"
  by (metis linorder_not_less powi_le_iff)

lemma powi_Suc: "(2 :: rat) powi (k + 1) = 2 * 2 powi k"
  by (simp add: power_int_add)

lemma lg_bounds:
  assumes "0 < q"
  shows "2 powi (lg q) \<le> q" "q < 2 powi (lg q + 1)"
proof -
  obtain a b where ab: "quotient_of q = (a, b)" by fastforce
  then have b: "0 < b" and q: "q = of_int a / of_int b"
    by (simp_all add: quotient_of_denom_pos quotient_of_div)
  with assms have a: "0 < a"
    by (simp add: zero_less_divide_iff)
  define i where "i = floorlog 2 (nat a)"
  define j where "j = floorlog 2 (nat b)"
  define k where "k = int i - int j"
  have i: "2 ^ (i - 1) \<le> nat a" "nat a < 2 ^ i" "0 < i"
    using floorlog_bounds [of "nat a"] a by (simp_all add: i_def)
  have j: "2 ^ (j - 1) \<le> nat b" "nat b < 2 ^ j" "0 < j"
    using floorlog_bounds [of "nat b"] b by (simp_all add: j_def)
  have ar: "2 powi (int i - 1) \<le> (of_int a :: rat)" "(of_int a :: rat) < 2 powi int i"
    using i a by (auto simp: power_int_def nat_diff_distrib)
  have br: "2 powi (int j - 1) \<le> (of_int b :: rat)" "(of_int b :: rat) < 2 powi int j"
    using j b by (auto simp: power_int_def nat_diff_distrib)
  have "2 powi (int i - 1) / 2 powi int j \<le> q"
    unfolding q using ar br a b by (intro frac_le) auto
  moreover have "(2 :: rat) powi (k - 1) = 2 powi (int i - 1) / 2 powi int j"
    using power_int_diff [of "2 :: rat" "int i - 1" "int j"] by (simp add: k_def algebra_simps)
  ultimately have lo: "2 powi (k - 1) \<le> q" by simp
  have "q < 2 powi int i / 2 powi (int j - 1)"
    unfolding q using ar br a by (intro frac_less) auto
  moreover have "(2 :: rat) powi (k + 1) = 2 powi int i / 2 powi (int j - 1)"
    using power_int_diff [of "2 :: rat" "int i" "int j - 1"] by (simp add: k_def algebra_simps)
  ultimately have hi: "q < 2 powi (k + 1)" by simp
  have lg: "lg q = (if 2 powi k \<le> q then k else k - 1)"
    by (simp add: lg_def ab k_def i_def j_def)
  show "2 powi (lg q) \<le> q" "q < 2 powi (lg q + 1)"
    using lo hi by (auto simp: lg)
qed

lemma lg_unique:
  assumes "2 powi k \<le> q" "q < 2 powi (k + 1)"
  shows "lg q = k"
proof -
  have "0 < q" using assms(1) by (rule less_le_trans [rotated]) simp
  note b = lg_bounds [OF this]
  have "lg q < k + 1" using b(1) assms(2) by (metis le_less_trans powi_less_iff)
  moreover have "k < lg q + 1" using b(2) assms(1) by (metis le_less_trans powi_less_iff)
  ultimately show ?thesis by simp
qed

lemma lg_less_iff:
  assumes "0 < q" shows "lg q < k \<longleftrightarrow> q < 2 powi k"
proof
  assume "lg q < k"
  then have "2 powi (lg q + 1) \<le> (2 :: rat) powi k" by simp
  then show "q < 2 powi k" using lg_bounds(2) [OF assms] by linarith
next
  assume "q < 2 powi k"
  then show "lg q < k" using lg_bounds(1) [OF assms] by (metis le_less_trans powi_less_iff)
qed

lemma rne_of_int [simp]: "rne (of_int i) = i"
  by (simp add: rne_def)

lemma rne_of_nat [simp]: "rne (of_nat n) = int n"
  using rne_of_int [of "int n"] by simp

text \<open>A number with a short enough mantissa is rounded to itself.\<close>

lemma fp_round_exact:
  assumes q: "q = of_nat m * 2 powi e" and m: "m < 2 ^ prec F" and e: "emin F \<le> e" "e \<le> emax F"
    and p: "0 < prec F"
  shows "\<exists>m' e'. fp_round F s q = Fin s m' e' \<and> of_nat m' * 2 powi e' = q \<and> m' < 2 ^ prec F
           \<and> emin F \<le> e' \<and> e' \<le> emax F"
proof (cases "m = 0")
  case True
  then show ?thesis using q e by (auto simp: fp_round_def)
next
  case False
  then have q0: "0 < q" by (simp add: q)
  define k where "k = max (emin F) (lg q - int (prec F) + 1)"
  have "q < 2 ^ prec F * 2 powi e"
    unfolding q using m by (intro mult_strict_right_mono) (auto simp flip: of_nat_power simp: of_nat_less_iff)
  then have "q < 2 powi (int (prec F) + e)"
    by (simp add: power_int_add)
  then have "lg q < int (prec F) + e" using q0 by (simp add: lg_less_iff)
  then have ke: "k \<le> e" using e by (simp add: k_def)
  define n where "n = m * 2 ^ nat (e - k)"
  have "(2 :: rat) powi e = 2 powi k * 2 powi (e - k)" by (simp flip: power_int_add)
  then have n: "q / 2 powi k = of_nat n"
    using ke by (simp add: n_def q power_int_def [of _ "e - k"])
  have "lg q < k + int (prec F)" by (simp add: k_def)
  then have "q < 2 powi k * 2 ^ prec F" using q0 by (simp add: lg_less_iff power_int_add)
  then have "q / 2 powi k < 2 ^ prec F" by (simp add: field_simps)
  then have n': "n < 2 ^ prec F" unfolding n by (metis of_nat_less_iff of_nat_numeral of_nat_power)
  have "fp_round F s q = Fin s n k"
    using q0 n n' ke e by (simp add: fp_round_def Let_def k_def [symmetric])
  moreover have "of_nat n * 2 powi k = q" using n by (simp add: field_simps)
  ultimately show ?thesis using n' ke e by (auto simp: k_def)
qed

text \<open>What a conversion from an exactly representable integer gives.\<close>

lemma fp_round_val:
  assumes "q = of_nat m * 2 powi e" "m < 2 ^ prec F" "emin F \<le> e" "e \<le> emax F" "0 < prec F"
  shows "is_finite (fp_round F s q)" "fp_val (fp_round F s q) = (if s then - q else q)"
    "fp_ok F (fp_round F s q)" "fp_abs (fp_round F s q) = q"
  using fp_round_exact [OF assms, of s] by (auto simp: fp_ok_def)

lemma f64_round_nat:
  assumes "n \<le> 2 ^ 53"
  shows "is_finite (fp_round F64 s (of_nat n))"
    "fp_val (fp_round F64 s (of_nat n)) = (if s then - of_nat n else of_nat n)"
    "fp_ok F64 (fp_round F64 s (of_nat n))"
proof -
  consider "n < 2 ^ 53" | "n = 2 ^ 53" using assms by linarith
  then have "\<exists>m e. (of_nat n :: rat) = of_nat m * 2 powi e \<and> m < 2 ^ prec F64 \<and> emin F64 \<le> e \<and> e \<le> emax F64"
  proof cases
    case 1
    then show ?thesis by (intro exI [of _ n] exI [of _ "0 :: int"]) simp
  next
    case 2
    then show ?thesis by (intro exI [of _ "2 ^ 52 :: nat"] exI [of _ "1 :: int"]) simp
  qed
  then obtain m e where *: "(of_nat n :: rat) = of_nat m * 2 powi e" "m < 2 ^ prec F64" "emin F64 \<le> e"
    "e \<le> emax F64" by blast
  note v = fp_round_val [OF *]
  show "is_finite (fp_round F64 s (of_nat n))"
    "fp_val (fp_round F64 s (of_nat n)) = (if s then - of_nat n else of_nat n)"
    "fp_ok F64 (fp_round F64 s (of_nat n))" by (simp_all add: v)
qed

lemma f64_of_int_exact:
  assumes "\<bar>i\<bar> \<le> 2 ^ 53"
  shows "is_finite (f64_of_int i)" "fp_val (f64_of_int i) = of_int i" "fp_ok F64 (f64_of_int i)"
proof -
  have i: "\<bar>of_int i\<bar> = (of_nat (nat \<bar>i\<bar>) :: rat)" by simp
  have n: "nat \<bar>i\<bar> \<le> 2 ^ 53" using assms by (simp add: nat_le_iff)
  note v = f64_round_nat [OF n, of "i < 0", folded i]
  show "is_finite (f64_of_int i)" "fp_val (f64_of_int i) = of_int i" "fp_ok F64 (f64_of_int i)"
    using v by (simp_all add: f64_of_int_def fp_of_rat_def)
qed

section \<open>Rounding to an integer and back\<close>

text \<open>The integer nearest to a number, ties away from zero.\<close>

definition nearest :: "rat \<Rightarrow> int" where
  "nearest q = (if q < 0 then - \<lfloor>- q + 1 / 2\<rfloor> else \<lfloor>q + 1 / 2\<rfloor>)"

lemma nearest_of_int [simp]: "nearest (of_int i) = i"
proof -
  have *: "\<lfloor>of_int k + 1 / 2 :: rat\<rfloor> = k" for k :: int by linarith
  show ?thesis using * [of i] * [of "- i"] by (simp add: nearest_def)
qed

lemma nearest_close: "\<bar>of_int (nearest q) - q\<bar> \<le> 1 / 2"
proof (cases "q < 0")
  case True
  have "\<bar>- of_int \<lfloor>- q + 1 / 2\<rfloor> - q\<bar> \<le> 1 / 2" by linarith
  then show ?thesis using True by (simp add: nearest_def)
next
  case False
  have "\<bar>of_int \<lfloor>q + 1 / 2\<rfloor> - q\<bar> \<le> 1 / 2" by linarith
  then show ?thesis using False by (simp add: nearest_def)
qed

lemma floor_half [simp]: "\<lfloor>1 / 2 :: rat\<rfloor> = 0"
  by linarith

lemma rat_trunc_of_int [simp]: "rat_trunc (of_int i) = i"
  by (simp add: rat_trunc_def)

lemma f64_round_finite [simp]: "is_finite (f64_round x) \<Longrightarrow> is_finite x"
  by (cases x) auto

lemma f64_round_correct:
  assumes "is_finite x" "fp_ok F64 x"
  shows "is_finite (f64_round x)" "fp_val (f64_round x) = of_int (nearest (fp_val x))"
proof -
  obtain s m e where x: "x = Fin s m e" using assms(1) by (cases x) auto
  have ok: "m < 2 ^ 53" "- 1074 \<le> e" "e \<le> 971" using assms(2) by (simp_all add: x fp_ok_def)
  define n where "n = nat \<lfloor>of_nat m * 2 powi e + 1 / 2 :: rat\<rfloor>"
  have "0 \<le> \<lfloor>of_nat m * 2 powi e + 1 / 2 :: rat\<rfloor>" by simp
  then have fl: "(of_int \<lfloor>of_nat m * 2 powi e + 1 / 2 :: rat\<rfloor> :: rat) = of_nat n"
    by (simp add: n_def)
  have near: "of_int (nearest (fp_val x)) = (if s then - of_nat n else (of_nat n :: rat))"
  proof (cases "m = 0")
    case True
    then show ?thesis by (simp add: x nearest_def n_def)
  next
    case False
    then have "(0 :: rat) < of_nat m * 2 powi e" by simp
    then show ?thesis using fl by (auto simp: x nearest_def)
  qed
  have "is_finite (fp_round F64 s (of_nat n)) \<and>
      fp_val (fp_round F64 s (of_nat n)) = (if s then - of_nat n else of_nat n)"
  proof (cases "0 \<le> e")
    case True
    then have "of_nat m * 2 powi e = (of_nat (m * 2 ^ nat e) :: rat)" by (simp add: power_int_def)
    moreover have "\<lfloor>of_nat (m * 2 ^ nat e) + 1 / 2 :: rat\<rfloor> = int (m * 2 ^ nat e)" by linarith
    ultimately have "of_nat n = (of_nat m * 2 powi e :: rat)"
      by (simp only: fl [symmetric] of_int_of_nat_eq)
    then show ?thesis using fp_round_val [of "of_nat n" m e F64 s] ok by simp
  next
    case False
    then have "(2 :: rat) powi e \<le> 2 powi 0" by (simp only: powi_le_iff)
    then have "of_nat m * 2 powi e \<le> (of_nat m :: rat)" by (simp add: mult_left_le)
    then have "of_nat n \<le> (of_nat m :: rat) + 1 / 2" unfolding fl [symmetric] by linarith
    then have "n \<le> m" by linarith
    then have "n \<le> 2 ^ 53" using ok by simp
    then show ?thesis using f64_round_nat(1,2) by blast
  qed
  moreover have "f64_round x = fp_round F64 s (of_nat n)" by (simp add: x fl)
  ultimately show "is_finite (f64_round x)" "fp_val (f64_round x) = of_int (nearest (fp_val x))"
    using near by simp_all
qed

section \<open>Comparison and conversion of finite numbers\<close>

lemma fp_le_finite [simp]: "is_finite x \<Longrightarrow> is_finite y \<Longrightarrow> fp_le x y \<longleftrightarrow> fp_val x \<le> fp_val y"
  by (cases x; cases y) auto

lemma fp_lt_finite [simp]: "is_finite x \<Longrightarrow> is_finite y \<Longrightarrow> fp_lt x y \<longleftrightarrow> fp_val x < fp_val y"
  by (cases x; cases y) auto

lemma fp_as_int_finite: "is_finite x \<Longrightarrow> fp_as_int lo hi x = max lo (min hi (rat_trunc (fp_val x)))"
  by (cases x) auto

text \<open>The bounds of the 64-bit integers as floating-point numbers: the maxima are rounded up.\<close>

lemma f64_i64_max: "f64_of_int (2 ^ 63 - 1) = Fin False (2 ^ 52) 11"
proof -
  have "lg (2 ^ 63 - 1) = 62" by (rule lg_unique) simp_all
  moreover have "rne ((2 ^ 63 - 1) / 2 powi 10) = 2 ^ 53"
  proof -
    have "\<lfloor>(2 ^ 63 - 1) / 2 powi 10 :: rat\<rfloor> = 2 ^ 53 - 1" by (rule floor_unique) simp_all
    then show ?thesis by (simp add: rne_def)
  qed
  ultimately show ?thesis by (simp add: f64_of_int_def fp_of_rat_def fp_round_def)
qed

lemma f64_u64_max: "f64_of_int (2 ^ 64 - 1) = Fin False (2 ^ 52) 12"
proof -
  have "lg (2 ^ 64 - 1) = 63" by (rule lg_unique) simp_all
  moreover have "rne ((2 ^ 64 - 1) / 2 powi 11) = 2 ^ 53"
  proof -
    have "\<lfloor>(2 ^ 64 - 1) / 2 powi 11 :: rat\<rfloor> = 2 ^ 53 - 1" by (rule floor_unique) simp_all
    then show ?thesis by (simp add: rne_def)
  qed
  ultimately show ?thesis by (simp add: f64_of_int_def fp_of_rat_def fp_round_def)
qed

lemma f64_i64_min: "f64_of_int (- (2 ^ 63)) = Fin True (2 ^ 52) 11"
proof -
  have "lg (2 ^ 63) = 63" by (rule lg_unique) simp_all
  moreover have "rne (2 ^ 63 / 2 powi 11) = 2 ^ 52"
    using rne_of_int [of "2 ^ 52"] by simp
  ultimately show ?thesis by (simp add: f64_of_int_def fp_of_rat_def fp_round_def)
qed

section \<open>Bits determine the number\<close>

lemma fp_bits_roundtrip:
  assumes "n < 2 * 2 ^ ebits F * 2 ^ (prec F - 1)" "0 < ebits F" "0 < prec F"
  shows "fp_to_bits F (fp_of_bits F n) = n"
proof -
  define h where "h = (2 :: nat) ^ (prec F - 1)"
  define E where "E = (2 :: nat) ^ ebits F"
  have pos: "0 < h" "2 \<le> E" using assms(2) by (simp_all add: h_def E_def self_le_power)
  define f where "f = n mod h"
  define x where "x = n div h mod E"
  define t where "t = n div h div E"
  have "n < 2 * E * h" using assms(1) by (simp only: h_def E_def)
  then have "n div h < 2 * E" by (rule less_mult_imp_div_less)
  then have t: "t < 2" unfolding t_def by (rule less_mult_imp_div_less)
  have n: "n = (t * E + x) * h + f" by (simp add: t_def x_def f_def)
  have f: "f < h" and x: "x < E" using pos by (simp_all add: f_def x_def)
  have "fp_of_bits F n = (if x = E - 1 then (if f = 0 then Inf (t = 1) else NaN (t = 1) f)
      else if x = 0 then Fin (t = 1) f (emin F) else Fin (t = 1) (h + f) (emin F + int x - 1))"
    using t by (simp add: fp_of_bits_def Let_def h_def E_def f_def x_def t_def)
  moreover have "t = (if t = 1 then 1 else 0)" using t by auto
  moreover have "fp_to_bits F (NaN s pl) = ((if s then E else 0) + (E - 1)) * h + pl"
    "fp_to_bits F (Inf s) = ((if s then E else 0) + (E - 1)) * h"
    "fp_to_bits F (Fin s m e) = (if m < h then (if s then E else 0) * h + m
      else ((if s then E else 0) + nat (e - emin F + 1)) * h + (m - h))" for s pl m e
    by (simp_all only: fp_to_bits.simps h_def E_def)
  ultimately show ?thesis
    using n f x pos by (auto simp del: fp_to_bits.simps)
qed

lemma f64_bits_roundtrip [simp]: "f64_to_bits (f64_of_bits w) = w"
proof -
  have "unat w < 2 ^ 64" using unsigned_less [of w] by simp
  then show ?thesis
    using fp_bits_roundtrip [of "unat w" F64] by (simp add: f64_to_bits_def f64_of_bits_def)
qed

lemma f32_bits_roundtrip [simp]: "f32_to_bits (f32_of_bits w) = w"
proof -
  have "unat w < 2 ^ 32" using unsigned_less [of w] by simp
  then show ?thesis
    using fp_bits_roundtrip [of "unat w" F32] by (simp add: f32_to_bits_def f32_of_bits_def)
qed

lemma fp_of_bits_ok:
  assumes "F = F32 \<or> F = F64"
  shows "fp_ok F (fp_of_bits F n)"
proof -
  define h where "h = (2 :: nat) ^ (prec F - 1)"
  have h: "n mod h < h" "h + n mod h < 2 ^ prec F" using assms
    by (auto simp: h_def)
  have "n div h mod 2 ^ ebits F < 2 ^ ebits F" by simp
  then show ?thesis
    using h assms unfolding fp_of_bits_def h_def [symmetric]
    by (auto simp: fp_ok_def Let_def h_def)
qed

lemma f32_as_f64_exact:
  assumes "fp_ok F32 x"
  shows "is_finite (f32_as_f64 x) = is_finite x" "fp_val (f32_as_f64 x) = fp_val x" "fp_ok F64 (f32_as_f64 x)"
proof -
  have "is_finite (f32_as_f64 x) = is_finite x \<and> fp_val (f32_as_f64 x) = fp_val x \<and> fp_ok F64 (f32_as_f64 x)"
  proof (cases x)
    case (Fin s m e)
    then have "m < 2 ^ prec F64" "emin F64 \<le> e" "e \<le> emax F64" using assms by (simp_all add: fp_ok_def)
    note v = fp_round_val [OF refl this]
    show ?thesis using Fin by (simp add: v)
  qed (auto simp: fp_ok_def)
  then show "is_finite (f32_as_f64 x) = is_finite x" "fp_val (f32_as_f64 x) = fp_val x" "fp_ok F64 (f32_as_f64 x)"
    by simp_all
qed

section \<open>Rounded numbers have bits\<close>

lemma rne_bounds: "of_int a \<le> x \<Longrightarrow> a \<le> rne x" "x < of_int b \<Longrightarrow> rne x \<le> b"
proof -
  have r: "\<lfloor>x\<rfloor> \<le> rne x" "rne x \<le> \<lfloor>x\<rfloor> + 1" by (simp_all add: rne_def Let_def)
  show "a \<le> rne x" if "of_int a \<le> x" using that r(1) by (simp add: le_floor_iff [symmetric])
  show "rne x \<le> b" if "x < of_int b"
  proof -
    have "\<lfloor>x\<rfloor> < b" using that by (simp add: floor_less_iff)
    with r(2) show ?thesis by linarith
  qed
qed

lemma fp_of_bits_split:
  assumes "f < 2 ^ (prec F - 1)" "k < 2 ^ ebits F"
  shows "fp_of_bits F (((if s then 2 ^ ebits F else 0) + k) * 2 ^ (prec F - 1) + f) =
     (if k = 2 ^ ebits F - 1 then (if f = 0 then Inf s else NaN s f)
      else if k = 0 then Fin s f (emin F) else Fin s (2 ^ (prec F - 1) + f) (emin F + int k - 1))"
proof -
  define h where "h = (2 :: nat) ^ (prec F - 1)"
  define E where "E = (2 :: nat) ^ ebits F"
  let ?n = "((if s then E else 0) + k) * h + f"
  have f: "f < h" and k: "k < E" using assms by (simp_all add: h_def E_def)
  then have h: "?n mod h = f" "?n div h = (if s then E else 0) + k" by simp_all
  have sk: "((if s then E else 0) + k) mod E = k" "((if s then E else 0) + k) div E mod 2 = 1 \<longleftrightarrow> s"
    using k by (simp_all add: div_add_self1 split: if_splits)
  show ?thesis
    unfolding fp_of_bits_def Let_def h_def [symmetric] E_def [symmetric] h sk by (rule refl)
qed

text \<open>A rounded number is infinite or in the form its bits have.\<close>

lemma fp_round_normal:
  assumes "0 < prec F" "emin F \<le> emax F"
  shows "fp_round F s q = Inf s
    \<or> (\<exists>m e. fp_round F s q = Fin s m e \<and> m < 2 ^ prec F \<and> emin F \<le> e \<and> e \<le> emax F \<and> (m < 2 ^ (prec F - 1) \<longrightarrow> e = emin F))"
proof (cases "q \<le> 0")
  case True
  then show ?thesis using assms by (simp add: fp_round_def)
next
  case False
  then have q: "0 < q" by simp
  define e where "e = max (emin F) (lg q - int (prec F) + 1)"
  define m where "m = nat (rne (q / 2 powi e))"
  have "lg q < e + int (prec F)" by (simp add: e_def)
  then have "q < 2 powi (e + int (prec F))" using q by (simp add: lg_less_iff)
  then have "q / 2 powi e < of_int (2 ^ prec F)" by (simp add: power_int_add field_simps)
  then have "rne (q / 2 powi e) \<le> 2 ^ prec F" by (rule rne_bounds)
  then have hi: "m \<le> 2 ^ prec F" by (simp add: m_def nat_le_iff)
  have lo: "2 ^ (prec F - 1) \<le> m" if "e \<noteq> emin F"
  proof -
    have e: "lg q = e + int (prec F - 1)" using that assms(1) by (auto simp: e_def)
    have "2 powi (e + int (prec F - 1)) \<le> q" using lg_bounds(1) [OF q] unfolding e .
    then have "of_int (2 ^ (prec F - 1)) \<le> q / 2 powi e" by (simp add: power_int_add field_simps)
    then have "2 ^ (prec F - 1) \<le> rne (q / 2 powi e)" by (rule rne_bounds)
    then show ?thesis by (simp add: m_def le_nat_iff)
  qed
  have r: "fp_round F s q = (let (m', e') = (if m = 2 ^ prec F then (2 ^ (prec F - 1), e + 1) else (m, e))
      in if e' > emax F then Inf s else Fin s m' e')"
    using False by (simp add: fp_round_def Let_def e_def m_def)
  have half: "(2 :: nat) ^ (prec F - 1) < 2 ^ prec F" using assms(1) by simp
  have "emin F \<le> e" by (simp add: e_def)
  moreover have "e = emin F \<or> 2 ^ (prec F - 1) \<le> m" using lo by blast
  ultimately show ?thesis using hi half r by (auto simp: Let_def not_less)
qed

text \<open>Every result of rounding to \<open>f32\<close> is one of the numbers an \<open>f32\<close> has.\<close>

lemma fp_round_f32_bits: "fp_round F32 s q \<in> range f32_of_bits"
proof -
  have w: "unat (of_nat n :: u32) = n" if "n < 2 ^ 32" for n
    using that by (simp add: unat_of_nat take_bit_nat_eq_self)
  have bits: "(if k = 2 ^ 8 - 1 then (if f = 0 then Inf s else NaN s f) else if k = 0 then Fin s f (- 149)
      else Fin s (2 ^ (24 - 1) + f) (- 149 + int k - 1)) \<in> range f32_of_bits" if "f < 2 ^ (24 - 1)" "k < 2 ^ 8" for f k :: nat
  proof -
    let ?n = "((if s then 2 ^ 8 else 0) + k) * 2 ^ (24 - 1) + f"
    have "?n < 2 ^ 32" using that by auto
    then have "f32_of_bits (of_nat ?n) = fp_of_bits F32 ?n" unfolding f32_of_bits_def by (simp only: w)
    with fp_of_bits_split [of f F32 k s, unfolded F32_simps, OF that] show ?thesis by (metis rangeI)
  qed
  consider (inf) "fp_round F32 s q = Inf s"
    | (fin) m e where "fp_round F32 s q = Fin s m e" "m < 2 ^ 24" "- 149 \<le> e" "e \<le> 104" "m < 2 ^ 23 \<longrightarrow> e = - 149"
    using fp_round_normal [of F32 s q] by auto
  then show ?thesis
  proof cases
    case inf
    then show ?thesis using bits [of 0 255] by simp
  next
    case fin
    show ?thesis
    proof (cases "m < 2 ^ 23")
      case True
      then show ?thesis using fin bits [of m 0] by simp
    next
      case False
      let ?k = "nat (e + 150)"
      have "?k < 255" "0 < ?k" "m - 2 ^ 23 < 2 ^ 23" "2 ^ 23 + (m - 2 ^ 23) = m" using fin False by auto
      then show ?thesis using fin bits [of "m - 2 ^ 23" ?k] by simp
    qed
  qed
qed

end
