(* ===== verification/Iec104_Info.thy ===== *)
theory Iec104_Info
  imports Iec104_Frame Sdk_Float
begin

text \<open>
  The information objects of an IEC 60870-5-104 application unit in the monitoring direction
  (\<open>frame/mproc.rs\<close>, \<open>frame/msys.rs\<close>) with their time tags (\<open>frame/time.rs\<close>): the functions that
  build a unit from a list of objects and those that read the list back.

  The layout of the bit fields generated by the \<open>bit_struct\<close> crate and the calendar of \<open>chrono\<close>
  are parameters.  A bit field is represented by its raw number.

  Every reader is one loop over the object count of the unit, and every builder one loop over the
  objects.  The lemmas show, once for all kinds of objects, that reading inverts building, both for
  objects with addresses of their own and for a sequence of consecutive addresses.
\<close>

section \<open>Causes of transmission\<close>

datatype (plugins only:) Cause =
  Unused | Periodic | Background | Spontaneous | Initialized | Request | Activation | ActivationCon |
  Deactivation | DeactivationCon | ActivationTerm | ReturnInfoRemote | ReturnInfoLocal | FileTransfer |
  Authentication | SessionKey | UserRoleAndUpdateKey | Reserved1 | Reserved2 | Reserved3 |
  InterrogatedByStation | InterrogatedByGroup1 | InterrogatedByGroup2 | InterrogatedByGroup3 |
  InterrogatedByGroup4 | InterrogatedByGroup5 | InterrogatedByGroup6 | InterrogatedByGroup7 |
  InterrogatedByGroup8 | InterrogatedByGroup9 | InterrogatedByGroup10 | InterrogatedByGroup11 |
  InterrogatedByGroup12 | InterrogatedByGroup13 | InterrogatedByGroup14 | InterrogatedByGroup15 |
  InterrogatedByGroup16 | RequestByGeneralCounter | RequestByGroup1Counter | RequestByGroup2Counter |
  RequestByGroup3Counter | RequestByGroup4Counter | Reserved4 | Reserved5 | UnknownTypeID | UnknownCOT |
  UnknownCA | UnknownIOA

text \<open>The position in the declaration, which is what the derived order compares.\<close>

primrec cause_no :: "Cause \<Rightarrow> nat" where
  "cause_no Unused = 0"
| "cause_no Periodic = 1"
| "cause_no Background = 2"
| "cause_no Spontaneous = 3"
| "cause_no Initialized = 4"
| "cause_no Request = 5"
| "cause_no Activation = 6"
| "cause_no ActivationCon = 7"
| "cause_no Deactivation = 8"
| "cause_no DeactivationCon = 9"
| "cause_no ActivationTerm = 10"
| "cause_no ReturnInfoRemote = 11"
| "cause_no ReturnInfoLocal = 12"
| "cause_no FileTransfer = 13"
| "cause_no Authentication = 14"
| "cause_no SessionKey = 15"
| "cause_no UserRoleAndUpdateKey = 16"
| "cause_no Reserved1 = 17"
| "cause_no Reserved2 = 18"
| "cause_no Reserved3 = 19"
| "cause_no InterrogatedByStation = 20"
| "cause_no InterrogatedByGroup1 = 21"
| "cause_no InterrogatedByGroup2 = 22"
| "cause_no InterrogatedByGroup3 = 23"
| "cause_no InterrogatedByGroup4 = 24"
| "cause_no InterrogatedByGroup5 = 25"
| "cause_no InterrogatedByGroup6 = 26"
| "cause_no InterrogatedByGroup7 = 27"
| "cause_no InterrogatedByGroup8 = 28"
| "cause_no InterrogatedByGroup9 = 29"
| "cause_no InterrogatedByGroup10 = 30"
| "cause_no InterrogatedByGroup11 = 31"
| "cause_no InterrogatedByGroup12 = 32"
| "cause_no InterrogatedByGroup13 = 33"
| "cause_no InterrogatedByGroup14 = 34"
| "cause_no InterrogatedByGroup15 = 35"
| "cause_no InterrogatedByGroup16 = 36"
| "cause_no RequestByGeneralCounter = 37"
| "cause_no RequestByGroup1Counter = 38"
| "cause_no RequestByGroup2Counter = 39"
| "cause_no RequestByGroup3Counter = 40"
| "cause_no RequestByGroup4Counter = 41"
| "cause_no Reserved4 = 42"
| "cause_no Reserved5 = 43"
| "cause_no UnknownTypeID = 44"
| "cause_no UnknownCOT = 45"
| "cause_no UnknownCA = 46"
| "cause_no UnknownIOA = 47"

section \<open>Bit fields\<close>

datatype bit_object = SIQ | DIQ | QDS | VTI | SEP | QDP | StartEP | OCI | COI | SCO | DCO | RCO | QOS | QOI | QCC | QRP

text \<open>What the code uses of the generated types: \<open>new\<close>, \<open>try_from\<close> and the accessors of single fields.
  A field of less than eight bits is passed as a byte.\<close>

record bit_objects =
  vs_number :: "u8 \<Rightarrow> u8"
  vs_is_sequence :: "u8 \<Rightarrow> bool"
  vs_new :: "bool \<Rightarrow> u8 \<Rightarrow> u8"
  ioa_ok :: "u32 \<Rightarrow> bool"
  ioa_addr :: "u32 \<Rightarrow> u16"
  ioa_set_addr :: "u16 \<Rightarrow> u32 \<Rightarrow> u32"
  ioa_new :: "u8 \<Rightarrow> u16 \<Rightarrow> u32"
  object_ok :: "bit_object \<Rightarrow> u8 \<Rightarrow> bool"
  siq_spi :: "u8 \<Rightarrow> bool"
  siq_new :: "bool \<Rightarrow> u8"
  diq_spi :: "u8 \<Rightarrow> u8"
  diq_new :: "u8 \<Rightarrow> u8"
  vti_value :: "u8 \<Rightarrow> u8"
  qds_defaults :: u8
  cot_cause :: "u8 \<Rightarrow> Cause"
  cot_set_cause :: "Cause \<Rightarrow> u8 \<Rightarrow> u8"
  cot_new :: "bool \<Rightarrow> bool \<Rightarrow> Cause \<Rightarrow> u8"
  sco_new :: "bool \<Rightarrow> u8 \<Rightarrow> u8 \<Rightarrow> bool \<Rightarrow> u8"
  dco_new :: "bool \<Rightarrow> u8 \<Rightarrow> u8 \<Rightarrow> u8"
  rco_new :: "bool \<Rightarrow> u8 \<Rightarrow> u8 \<Rightarrow> u8"
  qos_new :: "u8 \<Rightarrow> u8 \<Rightarrow> u8"

text \<open>The documented behaviour the theorems rely on: an accessor returns what the constructor or the setter was
  given, an address fits into twenty-four bits, and every raw number is accepted by the types that have no
  enumeration among their fields.\<close>

definition bit_objects_ok :: "bit_objects \<Rightarrow> bool" where
  "bit_objects_ok l \<longleftrightarrow>
     (\<forall>s n. n < 128 \<longrightarrow> vs_number l (vs_new l s n) = n \<and> vs_is_sequence l (vs_new l s n) = s)
     \<and> (\<forall>r. r < 2 ^ 24 \<longrightarrow> ioa_ok l r)
     \<and> (\<forall>a r. r < 2 ^ 24 \<longrightarrow> ioa_set_addr l a r < 2 ^ 24 \<and> ioa_addr l (ioa_set_addr l a r) = a)
     \<and> (\<forall>u a. ioa_new l u a < 2 ^ 24 \<and> ioa_addr l (ioa_new l u a) = a)
     \<and> (\<forall>k b. object_ok l k b)"

section \<open>Outcomes and readers\<close>

text \<open>\<open>None\<close> is a panic.\<close>

datatype Iec104Error = ErrIo | ErrTypeIDNotMatch TypeID | ErrCmdCause u8 | ErrAnyHow

type_synonym 'a outcome = "(Iec104Error + 'a) option"
type_synonym 'a reader = "bytes \<Rightarrow> ('a \<times> bytes) outcome"

definition try_bind :: "'a outcome \<Rightarrow> ('a \<Rightarrow> 'b outcome) \<Rightarrow> 'b outcome" where
  "try_bind r k = (case r of None \<Rightarrow> None | Some (Inl e) \<Rightarrow> Some (Inl e) | Some (Inr x) \<Rightarrow> k x)"

lemma try_bind_simps [simp]:
  "try_bind None k = None"
  "try_bind (Some (Inl e)) k = Some (Inl e)"
  "try_bind (Some (Inr x)) k = k x"
  by (simp_all add: try_bind_def)

definition read_n :: "nat \<Rightarrow> bytes reader" where
  "read_n n bs = (if length bs < n then Some (Inl ErrIo) else Some (Inr (take n bs, drop n bs)))"

definition read_u8 :: "u8 reader" where
  "read_u8 bs = try_bind (read_n 1 bs) (\<lambda>(b, bs). Some (Inr (b ! 0, bs)))"

definition read_u16_le :: "u16 reader" where
  "read_u16_le bs = try_bind (read_n 2 bs) (\<lambda>(b, bs). Some (Inr (u16_of (b ! 1) (b ! 0), bs)))"

definition read_u24_le :: "u32 reader" where
  "read_u24_le bs = try_bind (read_n 3 bs) (\<lambda>(b, bs). Some (Inr (u32_of_le b, bs)))"

definition read_u32_le :: "u32 reader" where
  "read_u32_le bs = try_bind (read_n 4 bs) (\<lambda>(b, bs). Some (Inr (u32_of_le b, bs)))"

definition read_object :: "bit_objects \<Rightarrow> bit_object \<Rightarrow> u8 reader" where
  "read_object l k bs =
     try_bind (read_u8 bs) (\<lambda>(b, bs). if object_ok l k b then Some (Inr (b, bs)) else Some (Inl ErrAnyHow))"

section \<open>Time tags\<close>

text \<open>What the code uses of \<open>chrono\<close>: the fields of an instant, the checked constructor and the
  clock, which the code reads at most once per object: \<open>utc_now i\<close> is the reading at the object with
  the index \<open>i\<close>.\<close>

record 'dt calendar =
  nanosecond :: "'dt \<Rightarrow> u32"
  second :: "'dt \<Rightarrow> u32"
  minute :: "'dt \<Rightarrow> u32"
  hour :: "'dt \<Rightarrow> u32"
  weekday :: "'dt \<Rightarrow> u32"
  day :: "'dt \<Rightarrow> u32"
  month :: "'dt \<Rightarrow> u32"
  year :: "'dt \<Rightarrow> int"
  with_ymd_and_hms :: "int \<Rightarrow> u32 \<Rightarrow> u32 \<Rightarrow> u32 \<Rightarrow> u32 \<Rightarrow> u32 \<Rightarrow> 'dt option"
  utc_now :: "nat \<Rightarrow> 'dt"

definition cp_msec :: "'dt calendar \<Rightarrow> 'dt \<Rightarrow> u16" where
  "cp_msec ch t = ucast (nanosecond ch t div 1000000) + ucast (second ch t) * 1000"

definition cp56time2a :: "'dt calendar \<Rightarrow> 'dt \<Rightarrow> bytes" where
  "cp56time2a ch t =
     u16_to_le (cp_msec ch t)
     @ [ucast (minute ch t), ucast (hour ch t), push_bit 5 (ucast (weekday ch t)) OR ucast (day ch t),
        ucast (month ch t), of_int (year ch t - 2000)]"

definition cp24time2a :: "'dt calendar \<Rightarrow> 'dt \<Rightarrow> bytes" where
  "cp24time2a ch t = u16_to_le (cp_msec ch t) @ [ucast (minute ch t)]"

definition cp16time2a :: "'dt calendar \<Rightarrow> 'dt \<Rightarrow> bytes" where
  "cp16time2a ch t = u16_to_le (cp_msec ch t)"

definition cp16time2a_from_msec :: "u16 \<Rightarrow> bytes" where
  "cp16time2a_from_msec msec = u16_to_le msec"

definition decode_cp56time2a :: "'dt calendar \<Rightarrow> 'dt option reader" where
  "decode_cp56time2a ch bs =
     (if length bs < 7 then Some (Inr (None, bs))
      else
        let millisecond = u16_of (bs ! 1) (bs ! 0);
            sec = ucast (millisecond div 1000);
            invalid = bs ! 2 AND 0x80;
            min = ucast (bs ! 2 AND 0x3f);
            hour = ucast (bs ! 3 AND 0x1f);
            day = ucast (bs ! 4 AND 0x1f);
            month = ucast (bs ! 5 AND 0x0f);
            year = 2000 + uint (bs ! 6 AND 0x7f)
        in if invalid \<noteq> 0 then Some (Inr (None, drop 7 bs))
           else case with_ymd_and_hms ch year month day hour min sec of
                  None \<Rightarrow> None
                | Some t \<Rightarrow> Some (Inr (Some t, drop 7 bs)))"

definition decode_cp24time2a :: "'dt calendar \<Rightarrow> nat \<Rightarrow> 'dt option reader" where
  "decode_cp24time2a ch i bs =
     (if length bs < 3 then Some (Inr (None, bs))
      else
        let millisecond = u16_of (bs ! 1) (bs ! 0);
            sec = ucast (millisecond div 1000);
            invalid = bs ! 2 AND 0x80;
            min = ucast (bs ! 2 AND 0x3f);
            now = utc_now ch i
        in if invalid \<noteq> 0 then Some (Inr (None, drop 3 bs))
           else case with_ymd_and_hms ch (year ch now) (month ch now) (day ch now) (hour ch now) min sec of
                  None \<Rightarrow> None
                | Some t \<Rightarrow> Some (Inr (Some t, drop 3 bs)))"

section \<open>Reading the objects of a unit\<close>

text \<open>An object is its address, its time tag and its element, the tuple of the remaining fields of the
  source's struct in their order.\<close>

record ('e, 'dt) info_object =
  io_ioa :: u32
  io_elem :: 'e
  io_time :: "'dt option"

definition both :: "'a reader \<Rightarrow> 'b reader \<Rightarrow> ('a \<times> 'b) reader" where
  "both r s bs = try_bind (r bs) (\<lambda>(x, bs). try_bind (s bs) (\<lambda>(y, bs). Some (Inr ((x, y), bs))))"

text \<open>The time tag the type identification asks for.\<close>

definition time_tag :: "'dt calendar \<Rightarrow> TypeID \<Rightarrow> TypeID \<Rightarrow> TypeID \<Rightarrow> TypeID \<Rightarrow> nat \<Rightarrow> 'dt option reader" where
  "time_tag ch na ta tb t i bs =
     (if t = na then Some (Inr (None, bs))
      else if t = ta then decode_cp24time2a ch i bs
      else if t = tb then decode_cp56time2a ch bs
      else Some (Inl (ErrTypeIDNotMatch t)))"

definition read_ioa :: "bit_objects \<Rightarrow> bool \<Rightarrow> bool \<Rightarrow> u32 \<Rightarrow> u32 reader" where
  "read_ioa l is_seq once ioa bs =
     (if \<not> is_seq \<or> \<not> once
      then try_bind (read_u24_le bs) (\<lambda>(v, bs).
             if ioa_ok l v then Some (Inr (v, bs)) else Some (Inl ErrAnyHow))
      else Some (Inr (ioa_set_addr l (ioa_addr l ioa + 1) ioa, bs)))"

fun read_objects ::
    "bit_objects \<Rightarrow> (nat \<Rightarrow> ('e \<times> 'dt option) reader) \<Rightarrow> bool \<Rightarrow> nat \<Rightarrow> nat \<Rightarrow> bool \<Rightarrow> u32 \<Rightarrow> bytes
      \<Rightarrow> ('e, 'dt) info_object list outcome" where
  "read_objects l r is_seq 0 i once ioa bs = Some (Inr [])"
| "read_objects l r is_seq (Suc n) i once ioa bs =
     try_bind (read_ioa l is_seq once ioa bs) (\<lambda>(ioa, bs).
     try_bind (r i bs) (\<lambda>((x, t), bs).
     try_bind (read_objects l r is_seq n (Suc i) True ioa bs) (\<lambda>infos.
       Some (Inr (\<lparr>io_ioa = ioa, io_elem = x, io_time = t\<rparr> # infos)))))"

definition get_objects ::
    "bit_objects \<Rightarrow> Asdu \<Rightarrow> (nat \<Rightarrow> ('e \<times> 'dt option) reader) \<Rightarrow> ('e, 'dt) info_object list outcome" where
  "get_objects l a r =
     (let vs = variable_struct (ident a)
      in if ioa_ok l 0
         then read_objects l r (vs_is_sequence l vs) (unat (vs_number l vs)) 0 False 0 (asdu_raw a)
         else Some (Inl ErrAnyHow))"

type_synonym 'dt SinglePointInfo = "(u8, 'dt) info_object"
type_synonym 'dt DoublePointInfo = "(u8, 'dt) info_object"
type_synonym 'dt StepPositionInfo = "(u8 \<times> u8, 'dt) info_object"
type_synonym 'dt BitStringInfo = "(u32 \<times> u8, 'dt) info_object"
type_synonym 'dt MeasuredValueNormalInfo = "(u16 \<times> u8 option, 'dt) info_object"
type_synonym 'dt MeasuredValueScaledInfo = "(u16 \<times> u8, 'dt) info_object"
type_synonym 'dt MeasuredValueFloatInfo = "(fp \<times> u8, 'dt) info_object"
type_synonym 'dt ProtectionEventTdInfo = "(u8 \<times> u16, 'dt) info_object"
type_synonym 'dt ProtectionEventTeInfo = "(u8 \<times> u8 \<times> u16, 'dt) info_object"
type_synonym 'dt ProtectionEventTfInfo = "(u8 \<times> u8 \<times> u16, 'dt) info_object"

definition get_step_position :: "bit_objects \<Rightarrow> 'dt calendar \<Rightarrow> Asdu \<Rightarrow> 'dt StepPositionInfo list outcome" where
  "get_step_position l ch a =
     get_objects l a (\<lambda>i. both (both (read_object l VTI) (read_object l QDS))
                              (time_tag ch M_ST_NA_1 M_ST_TA_1 M_ST_TB_1 (type_id (ident a)) i))"

definition get_bit_string :: "bit_objects \<Rightarrow> 'dt calendar \<Rightarrow> Asdu \<Rightarrow> 'dt BitStringInfo list outcome" where
  "get_bit_string l ch a =
     get_objects l a (\<lambda>i. both (both read_u32_le (read_object l QDS))
                              (time_tag ch M_BO_NA_1 M_BO_TA_1 M_BO_TB_1 (type_id (ident a)) i))"

text \<open>Units of a single type: any other type is refused after the element is read.\<close>

definition only_type :: "TypeID \<Rightarrow> TypeID \<Rightarrow> 'a reader \<Rightarrow> 'a reader" where
  "only_type want t r bs = (if t = want then r bs else Some (Inl (ErrTypeIDNotMatch t)))"

definition get_packed_status_change :: "bit_objects \<Rightarrow> Asdu \<Rightarrow> 'dt BitStringInfo list outcome" where
  "get_packed_status_change l a =
     get_objects l a (\<lambda>i. both (both read_u32_le (read_object l QDS))
                              (only_type M_PS_NA_1 (type_id (ident a)) (\<lambda>bs. Some (Inr (None, bs)))))"

definition get_protection_event_td :: "bit_objects \<Rightarrow> 'dt calendar \<Rightarrow> Asdu \<Rightarrow> 'dt ProtectionEventTdInfo list outcome" where
  "get_protection_event_td l ch a =
     get_objects l a (\<lambda>i. both (both (read_object l SEP) read_u16_le)
                              (only_type M_EP_TD_1 (type_id (ident a)) (decode_cp56time2a ch)))"

definition get_protection_event_te :: "bit_objects \<Rightarrow> 'dt calendar \<Rightarrow> Asdu \<Rightarrow> 'dt ProtectionEventTeInfo list outcome" where
  "get_protection_event_te l ch a =
     get_objects l a (\<lambda>i. both (both (read_object l StartEP) (both (read_object l QDP) read_u16_le))
                              (only_type M_EP_TE_1 (type_id (ident a)) (decode_cp56time2a ch)))"

definition get_protection_event_tf :: "bit_objects \<Rightarrow> 'dt calendar \<Rightarrow> Asdu \<Rightarrow> 'dt ProtectionEventTfInfo list outcome" where
  "get_protection_event_tf l ch a =
     get_objects l a (\<lambda>i. both (both (read_object l OCI) (both (read_object l QDP) read_u16_le))
                              (only_type M_EP_TF_1 (type_id (ident a)) (decode_cp56time2a ch)))"

definition get_single_point :: "bit_objects \<Rightarrow> 'dt calendar \<Rightarrow> Asdu \<Rightarrow> 'dt SinglePointInfo list outcome" where
  "get_single_point l ch a =
     get_objects l a (\<lambda>i. both (read_object l SIQ)
                              (time_tag ch M_SP_NA_1 M_SP_TA_1 M_SP_TB_1 (type_id (ident a)) i))"

definition get_double_point :: "bit_objects \<Rightarrow> 'dt calendar \<Rightarrow> Asdu \<Rightarrow> 'dt DoublePointInfo list outcome" where
  "get_double_point l ch a =
     get_objects l a (\<lambda>i. both (read_object l DIQ)
                              (time_tag ch M_DP_NA_1 M_DP_TA_1 M_DP_TB_1 (type_id (ident a)) i))"

text \<open>A normalized value has a quality descriptor except in units of type \<open>M_ME_ND_1\<close>.\<close>

definition read_normal ::
    "bit_objects \<Rightarrow> 'dt calendar \<Rightarrow> TypeID \<Rightarrow> nat \<Rightarrow> ((u16 \<times> u8 option) \<times> 'dt option) reader" where
  "read_normal l ch t i bs =
     try_bind (read_u16_le bs) (\<lambda>(nva, bs).
       if t = M_ME_NA_1 then
         try_bind (read_object l QDS bs) (\<lambda>(qds, bs). Some (Inr (((nva, Some qds), None), bs)))
       else if t = M_ME_TA_1 then
         try_bind (read_object l QDS bs) (\<lambda>(qds, bs).
         try_bind (decode_cp24time2a ch i bs) (\<lambda>(tm, bs). Some (Inr (((nva, Some qds), tm), bs))))
       else if t = M_ME_TD_1 then
         try_bind (read_object l QDS bs) (\<lambda>(qds, bs).
         try_bind (decode_cp56time2a ch bs) (\<lambda>(tm, bs). Some (Inr (((nva, Some qds), tm), bs))))
       else if t = M_ME_ND_1 then Some (Inr (((nva, None), None), bs))
       else Some (Inl (ErrTypeIDNotMatch t)))"

definition get_measured_value_normal ::
    "bit_objects \<Rightarrow> 'dt calendar \<Rightarrow> Asdu \<Rightarrow> 'dt MeasuredValueNormalInfo list outcome" where
  "get_measured_value_normal l ch a = get_objects l a (read_normal l ch (type_id (ident a)))"

definition get_measured_value_scaled ::
    "bit_objects \<Rightarrow> 'dt calendar \<Rightarrow> Asdu \<Rightarrow> 'dt MeasuredValueScaledInfo list outcome" where
  "get_measured_value_scaled l ch a =
     get_objects l a (\<lambda>i. both (both read_u16_le (read_object l QDS))
                              (time_tag ch M_ME_NB_1 M_ME_TB_1 M_ME_TE_1 (type_id (ident a)) i))"

definition read_f32_le :: "fp reader" where
  "read_f32_le bs = try_bind (read_u32_le bs) (\<lambda>(w, bs). Some (Inr (f32_of_bits w, bs)))"

definition get_measured_value_float ::
    "bit_objects \<Rightarrow> 'dt calendar \<Rightarrow> Asdu \<Rightarrow> 'dt MeasuredValueFloatInfo list outcome" where
  "get_measured_value_float l ch a =
     get_objects l a (\<lambda>i. both (both read_f32_le (read_object l QDS))
                              (time_tag ch M_ME_NC_1 M_ME_TC_1 M_ME_TF_1 (type_id (ident a)) i))"

record ObjectBCR =
  bcr_invalid :: bool
  bcr_ca :: bool
  bcr_cy :: bool
  bcr_seq :: u8
  bcr_value :: u32

type_synonym 'dt BinaryCounterReadingInfo = "(ObjectBCR, 'dt) info_object"

definition read_bcr :: "ObjectBCR reader" where
  "read_bcr bs =
     try_bind (read_u32_le bs) (\<lambda>(v, bs).
     try_bind (read_u8 bs) (\<lambda>(b, bs).
       Some (Inr (\<lparr>bcr_invalid = (b AND 0x80 = 0x80), bcr_ca = (b AND 0x40 = 0x40), bcr_cy = (b AND 0x20 = 0x20),
                  bcr_seq = b AND 0x1f, bcr_value = v\<rparr>, bs))))"

definition get_integrated_totals ::
    "bit_objects \<Rightarrow> 'dt calendar \<Rightarrow> Asdu \<Rightarrow> 'dt BinaryCounterReadingInfo list outcome" where
  "get_integrated_totals l ch a =
     get_objects l a (\<lambda>i. both read_bcr
                              (time_tag ch M_IT_NA_1 M_IT_TA_1 M_IT_TB_1 (type_id (ident a)) i))"

definition get_end_of_initialization :: "bit_objects \<Rightarrow> Asdu \<Rightarrow> (u32 \<times> u8) outcome" where
  "get_end_of_initialization l a =
     try_bind (read_u24_le (asdu_raw a)) (\<lambda>(v, bs).
       if \<not> ioa_ok l v then Some (Inl ErrAnyHow)
       else try_bind (read_object l COI bs) (\<lambda>(coi, bs). Some (Inr (v, coi))))"

section \<open>Building a unit from objects\<close>

definition stamp :: "'dt calendar \<Rightarrow> nat \<Rightarrow> ('e, 'dt) info_object \<Rightarrow> 'dt" where
  "stamp ch i x = (case io_time x of Some t \<Rightarrow> t | None \<Rightarrow> utc_now ch i)"

definition put_time ::
    "'dt calendar \<Rightarrow> TypeID \<Rightarrow> TypeID \<Rightarrow> TypeID \<Rightarrow> TypeID \<Rightarrow> nat \<Rightarrow> ('e, 'dt) info_object \<Rightarrow> Iec104Error + bytes" where
  "put_time ch na ta tb t i x =
     (if t = na then Inr []
      else if t = ta then Inr (cp24time2a ch (stamp ch i x))
      else if t = tb then Inr (cp56time2a ch (stamp ch i x))
      else Inl (ErrTypeIDNotMatch t))"

definition put_u24_le :: "u32 \<Rightarrow> bytes" where
  "put_u24_le v = take 3 (u32_to_le v)"

text \<open>The element is written before the type is matched; an error of the match discards both.\<close>

definition put_tagged ::
    "('e \<Rightarrow> bytes) \<Rightarrow> (nat \<Rightarrow> ('e, 'dt) info_object \<Rightarrow> Iec104Error + bytes) \<Rightarrow> nat \<Rightarrow> ('e, 'dt) info_object
      \<Rightarrow> Iec104Error + bytes" where
  "put_tagged w tm i x = res_bind (tm i x) (\<lambda>t. Inr (w (io_elem x) @ t))"

fun write_objects ::
    "(nat \<Rightarrow> ('e, 'dt) info_object \<Rightarrow> Iec104Error + bytes) \<Rightarrow> bool \<Rightarrow> nat \<Rightarrow> bool \<Rightarrow> ('e, 'dt) info_object list
      \<Rightarrow> Iec104Error + bytes" where
  "write_objects w is_seq i once [] = Inr []"
| "write_objects w is_seq i once (x # xs) =
     res_bind (w i x) (\<lambda>b.
     res_bind (write_objects w is_seq (Suc i) True xs) (\<lambda>rest.
       Inr ((if \<not> is_seq \<or> \<not> once then put_u24_le (io_ioa x) else []) @ b @ rest)))"

text \<open>The object count is a field of seven bits: \<open>u7::new(infos.len() as u8).unwrap()\<close> panics when the
  length modulo 256 does not fit.\<close>

definition build_objects ::
    "bit_objects \<Rightarrow> TypeID \<Rightarrow> bool \<Rightarrow> u8 \<Rightarrow> u16 \<Rightarrow> ('e, 'dt) info_object list
      \<Rightarrow> (nat \<Rightarrow> ('e, 'dt) info_object \<Rightarrow> Iec104Error + bytes) \<Rightarrow> Asdu outcome" where
  "build_objects l t is_seq ct ca infos w =
     (let n = of_nat (length infos) :: u8
      in if \<not> n < 128 then None
         else Some (res_bind (write_objects w is_seq 0 False infos) (\<lambda>buf.
                Inr \<lparr>ident = \<lparr>type_id = t, variable_struct = vs_new l is_seq n, cot = ct, orig_addr = 0, common_addr = ca\<rparr>,
                     asdu_raw = buf\<rparr>)))"

definition check_cause :: "bit_objects \<Rightarrow> (Cause \<Rightarrow> bool) \<Rightarrow> u8 \<Rightarrow> 'a outcome \<Rightarrow> 'a outcome" where
  "check_cause l P ct r = (if P (cot_cause l ct) then r else Some (Inl (ErrCmdCause ct)))"

definition by_interrogation :: "Cause \<Rightarrow> bool" where
  "by_interrogation c \<longleftrightarrow>
     cause_no InterrogatedByStation \<le> cause_no c \<and> cause_no c \<le> cause_no InterrogatedByGroup16"

definition by_counter_request :: "Cause \<Rightarrow> bool" where
  "by_counter_request c \<longleftrightarrow>
     cause_no RequestByGeneralCounter \<le> cause_no c \<and> cause_no c \<le> cause_no RequestByGroup4Counter"

definition cause_state :: "Cause \<Rightarrow> bool" where
  "cause_state c \<longleftrightarrow>
     c = Background \<or> c = Spontaneous \<or> c = Request \<or> c = ReturnInfoRemote \<or> c = ReturnInfoLocal \<or> by_interrogation c"

definition cause_event :: "Cause \<Rightarrow> bool" where
  "cause_event c \<longleftrightarrow> c = Spontaneous \<or> c = Request \<or> c = ReturnInfoRemote \<or> c = ReturnInfoLocal"

definition cause_stamped :: "Cause \<Rightarrow> bool" where
  "cause_stamped c \<longleftrightarrow> c = Spontaneous \<or> c = Request"

subsection \<open>Single and double points, step positions\<close>

definition single_inner ::
    "bit_objects \<Rightarrow> 'dt calendar \<Rightarrow> TypeID \<Rightarrow> bool \<Rightarrow> u8 \<Rightarrow> u16 \<Rightarrow> 'dt SinglePointInfo list \<Rightarrow> Asdu outcome" where
  "single_inner l ch t is_seq ct ca infos =
     build_objects l t is_seq ct ca infos
       (put_tagged (\<lambda>siq. [siq]) (put_time ch M_SP_NA_1 M_SP_TA_1 M_SP_TB_1 t))"

definition single_asdu :: "bit_objects \<Rightarrow> 'dt calendar \<Rightarrow> bool \<Rightarrow> u8 \<Rightarrow> u16 \<Rightarrow> 'dt SinglePointInfo list \<Rightarrow> Asdu outcome" where
  "single_asdu l ch is_seq ct ca infos = check_cause l cause_state ct (single_inner l ch M_SP_NA_1 is_seq ct ca infos)"

definition single_cp24time2a ::
    "bit_objects \<Rightarrow> 'dt calendar \<Rightarrow> u8 \<Rightarrow> u16 \<Rightarrow> 'dt SinglePointInfo list \<Rightarrow> Asdu outcome" where
  "single_cp24time2a l ch ct ca infos = check_cause l cause_event ct (single_inner l ch M_SP_TA_1 False ct ca infos)"

definition single_cp56time2a ::
    "bit_objects \<Rightarrow> 'dt calendar \<Rightarrow> u8 \<Rightarrow> u16 \<Rightarrow> 'dt SinglePointInfo list \<Rightarrow> Asdu outcome" where
  "single_cp56time2a l ch ct ca infos = check_cause l cause_event ct (single_inner l ch M_SP_TB_1 False ct ca infos)"

definition double_inner ::
    "bit_objects \<Rightarrow> 'dt calendar \<Rightarrow> TypeID \<Rightarrow> bool \<Rightarrow> u8 \<Rightarrow> u16 \<Rightarrow> 'dt DoublePointInfo list \<Rightarrow> Asdu outcome" where
  "double_inner l ch t is_seq ct ca infos =
     build_objects l t is_seq ct ca infos
       (put_tagged (\<lambda>diq. [diq]) (put_time ch M_DP_NA_1 M_DP_TA_1 M_DP_TB_1 t))"

definition double_asdu :: "bit_objects \<Rightarrow> 'dt calendar \<Rightarrow> bool \<Rightarrow> u8 \<Rightarrow> u16 \<Rightarrow> 'dt DoublePointInfo list \<Rightarrow> Asdu outcome" where
  "double_asdu l ch is_seq ct ca infos = check_cause l cause_state ct (double_inner l ch M_DP_NA_1 is_seq ct ca infos)"

definition double_cp24time2a ::
    "bit_objects \<Rightarrow> 'dt calendar \<Rightarrow> bool \<Rightarrow> u8 \<Rightarrow> u16 \<Rightarrow> 'dt DoublePointInfo list \<Rightarrow> Asdu outcome" where
  "double_cp24time2a l ch is_seq ct ca infos =
     check_cause l cause_event ct (double_inner l ch M_DP_TA_1 is_seq ct ca infos)"

definition double_cp56time2a ::
    "bit_objects \<Rightarrow> 'dt calendar \<Rightarrow> bool \<Rightarrow> u8 \<Rightarrow> u16 \<Rightarrow> 'dt DoublePointInfo list \<Rightarrow> Asdu outcome" where
  "double_cp56time2a l ch is_seq ct ca infos =
     check_cause l cause_event ct (double_inner l ch M_DP_TB_1 is_seq ct ca infos)"

definition cause_step :: "Cause \<Rightarrow> bool" where
  "cause_step c \<longleftrightarrow> c = Background \<or> cause_event c"

definition step_inner ::
    "bit_objects \<Rightarrow> 'dt calendar \<Rightarrow> TypeID \<Rightarrow> bool \<Rightarrow> u8 \<Rightarrow> u16 \<Rightarrow> 'dt StepPositionInfo list \<Rightarrow> Asdu outcome" where
  "step_inner l ch t is_seq ct ca infos =
     build_objects l t is_seq ct ca infos
       (put_tagged (\<lambda>(vti, qds). [vti, qds]) (put_time ch M_ST_NA_1 M_ST_TA_1 M_ST_TB_1 t))"

definition step_position :: "bit_objects \<Rightarrow> 'dt calendar \<Rightarrow> bool \<Rightarrow> u8 \<Rightarrow> u16 \<Rightarrow> 'dt StepPositionInfo list \<Rightarrow> Asdu outcome" where
  "step_position l ch is_seq ct ca infos = check_cause l cause_state ct (step_inner l ch M_ST_NA_1 is_seq ct ca infos)"

definition step_cp24time2a ::
    "bit_objects \<Rightarrow> 'dt calendar \<Rightarrow> u8 \<Rightarrow> u16 \<Rightarrow> 'dt StepPositionInfo list \<Rightarrow> Asdu outcome" where
  "step_cp24time2a l ch ct ca infos = check_cause l cause_step ct (step_inner l ch M_ST_TA_1 False ct ca infos)"

definition step_cp56time2a ::
    "bit_objects \<Rightarrow> 'dt calendar \<Rightarrow> u8 \<Rightarrow> u16 \<Rightarrow> 'dt StepPositionInfo list \<Rightarrow> Asdu outcome" where
  "step_cp56time2a l ch ct ca infos = check_cause l cause_step ct (step_inner l ch M_ST_TB_1 False ct ca infos)"

subsection \<open>Measured values\<close>

definition put_normal ::
    "bit_objects \<Rightarrow> 'dt calendar \<Rightarrow> TypeID \<Rightarrow> nat \<Rightarrow> 'dt MeasuredValueNormalInfo \<Rightarrow> Iec104Error + bytes" where
  "put_normal l ch t i x =
     (let nva = u16_to_le (fst (io_elem x));
          qds = [case snd (io_elem x) of Some q \<Rightarrow> q | None \<Rightarrow> qds_defaults l]
      in if t = M_ME_NA_1 then Inr (nva @ qds)
         else if t = M_ME_TA_1 then Inr (nva @ qds @ cp24time2a ch (stamp ch i x))
         else if t = M_ME_TD_1 then Inr (nva @ qds @ cp56time2a ch (stamp ch i x))
         else if t = M_ME_ND_1 then Inr nva
         else Inl (ErrTypeIDNotMatch t))"

definition measured_value_normal_inner ::
    "bit_objects \<Rightarrow> 'dt calendar \<Rightarrow> TypeID \<Rightarrow> bool \<Rightarrow> u8 \<Rightarrow> u16 \<Rightarrow> 'dt MeasuredValueNormalInfo list \<Rightarrow> Asdu outcome" where
  "measured_value_normal_inner l ch t is_seq ct ca infos =
     build_objects l t is_seq ct ca infos (put_normal l ch t)"

definition measured_value_normal ::
    "bit_objects \<Rightarrow> 'dt calendar \<Rightarrow> bool \<Rightarrow> u8 \<Rightarrow> u16 \<Rightarrow> 'dt MeasuredValueNormalInfo list \<Rightarrow> Asdu outcome" where
  "measured_value_normal l ch is_seq ct ca infos =
     check_cause l cause_state ct (measured_value_normal_inner l ch M_ME_NA_1 is_seq ct ca infos)"

definition measured_value_normal_cp24time2a ::
    "bit_objects \<Rightarrow> 'dt calendar \<Rightarrow> u8 \<Rightarrow> u16 \<Rightarrow> 'dt MeasuredValueNormalInfo list \<Rightarrow> Asdu outcome" where
  "measured_value_normal_cp24time2a l ch ct ca infos =
     check_cause l cause_stamped ct (measured_value_normal_inner l ch M_ME_TA_1 False ct ca infos)"

definition measured_value_normal_cp56time2a ::
    "bit_objects \<Rightarrow> 'dt calendar \<Rightarrow> u8 \<Rightarrow> u16 \<Rightarrow> 'dt MeasuredValueNormalInfo list \<Rightarrow> Asdu outcome" where
  "measured_value_normal_cp56time2a l ch ct ca infos =
     check_cause l cause_stamped ct (measured_value_normal_inner l ch M_ME_TD_1 False ct ca infos)"

definition measured_value_normal_noquality ::
    "bit_objects \<Rightarrow> 'dt calendar \<Rightarrow> u8 \<Rightarrow> u16 \<Rightarrow> 'dt MeasuredValueNormalInfo list \<Rightarrow> Asdu outcome" where
  "measured_value_normal_noquality l ch ct ca infos =
     check_cause l (\<lambda>c. c = Periodic \<or> cause_state c) ct (measured_value_normal_inner l ch M_ME_ND_1 False ct ca infos)"

definition measured_value_scaled_inner ::
    "bit_objects \<Rightarrow> 'dt calendar \<Rightarrow> TypeID \<Rightarrow> bool \<Rightarrow> u8 \<Rightarrow> u16 \<Rightarrow> 'dt MeasuredValueScaledInfo list \<Rightarrow> Asdu outcome" where
  "measured_value_scaled_inner l ch t is_seq ct ca infos =
     build_objects l t is_seq ct ca infos
       (put_tagged (\<lambda>(sva, qds). u16_to_le sva @ [qds]) (put_time ch M_ME_NB_1 M_ME_TB_1 M_ME_TE_1 t))"

definition measured_value_scaled ::
    "bit_objects \<Rightarrow> 'dt calendar \<Rightarrow> u8 \<Rightarrow> u16 \<Rightarrow> 'dt MeasuredValueScaledInfo list \<Rightarrow> Asdu outcome" where
  "measured_value_scaled l ch ct ca infos =
     check_cause l cause_state ct (measured_value_scaled_inner l ch M_ME_NB_1 False ct ca infos)"

definition measured_value_scaled_cp24time2a ::
    "bit_objects \<Rightarrow> 'dt calendar \<Rightarrow> u8 \<Rightarrow> u16 \<Rightarrow> 'dt MeasuredValueScaledInfo list \<Rightarrow> Asdu outcome" where
  "measured_value_scaled_cp24time2a l ch ct ca infos =
     check_cause l cause_stamped ct (measured_value_scaled_inner l ch M_ME_TB_1 False ct ca infos)"

definition measured_value_scaled_cp56time2a ::
    "bit_objects \<Rightarrow> 'dt calendar \<Rightarrow> u8 \<Rightarrow> u16 \<Rightarrow> 'dt MeasuredValueScaledInfo list \<Rightarrow> Asdu outcome" where
  "measured_value_scaled_cp56time2a l ch ct ca infos =
     check_cause l cause_stamped ct (measured_value_scaled_inner l ch M_ME_TE_1 False ct ca infos)"

definition measured_value_float_inner ::
    "bit_objects \<Rightarrow> 'dt calendar \<Rightarrow> TypeID \<Rightarrow> bool \<Rightarrow> u8 \<Rightarrow> u16 \<Rightarrow> 'dt MeasuredValueFloatInfo list \<Rightarrow> Asdu outcome" where
  "measured_value_float_inner l ch t is_seq ct ca infos =
     build_objects l t is_seq ct ca infos
       (put_tagged (\<lambda>(r, qds). u32_to_le (f32_to_bits r) @ [qds]) (put_time ch M_ME_NC_1 M_ME_TC_1 M_ME_TF_1 t))"

definition measured_value_float ::
    "bit_objects \<Rightarrow> 'dt calendar \<Rightarrow> bool \<Rightarrow> u8 \<Rightarrow> u16 \<Rightarrow> 'dt MeasuredValueFloatInfo list \<Rightarrow> Asdu outcome" where
  "measured_value_float l ch is_seq ct ca infos =
     check_cause l cause_state ct (measured_value_float_inner l ch M_ME_NC_1 is_seq ct ca infos)"

definition measured_value_float_cp24time2a ::
    "bit_objects \<Rightarrow> 'dt calendar \<Rightarrow> u8 \<Rightarrow> u16 \<Rightarrow> 'dt MeasuredValueFloatInfo list \<Rightarrow> Asdu outcome" where
  "measured_value_float_cp24time2a l ch ct ca infos =
     check_cause l cause_state ct (measured_value_float_inner l ch M_ME_TC_1 False ct ca infos)"

definition measured_value_float_cp56time2a ::
    "bit_objects \<Rightarrow> 'dt calendar \<Rightarrow> u8 \<Rightarrow> u16 \<Rightarrow> 'dt MeasuredValueFloatInfo list \<Rightarrow> Asdu outcome" where
  "measured_value_float_cp56time2a l ch ct ca infos =
     check_cause l cause_state ct (measured_value_float_inner l ch M_ME_TF_1 False ct ca infos)"

subsection \<open>Integrated totals and bit strings\<close>

definition put_bcr :: "ObjectBCR \<Rightarrow> bytes" where
  "put_bcr b =
     (let v = bcr_seq b AND 0x1f;
          v = (if bcr_cy b then v OR 0x20 else v);
          v = (if bcr_ca b then v OR 0x40 else v);
          v = (if bcr_invalid b then v OR 0x80 else v)
      in u32_to_le (bcr_value b) @ [v])"

definition integrated_totals_inner ::
    "bit_objects \<Rightarrow> 'dt calendar \<Rightarrow> TypeID \<Rightarrow> bool \<Rightarrow> u8 \<Rightarrow> u16 \<Rightarrow> 'dt BinaryCounterReadingInfo list \<Rightarrow> Asdu outcome" where
  "integrated_totals_inner l ch t is_seq ct ca infos =
     build_objects l t is_seq ct ca infos
       (put_tagged (put_bcr) (put_time ch M_IT_NA_1 M_IT_TA_1 M_IT_TB_1 t))"

definition integrated_totals ::
    "bit_objects \<Rightarrow> 'dt calendar \<Rightarrow> u8 \<Rightarrow> u16 \<Rightarrow> 'dt BinaryCounterReadingInfo list \<Rightarrow> Asdu outcome" where
  "integrated_totals l ch ct ca infos =
     check_cause l (\<lambda>c. c = Spontaneous \<or> by_counter_request c) ct (integrated_totals_inner l ch M_IT_NA_1 False ct ca infos)"

definition integrated_totals_cp24time2a ::
    "bit_objects \<Rightarrow> 'dt calendar \<Rightarrow> u8 \<Rightarrow> u16 \<Rightarrow> 'dt BinaryCounterReadingInfo list \<Rightarrow> Asdu outcome" where
  "integrated_totals_cp24time2a l ch ct ca infos =
     check_cause l (\<lambda>c. c = Spontaneous \<or> by_counter_request c) ct (integrated_totals_inner l ch M_IT_TA_1 False ct ca infos)"

definition integrated_totals_cp56time2a ::
    "bit_objects \<Rightarrow> 'dt calendar \<Rightarrow> u8 \<Rightarrow> u16 \<Rightarrow> 'dt BinaryCounterReadingInfo list \<Rightarrow> Asdu outcome" where
  "integrated_totals_cp56time2a l ch ct ca infos =
     check_cause l
       (\<lambda>c. c = Spontaneous
         \<or> cause_no InterrogatedByStation \<le> cause_no c \<and> cause_no c \<le> cause_no RequestByGroup4Counter)
       ct (integrated_totals_inner l ch M_IT_TB_1 False ct ca infos)"

definition bitstring_inner ::
    "bit_objects \<Rightarrow> 'dt calendar \<Rightarrow> TypeID \<Rightarrow> bool \<Rightarrow> u8 \<Rightarrow> u16 \<Rightarrow> 'dt BitStringInfo list \<Rightarrow> Asdu outcome" where
  "bitstring_inner l ch t is_seq ct ca infos =
     build_objects l t is_seq ct ca infos
       (put_tagged (\<lambda>(bsi, qds). u32_to_le bsi @ [qds]) (put_time ch M_BO_NA_1 M_BO_TA_1 M_BO_TB_1 t))"

definition bitstring ::
    "bit_objects \<Rightarrow> 'dt calendar \<Rightarrow> bool \<Rightarrow> u8 \<Rightarrow> u16 \<Rightarrow> 'dt BitStringInfo list \<Rightarrow> Asdu outcome" where
  "bitstring l ch is_seq ct ca infos =
     check_cause l cause_state ct (bitstring_inner l ch M_BO_NA_1 is_seq ct ca infos)"

definition bitstring_cp24time2a ::
    "bit_objects \<Rightarrow> 'dt calendar \<Rightarrow> u8 \<Rightarrow> u16 \<Rightarrow> 'dt BitStringInfo list \<Rightarrow> Asdu outcome" where
  "bitstring_cp24time2a l ch ct ca infos =
     check_cause l cause_stamped ct (bitstring_inner l ch M_BO_TA_1 False ct ca infos)"

definition bitstring_cp56time2a ::
    "bit_objects \<Rightarrow> 'dt calendar \<Rightarrow> u8 \<Rightarrow> u16 \<Rightarrow> 'dt BitStringInfo list \<Rightarrow> Asdu outcome" where
  "bitstring_cp56time2a l ch ct ca infos =
     check_cause l cause_stamped ct (bitstring_inner l ch M_BO_TB_1 False ct ca infos)"

subsection \<open>Protection events and packed single points\<close>

definition protection_event_td_inner ::
    "bit_objects \<Rightarrow> 'dt calendar \<Rightarrow> u8 \<Rightarrow> u16 \<Rightarrow> 'dt ProtectionEventTdInfo list \<Rightarrow> Asdu outcome" where
  "protection_event_td_inner l ch ct ca infos =
     build_objects l M_EP_TD_1 False ct ca infos
       (put_tagged (\<lambda>(sep, elapsed). [sep] @ u16_to_le elapsed) (\<lambda>i x. Inr (cp56time2a ch (stamp ch i x))))"

definition protection_event_td ::
    "bit_objects \<Rightarrow> 'dt calendar \<Rightarrow> u8 \<Rightarrow> u16 \<Rightarrow> 'dt ProtectionEventTdInfo list \<Rightarrow> Asdu outcome" where
  "protection_event_td l ch ct ca infos =
     check_cause l cause_stamped ct (protection_event_td_inner l ch ct ca infos)"

definition protection_event_ta_inner ::
    "bit_objects \<Rightarrow> 'dt calendar \<Rightarrow> u8 \<Rightarrow> u16 \<Rightarrow> 'dt ProtectionEventTdInfo list \<Rightarrow> Asdu outcome" where
  "protection_event_ta_inner l ch ct ca infos =
     build_objects l M_EP_TA_1 False ct ca infos
       (put_tagged (\<lambda>(sep, elapsed). [sep] @ u16_to_le elapsed) (\<lambda>i x. Inr (cp24time2a ch (stamp ch i x))))"

definition protection_event_ta ::
    "bit_objects \<Rightarrow> 'dt calendar \<Rightarrow> u8 \<Rightarrow> u16 \<Rightarrow> 'dt ProtectionEventTdInfo list \<Rightarrow> Asdu outcome" where
  "protection_event_ta l ch ct ca infos =
     check_cause l cause_stamped ct (protection_event_ta_inner l ch ct ca infos)"

definition protection_event_te_inner ::
    "bit_objects \<Rightarrow> 'dt calendar \<Rightarrow> u8 \<Rightarrow> u16 \<Rightarrow> 'dt ProtectionEventTeInfo list \<Rightarrow> Asdu outcome" where
  "protection_event_te_inner l ch ct ca infos =
     build_objects l M_EP_TE_1 False ct ca infos
       (put_tagged (\<lambda>(ep, qdp, msec). [ep, qdp] @ u16_to_le msec) (\<lambda>i x. Inr (cp56time2a ch (stamp ch i x))))"

definition protection_event_te ::
    "bit_objects \<Rightarrow> 'dt calendar \<Rightarrow> u8 \<Rightarrow> u16 \<Rightarrow> 'dt ProtectionEventTeInfo list \<Rightarrow> Asdu outcome" where
  "protection_event_te l ch ct ca infos =
     check_cause l (\<lambda>c. c = Spontaneous) ct (protection_event_te_inner l ch ct ca infos)"

definition protection_event_tb_inner ::
    "bit_objects \<Rightarrow> 'dt calendar \<Rightarrow> u8 \<Rightarrow> u16 \<Rightarrow> 'dt ProtectionEventTeInfo list \<Rightarrow> Asdu outcome" where
  "protection_event_tb_inner l ch ct ca infos =
     build_objects l M_EP_TB_1 False ct ca infos
       (put_tagged (\<lambda>(ep, qdp, msec). [ep, qdp] @ u16_to_le msec) (\<lambda>i x. Inr (cp24time2a ch (stamp ch i x))))"

definition protection_event_tb ::
    "bit_objects \<Rightarrow> 'dt calendar \<Rightarrow> u8 \<Rightarrow> u16 \<Rightarrow> 'dt ProtectionEventTeInfo list \<Rightarrow> Asdu outcome" where
  "protection_event_tb l ch ct ca infos =
     check_cause l (\<lambda>c. c = Spontaneous) ct (protection_event_tb_inner l ch ct ca infos)"

definition protection_event_tf_inner ::
    "bit_objects \<Rightarrow> 'dt calendar \<Rightarrow> u8 \<Rightarrow> u16 \<Rightarrow> 'dt ProtectionEventTfInfo list \<Rightarrow> Asdu outcome" where
  "protection_event_tf_inner l ch ct ca infos =
     build_objects l M_EP_TF_1 False ct ca infos
       (put_tagged (\<lambda>(oci, qdp, msec). [oci, qdp] @ u16_to_le msec) (\<lambda>i x. Inr (cp56time2a ch (stamp ch i x))))"

definition protection_event_tf ::
    "bit_objects \<Rightarrow> 'dt calendar \<Rightarrow> u8 \<Rightarrow> u16 \<Rightarrow> 'dt ProtectionEventTfInfo list \<Rightarrow> Asdu outcome" where
  "protection_event_tf l ch ct ca infos =
     check_cause l (\<lambda>c. c = Spontaneous) ct (protection_event_tf_inner l ch ct ca infos)"

definition protection_event_tc_inner ::
    "bit_objects \<Rightarrow> 'dt calendar \<Rightarrow> u8 \<Rightarrow> u16 \<Rightarrow> 'dt ProtectionEventTfInfo list \<Rightarrow> Asdu outcome" where
  "protection_event_tc_inner l ch ct ca infos =
     build_objects l M_EP_TC_1 False ct ca infos
       (put_tagged (\<lambda>(oci, qdp, msec). [oci, qdp] @ u16_to_le msec) (\<lambda>i x. Inr (cp24time2a ch (stamp ch i x))))"

definition protection_event_tc ::
    "bit_objects \<Rightarrow> 'dt calendar \<Rightarrow> u8 \<Rightarrow> u16 \<Rightarrow> 'dt ProtectionEventTfInfo list \<Rightarrow> Asdu outcome" where
  "protection_event_tc l ch ct ca infos =
     check_cause l (\<lambda>c. c = Spontaneous) ct (protection_event_tc_inner l ch ct ca infos)"

definition packed_status_change_inner ::
    "bit_objects \<Rightarrow> u8 \<Rightarrow> u16 \<Rightarrow> 'dt BitStringInfo list \<Rightarrow> Asdu outcome" where
  "packed_status_change_inner l ct ca infos =
     build_objects l M_PS_NA_1 False ct ca infos
       (put_tagged (\<lambda>(bsi, qds). u32_to_le bsi @ [qds]) (\<lambda>i x. Inr []))"

definition packed_status_change ::
    "bit_objects \<Rightarrow> u8 \<Rightarrow> u16 \<Rightarrow> 'dt BitStringInfo list \<Rightarrow> Asdu outcome" where
  "packed_status_change l ct ca infos =
     check_cause l cause_state ct (packed_status_change_inner l ct ca infos)"

definition end_of_initialization :: "bit_objects \<Rightarrow> u8 \<Rightarrow> u16 \<Rightarrow> u32 \<Rightarrow> u8 \<Rightarrow> Asdu" where
  "end_of_initialization l ct ca ioa coi =
     \<lparr>ident = \<lparr>type_id = M_EI_NA_1, variable_struct = vs_new l False 1, cot = ct, orig_addr = 0, common_addr = ca\<rparr>,
      asdu_raw = put_u24_le ioa @ [coi]\<rparr>"

section \<open>Time tags are read back to the second\<close>

definition cp_fields_ok :: "'dt calendar \<Rightarrow> 'dt \<Rightarrow> bool" where
  "cp_fields_ok ch t \<longleftrightarrow>
     nanosecond ch t < 1000000000 \<and> second ch t < 60 \<and> minute ch t < 60 \<and> hour ch t < 24 \<and> weekday ch t < 8
     \<and> day ch t < 32 \<and> month ch t < 13 \<and> 2000 \<le> year ch t \<and> year ch t < 2128"

lemma take_bit_of_less: "(x :: u32) < 2 ^ k \<Longrightarrow> k < 32 \<Longrightarrow> take_bit k x = x"
  using less_mask_eq [of x k] by (simp only: take_bit_eq_mask)

lemma bit_of_less:
  assumes "(x :: u32) < 2 ^ k" "k < 32" "bit x n"
  shows "n < k"
proof -
  from assms(3) have "bit (take_bit k x) n" by (simp only: take_bit_of_less [OF assms(1,2)])
  then show ?thesis by (simp add: bit_take_bit_iff)
qed

lemma low_bits:
  assumes "(x :: u32) < 2 ^ k" "k \<le> 8"
  shows "ucast ((ucast x :: u8) AND mask k) = x"
proof -
  have "k < 32" using assms(2) by simp
  note b = bit_of_less [OF assms(1) this]
  show ?thesis using assms(2) by (intro bit_word_eqI) (auto simp: bit_simps dest: b)
qed

lemma low_bits_high:
  assumes "(x :: u32) < 2 ^ 7"
  shows "(ucast x :: u8) AND push_bit 7 1 = 0"
proof -
  have "(7 :: nat) < 32" by simp
  note b = bit_of_less [OF assms this]
  show ?thesis by (rule bit_word_eqI) (auto simp: bit_simps simp del: push_bit_of_1 dest: b)
qed

lemma low_bits_or:
  assumes "(x :: u32) < 32"
  shows "ucast ((push_bit 5 (w :: u8) OR ucast x) AND 0x1f) = x"
proof -
  have m: "(0x1f :: u8) = mask 5" by (simp add: mask_eq_exp_minus_1)
  have "(push_bit 5 w OR ucast x) AND mask 5 = ucast x AND mask 5"
    by (rule bit_word_eqI) (auto simp: bit_simps)
  then show ?thesis using low_bits [of x 5] assms by (simp add: m)
qed

lemma cp_msec_seconds:
  assumes "cp_fields_ok ch t"
  shows "ucast (cp_msec ch t div 1000) = second ch t"
proof -
  have n: "unat (nanosecond ch t) < 1000000000" and s: "unat (second ch t) < 60"
    using assms by (auto simp: cp_fields_ok_def word_less_nat_alt)
  have "unat (ucast (nanosecond ch t div 1000000) :: u16) = unat (nanosecond ch t) div 1000000"
    using n by (simp add: unsigned_ucast_eq unat_div take_bit_nat_eq_self)
  moreover have "unat (ucast (second ch t) :: u16) = unat (second ch t)" using s by (simp add: unsigned_ucast_eq take_bit_nat_eq_self)
  ultimately have "unat (cp_msec ch t) = unat (nanosecond ch t) div 1000000 + unat (second ch t) * 1000"
    using n s by (simp add: cp_msec_def unat_word_ariths less_mult_imp_div_less)
  then have "unat (cp_msec ch t div 1000) = unat (second ch t)"
    using n by (simp add: unat_div div_mult2_eq [symmetric])
  moreover have "unat (cp_msec ch t div 1000) < 2 ^ 32"
    by (rule less_le_trans [OF unsigned_less]) simp
  ultimately have "unat (ucast (cp_msec ch t div 1000) :: u32) = unat (second ch t)"
    by (simp add: unsigned_ucast_eq take_bit_nat_eq_self)
  then show ?thesis by (rule unsigned_word_eqI)
qed

lemma cp_year:
  assumes "2000 \<le> y" "y < 2128"
  shows "2000 + uint ((of_int (y - 2000) :: u8) AND 0x7f) = y"
proof -
  have "(0x7f :: u8) = mask 7" by (simp add: mask_eq_exp_minus_1)
  then have "uint (w AND 0x7f) = take_bit 7 (uint w)" for w :: u8
    by (simp only: unsigned_take_bit_eq flip: take_bit_eq_mask)
  then have "uint ((of_int (y - 2000) :: u8) AND 0x7f) = take_bit 7 (uint (of_int (y - 2000) :: u8))"
    by (simp only:)
  also have "uint (of_int (y - 2000) :: u8) = y - 2000" using assms by (simp only: uint_word_of_int) simp
  also have "take_bit 7 (y - 2000) = y - 2000" using assms by (simp add: take_bit_eq_mod)
  finally show ?thesis by simp
qed

lemma decode_cp56time2a_cp56:
  assumes "cp_fields_ok ch t"
  shows "decode_cp56time2a ch (cp56time2a ch t @ rest) =
    (case with_ymd_and_hms ch (year ch t) (month ch t) (day ch t) (hour ch t) (minute ch t) (second ch t) of
       None \<Rightarrow> None | Some t' \<Rightarrow> Some (Inr (Some t', rest)))"
proof -
  have m: "(0x3f :: u8) = mask 6" "(0x1f :: u8) = mask 5" "(0x0f :: u8) = mask 4" "(0x80 :: u8) = push_bit 7 1"
    by (simp_all add: mask_eq_exp_minus_1)
  have le: "minute ch t < 2 ^ 6" "minute ch t < 2 ^ 7" "hour ch t < 2 ^ 5" "day ch t < 32" "month ch t < 2 ^ 4"
    using assms by (auto simp: cp_fields_ok_def word_less_nat_alt)
  show ?thesis using assms
    unfolding decode_cp56time2a_def cp56time2a_def u16_to_le_def Let_def
    by (simp add: cp_msec_seconds low_bits_high [OF le(2), folded m] low_bits_or [OF le(4)]
        low_bits [OF le(1), folded m] low_bits [OF le(3), folded m] low_bits [OF le(5), folded m] cp_year [simplified] cp_fields_ok_def
        split: option.split)
qed

section \<open>Reading inverts building\<close>

lemma read_n_append: "length xs = n \<Longrightarrow> read_n n (xs @ ys) = Some (Inr (xs, ys))"
  by (simp add: read_n_def)

lemma read_u8_Cons [simp]: "read_u8 (b # bs) = Some (Inr (b, bs))"
  using read_n_append [of "[b]" 1 bs] by (simp add: read_u8_def)

lemma read_u16_le_append [simp]: "read_u16_le (u16_to_le w @ bs) = Some (Inr (w, bs))"
  by (simp add: read_u16_le_def read_n_append) (simp add: u16_to_le_def)

lemma read_u32_le_append [simp]: "read_u32_le (u32_to_le w @ bs) = Some (Inr (w, bs))"
  by (simp add: read_u32_le_def read_n_append)

lemma u24_le:
  assumes "v < 2 ^ 24"
  shows "u32_of_le (put_u24_le v) = v"
proof (rule bit_word_eqI)
  fix n assume "n < LENGTH(32)"
  then consider "n < 8" | "8 \<le> n" "n < 16" | "16 \<le> n" "n < 24" | "24 \<le> n" by fastforce
  then show "bit (u32_of_le (put_u24_le v)) n = bit v n"
    using bit_of_less [OF assms, of n]
    by cases (auto simp: put_u24_le_def u32_to_le_def bit_simps)
qed

lemma length_put_u24_le [simp]: "length (put_u24_le v) = 3"
  by (simp add: put_u24_le_def)

lemma read_u24_le_append [simp]: "v < 2 ^ 24 \<Longrightarrow> read_u24_le (put_u24_le v @ bs) = Some (Inr (v, bs))"
  by (simp add: read_u24_le_def read_n_append u24_le)

lemma read_object_Cons [simp]: "object_ok l k b \<Longrightarrow> read_object l k (b # bs) = Some (Inr (b, bs))"
  by (simp add: read_object_def)

text \<open>A sequence of objects: every address is the one before it plus one.\<close>

fun consecutive :: "bit_objects \<Rightarrow> ('e, 'dt) info_object list \<Rightarrow> bool" where
  "consecutive l (x # y # xs) \<longleftrightarrow>
     io_ioa y = ioa_set_addr l (ioa_addr l (io_ioa x) + 1) (io_ioa x) \<and> consecutive l (y # xs)"
| "consecutive l _ \<longleftrightarrow> True"

text \<open>The contract of a kind of objects: what is written for an object is read back as its normal form.\<close>

locale object_codec =
  fixes w :: "nat \<Rightarrow> ('e, 'dt) info_object \<Rightarrow> Iec104Error + bytes"
    and r :: "nat \<Rightarrow> ('e \<times> 'dt option) reader"
    and good :: "('e, 'dt) info_object \<Rightarrow> bool"
    and norm :: "('e, 'dt) info_object \<Rightarrow> ('e, 'dt) info_object"
  assumes object: "good x \<Longrightarrow> \<exists>b. w i x = Inr b
      \<and> (\<forall>rest. r i (b @ rest) = Some (Inr ((io_elem (norm x), io_time (norm x)), rest)))"
    and norm_ioa: "io_ioa (norm x) = io_ioa x"
begin

lemma read_written:
  assumes "bit_objects_ok l" "\<forall>x\<in>set xs. good x \<and> io_ioa x < 2 ^ 24"
    and "is_seq \<Longrightarrow> consecutive l xs"
    and "is_seq \<Longrightarrow> once \<Longrightarrow> xs \<noteq> [] \<Longrightarrow> io_ioa (hd xs) = ioa_set_addr l (ioa_addr l ioa + 1) ioa"
  shows "\<exists>buf. write_objects w is_seq i once xs = Inr buf
      \<and> (\<forall>rest. read_objects l r is_seq (length xs) i once ioa (buf @ rest) = Some (Inr (map norm xs)))"
  using assms
proof (induction xs arbitrary: i once ioa)
  case (Cons x xs)
  obtain b where b: "w i x = Inr b" "\<And>rest. r i (b @ rest) = Some (Inr ((io_elem (norm x), io_time (norm x)), rest))"
    using object [of x i] Cons.prems(2) by auto
  have "consecutive l xs" and nx: "xs \<noteq> [] \<Longrightarrow> io_ioa (hd xs) = ioa_set_addr l (ioa_addr l (io_ioa x) + 1) (io_ioa x)"
    if is_seq using Cons.prems(3) [OF that] by (cases xs; simp)+
  then obtain buf where buf: "write_objects w is_seq (Suc i) True xs = Inr buf"
      "\<And>rest. read_objects l r is_seq (length xs) (Suc i) True (io_ioa x) (buf @ rest) = Some (Inr (map norm xs))"
    using Cons.IH [of True "io_ioa x" "Suc i"] Cons.prems(1,2) by auto
  have x: "io_ioa x < 2 ^ 24" "ioa_ok l (io_ioa x)" using Cons.prems(1,2) by (auto simp: bit_objects_ok_def)
  let ?p = "if \<not> is_seq \<or> \<not> once then put_u24_le (io_ioa x) else []"
  have "read_ioa l is_seq once ioa (?p @ rest) = Some (Inr (io_ioa x, rest))" for rest
    using x Cons.prems(4) by (auto simp: read_ioa_def)
  then have "read_objects l r is_seq (length (x # xs)) i once ioa ((?p @ b @ buf) @ rest) = Some (Inr (map norm (x # xs)))" for rest
    using norm_ioa [of x] by (simp add: b buf)
  then show ?case by (simp add: b buf del: if_split)
qed simp

lemma get_build:
  assumes "bit_objects_ok l" "\<forall>x\<in>set xs. good x \<and> io_ioa x < 2 ^ 24" "length xs < 128"
    and "is_seq \<Longrightarrow> consecutive l xs"
  obtains a where "build_objects l t is_seq ct ca xs w = Some (Inr a)"
    "ident a = \<lparr>type_id = t, variable_struct = vs_new l is_seq (of_nat (length xs)), cot = ct, orig_addr = 0, common_addr = ca\<rparr>"
    "get_objects l a r = Some (Inr (map norm xs))"
proof -
  obtain buf where buf: "write_objects w is_seq 0 False xs = Inr buf"
      "\<And>rest. read_objects l r is_seq (length xs) 0 False 0 (buf @ rest) = Some (Inr (map norm xs))"
    using read_written [OF assms(1,2,4), where once = False and ioa = 0 and i = 0] by auto
  have n: "unat (of_nat (length xs) :: u8) = length xs" using assms(3) by (simp add: unat_of_nat)
  then have lt: "(of_nat (length xs) :: u8) < 128" using assms(3) by (simp add: word_less_nat_alt)
  have l: "vs_number l (vs_new l is_seq (of_nat (length xs))) = of_nat (length xs)"
      "vs_is_sequence l (vs_new l is_seq (of_nat (length xs))) = is_seq" "ioa_ok l 0"
    using assms(1) lt by (auto simp: bit_objects_ok_def)
  show thesis
    by (rule that [of "\<lparr>ident = \<lparr>type_id = t, variable_struct = vs_new l is_seq (of_nat (length xs)), cot = ct,
          orig_addr = 0, common_addr = ca\<rparr>, asdu_raw = buf\<rparr>"])
       (use buf(2) [of "[]"] in \<open>simp_all add: build_objects_def get_objects_def Let_def lt buf(1) l n\<close>)
qed

end

text \<open>An element alone, and its object with the time tag the type asks for.  A time tag of three bytes has no date: it
  is left to \<open>cp24_uses_hour_of_receipt\<close>.\<close>

definition cp_seen :: "'dt calendar \<Rightarrow> 'dt \<Rightarrow> 'dt option" where
  "cp_seen ch t = with_ymd_and_hms ch (year ch t) (month ch t) (day ch t) (hour ch t) (minute ch t) (second ch t)"

definition stamped_ok :: "'dt calendar \<Rightarrow> 'dt option \<Rightarrow> bool" where
  "stamped_ok ch tm \<longleftrightarrow> (\<exists>t. tm = Some t \<and> cp_fields_ok ch t \<and> cp_seen ch t \<noteq> None)"

definition tag_ok :: "'dt calendar \<Rightarrow> TypeID \<Rightarrow> TypeID \<Rightarrow> TypeID \<Rightarrow> TypeID \<Rightarrow> ('e, 'dt) info_object \<Rightarrow> bool" where
  "tag_ok ch na ta tb t x \<longleftrightarrow> t = na \<or> t \<noteq> ta \<and> t = tb \<and> stamped_ok ch (io_time x)"

definition to_second :: "'dt calendar \<Rightarrow> bool \<Rightarrow> ('e, 'dt) info_object \<Rightarrow> ('e, 'dt) info_object" where
  "to_second ch tagged x =
     x\<lparr>io_time := (if tagged then case io_time x of Some t \<Rightarrow> cp_seen ch t | None \<Rightarrow> None else None)\<rparr>"

lemma decode_stamp:
  assumes "stamped_ok ch (io_time x)"
  shows "decode_cp56time2a ch (cp56time2a ch (stamp ch i x) @ rest) = Some (Inr (io_time (to_second ch True x), rest))"
  using assms by (auto simp: stamped_ok_def stamp_def to_second_def decode_cp56time2a_cp56 cp_seen_def)

locale element_codec =
  fixes W :: "'e \<Rightarrow> bytes" and R :: "'e reader" and ok :: "'e \<Rightarrow> bool"
  assumes element: "ok e \<Longrightarrow> R (W e @ rest) = Some (Inr (e, rest))"

sublocale element_codec \<subseteq> tagged: object_codec
  "put_tagged W (put_time ch na ta tb t)" "\<lambda>i. both R (time_tag ch na ta tb t i)"
  "\<lambda>x. ok (io_elem x) \<and> tag_ok ch na ta tb t x" "to_second ch (t \<noteq> na)"
  for ch :: "'dt calendar" and na ta tb t
proof
  show "io_ioa (to_second ch (t \<noteq> na) x) = io_ioa x" for x :: "('e, 'dt) info_object"
    by (simp add: to_second_def)
next
  fix x :: "('e, 'dt) info_object" and i
  assume x: "ok (io_elem x) \<and> tag_ok ch na ta tb t x"
  show "\<exists>b. put_tagged W (put_time ch na ta tb t) i x = Inr b
      \<and> (\<forall>rest. both R (time_tag ch na ta tb t i) (b @ rest)
          = Some (Inr ((io_elem (to_second ch (t \<noteq> na) x), io_time (to_second ch (t \<noteq> na) x)), rest)))"
  proof (cases "t = na")
    case True
    with x show ?thesis
      by (auto simp: put_tagged_def put_time_def both_def element time_tag_def to_second_def)
  next
    case False
    with x have "t \<noteq> ta" "t = tb" "stamped_ok ch (io_time x)" by (auto simp: tag_ok_def)
    with False x decode_stamp [of ch x i] show ?thesis
      by (auto simp: put_tagged_def put_time_def both_def element time_tag_def to_second_def)
  qed
qed

sublocale element_codec \<subseteq> always: object_codec
  "put_tagged W (\<lambda>i x. Inr (cp56time2a ch (stamp ch i x)))" "\<lambda>i. both R (only_type t t (decode_cp56time2a ch))"
  "\<lambda>x. ok (io_elem x) \<and> stamped_ok ch (io_time x)" "to_second ch True"
  for ch :: "'dt calendar" and t
  by unfold_locales
    (auto simp: put_tagged_def both_def element only_type_def decode_stamp to_second_def)

sublocale element_codec \<subseteq> bare: object_codec
  "put_tagged W (\<lambda>i x. Inr [])" "\<lambda>i. both R (only_type t t (\<lambda>bs. Some (Inr (None, bs))))"
  "\<lambda>x. ok (io_elem x)" "\<lambda>x. x\<lparr>io_time := None\<rparr>"
  for t
  by unfold_locales (auto simp: put_tagged_def both_def element only_type_def)

context element_codec
begin

lemma tagged_roundtrip:
  assumes "bit_objects_ok l" "length xs < 128" "is_seq \<Longrightarrow> consecutive l xs"
    and "\<forall>x\<in>set xs. ok (io_elem x) \<and> tag_ok ch na ta tb t x \<and> io_ioa x < 2 ^ 24"
  shows "\<exists>a. build_objects l t is_seq ct ca xs (put_tagged W (put_time ch na ta tb t)) = Some (Inr a)
      \<and> type_id (ident a) = t
      \<and> get_objects l a (\<lambda>i. both R (time_tag ch na ta tb t i)) = Some (Inr (map (to_second ch (t \<noteq> na)) xs))"
  by (rule tagged.get_build [of l xs ch na ta tb t is_seq t ct ca])
    (use assms in \<open>auto\<close>)

lemma always_roundtrip:
  assumes "bit_objects_ok l" "length xs < 128"
    and "\<forall>x\<in>set xs. ok (io_elem x) \<and> stamped_ok ch (io_time x) \<and> io_ioa x < 2 ^ 24"
  shows "\<exists>a. build_objects l t False ct ca xs (put_tagged W (\<lambda>i x. Inr (cp56time2a ch (stamp ch i x)))) = Some (Inr a)
      \<and> type_id (ident a) = t
      \<and> get_objects l a (\<lambda>i. both R (only_type t t (decode_cp56time2a ch))) = Some (Inr (map (to_second ch True) xs))"
  by (rule always.get_build [of l xs ch False t ct ca t]) (use assms in \<open>auto\<close>)

end

lemma object_okI: "bit_objects_ok l \<Longrightarrow> object_ok l k b"
  by (simp add: bit_objects_ok_def)

lemma seq_byte: "s < 32 \<Longrightarrow> (s :: u8) AND 0x1f = s"
  using less_mask_eq [of s 5] by (simp add: mask_eq_exp_minus_1)

lemma bcr_flags:
  assumes "s = (s :: u8) AND 0x1f"
  shows "s AND 0x20 = 0" "s AND 0x40 = 0" "s AND 0x80 = 0"
  by (subst assms, simp add: and.assoc)+

lemma read_put_bcr:
  assumes "bcr_seq b < 32"
  shows "read_bcr (put_bcr b @ rest) = Some (Inr (b, rest))"
  using bcr_flags [of "bcr_seq b"] seq_byte [OF assms]
  by (cases b) (auto simp: read_bcr_def put_bcr_def Let_def bit.conj_disj_distrib2)

interpretation sp: element_codec "\<lambda>siq. [siq]" "read_object l SIQ" "\<lambda>_. bit_objects_ok l" for l
  by unfold_locales (simp add: object_okI)

interpretation dp: element_codec "\<lambda>diq. [diq]" "read_object l DIQ" "\<lambda>_. bit_objects_ok l" for l
  by unfold_locales (simp add: object_okI)

interpretation st: element_codec "\<lambda>(vti, qds). [vti, qds]" "both (read_object l VTI) (read_object l QDS)"
    "\<lambda>_. bit_objects_ok l" for l
  by unfold_locales (auto simp: both_def object_okI)

interpretation sv: element_codec "\<lambda>(sva, qds). u16_to_le sva @ [qds]" "both read_u16_le (read_object l QDS)"
    "\<lambda>_. bit_objects_ok l" for l
  by unfold_locales (auto simp: both_def object_okI)

interpretation fv: element_codec "\<lambda>(r, qds). u32_to_le (f32_to_bits r) @ [qds]" "both read_f32_le (read_object l QDS)"
    "\<lambda>(r, _). bit_objects_ok l \<and> r \<in> range f32_of_bits" for l
  by unfold_locales (auto simp: both_def object_okI read_f32_le_def)

interpretation bs: element_codec "\<lambda>(bsi, qds). u32_to_le bsi @ [qds]" "both read_u32_le (read_object l QDS)"
    "\<lambda>_. bit_objects_ok l" for l
  by unfold_locales (auto simp: both_def object_okI)

interpretation it: element_codec put_bcr read_bcr "\<lambda>b. bcr_seq b < 32"
  by unfold_locales (rule read_put_bcr)

interpretation ep: element_codec "\<lambda>(sep, elapsed). [sep] @ u16_to_le elapsed" "both (read_object l SEP) read_u16_le"
    "\<lambda>_. bit_objects_ok l" for l
  by unfold_locales (auto simp: both_def object_okI)

interpretation se: element_codec "\<lambda>(ep, qdp, msec). [ep, qdp] @ u16_to_le msec"
    "both (read_object l StartEP) (both (read_object l QDP) read_u16_le)" "\<lambda>_. bit_objects_ok l" for l
  by unfold_locales (auto simp: both_def object_okI)

interpretation oc: element_codec "\<lambda>(oci, qdp, msec). [oci, qdp] @ u16_to_le msec"
    "both (read_object l OCI) (both (read_object l QDP) read_u16_le)" "\<lambda>_. bit_objects_ok l" for l
  by unfold_locales (auto simp: both_def object_okI)

text \<open>A normalized value is read back with the quality that was written, the default one when it had none.\<close>

definition normal_ok :: "'dt calendar \<Rightarrow> TypeID \<Rightarrow> 'dt MeasuredValueNormalInfo \<Rightarrow> bool" where
  "normal_ok ch t x \<longleftrightarrow> t = M_ME_NA_1 \<or> t = M_ME_ND_1 \<or> t = M_ME_TD_1 \<and> stamped_ok ch (io_time x)"

definition normal_seen ::
    "bit_objects \<Rightarrow> 'dt calendar \<Rightarrow> TypeID \<Rightarrow> 'dt MeasuredValueNormalInfo \<Rightarrow> 'dt MeasuredValueNormalInfo" where
  "normal_seen l ch t x =
     (to_second ch (t = M_ME_TD_1) x)
       \<lparr>io_elem := (fst (io_elem x),
                   if t = M_ME_ND_1 then None
                   else Some (case snd (io_elem x) of Some q \<Rightarrow> q | None \<Rightarrow> qds_defaults l))\<rparr>"

interpretation nv: object_codec "put_normal l ch t" "read_normal l ch t"
    "\<lambda>x. bit_objects_ok l \<and> normal_ok ch t x" "normal_seen l ch t" for l ch t
  by unfold_locales
    (auto simp: put_normal_def read_normal_def normal_ok_def normal_seen_def Let_def object_okI decode_stamp to_second_def)

subsection \<open>The builders and the readers\<close>

text \<open>A list of objects that fits one unit: at most 127 objects, addresses of twenty-four bits, consecutive ones when they are
  sent as a sequence, and time tags that can be represented.\<close>

definition fits_unit :: "bit_objects \<Rightarrow> bool \<Rightarrow> (('e, 'dt) info_object \<Rightarrow> bool) \<Rightarrow> ('e, 'dt) info_object list \<Rightarrow> bool" where
  "fits_unit l is_seq P xs \<longleftrightarrow>
     length xs < 128 \<and> (is_seq \<longrightarrow> consecutive l xs) \<and> (\<forall>x\<in>set xs. P x \<and> io_ioa x < 2 ^ 24)"

lemma single_roundtrip:
  assumes "bit_objects_ok l" "fits_unit l is_seq (tag_ok ch M_SP_NA_1 M_SP_TA_1 M_SP_TB_1 t) xs"
  shows "\<exists>a. single_inner l ch t is_seq ct ca xs = Some (Inr a)
      \<and> get_single_point l ch a = Some (Inr (map (to_second ch (t \<noteq> M_SP_NA_1)) xs))"
  using sp.tagged_roundtrip [of l xs is_seq l ch M_SP_NA_1 M_SP_TA_1 M_SP_TB_1 t ct ca] assms
  by (auto simp: fits_unit_def single_inner_def get_single_point_def)

lemma double_roundtrip:
  assumes "bit_objects_ok l" "fits_unit l is_seq (tag_ok ch M_DP_NA_1 M_DP_TA_1 M_DP_TB_1 t) xs"
  shows "\<exists>a. double_inner l ch t is_seq ct ca xs = Some (Inr a)
      \<and> get_double_point l ch a = Some (Inr (map (to_second ch (t \<noteq> M_DP_NA_1)) xs))"
  using dp.tagged_roundtrip [of l xs is_seq l ch M_DP_NA_1 M_DP_TA_1 M_DP_TB_1 t ct ca] assms
  by (auto simp: fits_unit_def double_inner_def get_double_point_def)

lemma step_roundtrip:
  assumes "bit_objects_ok l" "fits_unit l is_seq (tag_ok ch M_ST_NA_1 M_ST_TA_1 M_ST_TB_1 t) xs"
  shows "\<exists>a. step_inner l ch t is_seq ct ca xs = Some (Inr a)
      \<and> get_step_position l ch a = Some (Inr (map (to_second ch (t \<noteq> M_ST_NA_1)) xs))"
  using st.tagged_roundtrip [of l xs is_seq l ch M_ST_NA_1 M_ST_TA_1 M_ST_TB_1 t ct ca] assms
  by (auto simp: fits_unit_def step_inner_def get_step_position_def)

lemma scaled_roundtrip:
  assumes "bit_objects_ok l" "fits_unit l is_seq (tag_ok ch M_ME_NB_1 M_ME_TB_1 M_ME_TE_1 t) xs"
  shows "\<exists>a. measured_value_scaled_inner l ch t is_seq ct ca xs = Some (Inr a)
      \<and> get_measured_value_scaled l ch a = Some (Inr (map (to_second ch (t \<noteq> M_ME_NB_1)) xs))"
  using sv.tagged_roundtrip [of l xs is_seq l ch M_ME_NB_1 M_ME_TB_1 M_ME_TE_1 t ct ca] assms
  by (auto simp: fits_unit_def measured_value_scaled_inner_def get_measured_value_scaled_def)

lemma float_roundtrip:
  assumes "bit_objects_ok l"
    "fits_unit l is_seq (\<lambda>x. fst (io_elem x) \<in> range f32_of_bits \<and> tag_ok ch M_ME_NC_1 M_ME_TC_1 M_ME_TF_1 t x) xs"
  shows "\<exists>a. measured_value_float_inner l ch t is_seq ct ca xs = Some (Inr a)
      \<and> get_measured_value_float l ch a = Some (Inr (map (to_second ch (t \<noteq> M_ME_NC_1)) xs))"
  using fv.tagged_roundtrip [of l xs is_seq l ch M_ME_NC_1 M_ME_TC_1 M_ME_TF_1 t ct ca] assms
  by (auto simp: fits_unit_def measured_value_float_inner_def get_measured_value_float_def case_prod_beta)

lemma bitstring_roundtrip:
  assumes "bit_objects_ok l" "fits_unit l is_seq (tag_ok ch M_BO_NA_1 M_BO_TA_1 M_BO_TB_1 t) xs"
  shows "\<exists>a. bitstring_inner l ch t is_seq ct ca xs = Some (Inr a)
      \<and> get_bit_string l ch a = Some (Inr (map (to_second ch (t \<noteq> M_BO_NA_1)) xs))"
  using bs.tagged_roundtrip [of l xs is_seq l ch M_BO_NA_1 M_BO_TA_1 M_BO_TB_1 t ct ca] assms
  by (auto simp: fits_unit_def bitstring_inner_def get_bit_string_def)

lemma totals_roundtrip:
  assumes "bit_objects_ok l"
    "fits_unit l is_seq (\<lambda>x. bcr_seq (io_elem x) < 32 \<and> tag_ok ch M_IT_NA_1 M_IT_TA_1 M_IT_TB_1 t x) xs"
  shows "\<exists>a. integrated_totals_inner l ch t is_seq ct ca xs = Some (Inr a)
      \<and> get_integrated_totals l ch a = Some (Inr (map (to_second ch (t \<noteq> M_IT_NA_1)) xs))"
  using it.tagged_roundtrip [of l xs is_seq ch M_IT_NA_1 M_IT_TA_1 M_IT_TB_1 t ct ca] assms
  by (auto simp: fits_unit_def integrated_totals_inner_def get_integrated_totals_def)

lemma normal_roundtrip:
  assumes "bit_objects_ok l" "fits_unit l is_seq (normal_ok ch t) xs"
  shows "\<exists>a. measured_value_normal_inner l ch t is_seq ct ca xs = Some (Inr a)
      \<and> get_measured_value_normal l ch a = Some (Inr (map (normal_seen l ch t) xs))"
  by (rule nv.get_build [of l xs l ch t is_seq t ct ca])
    (use assms in \<open>auto simp: fits_unit_def measured_value_normal_inner_def get_measured_value_normal_def\<close>)

lemma protection_roundtrip:
  assumes "bit_objects_ok l" "fits_unit l False (\<lambda>x. stamped_ok ch (io_time x)) xs"
  shows "\<exists>a. protection_event_td_inner l ch ct ca xs = Some (Inr a)
      \<and> get_protection_event_td l ch a = Some (Inr (map (to_second ch True) xs))"
  using ep.always_roundtrip [of l xs l ch M_EP_TD_1 ct ca] assms
  by (auto simp: fits_unit_def protection_event_td_inner_def get_protection_event_td_def)

lemma start_event_roundtrip:
  assumes "bit_objects_ok l" "fits_unit l False (\<lambda>x. stamped_ok ch (io_time x)) xs"
  shows "\<exists>a. protection_event_te_inner l ch ct ca xs = Some (Inr a)
      \<and> get_protection_event_te l ch a = Some (Inr (map (to_second ch True) xs))"
  using se.always_roundtrip [of l xs l ch M_EP_TE_1 ct ca] assms
  by (auto simp: fits_unit_def protection_event_te_inner_def get_protection_event_te_def)

lemma output_circuit_roundtrip:
  assumes "bit_objects_ok l" "fits_unit l False (\<lambda>x. stamped_ok ch (io_time x)) xs"
  shows "\<exists>a. protection_event_tf_inner l ch ct ca xs = Some (Inr a)
      \<and> get_protection_event_tf l ch a = Some (Inr (map (to_second ch True) xs))"
  using oc.always_roundtrip [of l xs l ch M_EP_TF_1 ct ca] assms
  by (auto simp: fits_unit_def protection_event_tf_inner_def get_protection_event_tf_def)

lemma packed_roundtrip:
  assumes "bit_objects_ok l" "fits_unit l False (\<lambda>x. True) xs"
  shows "\<exists>a. packed_status_change_inner l ct ca xs = Some (Inr a)
      \<and> get_packed_status_change l a = Some (Inr (map (\<lambda>x. x\<lparr>io_time := None\<rparr>) xs))"
  by (rule bs.bare.get_build [of l xs l False M_PS_NA_1 ct ca M_PS_NA_1])
    (use assms in \<open>auto simp: fits_unit_def packed_status_change_inner_def get_packed_status_change_def\<close>)

section \<open>Causes the builders accept\<close>

text \<open>Totals with a tag of seven bytes are also sent for an interrogation of the station, which the other totals
  refuse; scaled values are never sent periodically.\<close>

lemma totals_causes_differ:
  assumes "cot_cause l ct = InterrogatedByStation"
  shows "integrated_totals_cp56time2a l ch ct ca infos = integrated_totals_inner l ch M_IT_TB_1 False ct ca infos"
    "integrated_totals_cp24time2a l ch ct ca infos = Some (Inl (ErrCmdCause ct))"
    "integrated_totals l ch ct ca infos = Some (Inl (ErrCmdCause ct))"
  using assms
  by (simp_all add: integrated_totals_cp56time2a_def integrated_totals_cp24time2a_def integrated_totals_def check_cause_def
      by_counter_request_def)

lemma scaled_refuses_periodic:
  "cot_cause l ct = Periodic \<Longrightarrow> measured_value_scaled l ch ct ca infos = Some (Inl (ErrCmdCause ct))"
  by (simp add: measured_value_scaled_def check_cause_def cause_state_def by_interrogation_def)

section \<open>Three-byte time tags\<close>

text \<open>A tag of three bytes has minutes and milliseconds only; the reader takes the date and the hour from its own
  clock.\<close>

lemma cp24_uses_hour_of_receipt:
  assumes "cp_fields_ok ch t"
  shows "decode_cp24time2a ch i (cp24time2a ch t @ rest) =
    (case with_ymd_and_hms ch (year ch (utc_now ch i)) (month ch (utc_now ch i)) (day ch (utc_now ch i))
            (hour ch (utc_now ch i)) (minute ch t) (second ch t) of
       None \<Rightarrow> None | Some t' \<Rightarrow> Some (Inr (Some t', rest)))"
proof -
  have m: "(0x3f :: u8) = mask 6" "(0x80 :: u8) = push_bit 7 1" by (simp_all add: mask_eq_exp_minus_1)
  have le: "minute ch t < 2 ^ 6" "minute ch t < 2 ^ 7"
    using assms by (auto simp: cp_fields_ok_def word_less_nat_alt)
  show ?thesis using assms
    unfolding decode_cp24time2a_def cp24time2a_def u16_to_le_def Let_def
    by (simp add: cp_msec_seconds low_bits_high [OF le(2), folded m] low_bits [OF le(1), folded m] split: option.split)
qed

section \<open>Example layouts\<close>

text \<open>A layout with the fields in the order of their declaration, the first one in the most significant bits.\<close>

definition iec104_objects :: bit_objects where
  "iec104_objects =
     \<lparr>vs_number = \<lambda>b. b AND 0x7f, vs_is_sequence = \<lambda>b. bit b 7,
      vs_new = \<lambda>s n. (if s then 0x80 else 0) OR n,
      ioa_ok = \<lambda>_. True, ioa_addr = \<lambda>r. ucast r,
      ioa_set_addr = \<lambda>a r. push_bit 16 (drop_bit 16 r) OR ucast a, ioa_new = \<lambda>u a. push_bit 16 (ucast u) OR ucast a,
      object_ok = \<lambda>_ _. True, siq_spi = \<lambda>b. bit b 0, siq_new = \<lambda>v. of_bool v,
      diq_spi = \<lambda>b. b AND 3, diq_new = \<lambda>v. v AND 3, vti_value = \<lambda>b. b AND 0x7f, qds_defaults = 0,
      cot_cause = \<lambda>b. if b AND 0x3f = 6 then Activation else Spontaneous,
      cot_set_cause = \<lambda>c b. (b AND 0xc0) OR of_nat (cause_no c),
      cot_new = \<lambda>t p c. (if t then 0x80 else 0) OR (if p then 0x40 else 0) OR of_nat (cause_no c),
      sco_new = \<lambda>se qu res v. (if se then 0x80 else 0) OR push_bit 2 qu OR push_bit 1 res OR of_bool v,
      dco_new = \<lambda>se qu v. (if se then 0x80 else 0) OR push_bit 2 qu OR v,
      rco_new = \<lambda>se qu v. (if se then 0x80 else 0) OR push_bit 2 qu OR v,
      qos_new = \<lambda>se ql. push_bit 7 se OR ql\<rparr>"

lemma u24_lessI:
  assumes "\<And>n. bit (v :: u32) n \<Longrightarrow> n < 24"
  shows "v < 2 ^ 24"
proof -
  have "take_bit 24 v = v" using assms by (intro bit_word_eqI) (auto simp: bit_simps)
  then have "unat v = take_bit 24 (unat v)" by (simp flip: unsigned_take_bit_eq)
  then have "unat v < 2 ^ 24" using take_bit_nat_less_exp [of 24 "unat v"] by linarith
  then show ?thesis by (simp add: word_less_nat_alt)
qed

lemma mask_low_7: "n < 128 \<Longrightarrow> (n :: u8) AND 0x7f = n" and mask_high_7: "(0x80 :: u8) AND 0x7f = 0"
  using less_mask_eq [of n 7] by (simp_all add: mask_eq_exp_minus_1)

lemma bit_7_low: "n < 128 \<Longrightarrow> \<not> bit (n :: u8) 7"
  using mask_low_7 [of n] bit_and_iff [of n "0x7f" 7] by auto

lemma iec104_objects_ok: "bit_objects_ok iec104_objects"
proof -
  have "vs_number iec104_objects (vs_new iec104_objects s n) = n
      \<and> vs_is_sequence iec104_objects (vs_new iec104_objects s n) = s" if "n < 128" for s n
    using that bit_7_low [OF that]
    by (auto simp: iec104_objects_def mask_low_7 bit.conj_disj_distrib2 bit_or_iff)
  moreover have "ioa_set_addr iec104_objects a r < 2 ^ 24" if "r < 2 ^ 24" for a r
  proof (rule u24_lessI)
    fix n assume "bit (ioa_set_addr iec104_objects a r) n"
    then have "bit r n \<or> bit a n" by (auto simp: iec104_objects_def bit_simps)
    then show "n < 24" using bit_of_less [OF that] bit_imp_le_length [of a n] by auto
  qed
  moreover have "ioa_addr iec104_objects (ioa_set_addr iec104_objects a r) = a" for a r
    by (rule bit_word_eqI) (auto simp: iec104_objects_def bit_simps)
  moreover have "ioa_new iec104_objects u a < 2 ^ 24" for u a
  proof (rule u24_lessI)
    fix n assume "bit (ioa_new iec104_objects u a) n"
    then have "16 \<le> n \<and> bit u (n - 16) \<or> bit a n" by (auto simp: iec104_objects_def bit_simps)
    then show "n < 24" using bit_imp_le_length [of u "n - 16"] bit_imp_le_length [of a n] by auto
  qed
  moreover have "ioa_addr iec104_objects (ioa_new iec104_objects u a) = a" for u a
    by (rule bit_word_eqI) (auto simp: iec104_objects_def bit_simps)
  ultimately show ?thesis by (simp add: bit_objects_ok_def) (simp add: iec104_objects_def)
qed

text \<open>Instants as year, month, day, hour, minute, second and nanosecond, with a clock that stands still.\<close>

type_synonym civil = "int \<times> u32 \<times> u32 \<times> u32 \<times> u32 \<times> u32 \<times> u32"

definition civil_calendar :: "civil \<Rightarrow> civil calendar" where
  "civil_calendar now =
     \<lparr>nanosecond = \<lambda>(y, mo, d, h, mi, s, n). n, second = \<lambda>(y, mo, d, h, mi, s, n). s,
      minute = \<lambda>(y, mo, d, h, mi, s, n). mi, hour = \<lambda>(y, mo, d, h, mi, s, n). h, weekday = \<lambda>_. 1,
      day = \<lambda>(y, mo, d, h, mi, s, n). d, month = \<lambda>(y, mo, d, h, mi, s, n). mo, year = \<lambda>(y, mo, d, h, mi, s, n). y,
      with_ymd_and_hms = \<lambda>y mo d h mi s.
        if 1 \<le> mo \<and> mo \<le> 12 \<and> 1 \<le> d \<and> d \<le> 28 \<and> h < 24 \<and> mi < 60 \<and> s < 60 then Some (y, mo, d, h, mi, s, 0) else None,
      utc_now = \<lambda>_. now\<rparr>"

text \<open>An event of 10:59:58 that is read at 11:00:02 is dated 11:59:58, almost an hour into the future.\<close>

lemma cp24_dates_into_the_future:
  "decode_cp24time2a (civil_calendar (2024, 5, 6, 11, 0, 2, 0)) 0
     (cp24time2a (civil_calendar (2024, 5, 6, 11, 0, 2, 0)) (2024, 5, 6, 10, 59, 58, 0))
   = Some (Inr (Some (2024, 5, 6, 11, 59, 58, 0), []))"
  using cp24_uses_hour_of_receipt [of "civil_calendar (2024, 5, 6, 11, 0, 2, 0)" "(2024, 5, 6, 10, 59, 58, 0)" 0 "[]"]
  by (simp add: cp_fields_ok_def civil_calendar_def)

text \<open>A tag of 60 seconds or more is an instant that \<open>chrono\<close> does not construct: the reader panics.\<close>

lemma cp56_panics_on_sixty_seconds:
  "decode_cp56time2a (civil_calendar now) (u16_to_le 60000 @ [0, 0, 1, 1, 24]) = None"
  by (simp add: decode_cp56time2a_def u16_to_le_def u16_of_def Let_def civil_calendar_def)

text \<open>C35: Reading inverts building for every kind of monitored object: single and double points, step positions,
  bit strings, normalised, scaled and short floating-point values, integrated totals, the three kinds of
  protection events and packed status changes.  Fewer than 128 objects with addresses below 2 ^ 24, sent
  with addresses of their own or as a sequence of consecutive addresses, are accepted by the builder, and
  the reader returns exactly these objects.  The unit has no time tag, and then the objects come back
  without a time, or a tag of seven bytes, and then with their time cut to the second; tags of three bytes are
  not covered.  A normalised value comes back with the default quality when it had none, and without its
  quality in the type that carries none.  A floating-point value must be a single-precision one and a
  counter's sequence number less than 32, which is what the wire carries.\<close>

theorem iec104_objects_roundtrip:
  assumes "bit_objects_ok l"
  shows
    "(fits_unit l is_seq (tag_ok ch M_SP_NA_1 M_SP_TA_1 M_SP_TB_1 t1) singles
        \<longrightarrow> (\<exists>a. single_inner l ch t1 is_seq ct ca singles = Some (Inr a)
               \<and> get_single_point l ch a = Some (Inr (map (to_second ch (t1 \<noteq> M_SP_NA_1)) singles))))
    \<and> (fits_unit l is_seq (tag_ok ch M_DP_NA_1 M_DP_TA_1 M_DP_TB_1 t2) doubles
        \<longrightarrow> (\<exists>a. double_inner l ch t2 is_seq ct ca doubles = Some (Inr a)
               \<and> get_double_point l ch a = Some (Inr (map (to_second ch (t2 \<noteq> M_DP_NA_1)) doubles))))
    \<and> (fits_unit l is_seq (tag_ok ch M_ST_NA_1 M_ST_TA_1 M_ST_TB_1 t3) steps
        \<longrightarrow> (\<exists>a. step_inner l ch t3 is_seq ct ca steps = Some (Inr a)
               \<and> get_step_position l ch a = Some (Inr (map (to_second ch (t3 \<noteq> M_ST_NA_1)) steps))))
    \<and> (fits_unit l is_seq (tag_ok ch M_BO_NA_1 M_BO_TA_1 M_BO_TB_1 t4) strings
        \<longrightarrow> (\<exists>a. bitstring_inner l ch t4 is_seq ct ca strings = Some (Inr a)
               \<and> get_bit_string l ch a = Some (Inr (map (to_second ch (t4 \<noteq> M_BO_NA_1)) strings))))
    \<and> (fits_unit l is_seq (normal_ok ch t5) normals
        \<longrightarrow> (\<exists>a. measured_value_normal_inner l ch t5 is_seq ct ca normals = Some (Inr a)
               \<and> get_measured_value_normal l ch a = Some (Inr (map (normal_seen l ch t5) normals))))
    \<and> (fits_unit l is_seq (tag_ok ch M_ME_NB_1 M_ME_TB_1 M_ME_TE_1 t6) scaleds
        \<longrightarrow> (\<exists>a. measured_value_scaled_inner l ch t6 is_seq ct ca scaleds = Some (Inr a)
               \<and> get_measured_value_scaled l ch a = Some (Inr (map (to_second ch (t6 \<noteq> M_ME_NB_1)) scaleds))))
    \<and> (fits_unit l is_seq (\<lambda>x. fst (io_elem x) \<in> range f32_of_bits \<and> tag_ok ch M_ME_NC_1 M_ME_TC_1 M_ME_TF_1 t7 x) floats
        \<longrightarrow> (\<exists>a. measured_value_float_inner l ch t7 is_seq ct ca floats = Some (Inr a)
               \<and> get_measured_value_float l ch a = Some (Inr (map (to_second ch (t7 \<noteq> M_ME_NC_1)) floats))))
    \<and> (fits_unit l is_seq (\<lambda>x. bcr_seq (io_elem x) < 32 \<and> tag_ok ch M_IT_NA_1 M_IT_TA_1 M_IT_TB_1 t8 x) totals
        \<longrightarrow> (\<exists>a. integrated_totals_inner l ch t8 is_seq ct ca totals = Some (Inr a)
               \<and> get_integrated_totals l ch a = Some (Inr (map (to_second ch (t8 \<noteq> M_IT_NA_1)) totals))))
    \<and> (fits_unit l False (\<lambda>x. stamped_ok ch (io_time x)) events
        \<longrightarrow> (\<exists>a. protection_event_td_inner l ch ct ca events = Some (Inr a)
               \<and> get_protection_event_td l ch a = Some (Inr (map (to_second ch True) events))))
    \<and> (fits_unit l False (\<lambda>x. stamped_ok ch (io_time x)) starts
        \<longrightarrow> (\<exists>a. protection_event_te_inner l ch ct ca starts = Some (Inr a)
               \<and> get_protection_event_te l ch a = Some (Inr (map (to_second ch True) starts))))
    \<and> (fits_unit l False (\<lambda>x. stamped_ok ch (io_time x)) circuits
        \<longrightarrow> (\<exists>a. protection_event_tf_inner l ch ct ca circuits = Some (Inr a)
               \<and> get_protection_event_tf l ch a = Some (Inr (map (to_second ch True) circuits))))
    \<and> (fits_unit l False (\<lambda>x. True) changes
        \<longrightarrow> (\<exists>a. packed_status_change_inner l ct ca changes = Some (Inr a)
               \<and> get_packed_status_change l a = Some (Inr (map (\<lambda>x. x\<lparr>io_time := None\<rparr>) changes))))"
  using single_roundtrip [OF assms] double_roundtrip [OF assms] step_roundtrip [OF assms] bitstring_roundtrip [OF assms]
    normal_roundtrip [OF assms] scaled_roundtrip [OF assms] float_roundtrip [OF assms] totals_roundtrip [OF assms]
    protection_roundtrip [OF assms] start_event_roundtrip [OF assms] output_circuit_roundtrip [OF assms] packed_roundtrip [OF assms]
  by (intro conjI impI) blast+

definition sample_event :: "civil SinglePointInfo" where
  "sample_event = \<lparr>io_ioa = 7, io_elem = 1, io_time = Some (2024, 5, 6, 10, 59, 58, 250000000)\<rparr>"

theorem iec104_objects_roundtrip_witness:
  "\<exists>a. single_inner iec104_objects (civil_calendar (2024, 5, 6, 11, 0, 2, 0)) M_SP_TB_1 True 3 1
          [sample_event, sample_event\<lparr>io_ioa := 8\<rparr>] = Some (Inr a)
     \<and> get_single_point iec104_objects (civil_calendar (2024, 5, 6, 11, 0, 2, 0)) a
         = Some (Inr [sample_event\<lparr>io_time := Some (2024, 5, 6, 10, 59, 58, 0)\<rparr>,
                      sample_event\<lparr>io_ioa := 8, io_time := Some (2024, 5, 6, 10, 59, 58, 0)\<rparr>])"
proof -
  let ?ch = "civil_calendar (2024, 5, 6, 11, 0, 2, 0)"
  have fits: "fits_unit iec104_objects True (tag_ok ?ch M_SP_NA_1 M_SP_TA_1 M_SP_TB_1 M_SP_TB_1)
      [sample_event, sample_event\<lparr>io_ioa := 8\<rparr>]"
    by (simp add: fits_unit_def tag_ok_def stamped_ok_def cp_fields_ok_def cp_seen_def civil_calendar_def
        sample_event_def iec104_objects_def)
  show ?thesis
    using iec104_objects_roundtrip [OF iec104_objects_ok, THEN conjunct1, rule_format, OF fits, where ct = 3 and ca = 1]
    by (simp add: to_second_def cp_seen_def civil_calendar_def sample_event_def)
qed

end
