(* ===== verification/Sdk_Text.thy ===== *)
theory Sdk_Text
  imports Sdk_Float
begin

text \<open>
  The text functions of the Rust standard library that the value casts of the SDK call: \<open>trim\<close>,
  \<open>to_ascii_lowercase\<close>, \<open>strip_prefix\<close>, integer parsing in a radix with the range check of the
  target, decimal printing, and parsing and printing of \<open>f64\<close> and \<open>f32\<close>.  A Rust \<open>str\<close> is the list
  of its UTF-8 bytes, each as a \<open>char\<close>.  The main result is that parsing a printed integer
  returns it.
\<close>

section \<open>Bytes and white space\<close>

definition str_bytes :: "string \<Rightarrow> bytes" where
  "str_bytes s = map of_char s"

definition bytes_str :: "bytes \<Rightarrow> string" where
  "bytes_str bs = map (\<lambda>b. char_of (unat b)) bs"

lemma str_bytes_bytes_str [simp]: "str_bytes (bytes_str bs) = bs"
proof -
  have "of_char (char_of (unat b) :: char) = b" for b :: u8
  proof -
    have "unat b < 256" using unsigned_less [of b] by simp
    then have "of_char (char_of (unat b) :: char) = unat b" by simp
    then show ?thesis by (metis of_nat_of_char of_nat_unat ucast_id)
  qed
  then show ?thesis by (simp add: str_bytes_def bytes_str_def map_idI)
qed

text \<open>The UTF-8 encodings of the characters with the property White\_Space.\<close>

definition white_space :: "string list" where
  "white_space =
     map (\<lambda>n. [char_of n]) [9, 10, 11, 12, 13, 32 :: nat]
     @ map (map char_of)
         ([[0xC2, 0x85], [0xC2, 0xA0], [0xE1, 0x9A, 0x80]] @ map (\<lambda>k. [0xE2, 0x80, 0x80 + k]) [0..<11]
          @ [[0xE2, 0x80, 0xA8], [0xE2, 0x80, 0xA9], [0xE2, 0x80, 0xAF], [0xE2, 0x81, 0x9F],
             [0xE3, 0x80, 0x80 :: nat]])"

definition strip_prefix :: "string \<Rightarrow> string \<Rightarrow> string option" where
  "strip_prefix p s = (if take (length p) s = p then Some (drop (length p) s) else None)"

definition starts_with_any :: "string list \<Rightarrow> string \<Rightarrow> string option" where
  "starts_with_any ps s = find (\<lambda>p. p \<noteq> [] \<and> take (length p) s = p) ps"

function strip_any :: "string list \<Rightarrow> string \<Rightarrow> string" where
  "strip_any ps s = (case starts_with_any ps s of None \<Rightarrow> s | Some p \<Rightarrow> strip_any ps (drop (length p) s))"
  by pat_completeness auto
termination
proof (relation "measure (length \<circ> snd)", goal_cases)
  case (2 ps s p)
  then have "p \<noteq> []" "take (length p) s = p"
    by (auto simp: starts_with_any_def find_Some_iff)
  then have "s \<noteq> []" by auto
  with \<open>p \<noteq> []\<close> show ?case by simp
qed simp

declare strip_any.simps [simp del]

definition trim_start :: "string \<Rightarrow> string" where
  "trim_start s = strip_any white_space s"

definition trim_end :: "string \<Rightarrow> string" where
  "trim_end s = rev (strip_any (map rev white_space) (rev s))"

definition trim :: "string \<Rightarrow> string" where
  "trim s = trim_end (trim_start s)"

definition to_ascii_lowercase :: "string \<Rightarrow> string" where
  "to_ascii_lowercase s =
     map (\<lambda>c. let n = (of_char c :: nat) in if 65 \<le> n \<and> n \<le> 90 then char_of (n + 32) else c) s"

section \<open>\<open>String::from_utf8_lossy\<close>\<close>

text \<open>A byte sequence that is no UTF-8 is replaced, one maximal ill-formed piece at a time, by the
  replacement character.\<close>

definition utf8_cont :: "u8 \<Rightarrow> bool" where
  "utf8_cont b \<longleftrightarrow> 0x80 \<le> b \<and> b \<le> 0xBF"

definition utf8_second :: "u8 \<Rightarrow> u8 \<Rightarrow> bool" where
  "utf8_second a b \<longleftrightarrow>
     (if a = 0xE0 then 0xA0 \<le> b \<and> b \<le> 0xBF else if a = 0xED then 0x80 \<le> b \<and> b \<le> 0x9F
      else if a = 0xF0 then 0x90 \<le> b \<and> b \<le> 0xBF else if a = 0xF4 then 0x80 \<le> b \<and> b \<le> 0x8F
      else utf8_cont b)"

definition utf8_width :: "u8 \<Rightarrow> nat" where
  "utf8_width a =
     (if a < 0x80 then 1 else if 0xC2 \<le> a \<and> a \<le> 0xDF then 2 else if 0xE0 \<le> a \<and> a \<le> 0xEF then 3
      else if 0xF0 \<le> a \<and> a \<le> 0xF4 then 4 else 0)"

text \<open>Whether the next piece is a character, and its length.\<close>

fun utf8_next :: "bytes \<Rightarrow> bool \<times> nat" where
  "utf8_next [] = (True, 0)"
| "utf8_next (a # r) =
     (let w = utf8_width a;
          k = (if w < 2 then 0
               else case r of [] \<Rightarrow> 0
                    | b # t \<Rightarrow> if utf8_second a b then 1 + min (w - 2) (length (takeWhile utf8_cont t)) else 0)
      in (w \<noteq> 0 \<and> k + 1 = w, k + 1))"

lemma utf8_next_pos: "bs \<noteq> [] \<Longrightarrow> 0 < snd (utf8_next bs)"
  by (cases bs) (simp_all add: Let_def)

function utf8_lossy :: "bytes \<Rightarrow> bytes" where
  "utf8_lossy bs =
     (if bs = [] then []
      else (if fst (utf8_next bs) then take (snd (utf8_next bs)) bs else [0xEF, 0xBF, 0xBD])
           @ utf8_lossy (drop (snd (utf8_next bs)) bs))"
  by pat_completeness auto
termination
  by (relation "measure length") (use utf8_next_pos in \<open>auto simp: diff_less\<close>)

declare utf8_lossy.simps [simp del]

lemma utf8_lossy_ascii: "list_all (\<lambda>b. b < 0x80) bs \<Longrightarrow> utf8_lossy bs = bs"
proof (induction bs)
  case Nil
  then show ?case by (simp add: utf8_lossy.simps)
next
  case (Cons a bs)
  then have "utf8_next (a # bs) = (True, 1)" by (simp add: utf8_width_def)
  then show ?case using Cons by (simp add: utf8_lossy.simps [of "a # bs"])
qed

section \<open>Integers\<close>

text \<open>\<open>char::to_digit\<close>\<close>

definition to_digit :: "nat \<Rightarrow> char \<Rightarrow> nat option" where
  "to_digit radix c =
     (let n = (of_char c :: nat);
          d = (if 48 \<le> n \<and> n \<le> 57 then n - 48 else if 97 \<le> n \<and> n \<le> 122 then n - 87
               else if 65 \<le> n \<and> n \<le> 90 then n - 55 else radix)
      in if d < radix then Some d else None)"

fun digits_val :: "nat \<Rightarrow> nat \<Rightarrow> string \<Rightarrow> nat option" where
  "digits_val radix acc [] = Some acc"
| "digits_val radix acc (c # cs) =
     (case to_digit radix c of None \<Rightarrow> None | Some d \<Rightarrow> digits_val radix (acc * radix + d) cs)"

definition parse_nat :: "nat \<Rightarrow> string \<Rightarrow> nat option" where
  "parse_nat radix s = (if s = [] then None else digits_val radix 0 s)"

text \<open>\<open>uN::from_str_radix\<close> and \<open>iN::from_str_radix\<close>: a leading plus is accepted, a minus only by
  the signed types.\<close>

definition u64_from_str_radix :: "nat \<Rightarrow> string \<Rightarrow> u64 option" where
  "u64_from_str_radix radix s =
     (case parse_nat radix (case s of CHR ''+'' # r \<Rightarrow> r | _ \<Rightarrow> s) of
        None \<Rightarrow> None
      | Some n \<Rightarrow> if n < 2 ^ 64 then Some (of_nat n) else None)"

definition i64_from_str_radix :: "nat \<Rightarrow> string \<Rightarrow> u64 option" where
  "i64_from_str_radix radix s =
     (let (neg, r) = (case s of CHR ''+'' # r \<Rightarrow> (False, r) | CHR ''-'' # r \<Rightarrow> (True, r) | _ \<Rightarrow> (False, s))
      in case parse_nat radix r of
           None \<Rightarrow> None
         | Some n \<Rightarrow>
             let i = (if neg then - int n else int n)
             in if - (2 ^ 63) \<le> i \<and> i < 2 ^ 63 then Some (word_of_int i) else None)"

text \<open>Decimal printing.\<close>

fun digits_of :: "nat \<Rightarrow> string" where
  "digits_of n = (if n < 10 then [char_of (48 + n)] else digits_of (n div 10) @ [char_of (48 + n mod 10)])"

declare digits_of.simps [simp del]

definition int_to_string :: "int \<Rightarrow> string" where
  "int_to_string i = (if i < 0 then CHR ''-'' # digits_of (nat (- i)) else digits_of (nat i))"

section \<open>Floating-point numbers\<close>

definition is_dec_digit :: "char \<Rightarrow> bool" where
  "is_dec_digit c \<longleftrightarrow> to_digit 10 c \<noteq> None"

definition dec_val :: "string \<Rightarrow> nat" where
  "dec_val s = (case digits_val 10 0 s of None \<Rightarrow> 0 | Some n \<Rightarrow> n)"

text \<open>The exponent of a number: empty, or \<open>e\<close>, a sign and at least one digit.\<close>

definition parse_exp :: "string \<Rightarrow> int option" where
  "parse_exp s =
     (case s of
        [] \<Rightarrow> Some 0
      | c # r \<Rightarrow>
          if c = CHR ''e'' \<or> c = CHR ''E'' then
            (let (neg, ds) = (case r of CHR ''+'' # t \<Rightarrow> (False, t) | CHR ''-'' # t \<Rightarrow> (True, t) | _ \<Rightarrow> (False, r))
             in case parse_nat 10 ds of None \<Rightarrow> None | Some n \<Rightarrow> Some (if neg then - int n else int n))
          else None)"

definition parse_number :: "string \<Rightarrow> rat option" where
  "parse_number s =
     (let ip = takeWhile is_dec_digit s; r = dropWhile is_dec_digit s;
          (fp, r') = (case r of CHR ''.'' # t \<Rightarrow> (takeWhile is_dec_digit t, dropWhile is_dec_digit t) | _ \<Rightarrow> ([], r))
      in if ip = [] \<and> fp = [] then None
         else case parse_exp r' of
                None \<Rightarrow> None
              | Some e \<Rightarrow> Some (of_nat (dec_val (ip @ fp)) * 10 powi (e - int (length fp))))"

text \<open>\<open>str::parse::<f64>\<close>\<close>

definition parse_f64 :: "string \<Rightarrow> fp option" where
  "parse_f64 s =
     (let (neg, r) = (case s of CHR ''+'' # t \<Rightarrow> (False, t) | CHR ''-'' # t \<Rightarrow> (True, t) | _ \<Rightarrow> (False, s));
          w = to_ascii_lowercase r
      in if w = ''inf'' \<or> w = ''infinity'' then Some (Inf neg)
         else if w = ''nan'' then Some (NaN neg (2 ^ 51))
         else map_option (fp_round F64 neg) (parse_number r))"

text \<open>Printing: the decimal number with the fewest digits that is read back as the same number, the
  closest one of those, without an exponent.\<close>

definition lg10 :: "rat \<Rightarrow> int" where
  "lg10 q = (let (a, b) = quotient_of q; k = int (floorlog 10 (nat a)) - int (floorlog 10 (nat b))
             in if 10 powi k \<le> q then k else k - 1)"

definition shortest_step :: "fp_format \<Rightarrow> rat \<Rightarrow> nat \<Rightarrow> (nat \<times> int) option" where
  "shortest_step F v k =
     (let j = lg10 v - int k + 1; lo = nat \<lfloor>v / 10 powi j\<rfloor>; r = v / 10 powi j - of_nat lo;
          back = (\<lambda>d. fp_abs (fp_round F False (of_nat d * 10 powi j)) = v);
          first = (if r < 1 / 2 \<or> r = 1 / 2 \<and> even lo then lo else lo + 1);
          second = (if first = lo then lo + 1 else lo)
      in if back first then Some (first, j) else if back second then Some (second, j) else None)"

fun shortest_from :: "nat \<Rightarrow> fp_format \<Rightarrow> rat \<Rightarrow> nat \<Rightarrow> nat \<times> int" where
  "shortest_from 0 F v k = (0, 0)"
| "shortest_from (Suc n) F v k =
     (case shortest_step F v k of Some r \<Rightarrow> r | None \<Rightarrow> shortest_from n F v (Suc k))"

definition decimal_text :: "nat \<Rightarrow> int \<Rightarrow> string" where
  "decimal_text d j =
     (let ds = digits_of d; n = nat (- j)
      in if 0 \<le> j then ds @ replicate (nat j) CHR ''0''
         else if n < length ds then take (length ds - n) ds @ CHR ''.'' # drop (length ds - n) ds
         else ''0.'' @ replicate (n - length ds) CHR ''0'' @ ds)"

fun fp_to_string :: "fp_format \<Rightarrow> fp \<Rightarrow> string" where
  "fp_to_string F (NaN _ _) = ''NaN''"
| "fp_to_string F (Inf s) = (if s then ''-inf'' else ''inf'')"
| "fp_to_string F (Fin s m e) =
     (if s then ''-'' else '''') @
     (if m = 0 then ''0''
      else let (d, j) = shortest_from 17 F (of_nat m * 2 powi e) 1 in decimal_text d j)"

section \<open>Parsing what was printed\<close>

lemma to_digit_print [simp]: "d < 10 \<Longrightarrow> to_digit 10 (char_of (48 + d)) = Some d"
  by (simp add: to_digit_def)

lemma digits_val_append:
  "digits_val r acc (xs @ ys) = (case digits_val r acc xs of None \<Rightarrow> None | Some a \<Rightarrow> digits_val r a ys)"
  by (induction xs arbitrary: acc) (auto split: option.splits)

lemma digits_val_digits_of: "digits_val 10 0 (digits_of n) = Some n"
proof (induction n rule: digits_of.induct)
  case (1 n)
  then show ?case
    by (subst digits_of.simps) (auto simp: digits_val_append split: option.splits)
qed

lemma digits_of_first: "\<exists>d ds. digits_of n = char_of (48 + d) # ds \<and> d < (10 :: nat)"
proof (induction n rule: digits_of.induct)
  case (1 n)
  show ?case
  proof (cases "n < 10")
    case True
    then have "digits_of n = [char_of (48 + n)]" by (simp add: digits_of.simps [of n])
    then show ?thesis using True by blast
  next
    case False
    then obtain d ds where "digits_of (n div 10) = char_of (48 + d) # ds" "d < (10 :: nat)" using 1 by blast
    moreover have "digits_of n = digits_of (n div 10) @ [char_of (48 + n mod 10)]"
      using False by (simp add: digits_of.simps [of n])
    ultimately show ?thesis by (metis append_Cons)
  qed
qed

lemma parse_nat_digits_of [simp]: "parse_nat 10 (digits_of n) = Some n"
  using digits_of_first [of n] by (auto simp: parse_nat_def digits_val_digits_of)

lemma digit_char_neq:
  "d < 10 \<Longrightarrow> char_of (48 + d :: nat) \<noteq> CHR ''+''" "d < 10 \<Longrightarrow> char_of (48 + d :: nat) \<noteq> CHR ''-''"
  by (auto dest: arg_cong [where f = "of_char :: char \<Rightarrow> nat"])

lemma digits_of_no_sign:
  "(case digits_of n of CHR ''+'' # r \<Rightarrow> f r | _ \<Rightarrow> g) = g"
  "(case digits_of n of CHR ''+'' # r \<Rightarrow> f r | CHR ''-'' # r \<Rightarrow> h r | _ \<Rightarrow> g) = g"
  using digits_of_first [of n] digit_char_neq
  by (auto split: char.splits bool.splits)

theorem u64_print_parse: "u64_from_str_radix 10 (int_to_string (uint w)) = Some w"
proof -
  have "nat (uint w) < 2 ^ 64" using unsigned_less [of w] by (simp add: unat_eq_nat_uint [symmetric])
  then show ?thesis
    by (simp add: u64_from_str_radix_def int_to_string_def digits_of_no_sign)
qed

theorem i64_print_parse: "i64_from_str_radix 10 (int_to_string (sint w)) = Some w"
proof -
  have "- (2 ^ 63) \<le> sint w" "sint w < 2 ^ 63" using sint_greater_eq [of w] sint_less [of w] by simp_all
  then show ?thesis
    by (simp add: i64_from_str_radix_def int_to_string_def digits_of_no_sign)
qed

section \<open>Trimming text without white space at its ends\<close>

lemma strip_any_id:
  assumes "\<And>p. p \<in> set ps \<Longrightarrow> p \<noteq> [] \<Longrightarrow> s \<noteq> [] \<Longrightarrow> hd p \<noteq> hd s"
  shows "strip_any ps s = s"
proof -
  have "starts_with_any ps s = None"
    using assms by (auto simp: starts_with_any_def find_None_iff) (metis hd_take length_greater_0_conv list.size(3) take_eq_Nil)
  then show ?thesis by (simp add: strip_any.simps [of ps s])
qed

definition visible :: "char \<Rightarrow> bool" where
  "visible c \<longleftrightarrow> 33 \<le> (of_char c :: nat) \<and> (of_char c :: nat) < 128"

lemma white_space_not_visible:
  "p \<in> set white_space \<Longrightarrow> p \<noteq> [] \<and> \<not> visible (hd p) \<and> \<not> visible (last p)"
  by (auto simp: white_space_def visible_def)

lemma trim_id:
  assumes "s \<noteq> [] \<Longrightarrow> visible (hd s) \<and> visible (last s)"
  shows "trim s = s"
proof -
  have "trim_start s = s"
    unfolding trim_start_def using assms white_space_not_visible by (intro strip_any_id) metis
  moreover have "strip_any (map rev white_space) (rev s) = rev s"
    using assms white_space_not_visible by (intro strip_any_id) (auto simp: hd_rev, metis)
  ultimately show ?thesis by (simp add: trim_def trim_end_def)
qed

lemma visible_digit: "d < 10 \<Longrightarrow> visible (char_of (48 + d :: nat))"
  by (simp add: visible_def)

lemma digits_of_visible: "list_all visible (digits_of n)"
proof (induction n rule: digits_of.induct)
  case (1 n)
  then show ?case
    by (cases "n < 10") (simp_all add: digits_of.simps [of n] visible_digit)
qed

lemma trim_int_to_string [simp]: "trim (int_to_string i) = int_to_string i"
proof (rule trim_id)
  have "list_all visible (int_to_string i)"
    using digits_of_visible by (simp add: int_to_string_def) (simp add: visible_def)
  then show "int_to_string i \<noteq> [] \<Longrightarrow> visible (hd (int_to_string i)) \<and> visible (last (int_to_string i))"
    by (simp add: list_all_iff)
qed

lemma int_to_string_nonempty [simp]: "int_to_string i \<noteq> []"
  using digits_of_first [of "nat i"] by (auto simp: int_to_string_def)

end
