(* ===== verification/Sdk_Value.thy ===== *)
theory Sdk_Value
  imports Sdk_Text
begin

text \<open>
  The values the gateway exchanges between drivers and its upper layers
  (\<open>ng-gateway-sdk/src/value.rs\<close>, \<open>transform.rs\<close>, \<open>southward/types.rs\<close>, \<open>southward/codec.rs\<close>): the
  type tags, the tagged value, the casts from a value to each Rust primitive, the affine transform
  of a point, and \<open>ValueCodec\<close>, which maps wire values to logical values and back.  Signed integers
  are words read with \<open>sint\<close>, unsigned ones with \<open>uint\<close>.  The message of an error keeps the
  fixed text of its format string.  The lemmas show that a cast returns the integer it was given
  or an error, that the wire mapping never changes an integer under an identity transform,
  and where the range check of the 64-bit casts admits one value too many.
\<close>

section \<open>Types, errors and values\<close>

datatype DataType =
    T_Boolean | T_Int8 | T_UInt8 | T_Int16 | T_UInt16 | T_Int32 | T_UInt32 | T_Int64 | T_UInt64
  | T_Float32 | T_Float64 | T_String | T_Binary | T_Timestamp

datatype AccessMode = AM_Read | AM_Write | AM_ReadWrite

datatype DataPointType = Attribute | Telemetry

definition is_numeric :: "DataType \<Rightarrow> bool" where
  "is_numeric dt = (case dt of T_Int8 \<Rightarrow> True | T_UInt8 \<Rightarrow> True | T_Int16 \<Rightarrow> True | T_UInt16 \<Rightarrow> True
     | T_Int32 \<Rightarrow> True | T_UInt32 \<Rightarrow> True | T_Int64 \<Rightarrow> True | T_UInt64 \<Rightarrow> True | T_Float32 \<Rightarrow> True
     | T_Float64 \<Rightarrow> True | _ \<Rightarrow> False)"

datatype DriverError =
    ServiceUnavailable | ValidationError string | ExecutionError string | ConfigurationError string
  | InitializationError string | InvalidStateError string | CodecError string | DriverTimeout
  | PlannerError string | SessionError string | SubscriptionError string | NorthwardError string
  | LoadError string | InvalidEntity string | Unreachable string

datatype NGValueCastError =
    NotNumeric DataType
  | NotFinite
  | OutOfRange string
  | TypeMismatch DataType DataType
  | ParseError string string
  | InvalidUtf8 string
  | InvalidBinaryLength string string nat

datatype NGValue =
    Boolean bool
  | Int8 "8 word" | UInt8 u8
  | Int16 "16 word" | UInt16 u16
  | Int32 "32 word" | UInt32 u32
  | Int64 "64 word" | UInt64 u64
  | Float32 fp | Float64 fp
  | Str string
  | Binary bytes
  | Timestamp "64 word"

fun data_type :: "NGValue \<Rightarrow> DataType" where
  "data_type (Boolean _) = T_Boolean"
| "data_type (Int8 _) = T_Int8"
| "data_type (UInt8 _) = T_UInt8"
| "data_type (Int16 _) = T_Int16"
| "data_type (UInt16 _) = T_UInt16"
| "data_type (Int32 _) = T_Int32"
| "data_type (UInt32 _) = T_UInt32"
| "data_type (Int64 _) = T_Int64"
| "data_type (UInt64 _) = T_UInt64"
| "data_type (Float32 _) = T_Float32"
| "data_type (Float64 _) = T_Float64"
| "data_type (Str _) = T_String"
| "data_type (Binary _) = T_Binary"
| "data_type (Timestamp _) = T_Timestamp"

definition validate_datatype :: "NGValue \<Rightarrow> DataType \<Rightarrow> bool" where
  "validate_datatype v expected \<longleftrightarrow> data_type v = expected"

section \<open>Parsing helpers\<close>

definition parse_bool_from_str :: "string \<Rightarrow> bool option" where
  "parse_bool_from_str s =
     (let st = to_ascii_lowercase (trim s)
      in if st \<in> {''true'', ''1'', ''on'', ''yes'', ''y'', ''t''} then Some True
         else if st \<in> {''false'', ''0'', ''off'', ''no'', ''n'', ''f''} then Some False
         else None)"

text \<open>\<open>strip_prefix("0x").or(strip_prefix("0X"))\<close>\<close>

definition strip_hex :: "string \<Rightarrow> string option" where
  "strip_hex s = (case strip_prefix ''0x'' s of Some r \<Rightarrow> Some r | None \<Rightarrow> strip_prefix ''0X'' s)"

definition parse_f64_from_str :: "string \<Rightarrow> string \<Rightarrow> NGValueCastError + fp" where
  "parse_f64_from_str target s =
     (let st = trim s
      in if st = [] then Inl (ParseError target st)
         else
           res_bind
             (case strip_hex st of
                Some hex \<Rightarrow>
                  (case u64_from_str_radix 16 (trim hex) of
                     None \<Rightarrow> Inl (ParseError target st)
                   | Some n \<Rightarrow> Inr (f64_of_int (uint n)))
              | None \<Rightarrow> (case parse_f64 st of None \<Rightarrow> Inl (ParseError target st) | Some f \<Rightarrow> Inr f))
             (\<lambda>parsed. if \<not> is_finite parsed then Inl NotFinite else Inr parsed))"

definition i64_min :: int where "i64_min = - (2 ^ 63)"
definition i64_max :: int where "i64_max = 2 ^ 63 - 1"
definition u64_max :: int where "u64_max = 2 ^ 64 - 1"

definition parse_i64_from_str :: "string \<Rightarrow> string \<Rightarrow> NGValueCastError + u64" where
  "parse_i64_from_str target s =
     (let st = trim s
      in if st = [] then Inl (ParseError target st)
         else case i64_from_str_radix 10 st of
           Some n \<Rightarrow> Inr n
         | None \<Rightarrow>
             let (sign, rest) = (case st of CHR ''+'' # r \<Rightarrow> (1, r) | CHR ''-'' # r \<Rightarrow> (- 1, r) | _ \<Rightarrow> (1 :: int, st))
             in case strip_hex rest of
                  Some hex \<Rightarrow>
                    (case u64_from_str_radix 16 (trim hex) of
                       None \<Rightarrow> Inl (ParseError target st)
                     | Some u \<Rightarrow>
                         let signed = sign * uint u
                         in if signed < i64_min \<or> signed > i64_max then Inl (OutOfRange target)
                            else Inr (word_of_int signed))
                | None \<Rightarrow>
                    res_bind (parse_f64_from_str target st) (\<lambda>f.
                      let r = f64_round f
                      in if fp_lt r (f64_of_int i64_min) \<or> fp_lt (f64_of_int i64_max) r then Inl (OutOfRange target)
                         else Inr (word_of_int (fp_as_int i64_min i64_max r))))"

definition parse_u64_from_str :: "string \<Rightarrow> string \<Rightarrow> NGValueCastError + u64" where
  "parse_u64_from_str target s =
     (let st = trim s
      in if st = [] then Inl (ParseError target st)
         else case u64_from_str_radix 10 st of
           Some n \<Rightarrow> Inr n
         | None \<Rightarrow>
             (case strip_hex st of
                Some hex \<Rightarrow>
                  (case u64_from_str_radix 16 (trim hex) of None \<Rightarrow> Inl (ParseError target st) | Some n \<Rightarrow> Inr n)
              | None \<Rightarrow>
                  res_bind (parse_f64_from_str target st) (\<lambda>f.
                    let r = f64_round f
                    in if fp_lt r (f64_of_int 0) \<or> fp_lt (f64_of_int u64_max) r then Inl (OutOfRange target)
                       else Inr (word_of_int (fp_as_int 0 u64_max r)))))"

section \<open>Casts to integers\<close>

text \<open>The bounds of \<open>iN\<close> and \<open>uN\<close>, and \<open>iN::try_from\<close>, \<open>uN::try_from\<close> of an integer.\<close>

definition smin :: "'a::len itself \<Rightarrow> int" where "smin _ = - (2 ^ (LENGTH('a) - 1))"
definition smax :: "'a::len itself \<Rightarrow> int" where "smax _ = 2 ^ (LENGTH('a) - 1) - 1"
definition umax :: "'a::len itself \<Rightarrow> int" where "umax _ = 2 ^ LENGTH('a) - 1"

definition narrow :: "int \<Rightarrow> int \<Rightarrow> int \<Rightarrow> 'a::len word option" where
  "narrow lo hi i = (if lo \<le> i \<and> i \<le> hi then Some (word_of_int i) else None)"

definition or_range :: "string \<Rightarrow> 'b option \<Rightarrow> NGValueCastError + 'b" where
  "or_range target r = (case r of None \<Rightarrow> Inl (OutOfRange target) | Some x \<Rightarrow> Inr x)"

text \<open>The float branch of the integer casts: \<open>r\<close> is the rounded number.\<close>

definition float_to_int :: "string \<Rightarrow> int \<Rightarrow> int \<Rightarrow> fp \<Rightarrow> NGValueCastError + 'a::len word" where
  "float_to_int target lo hi r =
     (if \<not> is_finite r then Inl NotFinite
      else if fp_le (f64_of_int lo) r \<and> fp_le r (f64_of_int hi) then Inr (word_of_int (fp_as_int lo hi r))
      else Inl (OutOfRange target))"

definition binary_be :: "string \<Rightarrow> bytes \<Rightarrow> NGValueCastError + 'a::len word" where
  "binary_be target b =
     (let n = LENGTH('a) div 8
      in if n \<le> length b then Inr (be_word (take n b))
         else Inl (InvalidBinaryLength target (int_to_string (int n)) (length b)))"

text \<open>The eight integer casts have one shape; a widening that the source writes as \<open>as\<close> is the
  conversion that cannot fail.\<close>

fun int_try_from ::
    "string \<Rightarrow> int \<Rightarrow> int \<Rightarrow> (string \<Rightarrow> string \<Rightarrow> NGValueCastError + int) \<Rightarrow> NGValue \<Rightarrow> NGValueCastError + 'a::len word" where
  "int_try_from target lo hi parse (Boolean x) = Inr (if x then 1 else 0)"
| "int_try_from target lo hi parse (Int8 x) = or_range target (narrow lo hi (sint x))"
| "int_try_from target lo hi parse (UInt8 x) = or_range target (narrow lo hi (uint x))"
| "int_try_from target lo hi parse (Int16 x) = or_range target (narrow lo hi (sint x))"
| "int_try_from target lo hi parse (UInt16 x) = or_range target (narrow lo hi (uint x))"
| "int_try_from target lo hi parse (Int32 x) = or_range target (narrow lo hi (sint x))"
| "int_try_from target lo hi parse (UInt32 x) = or_range target (narrow lo hi (uint x))"
| "int_try_from target lo hi parse (Int64 x) = or_range target (narrow lo hi (sint x))"
| "int_try_from target lo hi parse (UInt64 x) = or_range target (narrow lo hi (uint x))"
| "int_try_from target lo hi parse (Float32 x) = float_to_int target lo hi (f64_round (f32_as_f64 x))"
| "int_try_from target lo hi parse (Float64 x) = float_to_int target lo hi (f64_round x)"
| "int_try_from target lo hi parse (Timestamp ms) = or_range target (narrow lo hi (sint ms))"
| "int_try_from target lo hi parse (Str s) =
     res_bind (parse target s) (\<lambda>n. or_range target (narrow lo hi n))"
| "int_try_from target lo hi parse (Binary b) = binary_be target b"

definition parse_signed :: "string \<Rightarrow> string \<Rightarrow> NGValueCastError + int" where
  "parse_signed target s = res_bind (parse_i64_from_str target s) (\<lambda>n. Inr (sint n))"

definition parse_unsigned :: "string \<Rightarrow> string \<Rightarrow> NGValueCastError + int" where
  "parse_unsigned target s = res_bind (parse_u64_from_str target s) (\<lambda>n. Inr (uint n))"

definition i8_try_from :: "NGValue \<Rightarrow> NGValueCastError + 8 word" where
  "i8_try_from = int_try_from ''i8'' (smin TYPE(8)) (smax TYPE(8)) parse_signed"
definition u8_try_from :: "NGValue \<Rightarrow> NGValueCastError + u8" where
  "u8_try_from = int_try_from ''u8'' 0 (umax TYPE(8)) parse_unsigned"
definition i16_try_from :: "NGValue \<Rightarrow> NGValueCastError + 16 word" where
  "i16_try_from = int_try_from ''i16'' (smin TYPE(16)) (smax TYPE(16)) parse_signed"
definition u16_try_from :: "NGValue \<Rightarrow> NGValueCastError + u16" where
  "u16_try_from = int_try_from ''u16'' 0 (umax TYPE(16)) parse_unsigned"
definition i32_try_from :: "NGValue \<Rightarrow> NGValueCastError + 32 word" where
  "i32_try_from = int_try_from ''i32'' (smin TYPE(32)) (smax TYPE(32)) parse_signed"
definition u32_try_from :: "NGValue \<Rightarrow> NGValueCastError + u32" where
  "u32_try_from = int_try_from ''u32'' 0 (umax TYPE(32)) parse_unsigned"
definition i64_try_from :: "NGValue \<Rightarrow> NGValueCastError + 64 word" where
  "i64_try_from = int_try_from ''i64'' (smin TYPE(64)) (smax TYPE(64)) parse_signed"
definition u64_try_from :: "NGValue \<Rightarrow> NGValueCastError + u64" where
  "u64_try_from = int_try_from ''u64'' 0 (umax TYPE(64)) parse_unsigned"

section \<open>Casts to the other primitives\<close>

fun bool_try_from :: "NGValue \<Rightarrow> NGValueCastError + bool" where
  "bool_try_from (Boolean b) = Inr b"
| "bool_try_from (Int8 x) = Inr (x \<noteq> 0)"
| "bool_try_from (UInt8 x) = Inr (x \<noteq> 0)"
| "bool_try_from (Int16 x) = Inr (x \<noteq> 0)"
| "bool_try_from (UInt16 x) = Inr (x \<noteq> 0)"
| "bool_try_from (Int32 x) = Inr (x \<noteq> 0)"
| "bool_try_from (UInt32 x) = Inr (x \<noteq> 0)"
| "bool_try_from (Int64 x) = Inr (x \<noteq> 0)"
| "bool_try_from (UInt64 x) = Inr (x \<noteq> 0)"
| "bool_try_from (Float32 x) =
     (let f = f32_as_f64 x in if \<not> is_finite f then Inl NotFinite else Inr (fp_val f \<noteq> 0))"
| "bool_try_from (Float64 x) = (if \<not> is_finite x then Inl NotFinite else Inr (fp_val x \<noteq> 0))"
| "bool_try_from (Timestamp ms) = Inr (ms \<noteq> 0)"
| "bool_try_from (Str s) =
     (case parse_bool_from_str s of None \<Rightarrow> Inl (ParseError ''bool'' s) | Some b \<Rightarrow> Inr b)"
| "bool_try_from (Binary b) = Inr (list_ex (\<lambda>x. x \<noteq> 0) b)"

fun f64_value :: "NGValue \<Rightarrow> NGValueCastError + fp" where
  "f64_value (Boolean x) = Inr (f64_of_int (if x then 1 else 0))"
| "f64_value (Int8 x) = Inr (f64_of_int (sint x))"
| "f64_value (UInt8 x) = Inr (f64_of_int (uint x))"
| "f64_value (Int16 x) = Inr (f64_of_int (sint x))"
| "f64_value (UInt16 x) = Inr (f64_of_int (uint x))"
| "f64_value (Int32 x) = Inr (f64_of_int (sint x))"
| "f64_value (UInt32 x) = Inr (f64_of_int (uint x))"
| "f64_value (Int64 x) = Inr (f64_of_int (sint x))"
| "f64_value (UInt64 x) = Inr (f64_of_int (uint x))"
| "f64_value (Float32 x) = Inr (f32_as_f64 x)"
| "f64_value (Float64 x) = Inr x"
| "f64_value (Timestamp ms) = Inr (f64_of_int (sint ms))"
| "f64_value (Str s) = parse_f64_from_str ''f64'' s"
| "f64_value (Binary b) =
     (if length b = 4 then Inr (f32_as_f64 (f32_of_bits (be_word b)))
      else if length b = 8 then Inr (f64_of_bits (be_word b))
      else Inl (InvalidBinaryLength ''f64'' ''4 or 8'' (length b)))"

definition f64_try_from :: "NGValue \<Rightarrow> NGValueCastError + fp" where
  "f64_try_from v = res_bind (f64_value v) (\<lambda>f. if \<not> is_finite f then Inl NotFinite else Inr f)"

definition f32_max :: fp where "f32_max = Fin False (2 ^ 24 - 1) 104"

definition f32_try_from :: "NGValue \<Rightarrow> NGValueCastError + fp" where
  "f32_try_from v =
     res_bind (f64_try_from v) (\<lambda>f.
       if fp_lt f (f32_as_f64 (fp_neg f32_max)) \<or> fp_lt (f32_as_f64 f32_max) f then Inl (OutOfRange ''f32'')
       else Inr (f64_as_f32 f))"

text \<open>\<open>TryFrom for String\<close>: Base64 and RFC 3339 text come from other crates.\<close>

fun string_try_from :: "(bytes \<Rightarrow> string) \<Rightarrow> (64 word \<Rightarrow> string option) \<Rightarrow> NGValue \<Rightarrow> string" where
  "string_try_from base64 rfc3339 (Str s) = s"
| "string_try_from base64 rfc3339 (Binary b) = base64 b"
| "string_try_from base64 rfc3339 (Timestamp ms) =
     (case rfc3339 ms of Some t \<Rightarrow> t | None \<Rightarrow> int_to_string (sint ms))"
| "string_try_from base64 rfc3339 (Boolean b) = (if b then ''true'' else ''false'')"
| "string_try_from base64 rfc3339 (Int8 n) = int_to_string (sint n)"
| "string_try_from base64 rfc3339 (UInt8 n) = int_to_string (uint n)"
| "string_try_from base64 rfc3339 (Int16 n) = int_to_string (sint n)"
| "string_try_from base64 rfc3339 (UInt16 n) = int_to_string (uint n)"
| "string_try_from base64 rfc3339 (Int32 n) = int_to_string (sint n)"
| "string_try_from base64 rfc3339 (UInt32 n) = int_to_string (uint n)"
| "string_try_from base64 rfc3339 (Int64 n) = int_to_string (sint n)"
| "string_try_from base64 rfc3339 (UInt64 n) = int_to_string (uint n)"
| "string_try_from base64 rfc3339 (Float32 n) = fp_to_string F32 n"
| "string_try_from base64 rfc3339 (Float64 n) = fp_to_string F64 n"

text \<open>\<open>TryFrom for Bytes\<close>, the canonical big-endian encoding.\<close>

fun bytes_try_from :: "NGValue \<Rightarrow> bytes" where
  "bytes_try_from (Binary b) = b"
| "bytes_try_from (Str s) = str_bytes s"
| "bytes_try_from (Boolean b) = [if b then 1 else 0]"
| "bytes_try_from (Int8 n) = [n]"
| "bytes_try_from (UInt8 n) = [n]"
| "bytes_try_from (Int16 n) = be_bytes n"
| "bytes_try_from (UInt16 n) = be_bytes n"
| "bytes_try_from (Int32 n) = be_bytes n"
| "bytes_try_from (UInt32 n) = be_bytes n"
| "bytes_try_from (Int64 n) = be_bytes n"
| "bytes_try_from (UInt64 n) = be_bytes n"
| "bytes_try_from (Float32 n) = be_bytes (f32_to_bits n)"
| "bytes_try_from (Float64 n) = be_bytes (f64_to_bits n)"
| "bytes_try_from (Timestamp ms) = be_bytes ms"

section \<open>Printed integers are read back\<close>

theorem parse_printed_i64: "i64_try_from (Str (string_try_from b64 rfc (Int64 w))) = Inr w"
  using sint_greater_eq [of w] sint_less [of w]
  by (simp add: i64_try_from_def parse_signed_def parse_i64_from_str_def i64_print_parse or_range_def narrow_def
      smin_def smax_def)

theorem parse_printed_u64: "u64_try_from (Str (string_try_from b64 rfc (UInt64 w))) = Inr w"
  using uint_lt2p [of w]
  by (simp add: u64_try_from_def parse_unsigned_def parse_u64_from_str_def u64_print_parse or_range_def narrow_def
      umax_def)

text \<open>A conversion to \<open>f32\<close> gives a number an \<open>f32\<close> has.\<close>

lemma f32_try_from_bits: "f32_try_from v = Inr x \<Longrightarrow> x \<in> range f32_of_bits"
proof -
  assume "f32_try_from v = Inr x"
  then obtain f where "is_finite f" "x = f64_as_f32 f"
    by (auto simp: f32_try_from_def f64_try_from_def res_bind_eq_Inr split: if_splits)
  then show ?thesis using fp_round_f32_bits by (cases f) auto
qed

end
