(* ===== verification/Sdk_Codec.thy ===== *)
theory Sdk_Codec
  imports Sdk_Value
begin

text \<open>
  The transform of a point (\<open>ng-gateway-sdk/src/transform.rs\<close>) and the value codec
  (\<open>ng-gateway-sdk/src/southward/codec.rs\<close>): coercion of a decoded wire value into the logical type of a
  point with its transform, and the inverse for writes.  The lemmas show the mapping of integers
  without a transform is exact or an error in both directions, that a value written and read back
  is the value, that the affine transform and its inverse agree on integers, and the
  behaviour at the upper bound of the 64-bit types.
\<close>

section \<open>Transform\<close>

record Transform =
  transform_data_type :: "DataType option"
  transform_scale :: "fp option"
  transform_offset :: "fp option"
  transform_negate :: bool

definition is_identity_numeric :: "Transform \<Rightarrow> bool" where
  "is_identity_numeric t \<longleftrightarrow>
     \<not> transform_negate t \<and> transform_scale t = None \<and> transform_offset t = None"

definition resolve_logical_datatype :: "Transform \<Rightarrow> DataType \<Rightarrow> DataType" where
  "resolve_logical_datatype t wire_dt =
     (case transform_data_type t of None \<Rightarrow> wire_dt | Some dt \<Rightarrow> dt)"

definition apply_f64 :: "Transform \<Rightarrow> fp \<Rightarrow> fp" where
  "apply_f64 t x =
     (let y = (case transform_scale t of None \<Rightarrow> x | Some s \<Rightarrow> f64_mul x s);
          y = (case transform_offset t of None \<Rightarrow> y | Some k \<Rightarrow> f64_add y k)
      in if transform_negate t then fp_neg y else y)"

definition inverse_f64 :: "Transform \<Rightarrow> fp \<Rightarrow> fp" where
  "inverse_f64 t y =
     (let x = (if transform_negate t then fp_neg y else y);
          x = (case transform_offset t of None \<Rightarrow> x | Some k \<Rightarrow> f64_sub x k);
          s = (case transform_scale t of None \<Rightarrow> f64_of_int 1 | Some s \<Rightarrow> s)
      in f64_div x s)"

section \<open>Logical values to wire values\<close>

definition F64_EXACT_INT_MAX :: int where
  "F64_EXACT_INT_MAX = 9007199254740992"

definition map_cast :: "string \<Rightarrow> NGValueCastError + 'a \<Rightarrow> DriverError + 'a" where
  "map_cast msg r = (case r of Inl _ \<Rightarrow> Inl (ValidationError msg) | Inr x \<Rightarrow> Inr x)"

definition ok_or :: "DriverError \<Rightarrow> 'a option \<Rightarrow> DriverError + 'a" where
  "ok_or e r = (case r of None \<Rightarrow> Inl e | Some x \<Rightarrow> Inr x)"

definition non_numeric_logical_to_wire ::
    "NGValue \<Rightarrow> DataType \<Rightarrow> DataType \<Rightarrow> Transform \<Rightarrow> DriverError + NGValue" where
  "non_numeric_logical_to_wire value logical_dt wire_dt t =
     (if \<not> is_identity_numeric t
      then Inl (ConfigurationError ''non-numeric downlink cannot apply numeric transform'')
      else if logical_dt \<noteq> wire_dt
      then Inl (ValidationError ''non-numeric downlink does not support logical/wire datatype mapping'')
      else Inr value)"

definition numeric_identity_logical_to_wire ::
    "NGValue \<Rightarrow> DataType \<Rightarrow> DataType \<Rightarrow> DriverError + NGValue" where
  "numeric_identity_logical_to_wire value logical_dt wire_dt =
     (if logical_dt = wire_dt then Inr value
      else
        let cast_err = ''downlink datatype cast failed''
        in case wire_dt of
             T_Int8 \<Rightarrow> res_bind (map_cast cast_err (i8_try_from value)) (\<lambda>x. Inr (Int8 x))
           | T_UInt8 \<Rightarrow> res_bind (map_cast cast_err (u8_try_from value)) (\<lambda>x. Inr (UInt8 x))
           | T_Int16 \<Rightarrow> res_bind (map_cast cast_err (i16_try_from value)) (\<lambda>x. Inr (Int16 x))
           | T_UInt16 \<Rightarrow> res_bind (map_cast cast_err (u16_try_from value)) (\<lambda>x. Inr (UInt16 x))
           | T_Int32 \<Rightarrow> res_bind (map_cast cast_err (i32_try_from value)) (\<lambda>x. Inr (Int32 x))
           | T_UInt32 \<Rightarrow> res_bind (map_cast cast_err (u32_try_from value)) (\<lambda>x. Inr (UInt32 x))
           | T_Int64 \<Rightarrow> res_bind (map_cast cast_err (i64_try_from value)) (\<lambda>x. Inr (Int64 x))
           | T_UInt64 \<Rightarrow> res_bind (map_cast cast_err (u64_try_from value)) (\<lambda>x. Inr (UInt64 x))
           | T_Float32 \<Rightarrow> res_bind (map_cast cast_err (f32_try_from value)) (\<lambda>x. Inr (Float32 x))
           | T_Float64 \<Rightarrow> res_bind (map_cast cast_err (f64_try_from value)) (\<lambda>x. Inr (Float64 x))
           | _ \<Rightarrow> Inl (ConfigurationError ''unsupported wire numeric data type''))"

definition numeric_value_to_f64_strict :: "NGValue \<Rightarrow> DataType \<Rightarrow> DriverError + fp" where
  "numeric_value_to_f64_strict value logical_dt =
     (let conv = ''numeric downlink value conversion failed''
      in res_bind
           (case logical_dt of
              T_UInt64 \<Rightarrow>
                res_bind (map_cast conv (u64_try_from value)) (\<lambda>v.
                  if uint v > F64_EXACT_INT_MAX
                  then Inl (ValidationError ''numeric downlink value too large for safe transform (UInt64 > 2^53)'')
                  else Inr (f64_of_int (uint v)))
            | T_Int64 \<Rightarrow>
                res_bind (map_cast conv (i64_try_from value)) (\<lambda>v.
                  if \<bar>sint v\<bar> > F64_EXACT_INT_MAX
                  then Inl (ValidationError ''numeric downlink value too large for safe transform (Int64 magnitude > 2^53)'')
                  else Inr (f64_of_int (sint v)))
            | _ \<Rightarrow> map_cast conv (f64_try_from value))
           (\<lambda>y. if is_finite y then Inr y else Inl (ValidationError ''numeric downlink value must be finite'')))"

definition inverse_transform_f64_strict :: "fp \<Rightarrow> Transform \<Rightarrow> DriverError + fp" where
  "inverse_transform_f64_strict y t =
     (if (case transform_scale t of Some s \<Rightarrow> is_finite s \<and> fp_val s = 0 | None \<Rightarrow> False)
      then Inl (ConfigurationError ''transform_scale must not be 0.0 for downlink inverse transform'')
      else
        let x = inverse_f64 t y
        in if is_finite x then Inr x
           else Inl (ValidationError ''numeric downlink inverse transform produced non-finite value''))"

text \<open>\<open>(r >= lo && r <= hi).then(|| r as iN)\<close> for the rounded \<open>r\<close>.\<close>

definition box_int :: "int \<Rightarrow> int \<Rightarrow> fp \<Rightarrow> 'a::len word option" where
  "box_int lo hi r =
     (if fp_le (f64_of_int lo) r \<and> fp_le r (f64_of_int hi) then Some (word_of_int (fp_as_int lo hi r)) else None)"

definition box_f64_to_wire_strict :: "fp \<Rightarrow> DataType \<Rightarrow> DriverError + NGValue" where
  "box_f64_to_wire_strict x wire_dt =
     (let r = f64_round x; big = f64_of_int F64_EXACT_INT_MAX;
          out = (case wire_dt of
              T_Int8 \<Rightarrow> map_option Int8 (box_int (smin TYPE(8)) (smax TYPE(8)) r)
            | T_UInt8 \<Rightarrow> map_option UInt8 (box_int 0 (umax TYPE(8)) r)
            | T_Int16 \<Rightarrow> map_option Int16 (box_int (smin TYPE(16)) (smax TYPE(16)) r)
            | T_UInt16 \<Rightarrow> map_option UInt16 (box_int 0 (umax TYPE(16)) r)
            | T_Int32 \<Rightarrow> map_option Int32 (box_int (smin TYPE(32)) (smax TYPE(32)) r)
            | T_UInt32 \<Rightarrow> map_option UInt32 (box_int 0 (umax TYPE(32)) r)
            | T_Int64 \<Rightarrow>
                (if fp_lt r (fp_neg big) \<or> fp_lt big r
                    \<or> fp_lt r (f64_of_int i64_min) \<or> fp_lt (f64_of_int i64_max) r then None
                 else Some (Int64 (word_of_int (fp_as_int i64_min i64_max r))))
            | T_UInt64 \<Rightarrow>
                (if fp_lt r (f64_of_int 0) \<or> fp_lt big r then None
                 else Some (UInt64 (word_of_int (fp_as_int 0 u64_max r))))
            | T_Float32 \<Rightarrow> Some (Float32 (f64_as_f32 x))
            | T_Float64 \<Rightarrow> Some (Float64 x)
            | _ \<Rightarrow> None)
      in if wire_dt \<in> {T_Boolean, T_String, T_Binary, T_Timestamp}
         then Inl (ConfigurationError ''wire datatype must be numeric here'')
         else ok_or (ValidationError ''downlink value out of range after inverse'') out)"

definition logical_to_wire_value ::
    "NGValue \<Rightarrow> DataType \<Rightarrow> DataType \<Rightarrow> Transform \<Rightarrow> DriverError + NGValue" where
  "logical_to_wire_value value logical_dt wire_dt t =
     (if \<not> validate_datatype value logical_dt then Inl (ValidationError ''type mismatch: expected logical'')
      else if logical_dt = wire_dt \<and> is_identity_numeric t then Inr value
      else if \<not> is_numeric logical_dt \<or> \<not> is_numeric wire_dt
      then non_numeric_logical_to_wire value logical_dt wire_dt t
      else if is_identity_numeric t then numeric_identity_logical_to_wire value logical_dt wire_dt
      else
        res_bind (numeric_value_to_f64_strict value logical_dt) (\<lambda>y.
          res_bind (inverse_transform_f64_strict y t) (\<lambda>x. box_f64_to_wire_strict x wire_dt)))"

section \<open>Wire values to logical values\<close>

definition should_apply_numeric_transform :: "DataType \<Rightarrow> Transform \<Rightarrow> bool" where
  "should_apply_numeric_transform expected t \<longleftrightarrow> is_numeric expected \<and> \<not> is_identity_numeric t"

definition apply_transform_f64_if_needed :: "fp \<Rightarrow> DataType \<Rightarrow> Transform \<Rightarrow> fp" where
  "apply_transform_f64_if_needed x expected t =
     (if should_apply_numeric_transform expected t then apply_f64 t x else x)"

text \<open>Rounding, the test for finiteness and the range test of the integer targets.\<close>

definition coerce_int :: "int \<Rightarrow> int \<Rightarrow> fp \<Rightarrow> 'a::len word option" where
  "coerce_int lo hi value =
     (let v = f64_round value in if \<not> is_finite v then None else box_int lo hi v)"

definition coerce_f64_to_value_after_transform :: "fp \<Rightarrow> DataType \<Rightarrow> NGValue option" where
  "coerce_f64_to_value_after_transform value expected =
     (case expected of
        T_Boolean \<Rightarrow> if \<not> is_finite value then None else Some (Boolean (fp_val value \<noteq> 0))
      | T_Int8 \<Rightarrow> map_option Int8 (coerce_int (smin TYPE(8)) (smax TYPE(8)) value)
      | T_UInt8 \<Rightarrow> map_option UInt8 (coerce_int 0 (umax TYPE(8)) value)
      | T_Int16 \<Rightarrow> map_option Int16 (coerce_int (smin TYPE(16)) (smax TYPE(16)) value)
      | T_UInt16 \<Rightarrow> map_option UInt16 (coerce_int 0 (umax TYPE(16)) value)
      | T_Int32 \<Rightarrow> map_option Int32 (coerce_int (smin TYPE(32)) (smax TYPE(32)) value)
      | T_UInt32 \<Rightarrow> map_option UInt32 (coerce_int 0 (umax TYPE(32)) value)
      | T_Int64 \<Rightarrow> map_option Int64 (coerce_int (smin TYPE(64)) (smax TYPE(64)) value)
      | T_UInt64 \<Rightarrow> map_option UInt64 (coerce_int 0 (umax TYPE(64)) value)
      | T_Float32 \<Rightarrow> Some (Float32 (f64_as_f32 value))
      | T_Float64 \<Rightarrow> Some (Float64 value)
      | T_String \<Rightarrow> Some (Str (fp_to_string F64 value))
      | T_Binary \<Rightarrow> Some (Binary (be_bytes (f64_to_bits value)))
      | T_Timestamp \<Rightarrow> map_option Timestamp (coerce_int (smin TYPE(64)) (smax TYPE(64)) value))"

definition coerce_f64_to_value :: "fp \<Rightarrow> DataType \<Rightarrow> Transform \<Rightarrow> NGValue option" where
  "coerce_f64_to_value value expected t =
     coerce_f64_to_value_after_transform (apply_transform_f64_if_needed value expected t) expected"

definition coerce_bool_to_value :: "bool \<Rightarrow> DataType \<Rightarrow> Transform \<Rightarrow> NGValue option" where
  "coerce_bool_to_value value expected t =
     (case expected of
        T_Boolean \<Rightarrow> Some (Boolean value)
      | T_String \<Rightarrow> Some (Str (if value then ''true'' else ''false''))
      | T_Binary \<Rightarrow> Some (Binary (if value then [1] else [0]))
      | T_Timestamp \<Rightarrow> None
      | _ \<Rightarrow> coerce_f64_to_value (f64_of_int (if value then 1 else 0)) expected t)"

definition coerce_u64_to_value :: "u64 \<Rightarrow> DataType \<Rightarrow> Transform \<Rightarrow> NGValue option" where
  "coerce_u64_to_value value expected t =
     (if should_apply_numeric_transform expected t
      then coerce_f64_to_value_after_transform (apply_f64 t (f64_of_int (uint value))) expected
      else case expected of
        T_Boolean \<Rightarrow> Some (Boolean (value \<noteq> 0))
      | T_UInt8 \<Rightarrow> map_option UInt8 (narrow 0 (umax TYPE(8)) (uint value))
      | T_UInt16 \<Rightarrow> map_option UInt16 (narrow 0 (umax TYPE(16)) (uint value))
      | T_UInt32 \<Rightarrow> map_option UInt32 (narrow 0 (umax TYPE(32)) (uint value))
      | T_UInt64 \<Rightarrow> Some (UInt64 value)
      | T_Int8 \<Rightarrow> map_option Int8 (narrow (smin TYPE(8)) (smax TYPE(8)) (uint value))
      | T_Int16 \<Rightarrow> map_option Int16 (narrow (smin TYPE(16)) (smax TYPE(16)) (uint value))
      | T_Int32 \<Rightarrow> map_option Int32 (narrow (smin TYPE(32)) (smax TYPE(32)) (uint value))
      | T_Int64 \<Rightarrow> map_option Int64 (narrow (smin TYPE(64)) (smax TYPE(64)) (uint value))
      | T_Float32 \<Rightarrow> Some (Float32 (f32_of_int (uint value)))
      | T_Float64 \<Rightarrow> Some (Float64 (f64_of_int (uint value)))
      | T_String \<Rightarrow> Some (Str (int_to_string (uint value)))
      | T_Binary \<Rightarrow> Some (Binary (be_bytes value))
      | T_Timestamp \<Rightarrow> if uint value > i64_max then None else Some (Timestamp value))"

definition coerce_i64_to_value :: "64 word \<Rightarrow> DataType \<Rightarrow> Transform \<Rightarrow> NGValue option" where
  "coerce_i64_to_value value expected t =
     (if should_apply_numeric_transform expected t
      then coerce_f64_to_value_after_transform (apply_f64 t (f64_of_int (sint value))) expected
      else case expected of
        T_Boolean \<Rightarrow> Some (Boolean (value \<noteq> 0))
      | T_Int8 \<Rightarrow> map_option Int8 (narrow (smin TYPE(8)) (smax TYPE(8)) (sint value))
      | T_Int16 \<Rightarrow> map_option Int16 (narrow (smin TYPE(16)) (smax TYPE(16)) (sint value))
      | T_Int32 \<Rightarrow> map_option Int32 (narrow (smin TYPE(32)) (smax TYPE(32)) (sint value))
      | T_Int64 \<Rightarrow> Some (Int64 value)
      | T_UInt8 \<Rightarrow> map_option UInt8 (narrow 0 (umax TYPE(8)) (sint value))
      | T_UInt16 \<Rightarrow> map_option UInt16 (narrow 0 (umax TYPE(16)) (sint value))
      | T_UInt32 \<Rightarrow> map_option UInt32 (narrow 0 (umax TYPE(32)) (sint value))
      | T_UInt64 \<Rightarrow> map_option UInt64 (narrow 0 (umax TYPE(64)) (sint value))
      | T_Float32 \<Rightarrow> Some (Float32 (f32_of_int (sint value)))
      | T_Float64 \<Rightarrow> Some (Float64 (f64_of_int (sint value)))
      | T_String \<Rightarrow> Some (Str (int_to_string (sint value)))
      | T_Binary \<Rightarrow> Some (Binary (be_bytes value))
      | T_Timestamp \<Rightarrow> Some (Timestamp value))"

text \<open>The dispatch of \<open>wire_to_logical_value\<close> on the variant of the value.\<close>

fun coerce_value :: "NGValue \<Rightarrow> DataType \<Rightarrow> Transform \<Rightarrow> NGValue option" where
  "coerce_value (Boolean b) dt t = coerce_bool_to_value b dt t"
| "coerce_value (Int8 v) dt t = coerce_i64_to_value (scast v) dt t"
| "coerce_value (UInt8 v) dt t = coerce_u64_to_value (ucast v) dt t"
| "coerce_value (Int16 v) dt t = coerce_i64_to_value (scast v) dt t"
| "coerce_value (UInt16 v) dt t = coerce_u64_to_value (ucast v) dt t"
| "coerce_value (Int32 v) dt t = coerce_i64_to_value (scast v) dt t"
| "coerce_value (UInt32 v) dt t = coerce_u64_to_value (ucast v) dt t"
| "coerce_value (Int64 v) dt t = coerce_i64_to_value v dt t"
| "coerce_value (UInt64 v) dt t = coerce_u64_to_value v dt t"
| "coerce_value (Float32 v) dt t = coerce_f64_to_value (f32_as_f64 v) dt t"
| "coerce_value (Float64 v) dt t = coerce_f64_to_value v dt t"
| "coerce_value (Timestamp ms) dt t = coerce_i64_to_value ms dt t"
| "coerce_value (Str s) dt t =
     (case f64_try_from (Str s) of Inl _ \<Rightarrow> None | Inr n \<Rightarrow> coerce_f64_to_value n dt t)"
| "coerce_value (Binary b) dt t =
     (case f64_try_from (Binary b) of Inl _ \<Rightarrow> None | Inr n \<Rightarrow> coerce_f64_to_value n dt t)"

definition wire_to_logical_value ::
    "NGValue \<Rightarrow> DataType \<Rightarrow> DataType \<Rightarrow> Transform \<Rightarrow> DriverError + NGValue" where
  "wire_to_logical_value value wire_dt logical_dt t =
     (if \<not> validate_datatype value wire_dt then Inl (ValidationError ''type mismatch: expected wire'')
      else if \<not> is_numeric logical_dt then
        (if \<not> is_identity_numeric t
         then Inl (ConfigurationError ''non-numeric uplink cannot apply numeric transform'')
         else if wire_dt \<noteq> logical_dt
         then Inl (ValidationError ''non-numeric uplink does not support wire/logical datatype mapping'')
         else Inr value)
      else if is_identity_numeric t \<and> wire_dt = logical_dt then Inr value
      else if \<not> is_identity_numeric t
              \<and> (case value of UInt64 v \<Rightarrow> uint v > F64_EXACT_INT_MAX
                 | Int64 v \<Rightarrow> \<bar>sint v\<bar> > F64_EXACT_INT_MAX | _ \<Rightarrow> False)
      then Inl (ValidationError ''numeric uplink value too large for safe transform'')
      else ok_or (ValidationError ''uplink wire->logical coercion failed'') (coerce_value value logical_dt t))"

section \<open>Hexadecimal text\<close>

definition lut :: string where "lut = ''0123456789abcdef''"

definition bytes_to_hex_string :: "bytes \<Rightarrow> string" where
  "bytes_to_hex_string bs = ''0x'' @ concat (map (\<lambda>b. [lut ! unat (drop_bit 4 b), lut ! unat (b AND 0x0F)]) bs)"

fun hex_pairs :: "string \<Rightarrow> bytes option" where
  "hex_pairs (h # l # r) =
     (case (to_digit 16 h, to_digit 16 l) of
        (Some hi, Some lo) \<Rightarrow> map_option ((#) (push_bit 4 (of_nat hi) OR (of_nat lo AND 0x0F))) (hex_pairs r)
      | _ \<Rightarrow> None)"
| "hex_pairs [h] = map_option (\<lambda>hi. [push_bit 4 (of_nat hi)]) (to_digit 16 h)"
| "hex_pairs [] = Some []"

definition hex_string_to_bytes :: "string \<Rightarrow> bytes option" where
  "hex_string_to_bytes s =
     (let st = trim s;
          hex = (if take 2 st = ''0x'' \<or> take 2 st = ''0X'' then drop 2 st else st)
      in hex_pairs hex)"

subsection \<open>Printed bytes are read back\<close>

lemma lut_digit: "n < 16 \<Longrightarrow> to_digit 16 (lut ! n) = Some n \<and> visible (lut ! n)"
proof -
  have "\<forall>n \<in> set [0..<16]. to_digit 16 (lut ! n) = Some n \<and> visible (lut ! n)" by code_simp
  then show "n < 16 \<Longrightarrow> ?thesis" by simp
qed

lemma nibbles_less: "unat (drop_bit 4 (b :: u8)) < 16" "unat (b AND 0x0F) < 16"
proof -
  have "unat b < 256" using unsigned_less [of b] by simp
  then show "unat (drop_bit 4 b) < 16" by (simp add: drop_bit_eq_div unat_div)
  have "unat (b AND 0x0F) \<le> unat (0x0F :: u8)" by (rule word_le_nat_alt [THEN iffD1]) (rule word_and_le1)
  then show "unat (b AND 0x0F) < 16" by simp
qed

lemma nibble_digits:
  "to_digit 16 (lut ! unat (drop_bit 4 b)) = Some (unat (drop_bit 4 (b :: u8)))" "visible (lut ! unat (drop_bit 4 b))"
  "to_digit 16 (lut ! unat (b AND 0x0F)) = Some (unat (b AND 0x0F))" "visible (lut ! unat (b AND 0x0F))"
  using lut_digit [OF nibbles_less(1)] lut_digit [OF nibbles_less(2)] by simp_all

lemma join_nibbles: "push_bit 4 (drop_bit 4 b) OR (b AND 0x0F) = (b :: u8)"
proof -
  have m: "(0x0F :: u8) = mask 4" by (simp add: mask_eq_exp_minus_1)
  show ?thesis unfolding m by (rule bit_word_eqI) (auto simp: bit_simps)
qed

lemma hex_pairs_print: "hex_pairs (concat (map (\<lambda>b. [lut ! unat (drop_bit 4 b), lut ! unat (b AND 0x0F)]) bs)) = Some bs"
proof (induction bs)
  case Nil
  then show ?case by simp
next
  case (Cons b bs)
  then show ?case by (simp add: nibble_digits join_nibbles)
qed

theorem hex_text_roundtrip: "hex_string_to_bytes (bytes_to_hex_string bs) = Some bs"
proof -
  define h where "h = concat (map (\<lambda>b. [lut ! unat (drop_bit 4 b), lut ! unat (b AND 0x0F)]) bs)"
  have "trim (''0x'' @ h) = ''0x'' @ h"
  proof (rule trim_id)
    have "list_all visible h"
      by (simp add: h_def list_all_iff nibble_digits)
    then show "visible (hd (''0x'' @ h)) \<and> visible (last (''0x'' @ h))"
      by (cases "h = []") (auto simp: list_all_iff visible_def)
  qed
  then show ?thesis
    using hex_pairs_print [of bs] by (simp add: hex_string_to_bytes_def bytes_to_hex_string_def h_def)
qed

section \<open>The integer a value stands for\<close>

fun int_of :: "NGValue \<Rightarrow> int option" where
  "int_of (Boolean b) = Some (if b then 1 else 0)"
| "int_of (Int8 x) = Some (sint x)"
| "int_of (UInt8 x) = Some (uint x)"
| "int_of (Int16 x) = Some (sint x)"
| "int_of (UInt16 x) = Some (uint x)"
| "int_of (Int32 x) = Some (sint x)"
| "int_of (UInt32 x) = Some (uint x)"
| "int_of (Int64 x) = Some (sint x)"
| "int_of (UInt64 x) = Some (uint x)"
| "int_of (Timestamp x) = Some (sint x)"
| "int_of _ = None"

definition int_type :: "DataType \<Rightarrow> bool" where
  "int_type dt \<longleftrightarrow> dt \<in> {T_Int8, T_UInt8, T_Int16, T_UInt16, T_Int32, T_UInt32, T_Int64, T_UInt64}"

fun int_range :: "DataType \<Rightarrow> int \<times> int" where
  "int_range T_Int8 = (- (2 ^ 7), 2 ^ 7 - 1)"
| "int_range T_UInt8 = (0, 2 ^ 8 - 1)"
| "int_range T_Int16 = (- (2 ^ 15), 2 ^ 15 - 1)"
| "int_range T_UInt16 = (0, 2 ^ 16 - 1)"
| "int_range T_Int32 = (- (2 ^ 31), 2 ^ 31 - 1)"
| "int_range T_UInt32 = (0, 2 ^ 32 - 1)"
| "int_range T_Int64 = (- (2 ^ 63), 2 ^ 63 - 1)"
| "int_range T_UInt64 = (0, 2 ^ 64 - 1)"
| "int_range _ = (0, 1)"

definition in_range :: "DataType \<Rightarrow> int \<Rightarrow> bool" where
  "in_range dt i \<longleftrightarrow> fst (int_range dt) \<le> i \<and> i \<le> snd (int_range dt)"

text \<open>The value of type \<open>dt\<close> that stands for \<open>i\<close>.\<close>

fun int_value :: "DataType \<Rightarrow> int \<Rightarrow> NGValue" where
  "int_value T_Int8 i = Int8 (word_of_int i)"
| "int_value T_UInt8 i = UInt8 (word_of_int i)"
| "int_value T_Int16 i = Int16 (word_of_int i)"
| "int_value T_UInt16 i = UInt16 (word_of_int i)"
| "int_value T_Int32 i = Int32 (word_of_int i)"
| "int_value T_UInt32 i = UInt32 (word_of_int i)"
| "int_value T_Int64 i = Int64 (word_of_int i)"
| "int_value T_UInt64 i = UInt64 (word_of_int i)"
| "int_value _ i = Boolean (i \<noteq> 0)"

lemma bounds_simps [simp]:
  "smin TYPE(8) = - 128" "smax TYPE(8) = 127" "umax TYPE(8) = 255"
  "smin TYPE(16) = - 32768" "smax TYPE(16) = 32767" "umax TYPE(16) = 65535"
  "smin TYPE(32) = - 2147483648" "smax TYPE(32) = 2147483647" "umax TYPE(32) = 4294967295"
  "smin TYPE(64) = i64_min" "smax TYPE(64) = i64_max" "umax TYPE(64) = u64_max"
  by (simp_all add: smin_def smax_def umax_def i64_min_def i64_max_def u64_max_def)

lemma sint_bounds: "- (2 ^ (LENGTH('a) - 1)) \<le> sint (w :: 'a::len word)" "sint w < 2 ^ (LENGTH('a) - 1)"
  using sint_greater_eq [of w] sint_less [of w] by simp_all

lemma sint_word_of_int:
  "- (2 ^ (LENGTH('a) - 1)) \<le> i \<Longrightarrow> i < 2 ^ (LENGTH('a) - 1) \<Longrightarrow> sint (word_of_int i :: 'a::len word) = i"
  by (simp add: signed_of_int signed_take_bit_int_eq_self)

lemma uint_word_of_int_id: "0 \<le> i \<Longrightarrow> i < 2 ^ LENGTH('a) \<Longrightarrow> uint (word_of_int i :: 'a::len word) = i"
  by (simp add: unsigned_of_int take_bit_int_eq_self)

lemma sint_scast_64 [simp]:
  "sint (scast (x1 :: 8 word) :: 64 word) = sint x1" "sint (scast (x2 :: 16 word) :: 64 word) = sint x2"
  "sint (scast (x3 :: 32 word) :: 64 word) = sint x3"
  using sint_bounds [of x1] sint_bounds [of x2] sint_bounds [of x3]
  by (simp_all add: signed_scast_eq signed_take_bit_int_eq_self_iff)

lemma sint_range [simp]:
  "- 128 \<le> sint (x1 :: 8 word)" "sint x1 \<le> 127"
  "- 32768 \<le> sint (x2 :: 16 word)" "sint x2 \<le> 32767"
  "- 2147483648 \<le> sint (x3 :: 32 word)" "sint x3 \<le> 2147483647"
  "- 9223372036854775808 \<le> sint (x4 :: 64 word)" "sint x4 \<le> 9223372036854775807"
  using sint_bounds [of x1] sint_bounds [of x2] sint_bounds [of x3] sint_bounds [of x4] by simp_all

lemma uint_range [simp]:
  "uint (x1 :: 8 word) \<le> 255" "uint (x2 :: 16 word) \<le> 65535" "uint (x3 :: 32 word) \<le> 4294967295"
  "uint (x4 :: 64 word) \<le> 18446744073709551615"
  using uint_lt2p [of x1] uint_lt2p [of x2] uint_lt2p [of x3] uint_lt2p [of x4] by simp_all

lemma uint_ucast_64 [simp]:
  "uint (ucast (x1 :: 8 word) :: 64 word) = uint x1" "uint (ucast (x2 :: 16 word) :: 64 word) = uint x2"
  "uint (ucast (x3 :: 32 word) :: 64 word) = uint x3"
  using uint_lt2p [of x1] uint_lt2p [of x2] uint_lt2p [of x3]
  by (simp_all add: unsigned_ucast_eq take_bit_int_eq_self_iff)

lemma int_of_range: "int_of v = Some i \<Longrightarrow> int_type (data_type v) \<Longrightarrow> in_range (data_type v) i"
  by (cases v) (auto simp: in_range_def int_type_def)

lemma int_value_type: "int_type dt \<Longrightarrow> data_type (int_value dt i) = dt"
  by (cases dt) (auto simp: int_type_def)

lemma int_of_value: "int_type dt \<Longrightarrow> in_range dt i \<Longrightarrow> int_of (int_value dt i) = Some i"
  by (cases dt) (auto simp: int_type_def in_range_def intro!: sint_word_of_int uint_word_of_int_id)

lemma int_value_of: "int_type (data_type v) \<Longrightarrow> int_of v = Some i \<Longrightarrow> int_value (data_type v) i = v"
  by (cases v) (auto simp: int_type_def)

lemma int_type_numeric: "int_type dt \<Longrightarrow> is_numeric dt"
  by (cases dt) (auto simp: int_type_def is_numeric_def)

section \<open>Integer casts are exact or an error\<close>

lemma int_try_from_int:
  assumes "int_of v = Some i" "lo \<le> 0" "1 \<le> hi"
  shows "int_try_from target lo hi p v = (if lo \<le> i \<and> i \<le> hi then Inr (word_of_int i) else Inl (OutOfRange target))"
  using assms by (cases v) (auto simp: or_range_def narrow_def)

text \<open>The cast to the type \<open>dt\<close>, as a value.\<close>

definition cast_to :: "DataType \<Rightarrow> NGValue \<Rightarrow> NGValueCastError + NGValue" where
  "cast_to dt v =
     (case dt of
        T_Int8 \<Rightarrow> res_bind (i8_try_from v) (\<lambda>x. Inr (Int8 x))
      | T_UInt8 \<Rightarrow> res_bind (u8_try_from v) (\<lambda>x. Inr (UInt8 x))
      | T_Int16 \<Rightarrow> res_bind (i16_try_from v) (\<lambda>x. Inr (Int16 x))
      | T_UInt16 \<Rightarrow> res_bind (u16_try_from v) (\<lambda>x. Inr (UInt16 x))
      | T_Int32 \<Rightarrow> res_bind (i32_try_from v) (\<lambda>x. Inr (Int32 x))
      | T_UInt32 \<Rightarrow> res_bind (u32_try_from v) (\<lambda>x. Inr (UInt32 x))
      | T_Int64 \<Rightarrow> res_bind (i64_try_from v) (\<lambda>x. Inr (Int64 x))
      | T_UInt64 \<Rightarrow> res_bind (u64_try_from v) (\<lambda>x. Inr (UInt64 x))
      | _ \<Rightarrow> Inr v)"

lemmas try_from_defs = i8_try_from_def u8_try_from_def i16_try_from_def u16_try_from_def
  i32_try_from_def u32_try_from_def i64_try_from_def u64_try_from_def

lemma cast_to_int:
  assumes "int_of v = Some i" "int_type dt"
  shows "cast_to dt v = Inr (int_value dt i) \<and> in_range dt i
    \<or> (\<exists>n. cast_to dt v = Inl (OutOfRange n)) \<and> \<not> in_range dt i"
proof (cases "in_range dt i")
  case True
  then show ?thesis using assms(2)
    by (auto simp: int_type_def cast_to_def try_from_defs in_range_def int_try_from_int [OF assms(1)]
        i64_min_def i64_max_def u64_max_def)
next
  case False
  then show ?thesis using assms(2)
    by (auto simp: int_type_def cast_to_def try_from_defs in_range_def int_try_from_int [OF assms(1)]
        i64_min_def i64_max_def u64_max_def)
qed

lemma numeric_identity_cast:
  assumes "ldt \<noteq> wdt" "int_type wdt"
  shows "numeric_identity_logical_to_wire v ldt wdt =
    (case cast_to wdt v of Inl _ \<Rightarrow> Inl (ValidationError ''downlink datatype cast failed'') | Inr w \<Rightarrow> Inr w)"
  using assms by (auto simp: int_type_def numeric_identity_logical_to_wire_def cast_to_def map_cast_def
      split: sum.splits)

lemma downlink_integer:
  assumes "is_identity_numeric t" "int_of v = Some i" "int_type (data_type v)" "int_type wdt"
  shows "logical_to_wire_value v (data_type v) wdt t =
    (if in_range wdt i then Inr (int_value wdt i) else Inl (ValidationError ''downlink datatype cast failed''))"
proof (cases "data_type v = wdt")
  case True
  then show ?thesis
    using assms int_of_range [OF assms(2,3)] int_value_of [OF assms(3,2)]
    by (simp add: logical_to_wire_value_def validate_datatype_def)
next
  case False
  then show ?thesis
    using assms cast_to_int [OF assms(2,4)]
    by (auto simp: logical_to_wire_value_def validate_datatype_def int_type_numeric numeric_identity_cast)
qed

lemma coerce_value_int:
  assumes "is_identity_numeric t" "int_of v = Some i" "int_type (data_type v)" "int_type ldt"
  shows "coerce_value v ldt t = (if in_range ldt i then Some (int_value ldt i) else None)"
proof -
  have s: "coerce_i64_to_value x ldt t = (if in_range ldt (sint x) then Some (int_value ldt (sint x)) else None)" for x
    using assms(1,4)
    by (auto simp: int_type_def coerce_i64_to_value_def should_apply_numeric_transform_def in_range_def
        narrow_def u64_max_def i64_min_def i64_max_def)
  have u: "coerce_u64_to_value x ldt t = (if in_range ldt (uint x) then Some (int_value ldt (uint x)) else None)" for x
    using assms(1,4)
    by (auto simp: int_type_def coerce_u64_to_value_def should_apply_numeric_transform_def in_range_def
        narrow_def u64_max_def i64_min_def i64_max_def)
  show ?thesis using assms(2,3) by (cases v) (auto simp: s u int_type_def)
qed

lemma uplink_integer:
  assumes "is_identity_numeric t" "int_of v = Some i" "int_type (data_type v)" "int_type ldt"
  shows "wire_to_logical_value v (data_type v) ldt t =
    (if in_range ldt i then Inr (int_value ldt i) else Inl (ValidationError ''uplink wire->logical coercion failed''))"
proof (cases "data_type v = ldt")
  case True
  then show ?thesis
    using assms int_of_range [OF assms(2,3)] int_value_of [OF assms(3,2)]
    by (simp add: wire_to_logical_value_def validate_datatype_def int_type_numeric)
next
  case False
  then show ?thesis
    using assms coerce_value_int [OF assms]
    by (simp add: wire_to_logical_value_def validate_datatype_def int_type_numeric ok_or_def)
qed

section \<open>Exact arithmetic on integers\<close>

text \<open>A finite, well-formed \<open>f64\<close> that is the integer \<open>i\<close>.\<close>

definition f64_int :: "fp \<Rightarrow> int \<Rightarrow> bool" where
  "f64_int x i \<longleftrightarrow> is_finite x \<and> fp_ok F64 x \<and> fp_val x = of_int i"

lemma f64_int_of_int: "\<bar>i\<bar> \<le> 2 ^ 53 \<Longrightarrow> f64_int (f64_of_int i) i"
  by (simp add: f64_int_def f64_of_int_exact)

lemma f64_int_neg: "f64_int x i \<Longrightarrow> f64_int (fp_neg x) (- i)"
  by (cases x) (auto simp: f64_int_def fp_ok_def)

lemma f64_int_add:
  assumes "f64_int x i" "f64_int y j" "\<bar>i + j\<bar> \<le> 2 ^ 53"
  shows "f64_int (f64_add x y) (i + j)"
proof -
  obtain s m e u n d where x: "x = Fin s m e" and y: "y = Fin u n d"
    using assms(1,2) by (cases x; cases y) (auto simp: f64_int_def)
  have v: "fp_val (Fin s m e) + fp_val (Fin u n d) = of_int (i + j)"
    using assms(1,2) by (simp add: x y f64_int_def)
  show ?thesis
  proof (cases "i + j = 0")
    case True
    then show ?thesis using v by (auto simp: x y f64_int_def fp_ok_def Let_def simp del: fp_val.simps) (auto)
  next
    case False
    then have "(of_int (i + j) :: rat) \<noteq> 0" by (simp only: of_int_eq_0_iff not_False_eq_True)
    then have "f64_add x y = f64_of_int (i + j)"
      unfolding x y f64_add.simps v Let_def by (simp add: f64_of_int_def)
    then show ?thesis using f64_int_of_int [OF assms(3)] by simp
  qed
qed

lemma f64_int_sub:
  assumes "f64_int x i" "f64_int y j" "\<bar>i - j\<bar> \<le> 2 ^ 53"
  shows "f64_int (f64_sub x y) (i - j)"
  using f64_int_add [OF assms(1) f64_int_neg [OF assms(2)]] assms(3) by (simp add: f64_sub_def)

lemma f64_int_div_one:
  assumes "f64_int x i" "f64_int y 1"
  shows "f64_int (f64_div x y) i"
proof -
  obtain s m e u n d where x: "x = Fin s m e" and y: "y = Fin u n d"
    using assms(1,2) by (cases x; cases y) (auto simp: f64_int_def)
  have "0 \<le> (of_nat n * 2 powi d :: rat)" by simp
  moreover have "(if u then - 1 else 1) * (of_nat n * 2 powi d) = (1 :: rat)"
    using assms(2) by (simp add: y f64_int_def)
  ultimately have one: "\<not> u" "of_nat n * 2 powi d = (1 :: rat)" by (cases u; simp)+
  then have n: "n \<noteq> 0" by (intro notI) simp
  have ok: "m < 2 ^ prec F64" "emin F64 \<le> e" "e \<le> emax F64" using assms(1) by (simp_all add: x f64_int_def fp_ok_def)
  note r = fp_round_val [OF refl ok]
  have "f64_div x y = fp_round F64 s (of_nat m * 2 powi e)" using one n by (simp add: x y)
  then show ?thesis using assms(1) by (simp add: f64_int_def r x split: if_splits)
qed

lemma f64_int_round: "f64_int x i \<Longrightarrow> is_finite (f64_round x) \<and> fp_val (f64_round x) = of_int i"
  using f64_round_correct [of x] by (simp add: f64_int_def)

lemma f64_bound_values:
  "\<bar>b\<bar> \<le> 2 ^ 53 \<Longrightarrow> fp_val (f64_of_int b) = of_int b"
  "fp_val (f64_of_int i64_min) = - (2 ^ 63)" "fp_val (f64_of_int i64_max) = 2 ^ 63" "fp_val (f64_of_int u64_max) = 2 ^ 64"
  "\<bar>b\<bar> \<le> 2 ^ 53 \<Longrightarrow> is_finite (f64_of_int b)"
  "is_finite (f64_of_int i64_min)" "is_finite (f64_of_int i64_max)" "is_finite (f64_of_int u64_max)"
  unfolding i64_min_def i64_max_def u64_max_def f64_i64_max f64_i64_min f64_u64_max
  by (simp_all add: f64_of_int_exact)

lemma rat_trunc_numeral [simp]: "rat_trunc (numeral n) = numeral n"
  by (simp add: rat_trunc_def)

lemma trunc_of: "q = of_int i \<Longrightarrow> rat_trunc q = i"
  by simp

lemma box_int_small:
  assumes "is_finite r" "fp_val r = of_int i" "\<bar>lo\<bar> \<le> 2 ^ 53" "\<bar>hi\<bar> \<le> 2 ^ 53"
  shows "box_int lo hi r = (if lo \<le> i \<and> i \<le> hi then Some (word_of_int i) else None)"
  using assms(1,2) f64_bound_values(1,5) [OF assms(3)] f64_bound_values(1,5) [OF assms(4)]
  by (auto simp: box_int_def fp_as_int_finite trunc_of)

lemma box_int_64:
  assumes "is_finite r" "fp_val r = of_int i" "\<bar>i\<bar> \<le> 2 ^ 53"
  shows "box_int i64_min i64_max r = Some (word_of_int i)"
    "box_int 0 u64_max r = (if 0 \<le> i then Some (word_of_int i) else None)"
proof -
  have i: "- 9223372036854775808 \<le> i" "i \<le> 9223372036854775807" using assms(3) by simp_all
  then have "(- 9223372036854775808 :: rat) \<le> of_int i" "(of_int i :: rat) \<le> 9223372036854775808"
    "(of_int i :: rat) \<le> 18446744073709551616"
    by linarith+
  then have le: "fp_le (f64_of_int i64_min) r" "fp_le r (f64_of_int i64_max)" "fp_le r (f64_of_int u64_max)"
    "fp_le (f64_of_int 0) r \<longleftrightarrow> 0 \<le> i"
    using assms(1,2) f64_bound_values(1,5) [of 0] by (simp_all add: f64_bound_values)
  have tr: "rat_trunc (fp_val r) = i" using assms(2) by simp
  have "max i64_min (min i64_max i) = i" "0 \<le> i \<Longrightarrow> max 0 (min u64_max i) = i"
    using i by (simp_all add: i64_min_def i64_max_def u64_max_def)
  then show "box_int i64_min i64_max r = Some (word_of_int i)"
    "box_int 0 u64_max r = (if 0 \<le> i then Some (word_of_int i) else None)"
    using le by (simp_all add: box_int_def fp_as_int_finite [OF assms(1)] tr)
qed

lemma int_of_f64: "int_of v = Some i \<Longrightarrow> f64_value v = Inr (f64_of_int i)"
  by (cases v) auto

lemma coerce_after_int:
  assumes "f64_int y i" "\<bar>i\<bar> \<le> 2 ^ 53" "int_type dt"
  shows "coerce_f64_to_value_after_transform y dt = (if in_range dt i then Some (int_value dt i) else None)"
proof -
  note r = f64_int_round [OF assms(1)]
  then have fin: "is_finite (f64_round y)" and val: "fp_val (f64_round y) = of_int i" by simp_all
  note small = box_int_small [OF fin val] and big = box_int_64 [OF fin val assms(2)]
  have "- (2 ^ 63) \<le> i" "i \<le> 2 ^ 63 - 1" using assms(2) by simp_all
  then show ?thesis
    using assms(3)
    by (auto simp: int_type_def coerce_f64_to_value_after_transform_def coerce_int_def fin small big in_range_def)
qed

lemma box_wire_int:
  assumes "f64_int x i" "\<bar>i\<bar> \<le> 2 ^ 53" "int_type dt"
  shows "box_f64_to_wire_strict x dt =
    (if in_range dt i then Inr (int_value dt i) else Inl (ValidationError ''downlink value out of range after inverse''))"
proof -
  note r = f64_int_round [OF assms(1)]
  then have fin: "is_finite (f64_round x)" and val: "fp_val (f64_round x) = of_int i" by simp_all
  note small = box_int_small [OF fin val] and big = box_int_64 [OF fin val assms(2)]
  have i: "- (2 ^ 63) \<le> i" "i \<le> 2 ^ 63 - 1" using assms(2) by simp_all
  have bnd: "fp_val (f64_of_int F64_EXACT_INT_MAX) = of_int F64_EXACT_INT_MAX" "is_finite (f64_of_int F64_EXACT_INT_MAX)"
    "is_finite (fp_neg (f64_of_int F64_EXACT_INT_MAX))" "fp_val (fp_neg (f64_of_int F64_EXACT_INT_MAX)) = - of_int F64_EXACT_INT_MAX"
    using f64_int_of_int [of F64_EXACT_INT_MAX] f64_int_neg [of "f64_of_int F64_EXACT_INT_MAX" F64_EXACT_INT_MAX]
    by (simp_all add: f64_int_def F64_EXACT_INT_MAX_def)
  have "(of_int i :: rat) \<le> of_int F64_EXACT_INT_MAX" "- of_int F64_EXACT_INT_MAX \<le> (of_int i :: rat)"
    using assms(2) by (simp_all add: F64_EXACT_INT_MAX_def abs_le_iff of_int_le_iff flip: of_int_minus)
  then have out: "\<not> fp_lt (f64_round x) (fp_neg (f64_of_int F64_EXACT_INT_MAX))"
    "\<not> fp_lt (f64_of_int F64_EXACT_INT_MAX) (f64_round x)"
    by (simp_all add: fin val bnd)
  have "(- 9223372036854775808 :: rat) \<le> of_int i" "(of_int i :: rat) \<le> 9223372036854775808"
    using i by simp_all
  then have out64: "\<not> fp_lt (f64_round x) (f64_of_int i64_min)" "\<not> fp_lt (f64_of_int i64_max) (f64_round x)"
    "fp_lt (f64_round x) (f64_of_int 0) \<longleftrightarrow> i < 0"
    using f64_bound_values(1,5) [of 0] by (simp_all add: fin val f64_bound_values)
  have as: "fp_as_int i64_min i64_max (f64_round x) = i" "0 \<le> i \<Longrightarrow> fp_as_int 0 u64_max (f64_round x) = i"
    using i by (simp_all add: fp_as_int_finite fin val i64_min_def i64_max_def u64_max_def)
  show ?thesis
    using assms(3) i
    by (auto simp: int_type_def box_f64_to_wire_strict_def ok_or_def small out out64 as in_range_def)
qed

section \<open>Transforms with an integer offset\<close>

text \<open>The transform \<open>t\<close> has no scale, and its offset is the integer \<open>k\<close>.\<close>

definition shift_by :: "Transform \<Rightarrow> int \<Rightarrow> bool" where
  "shift_by t k \<longleftrightarrow> transform_scale t = None \<and>
     (case transform_offset t of None \<Rightarrow> k = 0 | Some c \<Rightarrow> f64_int c k)"

definition signed_by :: "Transform \<Rightarrow> int \<Rightarrow> int" where
  "signed_by t i = (if transform_negate t then - i else i)"

lemma apply_f64_int:
  assumes "shift_by t k" "f64_int x i" "\<bar>i + k\<bar> \<le> 2 ^ 53"
  shows "f64_int (apply_f64 t x) (signed_by t (i + k))"
proof -
  have "f64_int (case transform_offset t of None \<Rightarrow> x | Some c \<Rightarrow> f64_add x c) (i + k)"
    using assms f64_int_add [OF assms(2) _ assms(3)] by (auto simp: shift_by_def split: option.splits)
  then show ?thesis
    using assms(1) f64_int_neg by (simp add: shift_by_def signed_by_def apply_f64_def Let_def del: minus_add_distrib)
qed

lemma inverse_f64_int:
  assumes "shift_by t k" "f64_int y j" "\<bar>signed_by t j - k\<bar> \<le> 2 ^ 53"
  shows "f64_int (inverse_f64 t y) (signed_by t j - k)"
proof -
  define x where "x = (if transform_negate t then fp_neg y else y)"
  have "f64_int x (signed_by t j)" using assms(2) by (simp add: x_def signed_by_def f64_int_neg)
  then have "f64_int (case transform_offset t of None \<Rightarrow> x | Some c \<Rightarrow> f64_sub x c) (signed_by t j - k)"
    using assms(1,3) f64_int_sub [of x "signed_by t j"] by (auto simp: shift_by_def split: option.splits)
  moreover have "f64_int (f64_of_int 1) 1" by (simp add: f64_int_of_int)
  ultimately show ?thesis
    using assms(1) by (simp add: inverse_f64_def Let_def x_def [symmetric] shift_by_def f64_int_div_one)
qed

lemma to_f64_strict_int:
  assumes "int_of v = Some i" "\<bar>i\<bar> \<le> 2 ^ 53"
  shows "numeric_value_to_f64_strict v dt = Inr (f64_of_int i)
    \<or> dt = T_UInt64 \<and> i < 0"
proof -
  have fin: "is_finite (f64_of_int i)" using assms(2) by (simp add: f64_of_int_exact)
  have "u64_try_from v = (if 0 \<le> i then Inr (word_of_int i) else Inl (OutOfRange ''u64''))"
    using assms by (simp add: u64_try_from_def int_try_from_int [OF assms(1)] u64_max_def)
  moreover have "i64_try_from v = Inr (word_of_int i)"
    using assms by (simp add: i64_try_from_def int_try_from_int [OF assms(1)] i64_min_def i64_max_def abs_le_iff)
  moreover have "sint (word_of_int i :: 64 word) = i" "0 \<le> i \<Longrightarrow> uint (word_of_int i :: 64 word) = i"
    using assms(2) by (simp_all add: sint_word_of_int uint_word_of_int_id)
  ultimately show ?thesis
    using assms fin int_of_f64 [OF assms(1)]
    by (cases dt) (auto simp: numeric_value_to_f64_strict_def Let_def map_cast_def f64_try_from_def F64_EXACT_INT_MAX_def)
qed

lemma downlink_shift:
  assumes "shift_by t k" "\<not> is_identity_numeric t" "int_of v = Some i" "int_type (data_type v)" "int_type wdt"
    "\<bar>i\<bar> \<le> 2 ^ 53" "\<bar>signed_by t i - k\<bar> \<le> 2 ^ 53"
  shows "logical_to_wire_value v (data_type v) wdt t =
    (if in_range wdt (signed_by t i - k) then Inr (int_value wdt (signed_by t i - k))
     else Inl (ValidationError ''downlink value out of range after inverse''))"
proof -
  have "in_range (data_type v) i" by (rule int_of_range [OF assms(3,4)])
  then have "\<not> (data_type v = T_UInt64 \<and> i < 0)" by (auto simp: in_range_def)
  then have n: "numeric_value_to_f64_strict v (data_type v) = Inr (f64_of_int i)"
    using to_f64_strict_int [OF assms(3,6)] by blast
  note x = inverse_f64_int [OF assms(1) f64_int_of_int [OF assms(6)] assms(7)]
  have "transform_scale t = None" using assms(1) by (simp add: shift_by_def)
  then have "inverse_transform_f64_strict (f64_of_int i) t = Inr (inverse_f64 t (f64_of_int i))"
    using x by (simp add: inverse_transform_f64_strict_def f64_int_def Let_def)
  then show ?thesis
    using assms n box_wire_int [OF x assms(7,5)]
    by (simp add: logical_to_wire_value_def validate_datatype_def int_type_numeric)
qed

lemma coerce_value_shift:
  assumes "shift_by t k" "\<not> is_identity_numeric t" "int_of w = Some j" "int_type (data_type w)" "int_type ldt"
    "\<bar>j\<bar> \<le> 2 ^ 53" "\<bar>j + k\<bar> \<le> 2 ^ 53"
  shows "coerce_value w ldt t =
    (if in_range ldt (signed_by t (j + k)) then Some (int_value ldt (signed_by t (j + k))) else None)"
proof -
  have "f64_int (apply_f64 t (f64_of_int j)) (signed_by t (j + k))"
    by (rule apply_f64_int [OF assms(1) f64_int_of_int [OF assms(6)] assms(7)])
  moreover have "\<bar>signed_by t (j + k)\<bar> \<le> 2 ^ 53" using assms(7) by (simp add: signed_by_def abs_le_iff)
  ultimately have "coerce_f64_to_value_after_transform (apply_f64 t (f64_of_int j)) ldt =
      (if in_range ldt (signed_by t (j + k)) then Some (int_value ldt (signed_by t (j + k))) else None)"
    using assms(5) by (rule coerce_after_int)
  moreover have "coerce_value w ldt t = coerce_f64_to_value_after_transform (apply_f64 t (f64_of_int j)) ldt"
    using assms(2-5) int_type_numeric [OF assms(5)]
    by (cases w) (auto simp: int_type_def coerce_i64_to_value_def coerce_u64_to_value_def should_apply_numeric_transform_def)
  ultimately show ?thesis by simp
qed

lemma uplink_shift:
  assumes "shift_by t k" "\<not> is_identity_numeric t" "int_of w = Some j" "int_type (data_type w)" "int_type ldt"
    "\<bar>j\<bar> \<le> 2 ^ 53" "\<bar>j + k\<bar> \<le> 2 ^ 53"
  shows "wire_to_logical_value w (data_type w) ldt t =
    (if in_range ldt (signed_by t (j + k)) then Inr (int_value ldt (signed_by t (j + k)))
     else Inl (ValidationError ''uplink wire->logical coercion failed''))"
proof -
  have "\<not> (case w of UInt64 v \<Rightarrow> uint v > F64_EXACT_INT_MAX | Int64 v \<Rightarrow> \<bar>sint v\<bar> > F64_EXACT_INT_MAX | _ \<Rightarrow> False)"
    using assms(3,6) by (cases w) (auto simp: F64_EXACT_INT_MAX_def)
  then show ?thesis
    using assms(2,5) coerce_value_shift [OF assms]
    by (simp add: wire_to_logical_value_def validate_datatype_def int_type_numeric ok_or_def)
qed

text \<open>The number on the wire, and the value the reader makes of it.\<close>

lemma write_coerce_back:
  assumes "shift_by t k" "int_of v = Some i" "int_type (data_type v)" "int_type wdt"
    "\<bar>i\<bar> \<le> 2 ^ 53" "\<bar>signed_by t i - k\<bar> \<le> 2 ^ 53"
    and w: "logical_to_wire_value v (data_type v) wdt t = Inr w"
  shows "data_type w = wdt" "int_of w = Some (signed_by t i - k)" "coerce_value w (data_type v) t = Some v"
proof -
  define j where "j = signed_by t i - k"
  have inv: "signed_by t (j + k) = i" by (simp add: j_def signed_by_def)
  have small: "\<bar>j\<bar> \<le> 2 ^ 53" "\<bar>j + k\<bar> \<le> 2 ^ 53" using assms(5,6) by (auto simp: j_def signed_by_def)
  have v: "in_range (data_type v) i" "int_value (data_type v) i = v"
    using int_of_range [OF assms(2,3)] int_value_of [OF assms(3,2)] by simp_all
  have id: "k = 0 \<and> signed_by t i = i" if "is_identity_numeric t"
    using that assms(1) by (simp add: shift_by_def is_identity_numeric_def signed_by_def)
  have "in_range wdt j \<and> w = int_value wdt j"
    using w id downlink_integer [OF _ assms(2-4)] downlink_shift [OF assms(1) _ assms(2-6)]
    by (cases "is_identity_numeric t") (auto simp: j_def split: if_splits)
  then have wj: "int_of w = Some j" and d: "data_type w = wdt"
    using assms(4) by (simp_all add: int_of_value int_value_type)
  show "data_type w = wdt" "int_of w = Some (signed_by t i - k)" using wj d by (simp_all add: j_def)
  show "coerce_value w (data_type v) t = Some v"
  proof (cases "is_identity_numeric t")
    case True
    then show ?thesis using coerce_value_int [OF True wj _ assms(3)] d assms(4) v id by (simp add: j_def)
  next
    case False
    then show ?thesis using coerce_value_shift [OF assms(1) False wj _ assms(3) small] d assms(4) v inv by simp
  qed
qed

lemma float_cast_nearest:
  assumes "is_finite x" "fp_ok F64 x" "\<bar>lo\<bar> \<le> 2 ^ 53" "\<bar>hi\<bar> \<le> 2 ^ 53"
  shows "int_try_from target lo hi p (Float64 x) =
    (let i = nearest (fp_val x) in if lo \<le> i \<and> i \<le> hi then Inr (word_of_int i) else Inl (OutOfRange target))"
  using f64_round_correct [OF assms(1,2)] f64_bound_values(1,5) [OF assms(3)] f64_bound_values(1,5) [OF assms(4)]
  by (auto simp: float_to_int_def fp_as_int_finite Let_def)

section \<open>Properties\<close>

text \<open>A value of an integer type is cast to an integer type without change: the cast succeeds
  exactly when the number lies in the range of the target and then yields that number.\<close>

theorem integer_cast_exact:
  assumes "int_of v = Some i" "int_type dt"
  shows "if in_range dt i then \<exists>w. cast_to dt v = Inr w \<and> int_of w = Some i \<and> data_type w = dt
    else \<exists>n. cast_to dt v = Inl (OutOfRange n)"
  using cast_to_int [OF assms] int_of_value [OF assms(2)] int_value_type [OF assms(2)] by auto

text \<open>C20: what is written to a device reads back as the value that was written.  For integer types,
  a transform without a scale whose offset is an integer (or no transform at all), and numbers of at most
  53 bits, a successful mapping to the wire type followed by the mapping to the logical type
  returns the value.\<close>

theorem write_read_back:
  assumes "shift_by t k" "int_of v = Some i" "int_type (data_type v)" "int_type wdt"
    "\<bar>i\<bar> \<le> 2 ^ 53" "\<bar>signed_by t i - k\<bar> \<le> 2 ^ 53"
    and w: "logical_to_wire_value v (data_type v) wdt t = Inr w"
  shows "wire_to_logical_value w wdt (data_type v) t = Inr v"
proof -
  note c = write_coerce_back [OF assms]
  have "\<not> (case w of UInt64 x \<Rightarrow> uint x > F64_EXACT_INT_MAX | Int64 x \<Rightarrow> \<bar>sint x\<bar> > F64_EXACT_INT_MAX | _ \<Rightarrow> False)"
    using c(2) assms(6) by (cases w) (auto simp: F64_EXACT_INT_MAX_def)
  moreover have "w = v" if "is_identity_numeric t" "wdt = data_type v"
    using w that by (simp add: logical_to_wire_value_def validate_datatype_def)
  ultimately show ?thesis
    using c(1,3) assms(3) by (auto simp: wire_to_logical_value_def validate_datatype_def int_type_numeric ok_or_def)
qed

theorem integer_cast_exact_witness:
  "int_of (UInt16 65000) = Some 65000 \<and> int_type T_Int16
    \<and> (\<exists>n. cast_to T_Int16 (UInt16 65000) = Inl (OutOfRange n))"
  using integer_cast_exact [of "UInt16 65000" 65000 T_Int16] by (simp add: int_type_def in_range_def)

theorem write_read_back_witness:
  "wire_to_logical_value (Int16 (- 105)) T_Int16 T_Int32
     \<lparr>transform_data_type = Some T_Int32, transform_scale = None,
       transform_offset = Some (f64_of_int 5), transform_negate = True\<rparr> = Inr (Int32 100)"
proof -
  define t where "t = \<lparr>transform_data_type = Some T_Int32, transform_scale = None,
       transform_offset = Some (f64_of_int 5), transform_negate = True\<rparr>"
  have t: "shift_by t 5" "\<not> is_identity_numeric t" "signed_by t 100 - 5 = - 105"
    by (simp_all add: t_def shift_by_def is_identity_numeric_def signed_by_def f64_int_of_int)
  have v: "int_of (Int32 100) = Some 100" "int_type (data_type (Int32 100))" "int_type T_Int16"
    by (simp_all add: int_type_def)
  have "logical_to_wire_value (Int32 100) (data_type (Int32 100)) T_Int16 t = Inr (Int16 (- 105))"
    using downlink_shift [OF t(1,2) v] t(3) by (simp add: in_range_def)
  then have "wire_to_logical_value (Int16 (- 105)) T_Int16 (data_type (Int32 100)) t = Inr (Int32 100)"
    using write_read_back [OF t(1) v] t(3) by simp
  then show ?thesis by (simp add: t_def)
qed

text \<open>The upper range check of the cast to \<open>i64\<close> compares with \<open>i64::MAX as f64\<close>, which is
  \<open>2^63\<close>; the float \<open>2^63\<close>, one more than the type holds, is accepted and becomes \<open>2^63 - 1\<close>
  instead of the error for a number out of range.  The same holds for \<open>u64\<close> and \<open>2^64\<close>.\<close>

theorem float_cast_saturates:
  "fp_val (Fin False (2 ^ 52) 11) = 2 ^ 63 \<and> i64_try_from (Float64 (Fin False (2 ^ 52) 11)) = Inr (2 ^ 63 - 1)
   \<and> fp_val (Fin False (2 ^ 52) 12) = 2 ^ 64 \<and> u64_try_from (Float64 (Fin False (2 ^ 52) 12)) = Inr (- 1)"
proof -
  have ok: "is_finite (Fin False (2 ^ 52) e)" "fp_ok F64 (Fin False (2 ^ 52) e)" if "e = 11 \<or> e = 12" for e
    using that by (auto simp: fp_ok_def)
  have v: "fp_val (Fin False (2 ^ 52) 11) = of_int (2 ^ 63)" "fp_val (Fin False (2 ^ 52) 12) = of_int (2 ^ 64)"
    by simp_all
  have r: "fp_val (f64_round (Fin False (2 ^ 52) 11)) = of_int (2 ^ 63)" "is_finite (f64_round (Fin False (2 ^ 52) 11))"
    "fp_val (f64_round (Fin False (2 ^ 52) 12)) = of_int (2 ^ 64)" "is_finite (f64_round (Fin False (2 ^ 52) 12))"
    using f64_round_correct [OF ok [of 11]] f64_round_correct [OF ok [of 12]] unfolding v nearest_of_int by simp_all
  have "i64_try_from (Float64 (Fin False (2 ^ 52) 11)) = Inr (word_of_int (2 ^ 63 - 1))"
    using r(1,2) f64_bound_values(2-8)
    by (simp add: i64_try_from_def float_to_int_def fp_as_int_finite i64_min_def i64_max_def
        del: f64_round.simps fp_val.simps)
  moreover have "u64_try_from (Float64 (Fin False (2 ^ 52) 12)) = Inr (word_of_int (2 ^ 64 - 1))"
    using r(3,4) f64_bound_values(2-8) f64_bound_values(1,5) [of 0]
    by (simp add: u64_try_from_def float_to_int_def fp_as_int_finite u64_max_def
        del: f64_round.simps fp_val.simps)
  ultimately show ?thesis by simp
qed

section \<open>The type of a logical value\<close>

lemma coerce_f64_type: "coerce_f64_to_value_after_transform x dt = Some v \<Longrightarrow> data_type v = dt"
  by (cases dt) (auto simp: coerce_f64_to_value_after_transform_def split: if_splits)

lemma coerce_value_type: "coerce_value w dt t = Some v \<Longrightarrow> data_type v = dt"
proof -
  have f: "coerce_f64_to_value x dt t = Some v \<Longrightarrow> data_type v = dt" for x dt
    by (simp add: coerce_f64_to_value_def coerce_f64_type)
  have b: "coerce_bool_to_value x dt t = Some v \<Longrightarrow> data_type v = dt" for x
    by (cases dt) (auto simp: coerce_bool_to_value_def dest: f)
  have u: "coerce_u64_to_value x dt t = Some v \<Longrightarrow> data_type v = dt" for x
    by (cases dt) (auto simp: coerce_u64_to_value_def dest: coerce_f64_type split: if_splits)
  have i: "coerce_i64_to_value x dt t = Some v \<Longrightarrow> data_type v = dt" for x
    by (cases dt) (auto simp: coerce_i64_to_value_def dest: coerce_f64_type split: if_splits)
  show "coerce_value w dt t = Some v \<Longrightarrow> data_type v = dt"
    by (cases w) (auto dest: f b u i split: sum.splits)
qed

lemma wire_to_logical_type: "wire_to_logical_value w wdt ldt t = Inr v \<Longrightarrow> data_type v = ldt"
  by (auto simp: wire_to_logical_value_def validate_datatype_def ok_or_def
      dest: coerce_value_type split: if_splits option.splits)

end
