(* ===== verification/Iec104_Points.thy ===== *)
theory Iec104_Points
  imports Iec104_Info Sdk_Codec
begin

text \<open>
  The points of an IEC 60870-5-104 channel and what is published for them (\<open>iec104/src/handle.rs\<close>,
  \<open>types.rs\<close>).  A snapshot per common address has two indices, from the type and address of an
  information object to the point it belongs to, and from a point to that key.  It is built from the
  configuration and follows its changes.  A received unit is decoded and every object is published for
  the point its key leads to.

  Devices and points of other drivers, which the code skips, are left out.

  The lemmas show that the snapshot follows the configuration as long as every change leaves the
  keys distinct, that two points which exchange their addresses lose one of them, that the removal of the
  last device of a common address never returns, and that what is published for a unit is decoded from an object with the address of the point.
\<close>

section \<open>Points and snapshots\<close>

record Iec104Device =
  id_id :: int
  id_device_name :: string
  id_ca :: u16

record Iec104Point =
  ip_id :: int
  ip_key :: string
  ip_type :: DataPointType
  ip_data_type :: DataType
  ip_access_mode :: AccessMode
  ip_transform :: Transform
  ip_ioa :: u16
  ip_type_id :: u8

record PointMeta =
  pm_point_id :: int
  pm_device_id :: int
  pm_device_name :: string
  pm_point_key :: string
  pm_data_type :: DataType
  pm_transform :: Transform
  pm_kind :: DataPointType

definition pm_logical_data_type :: "PointMeta \<Rightarrow> DataType" where
  "pm_logical_data_type m = resolve_logical_datatype (pm_transform m) (pm_data_type m)"

record CaSnapshot =
  sn_points :: "u32 \<rightharpoonup> PointMeta"
  sn_id_index :: "int \<rightharpoonup> u32"

definition pack_key :: "u16 \<Rightarrow> u8 \<Rightarrow> u32" where
  "pack_key ioa t = push_bit 16 (ucast t) OR ucast ioa"

definition point_meta :: "Iec104Device \<Rightarrow> Iec104Point \<Rightarrow> PointMeta" where
  "point_meta d p =
     \<lparr>pm_point_id = ip_id p, pm_device_id = id_id d, pm_device_name = id_device_name d, pm_point_key = ip_key p,
      pm_data_type = ip_data_type p, pm_transform = ip_transform p, pm_kind = ip_type p\<rparr>"

definition point_key :: "Iec104Point \<Rightarrow> u32" where
  "point_key p = pack_key (ip_ioa p) (ip_type_id p)"

text \<open>A key that another device has is kept; one of the same device is overwritten.\<close>

definition add_point :: "Iec104Device \<Rightarrow> Iec104Point \<Rightarrow> CaSnapshot \<Rightarrow> CaSnapshot" where
  "add_point d p s =
     (let k = point_key p;
          inserted = s\<lparr>sn_points := (sn_points s)(k \<mapsto> point_meta d p), sn_id_index := (sn_id_index s)(ip_id p \<mapsto> k)\<rparr>
      in case sn_points s k of
           Some existing \<Rightarrow> if pm_device_id existing \<noteq> id_id d then s else inserted
         | None \<Rightarrow> inserted)"

definition update_point :: "Iec104Device \<Rightarrow> Iec104Point \<Rightarrow> CaSnapshot \<Rightarrow> CaSnapshot" where
  "update_point d p s =
     (let new_k = point_key p;
          s = (case sn_id_index s (ip_id p) of
                 Some old_k \<Rightarrow> if old_k \<noteq> new_k then s\<lparr>sn_points := (sn_points s)(old_k := None)\<rparr> else s
               | None \<Rightarrow> s);
          inserted = s\<lparr>sn_points := (sn_points s)(new_k \<mapsto> point_meta d p), sn_id_index := (sn_id_index s)(ip_id p \<mapsto> new_k)\<rparr>
      in case sn_points s new_k of
           Some existing \<Rightarrow> if pm_device_id existing \<noteq> id_id d then s else inserted
         | None \<Rightarrow> inserted)"

definition remove_point :: "Iec104Device \<Rightarrow> Iec104Point \<Rightarrow> CaSnapshot \<Rightarrow> CaSnapshot" where
  "remove_point d p s =
     (let s = s\<lparr>sn_id_index := (sn_id_index s)(ip_id p := None)\<rparr>; k = point_key p
      in case sn_points s k of
           Some m \<Rightarrow> if pm_device_id m = id_id d then s\<lparr>sn_points := (sn_points s)(k := None)\<rparr> else s
         | None \<Rightarrow> s)"

definition empty_snapshot :: CaSnapshot where
  "empty_snapshot = \<lparr>sn_points = Map.empty, sn_id_index = Map.empty\<rparr>"

section \<open>Building and changing the snapshots\<close>

type_synonym snapshots = "u16 \<rightharpoonup> CaSnapshot"

definition build_snapshot :: "(int \<rightharpoonup> Iec104Point list) \<Rightarrow> Iec104Device list \<Rightarrow> CaSnapshot" where
  "build_snapshot points_by_device devices =
     fold (\<lambda>d s. case points_by_device (id_id d) of
                   Some ps \<Rightarrow> fold (add_point d) ps s
                 | None \<Rightarrow> s) devices empty_snapshot"

definition build_mappings :: "Iec104Device list \<Rightarrow> (int \<rightharpoonup> Iec104Point list) \<Rightarrow> snapshots" where
  "build_mappings devices points_by_device = (\<lambda>ca.
     case filter (\<lambda>d. id_ca d = ca) devices of
       [] \<Rightarrow> None
     | ds \<Rightarrow> Some (build_snapshot points_by_device ds))"

definition points_changed ::
    "Iec104Device \<Rightarrow> Iec104Point list \<Rightarrow> Iec104Point list \<Rightarrow> Iec104Point list \<Rightarrow> snapshots \<Rightarrow> snapshots" where
  "points_changed d added updated removed ss =
     (let s = (case ss (id_ca d) of Some s \<Rightarrow> s | None \<Rightarrow> empty_snapshot);
          s = fold (add_point d) added s;
          s = fold (update_point d) updated s;
          s = fold (remove_point d) removed s
      in ss(id_ca d \<mapsto> s))"

text \<open>The entries of a removed device go.  When the snapshot has entries of this device only, \<open>DashMap::remove\<close> is
  called on the key while the reference \<open>DashMap::get\<close> returned for it is held.  What that call does is
  the parameter \<open>remove_held\<close>, with \<open>None\<close> for a call that never returns.\<close>

type_synonym map_remove = "u16 \<Rightarrow> snapshots \<Rightarrow> snapshots option"

definition device_removed :: "map_remove \<Rightarrow> Iec104Device \<Rightarrow> snapshots \<Rightarrow> snapshots option" where
  "device_removed remove_held d ss =
     (case ss (id_ca d) of
        None \<Rightarrow> Some ss
      | Some s \<Rightarrow>
          if \<forall>m\<in>ran (sn_points s). pm_device_id m = id_id d then remove_held (id_ca d) ss
          else
            let points = (\<lambda>k. case sn_points s k of
                                Some m \<Rightarrow> if pm_device_id m \<noteq> id_id d then Some m else None
                              | None \<Rightarrow> None);
                index = (\<lambda>i. case sn_id_index s i of
                               Some k \<Rightarrow> if points k \<noteq> None then Some k else None
                             | None \<Rightarrow> None)
            in Some (ss(id_ca d \<mapsto> \<lparr>sn_points = points, sn_id_index = index\<rparr>)))"

fun devices_removed :: "map_remove \<Rightarrow> Iec104Device list \<Rightarrow> snapshots \<Rightarrow> snapshots option" where
  "devices_removed remove_held [] ss = Some ss"
| "devices_removed remove_held (d # ds) ss = Option.bind (device_removed remove_held d ss) (devices_removed remove_held ds)"

text \<open>The documentation of the map: \<open>remove\<close> may deadlock when called while holding any sort of reference into
  the map; with the reference to the very entry held, it waits for its own caller.\<close>

definition remove_waits :: "map_remove \<Rightarrow> bool" where
  "remove_waits remove_held \<longleftrightarrow> (\<forall>ca ss. ss ca \<noteq> None \<longrightarrow> remove_held ca ss = None)"

section \<open>Values of a unit\<close>

record 'dt TimedValue =
  tv_point_id :: int
  tv_point_key :: string
  tv_value :: NGValue
  tv_ts :: "'dt option"

type_synonym 'dt DeviceValues = "int \<rightharpoonup> string \<times> 'dt TimedValue list \<times> 'dt TimedValue list"

record ExtractStats =
  total_infos :: nat
  matched_infos :: nat
  unmatched_ioas :: "u16 list"

definition push_unmatched_ioa :: "u16 \<Rightarrow> ExtractStats \<Rightarrow> ExtractStats" where
  "push_unmatched_ioa ioa st =
     (if length (unmatched_ioas st) \<ge> 8 \<or> ioa \<in> set (unmatched_ioas st) then st
      else st\<lparr>unmatched_ioas := unmatched_ioas st @ [ioa]\<rparr>)"

definition push_point_value :: "PointMeta \<Rightarrow> NGValue \<Rightarrow> 'dt option \<Rightarrow> 'dt DeviceValues \<Rightarrow> 'dt DeviceValues" where
  "push_point_value m v ts per_device =
     (let (name, telemetry, attributes) = (case per_device (pm_device_id m) of
            Some e \<Rightarrow> e | None \<Rightarrow> (pm_device_name m, [], []));
          pv = \<lparr>tv_point_id = pm_point_id m, tv_point_key = pm_point_key m, tv_value = v, tv_ts = ts\<rparr>
      in per_device(pm_device_id m \<mapsto>
           (case pm_kind m of
              Telemetry \<Rightarrow> (name, telemetry @ [pv], attributes)
            | Attribute \<Rightarrow> (name, telemetry, attributes @ [pv]))))"

text \<open>The body of the loop over the decoded objects; \<open>conv\<close> reads the value of an element for a point.\<close>

definition extract_info ::
    "bit_objects \<Rightarrow> (u32 \<rightharpoonup> PointMeta) \<Rightarrow> u8 \<Rightarrow> ('e \<Rightarrow> PointMeta \<Rightarrow> NGValue option) \<Rightarrow> ('e, 'dt) info_object
      \<Rightarrow> 'dt DeviceValues \<times> ExtractStats \<Rightarrow> 'dt DeviceValues \<times> ExtractStats" where
  "extract_info l pts t conv x acc =
     (let ioa = ioa_addr l (io_ioa x);
          (per_device, st) = acc;
          st = st\<lparr>total_infos := total_infos st + 1\<rparr>
      in case pts (pack_key ioa t) of
           None \<Rightarrow> (per_device, push_unmatched_ioa ioa st)
         | Some m \<Rightarrow>
             (case conv (io_elem x) m of
                Some v \<Rightarrow> (push_point_value m v (io_time x) per_device, st\<lparr>matched_infos := matched_infos st + 1\<rparr>)
              | None \<Rightarrow> (per_device, st)))"

text \<open>A unit that does not decode publishes nothing; a panic of the decoder is \<open>None\<close>.\<close>

definition extract_infos ::
    "bit_objects \<Rightarrow> (u32 \<rightharpoonup> PointMeta) \<Rightarrow> u8 \<Rightarrow> ('e \<Rightarrow> PointMeta \<Rightarrow> NGValue option) \<Rightarrow> ('e, 'dt) info_object list outcome
      \<Rightarrow> ('dt DeviceValues \<times> ExtractStats) option" where
  "extract_infos l pts t conv r =
     (let acc = (Map.empty, \<lparr>total_infos = 0, matched_infos = 0, unmatched_ioas = []\<rparr>)
      in case r of
           None \<Rightarrow> None
         | Some (Inl e) \<Rightarrow> Some acc
         | Some (Inr infos) \<Rightarrow> Some (fold (extract_info l pts t conv) infos acc))"

definition normal_value :: "u16 \<Rightarrow> fp" where
  "normal_value nva = f64_div (f64_of_int (sint nva)) (f64_of_int 32768)"

definition extract_values_by_kind ::
    "bit_objects \<Rightarrow> 'dt calendar \<Rightarrow> (u32 \<rightharpoonup> PointMeta) \<Rightarrow> Asdu \<Rightarrow> ('dt DeviceValues \<times> ExtractStats) option" where
  "extract_values_by_kind l ch pts a =
     (let t = type_id (ident a); code = type_id_code t
      in if t = M_BO_NA_1 \<or> t = M_BO_TA_1 \<or> t = M_BO_TB_1 then
           extract_infos l pts code
             (\<lambda>(bsi, qds) m. coerce_u64_to_value (ucast bsi) (pm_data_type m) (pm_transform m)) (get_bit_string l ch a)
         else if t = M_ST_NA_1 \<or> t = M_ST_TA_1 \<or> t = M_ST_TB_1 then
           extract_infos l pts code
             (\<lambda>(vti, qds) m. coerce_i64_to_value (ucast (vti_value l vti)) (pm_data_type m) (pm_transform m))
             (get_step_position l ch a)
         else if t = M_SP_NA_1 \<or> t = M_SP_TA_1 \<or> t = M_SP_TB_1 then
           extract_infos l pts code
             (\<lambda>siq m. coerce_bool_to_value (siq_spi l siq) (pm_logical_data_type m) (pm_transform m)) (get_single_point l ch a)
         else if t = M_DP_NA_1 \<or> t = M_DP_TA_1 \<or> t = M_DP_TB_1 then
           extract_infos l pts code
             (\<lambda>diq m. coerce_u64_to_value (ucast (diq_spi l diq)) (pm_data_type m) (pm_transform m)) (get_double_point l ch a)
         else if t = M_ME_NC_1 \<or> t = M_ME_TC_1 \<or> t = M_ME_TF_1 then
           extract_infos l pts code
             (\<lambda>(r, qds) m. coerce_f64_to_value (f32_as_f64 r) (pm_logical_data_type m) (pm_transform m))
             (get_measured_value_float l ch a)
         else if t = M_ME_NA_1 \<or> t = M_ME_TA_1 \<or> t = M_ME_TD_1 \<or> t = M_ME_ND_1 then
           extract_infos l pts code
             (\<lambda>(nva, qds) m. coerce_f64_to_value (normal_value nva) (pm_logical_data_type m) (pm_transform m))
             (get_measured_value_normal l ch a)
         else if t = M_ME_NB_1 \<or> t = M_ME_TB_1 \<or> t = M_ME_TE_1 then
           extract_infos l pts code
             (\<lambda>(sva, qds) m. coerce_f64_to_value (f64_of_int (sint sva)) (pm_logical_data_type m) (pm_transform m))
             (get_measured_value_scaled l ch a)
         else if t = M_IT_NA_1 \<or> t = M_IT_TA_1 \<or> t = M_IT_TB_1 then
           extract_infos l pts code
             (\<lambda>bcr m. coerce_i64_to_value (scast (bcr_value bcr)) (pm_logical_data_type m) (pm_transform m))
             (get_integrated_totals l ch a)
         else Some (Map.empty, \<lparr>total_infos = 0, matched_infos = 0, unmatched_ioas = []\<rparr>))"

section \<open>Keys\<close>

lemma pack_key_inj [simp]: "pack_key a t = pack_key b u \<longleftrightarrow> a = b \<and> t = u"
proof
  assume eq: "pack_key a t = pack_key b u"
  have "ucast (pack_key x v) = x" for x v
    unfolding pack_key_def by (rule bit_word_eqI) (auto simp: bit_simps)
  moreover have "ucast (drop_bit 16 (pack_key x v)) = v" for x v
    unfolding pack_key_def by (rule bit_word_eqI) (auto simp: bit_simps dest: bit_imp_le_length)
  ultimately show "a = b \<and> t = u" using eq by metis
qed simp

section \<open>The snapshot follows the configuration\<close>

text \<open>The configuration of a common address: the points by their identifier, with their device.\<close>

type_synonym config = "int \<rightharpoonup> Iec104Device \<times> Iec104Point"

definition represents :: "CaSnapshot \<Rightarrow> config \<Rightarrow> bool" where
  "represents s c \<longleftrightarrow>
     (\<forall>k m. sn_points s k = Some m \<longleftrightarrow>
        (\<exists>i d p. c i = Some (d, p) \<and> ip_id p = i \<and> k = point_key p \<and> m = point_meta d p))
     \<and> (\<forall>i k. sn_id_index s i = Some k \<longleftrightarrow> (\<exists>d p. c i = Some (d, p) \<and> k = point_key p))
     \<and> (\<forall>i d p. c i = Some (d, p) \<longrightarrow> ip_id p = i)"

lemma represents_points:
  "represents s c \<Longrightarrow> sn_points s k = Some m \<longleftrightarrow> (\<exists>i d p. c i = Some (d, p) \<and> k = point_key p \<and> m = point_meta d p)"
  by (simp add: represents_def) blast

lemma represents_index: "represents s c \<Longrightarrow> sn_id_index s i = Some k \<longleftrightarrow> (\<exists>d p. c i = Some (d, p) \<and> k = point_key p)"
  by (simp add: represents_def)

lemma represents_pointI: "represents s c \<Longrightarrow> c i = Some (d, p) \<Longrightarrow> sn_points s (point_key p) = Some (point_meta d p)"
  unfolding represents_points by blast

lemma represents_id: "represents s c \<Longrightarrow> c i = Some (d, p) \<Longrightarrow> ip_id p = i"
  unfolding represents_def by blast

lemma point_meta_simps [simp]:
  "pm_point_id (point_meta d p) = ip_id p" "pm_device_id (point_meta d p) = id_id d"
  by (simp_all add: point_meta_def)

text \<open>Two points of a represented configuration never have the same key.\<close>

lemma represents_inj:
  assumes "represents s c" "c i = Some (d, p)" "c j = Some (e, q)" "point_key p = point_key q"
  shows "i = j"
proof -
  have "sn_points s (point_key p) = Some (point_meta d p)" "sn_points s (point_key p) = Some (point_meta e q)"
    using represents_pointI [OF assms(1,2)] represents_pointI [OF assms(1,3)] assms(4) by simp_all
  then have "pm_point_id (point_meta d p) = pm_point_id (point_meta e q)" by simp
  then show ?thesis using assms by (simp add: represents_id [OF assms(1)])
qed

text \<open>A key that no other point of the configuration has.\<close>

definition free_for :: "config \<Rightarrow> Iec104Point \<Rightarrow> bool" where
  "free_for c p \<longleftrightarrow> (\<forall>i e q. c i = Some (e, q) \<and> i \<noteq> ip_id p \<longrightarrow> point_key q \<noteq> point_key p)"

lemma represents_set:
  assumes s: "represents s c" and free: "free_for c p"
    and pts: "\<And>k. k \<noteq> point_key p \<Longrightarrow> sn_points s' k = (case c (ip_id p) of
        Some (e, q) \<Rightarrow> if k = point_key q then None else sn_points s k | None \<Rightarrow> sn_points s k)"
    and new: "sn_points s' (point_key p) = Some (point_meta d p)"
    and idx: "sn_id_index s' = (sn_id_index s)(ip_id p \<mapsto> point_key p)"
  shows "represents s' (c(ip_id p \<mapsto> (d, p)))"
proof -
  have "sn_points s' k = Some m \<longleftrightarrow>
      (\<exists>i e q. (c(ip_id p \<mapsto> (d, p))) i = Some (e, q) \<and> ip_id q = i \<and> k = point_key q \<and> m = point_meta e q)" for k m
  proof (cases "k = point_key p")
    case True
    with new free show ?thesis by (auto simp: free_for_def) blast
  next
    case False
    then have "sn_points s' k = Some m \<longleftrightarrow> sn_points s k = Some m \<and> (\<forall>e q. c (ip_id p) = Some (e, q) \<longrightarrow> k \<noteq> point_key q)"
      by (auto simp: pts split: option.split)
    also have "\<dots> \<longleftrightarrow> (\<exists>i e q. c i = Some (e, q) \<and> i \<noteq> ip_id p \<and> k = point_key q \<and> m = point_meta e q)"
      using represents_points [OF s, of k m] represents_inj [OF s] by (metis (full_types))
    also have "\<dots> \<longleftrightarrow> (\<exists>i e q. (c(ip_id p \<mapsto> (d, p))) i = Some (e, q) \<and> ip_id q = i \<and> k = point_key q \<and> m = point_meta e q)"
    proof
      assume "\<exists>i e q. c i = Some (e, q) \<and> i \<noteq> ip_id p \<and> k = point_key q \<and> m = point_meta e q"
      then obtain i e q where q: "c i = Some (e, q)" "i \<noteq> ip_id p" "k = point_key q" "m = point_meta e q" by blast
      then have "(c(ip_id p \<mapsto> (d, p))) i = Some (e, q)" "ip_id q = i" by (simp_all add: represents_id [OF s])
      with q show "\<exists>i e q. (c(ip_id p \<mapsto> (d, p))) i = Some (e, q) \<and> ip_id q = i \<and> k = point_key q \<and> m = point_meta e q"
        by blast
    next
      assume "\<exists>i e q. (c(ip_id p \<mapsto> (d, p))) i = Some (e, q) \<and> ip_id q = i \<and> k = point_key q \<and> m = point_meta e q"
      with False show "\<exists>i e q. c i = Some (e, q) \<and> i \<noteq> ip_id p \<and> k = point_key q \<and> m = point_meta e q"
        by (auto split: if_splits)
    qed
    finally show ?thesis .
  qed
  moreover have "sn_id_index s' i = Some k \<longleftrightarrow> (\<exists>e q. (c(ip_id p \<mapsto> (d, p))) i = Some (e, q) \<and> k = point_key q)" for i k
    using represents_index [OF s, of i k] by (auto simp: idx)
  moreover have "ip_id q = i" if "(c(ip_id p \<mapsto> (d, p))) i = Some (e, q)" for i e q
    using that represents_id [OF s] by (auto split: if_splits)
  ultimately show ?thesis by (simp only: represents_def) blast
qed

lemma represents_None:
  assumes "represents s c" "\<And>i e q. c i = Some (e, q) \<Longrightarrow> point_key q \<noteq> k"
  shows "sn_points s k = None"
proof (cases "sn_points s k")
  case (Some m)
  then show ?thesis using represents_points [OF assms(1), of k m] assms(2) by blast
qed

lemma represents_index_None: "represents s c \<Longrightarrow> c i = None \<Longrightarrow> sn_id_index s i = None"
  using represents_index [of s c i] by (cases "sn_id_index s i") auto

lemma add_point_represents:
  assumes s: "represents s c" and free: "free_for c p" and fresh: "c (ip_id p) = None"
  shows "represents (add_point d p s) (c(ip_id p \<mapsto> (d, p)))"
proof -
  have "sn_points s (point_key p) = None"
    using free fresh by (intro represents_None [OF s]) (metis free_for_def option.distinct(1))
  then show ?thesis using fresh by (intro represents_set [OF s free]) (auto simp: add_point_def Let_def)
qed

text \<open>The device of a point does not change.\<close>

definition same_owner :: "config \<Rightarrow> Iec104Device \<Rightarrow> Iec104Point \<Rightarrow> bool" where
  "same_owner c d p \<longleftrightarrow> (\<forall>e q. c (ip_id p) = Some (e, q) \<longrightarrow> id_id e = id_id d)"

lemma update_point_represents:
  assumes s: "represents s c" and free: "free_for c p" and own: "same_owner c d p"
  shows "represents (update_point d p s) (c(ip_id p \<mapsto> (d, p)))"
proof (cases "c (ip_id p)")
  case None
  then have "sn_points s (point_key p) = None"
    using free by (intro represents_None [OF s]) (metis free_for_def option.distinct(1))
  then show ?thesis using None represents_index_None [OF s None]
    by (intro represents_set [OF s free]) (auto simp: update_point_def Let_def)
next
  case (Some eq)
  obtain e q where q: "c (ip_id p) = Some (e, q)" by (cases eq) (use Some in simp)
  have idx: "sn_id_index s (ip_id p) = Some (point_key q)" using q by (auto simp: represents_index [OF s])
  have here: "sn_points s (point_key p) = None" if "point_key q \<noteq> point_key p"
    using free q that by (intro represents_None [OF s]) (metis free_for_def option.inject prod.inject)
  have "sn_points s (point_key q) = Some (point_meta e q)" by (rule represents_pointI [OF s q])
  moreover have "id_id e = id_id d" using own q by (simp add: same_owner_def)
  ultimately show ?thesis using q idx here
    by (intro represents_set [OF s free]) (auto simp: update_point_def Let_def)
qed

lemma remove_point_represents:
  assumes s: "represents s c" and q: "c (ip_id p) = Some (e, q)" "point_key q = point_key p" "id_id e = id_id d"
  shows "represents (remove_point d p s) (c(ip_id p := None))"
proof -
  have pts: "sn_points (remove_point d p s) = (sn_points s)(point_key p := None)"
    and idx: "sn_id_index (remove_point d p s) = (sn_id_index s)(ip_id p := None)"
    using represents_pointI [OF s q(1)] q(2,3) by (simp_all add: remove_point_def Let_def)
  have "sn_points (remove_point d p s) k = Some m \<longleftrightarrow>
      (\<exists>i d' p'. (c(ip_id p := None)) i = Some (d', p') \<and> ip_id p' = i \<and> k = point_key p' \<and> m = point_meta d' p')" for k m
  proof
    assume "sn_points (remove_point d p s) k = Some m"
    then have "k \<noteq> point_key p" "sn_points s k = Some m" by (auto simp: pts split: if_splits)
    then obtain i d' p' where "c i = Some (d', p')" "k = point_key p'" "m = point_meta d' p'"
      using represents_points [OF s] by blast
    moreover from this have "i \<noteq> ip_id p" using \<open>k \<noteq> point_key p\<close> q(1,2) by auto
    ultimately show "\<exists>i d' p'. (c(ip_id p := None)) i = Some (d', p') \<and> ip_id p' = i \<and> k = point_key p' \<and> m = point_meta d' p'"
      using represents_id [OF s] by (metis fun_upd_other)
  next
    assume "\<exists>i d' p'. (c(ip_id p := None)) i = Some (d', p') \<and> ip_id p' = i \<and> k = point_key p' \<and> m = point_meta d' p'"
    then obtain i d' p' where i: "i \<noteq> ip_id p" "c i = Some (d', p')" "k = point_key p'" "m = point_meta d' p'"
      by (auto split: if_splits)
    then have "k \<noteq> point_key p" using represents_inj [OF s i(2) q(1)] q(2) by auto
    then show "sn_points (remove_point d p s) k = Some m" using represents_pointI [OF s i(2)] i by (simp add: pts)
  qed
  then show ?thesis using represents_index [OF s] represents_id [OF s] by (simp add: represents_def idx)
qed

text \<open>Changes one after the other, each of which keeps the keys distinct.\<close>

fun legal_adds :: "Iec104Device \<Rightarrow> Iec104Point list \<Rightarrow> config \<Rightarrow> bool" where
  "legal_adds d [] c = True"
| "legal_adds d (p # ps) c \<longleftrightarrow> c (ip_id p) = None \<and> free_for c p \<and> legal_adds d ps (c(ip_id p \<mapsto> (d, p)))"

fun legal_updates :: "Iec104Device \<Rightarrow> Iec104Point list \<Rightarrow> config \<Rightarrow> bool" where
  "legal_updates d [] c = True"
| "legal_updates d (p # ps) c \<longleftrightarrow> free_for c p \<and> same_owner c d p \<and> legal_updates d ps (c(ip_id p \<mapsto> (d, p)))"

fun legal_removes :: "Iec104Device \<Rightarrow> Iec104Point list \<Rightarrow> config \<Rightarrow> bool" where
  "legal_removes d [] c = True"
| "legal_removes d (p # ps) c \<longleftrightarrow>
     (case c (ip_id p) of Some (e, q) \<Rightarrow> point_key q = point_key p \<and> id_id e = id_id d | None \<Rightarrow> False)
     \<and> legal_removes d ps (c(ip_id p := None))"

definition put_points :: "Iec104Device \<Rightarrow> Iec104Point list \<Rightarrow> config \<Rightarrow> config" where
  "put_points d ps c = fold (\<lambda>p c. c(ip_id p \<mapsto> (d, p))) ps c"

definition drop_points :: "Iec104Point list \<Rightarrow> config \<Rightarrow> config" where
  "drop_points ps c = fold (\<lambda>p c. c(ip_id p := None)) ps c"

lemma adds_represent: "represents s c \<Longrightarrow> legal_adds d ps c \<Longrightarrow> represents (fold (add_point d) ps s) (put_points d ps c)"
  by (induction ps arbitrary: s c) (simp_all add: put_points_def add_point_represents)

lemma updates_represent:
  "represents s c \<Longrightarrow> legal_updates d ps c \<Longrightarrow> represents (fold (update_point d) ps s) (put_points d ps c)"
  by (induction ps arbitrary: s c) (simp_all add: put_points_def update_point_represents)

lemma removes_represent:
  "represents s c \<Longrightarrow> legal_removes d ps c \<Longrightarrow> represents (fold (remove_point d) ps s) (drop_points ps c)"
  by (induction ps arbitrary: s c) (auto simp: drop_points_def remove_point_represents split: option.splits)

lemma empty_represents: "represents empty_snapshot Map.empty"
  by (simp add: represents_def empty_snapshot_def)

definition snapshot_of :: "u16 \<Rightarrow> snapshots \<Rightarrow> CaSnapshot" where
  "snapshot_of ca ss = (case ss ca of Some s \<Rightarrow> s | None \<Rightarrow> empty_snapshot)"

text \<open>C38: A change of the points of a device is applied to the snapshot of its common address: when every added,
  updated and removed point keeps the keys of the configuration distinct, the snapshot afterwards
  has exactly the points of the changed configuration, each under its type and address, and the other
  common addresses are not touched.\<close>

theorem iec104_snapshot_follows_config:
  assumes "represents (snapshot_of (id_ca d) ss) c" "legal_adds d added c" "legal_updates d updated (put_points d added c)"
    and "legal_removes d removed (put_points d updated (put_points d added c))"
  shows "represents (snapshot_of (id_ca d) (points_changed d added updated removed ss))
           (drop_points removed (put_points d updated (put_points d added c)))
    \<and> (\<forall>ca. ca \<noteq> id_ca d \<longrightarrow> points_changed d added updated removed ss ca = ss ca)"
  using removes_represent [OF updates_represent [OF adds_represent [OF assms(1,2)] assms(3)] assms(4)]
  by (simp add: points_changed_def snapshot_of_def Let_def)

text \<open>Two points of a device that exchange their addresses in one update lose one of them: after the first
  has taken the key of the second, the update of the second removes that key, so no object with the
  new address of the first point is published any more, although the configuration has the point.\<close>

theorem iec104_swap_loses_point:
  assumes "represents s c" "c (ip_id a) = Some (d, a)" "c (ip_id b) = Some (d, b)" "ip_id a \<noteq> ip_id b"
    and "ip_id a' = ip_id a" "ip_id b' = ip_id b" "point_key a' = point_key b" "point_key b' = point_key a"
  shows "sn_points (fold (update_point d) [a', b'] s) (point_key a') = None"
proof -
  have k: "point_key a \<noteq> point_key b" using represents_inj [OF assms(1,2,3)] assms(4) by auto
  have idx: "sn_id_index s (ip_id a) = Some (point_key a)" "sn_id_index s (ip_id b) = Some (point_key b)"
    using assms(2,3) by (auto simp: represents_index [OF assms(1)])
  have pb: "sn_points s (point_key b) = Some (point_meta d b)" by (rule represents_pointI [OF assms(1,3)])
  show ?thesis using k idx pb assms(4-8) by (simp add: update_point_def Let_def)
qed

text \<open>The configuration without the points of a device.\<close>

definition other_devices :: "Iec104Device \<Rightarrow> config \<Rightarrow> config" where
  "other_devices d c = (\<lambda>i. case c i of Some (e, p) \<Rightarrow> if id_id e \<noteq> id_id d then Some (e, p) else None | None \<Rightarrow> None)"

lemma other_devices_Some [simp]: "other_devices d c i = Some (e, p) \<longleftrightarrow> c i = Some (e, p) \<and> id_id e \<noteq> id_id d"
  by (auto simp: other_devices_def split: option.splits if_splits)

lemma represents_restrict:
  assumes "represents s c"
  shows "represents \<lparr>sn_points = (\<lambda>k. case sn_points s k of
             Some m \<Rightarrow> if pm_device_id m \<noteq> id_id d then Some m else None | None \<Rightarrow> None),
           sn_id_index = (\<lambda>i. case sn_id_index s i of
             Some k \<Rightarrow> if (case sn_points s k of Some m \<Rightarrow> if pm_device_id m \<noteq> id_id d then Some m else None
                                                | None \<Rightarrow> None) \<noteq> None
                       then Some k else None | None \<Rightarrow> None)\<rparr> (other_devices d c)" (is "represents \<lparr>sn_points = ?P, sn_id_index = ?I\<rparr> _")
proof -
  have P: "?P k = Some m \<longleftrightarrow> sn_points s k = Some m \<and> pm_device_id m \<noteq> id_id d" for k m
    by (auto split: option.splits if_splits)
  have I: "?I i = Some k \<longleftrightarrow> (\<exists>e p. c i = Some (e, p) \<and> k = point_key p \<and> id_id e \<noteq> id_id d)" for i k
  proof (cases "c i")
    case None
    then show ?thesis using represents_index_None [OF assms None] by simp
  next
    case (Some ep)
    then obtain e p where c: "c i = Some (e, p)" by (cases ep) auto
    then have "sn_id_index s i = Some (point_key p)" by (auto simp: represents_index [OF assms])
    then show ?thesis using c represents_pointI [OF assms c] by auto
  qed
  have "?P k = Some m \<longleftrightarrow> (\<exists>i e p. other_devices d c i = Some (e, p) \<and> ip_id p = i \<and> k = point_key p \<and> m = point_meta e p)" for k m
    unfolding P represents_points [OF assms] by (auto, metis represents_id [OF assms])
  moreover have "?I i = Some k \<longleftrightarrow> (\<exists>e p. other_devices d c i = Some (e, p) \<and> k = point_key p)" for i k
    unfolding I by auto
  moreover have "other_devices d c i = Some (e, p) \<longrightarrow> ip_id p = i" for i e p by (auto dest: represents_id [OF assms])
  ultimately show ?thesis unfolding represents_def by (simp only: CaSnapshot.simps simp_thms) blast
qed

lemma represents_only_device:
  assumes "represents s c"
  shows "(\<forall>m\<in>ran (sn_points s). pm_device_id m = id_id d) \<longleftrightarrow> other_devices d c = Map.empty"
proof
  assume only: "\<forall>m\<in>ran (sn_points s). pm_device_id m = id_id d"
  show "other_devices d c = Map.empty"
  proof
    fix i
    show "other_devices d c i = None"
    proof (rule ccontr)
      assume "other_devices d c i \<noteq> None"
      then obtain e p where "c i = Some (e, p)" "id_id e \<noteq> id_id d" by force
      then show False using only represents_pointI [OF assms] by (force intro: ranI)
    qed
  qed
next
  assume "other_devices d c = Map.empty"
  then have "\<not> (c i = Some (e, p) \<and> id_id e \<noteq> id_id d)" for i e p by (metis option.distinct(1) other_devices_Some)
  then show "\<forall>m\<in>ran (sn_points s). pm_device_id m = id_id d"
    by (fastforce simp: ran_def represents_points [OF assms])
qed

text \<open>C39: Removing a device leaves in the snapshot of its common address exactly the points of the other devices and
  touches no other address, unless no other device has a point there: then the removal of the
  address, which by the documentation of the map waits for references that are held, waits for the
  reference it holds itself and never returns.\<close>

theorem iec104_device_removal:
  assumes "remove_waits remove_held" "ss (id_ca d) = Some s" "represents s c"
  shows "if other_devices d c = Map.empty then device_removed remove_held d ss = None
         else \<exists>ss'. device_removed remove_held d ss = Some ss' \<and> represents (snapshot_of (id_ca d) ss') (other_devices d c)
              \<and> (\<forall>ca. ca \<noteq> id_ca d \<longrightarrow> ss' ca = ss ca)"
  using represents_restrict [OF assms(3)] assms(1)
  by (simp add: device_removed_def assms(2) represents_only_device [OF assms(3)] snapshot_of_def Let_def remove_waits_def)

section \<open>What is published for a unit\<close>

text \<open>The objects that belong to a configured point and have a value of its type, in the order of the unit.\<close>

definition matched_values ::
    "bit_objects \<Rightarrow> (u32 \<rightharpoonup> PointMeta) \<Rightarrow> u8 \<Rightarrow> ('e \<Rightarrow> PointMeta \<Rightarrow> NGValue option) \<Rightarrow> ('e, 'dt) info_object list
      \<Rightarrow> (PointMeta \<times> 'dt TimedValue) list" where
  "matched_values l pts t conv infos =
     List.map_filter (\<lambda>x. case pts (pack_key (ioa_addr l (io_ioa x)) t) of
         None \<Rightarrow> None
       | Some m \<Rightarrow> map_option (\<lambda>v. (m, \<lparr>tv_point_id = pm_point_id m, tv_point_key = pm_point_key m, tv_value = v,
                                          tv_ts = io_time x\<rparr>)) (conv (io_elem x) m)) infos"

definition values_of :: "int \<Rightarrow> DataPointType \<Rightarrow> (PointMeta \<times> 'dt TimedValue) list \<Rightarrow> 'dt TimedValue list" where
  "values_of dev k vs = map snd (filter (\<lambda>(m, v). pm_device_id m = dev \<and> pm_kind m = k) vs)"

definition telemetry_at :: "int \<Rightarrow> 'dt DeviceValues \<Rightarrow> 'dt TimedValue list" where
  "telemetry_at dev pd = (case pd dev of Some (name, telemetry, attributes) \<Rightarrow> telemetry | None \<Rightarrow> [])"

definition attributes_at :: "int \<Rightarrow> 'dt DeviceValues \<Rightarrow> 'dt TimedValue list" where
  "attributes_at dev pd = (case pd dev of Some (name, telemetry, attributes) \<Rightarrow> attributes | None \<Rightarrow> [])"

lemma push_point_value_at:
  "telemetry_at dev (push_point_value m v ts pd) = telemetry_at dev pd @ values_of dev Telemetry
     [(m, \<lparr>tv_point_id = pm_point_id m, tv_point_key = pm_point_key m, tv_value = v, tv_ts = ts\<rparr>)]"
  "attributes_at dev (push_point_value m v ts pd) = attributes_at dev pd @ values_of dev Attribute
     [(m, \<lparr>tv_point_id = pm_point_id m, tv_point_key = pm_point_key m, tv_value = v, tv_ts = ts\<rparr>)]"
  by (auto simp: telemetry_at_def attributes_at_def push_point_value_def values_of_def Let_def
      split: option.splits DataPointType.splits)

lemma values_of_append: "values_of dev k (xs @ ys) = values_of dev k xs @ values_of dev k ys"
  by (simp add: values_of_def)

lemma push_unmatched_counts [simp]:
  "total_infos (push_unmatched_ioa ioa st) = total_infos st" "matched_infos (push_unmatched_ioa ioa st) = matched_infos st"
  by (simp_all add: push_unmatched_ioa_def)

lemma extract_fold:
  fixes infos :: "('e, 'dt) info_object list"
  assumes "fold (extract_info l pts t conv) infos (pd, st) = (pd', st')"
  shows "telemetry_at dev pd' = telemetry_at dev pd @ values_of dev Telemetry (matched_values l pts t conv infos)
    \<and> attributes_at dev pd' = attributes_at dev pd @ values_of dev Attribute (matched_values l pts t conv infos)
    \<and> total_infos st' = total_infos st + length infos
    \<and> matched_infos st' = matched_infos st + length (matched_values l pts t conv infos)"
  using assms
proof (induction infos arbitrary: pd st)
  case Nil
  then show ?case by (simp add: matched_values_def values_of_def List.map_filter_def)
next
  case (Cons x xs)
  obtain pd1 st1 where one: "extract_info l pts t conv x (pd, st) = (pd1, st1)" by fastforce
  have split: "matched_values l pts t conv (x # xs) = matched_values l pts t conv [x] @ matched_values l pts t conv xs"
    by (simp add: matched_values_def List.map_filter_def)
  have "telemetry_at dev pd1 = telemetry_at dev pd @ values_of dev Telemetry (matched_values l pts t conv [x])
    \<and> attributes_at dev pd1 = attributes_at dev pd @ values_of dev Attribute (matched_values l pts t conv [x])
    \<and> total_infos st1 = total_infos st + 1
    \<and> matched_infos st1 = matched_infos st + length (matched_values l pts t conv [x])"
    using one
    by (auto simp: extract_info_def Let_def matched_values_def List.map_filter_def push_point_value_at
        values_of_def split: option.splits)
  then show ?case using Cons.IH [of pd1 st1] Cons.prems
    by (simp add: one split values_of_append del: fold_Cons) (simp add: one)
qed

lemma extract_infos_exact:
  assumes "extract_infos l pts t conv (Some (Inr infos)) = Some (pd, st)"
  shows "telemetry_at dev pd = values_of dev Telemetry (matched_values l pts t conv infos)"
    "attributes_at dev pd = values_of dev Attribute (matched_values l pts t conv infos)"
    "total_infos st = length infos" "matched_infos st = length (matched_values l pts t conv infos)"
proof -
  have "fold (extract_info l pts t conv) infos (Map.empty, \<lparr>total_infos = 0, matched_infos = 0, unmatched_ioas = []\<rparr>) = (pd, st)"
    using assms by (simp add: extract_infos_def)
  note extract_fold [OF this, of dev]
  then show "telemetry_at dev pd = values_of dev Telemetry (matched_values l pts t conv infos)"
    "attributes_at dev pd = values_of dev Attribute (matched_values l pts t conv infos)"
    "total_infos st = length infos" "matched_infos st = length (matched_values l pts t conv infos)"
    by (simp_all add: telemetry_at_def attributes_at_def)
qed

definition values_at :: "DataPointType \<Rightarrow> int \<Rightarrow> 'dt DeviceValues \<Rightarrow> 'dt TimedValue list" where
  "values_at k dev pd = (case k of Telemetry \<Rightarrow> telemetry_at dev pd | Attribute \<Rightarrow> attributes_at dev pd)"

text \<open>A value that is published for a point: it carries the point's identification and has the type \<open>dt\<close>.\<close>

definition value_for :: "DataPointType \<Rightarrow> int \<Rightarrow> PointMeta \<Rightarrow> DataType \<Rightarrow> 'dt TimedValue \<Rightarrow> bool" where
  "value_for k dev m dt v \<longleftrightarrow>
     pm_device_id m = dev \<and> pm_kind m = k \<and> tv_point_id v = pm_point_id m \<and> tv_point_key v = pm_point_key m
     \<and> data_type (tv_value v) = dt"

lemma values_ofE:
  assumes "v \<in> set (values_of dev k (matched_values l pts t conv infos))"
  obtains x m y where "x \<in> set infos" "pts (pack_key (ioa_addr l (io_ioa x)) t) = Some m" "conv (io_elem x) m = Some y"
    "pm_device_id m = dev" "pm_kind m = k"
    "v = \<lparr>tv_point_id = pm_point_id m, tv_point_key = pm_point_key m, tv_value = y, tv_ts = io_time x\<rparr>"
  using assms by (auto simp: values_of_def matched_values_def List.map_filter_def split: option.splits)

lemma extract_infos_sound:
  assumes "extract_infos l pts t conv r = Some (pd, st)" "v \<in> set (values_at k dev pd)"
    and "\<And>e m x. conv e m = Some x \<Longrightarrow> data_type x = T m"
  shows "\<exists>ioa m. pts (pack_key ioa t) = Some m \<and> value_for k dev m (T m) v"
proof (cases r)
  case (Some r')
  then show ?thesis
  proof (cases r')
    case (Inr infos)
    with Some assms(1) have "extract_infos l pts t conv (Some (Inr infos)) = Some (pd, st)" by simp
    note exact = extract_infos_exact [OF this]
    have "values_at k dev pd = values_of dev k (matched_values l pts t conv infos)"
      by (cases k) (simp_all add: values_at_def exact)
    with assms(2) have "v \<in> set (values_of dev k (matched_values l pts t conv infos))" by simp
    then show ?thesis
    proof (rule values_ofE)
      fix x m y
      assume "pts (pack_key (ioa_addr l (io_ioa x)) t) = Some m" "conv (io_elem x) m = Some y" "pm_device_id m = dev" "pm_kind m = k"
        "v = \<lparr>tv_point_id = pm_point_id m, tv_point_key = pm_point_key m, tv_value = y, tv_ts = io_time x\<rparr>"
      moreover from this have "value_for k dev m (T m) v" using assms(3) by (simp add: value_for_def)
      ultimately show ?thesis by blast
    qed
  next
    case (Inl e)
    with Some assms(1,2) show ?thesis
      by (cases k) (auto simp: extract_infos_def values_at_def telemetry_at_def attributes_at_def)
  qed
qed (use assms in \<open>auto simp: extract_infos_def\<close>)

lemma coerce_types:
  "coerce_f64_to_value x dt t = Some v \<Longrightarrow> data_type v = dt"
  "coerce_bool_to_value b dt t = Some v \<Longrightarrow> data_type v = dt"
  "coerce_u64_to_value u dt t = Some v \<Longrightarrow> data_type v = dt"
  "coerce_i64_to_value i dt t = Some v \<Longrightarrow> data_type v = dt"
  using coerce_value_type [of "Float64 x" dt t v] coerce_value_type [of "Boolean b" dt t v]
    coerce_value_type [of "UInt64 u" dt t v] coerce_value_type [of "Int64 i" dt t v] by simp_all

text \<open>The type the code asks for: the configured wire type for bit strings, step positions and double points, the
  logical type for everything else.\<close>

definition wire_typed :: "TypeID \<Rightarrow> bool" where
  "wire_typed t \<longleftrightarrow>
     t \<in> {M_BO_NA_1, M_BO_TA_1, M_BO_TB_1, M_ST_NA_1, M_ST_TA_1, M_ST_TB_1, M_DP_NA_1, M_DP_TA_1, M_DP_TB_1}"

definition published_type :: "TypeID \<Rightarrow> PointMeta \<Rightarrow> DataType" where
  "published_type t m = (if wire_typed t then pm_data_type m else pm_logical_data_type m)"

text \<open>C37: Every value published for a received unit belongs to a configured point: the point is found under
  the type of the unit and an object address, the value goes to the point's device, as telemetry or
  attribute as the point says, under the point's identifier and key, and it has the point's
  logical type, except for bit strings, step positions and double points, whose values have the
  wire type.\<close>

theorem iec104_published_sound:
  assumes "extract_values_by_kind l ch pts a = Some (pd, st)" "v \<in> set (values_at k dev pd)"
  shows "\<exists>ioa m. pts (pack_key ioa (type_id_code (type_id (ident a)))) = Some m
    \<and> value_for k dev m (published_type (type_id (ident a)) m) v"
proof -
  have unmatched: "v \<notin> set (values_at k dev Map.empty)"
    by (cases k) (simp_all add: values_at_def telemetry_at_def attributes_at_def)
  show ?thesis using assms(1) unmatched assms(2)
    by (auto simp: extract_values_by_kind_def Let_def published_type_def wire_typed_def
        intro!: extract_infos_sound [OF _ assms(2)] dest: coerce_types split: if_splits)
qed

lemma build_objects_type: "build_objects l t is_seq ct ca xs w = Some (Inr a) \<Longrightarrow> type_id (ident a) = t"
  by (auto simp: build_objects_def Let_def res_bind_def split: if_splits sum.splits)

text \<open>C36: From the sender of a unit to the values that are published: single points that fit one unit
  without a time tag (M_SP_NA_1) or with a tag of seven bytes (M_SP_TB_1) are all decoded, and every
  device gets, in the order of the unit, the states of the objects that are configured for it, converted
  to the types of their points, with the time of the object cut to the second when the unit has tags.\<close>

theorem iec104_single_points_published:
  assumes "bit_objects_ok l" "t = M_SP_NA_1 \<or> t = M_SP_TB_1"
    and "fits_unit l is_seq (tag_ok ch M_SP_NA_1 M_SP_TA_1 M_SP_TB_1 t) xs"
  shows "\<exists>a pd st. single_inner l ch t is_seq ct ca xs = Some (Inr a)
    \<and> extract_values_by_kind l ch pts a = Some (pd, st) \<and> total_infos st = length xs
    \<and> (\<forall>k dev. values_at k dev pd =
          values_of dev k (matched_values l pts (type_id_code t)
            (\<lambda>siq m. coerce_bool_to_value (siq_spi l siq) (pm_logical_data_type m) (pm_transform m))
            (map (to_second ch (t \<noteq> M_SP_NA_1)) xs)))"
proof -
  obtain a where a: "single_inner l ch t is_seq ct ca xs = Some (Inr a)"
      "get_single_point l ch a = Some (Inr (map (to_second ch (t \<noteq> M_SP_NA_1)) xs))"
    using single_roundtrip [OF assms(1,3)] by blast
  have t: "type_id (ident a) = t" using a(1) by (simp add: single_inner_def build_objects_type)
  let ?conv = "\<lambda>siq m. coerce_bool_to_value (siq_spi l siq) (pm_logical_data_type m) (pm_transform m)"
  obtain pd st where e: "extract_infos l pts (type_id_code t) ?conv
      (Some (Inr (map (to_second ch (t \<noteq> M_SP_NA_1)) xs))) = Some (pd, st)"
    by (simp add: extract_infos_def) fastforce
  have "extract_values_by_kind l ch pts a = Some (pd, st)"
    using assms(2) e by (auto simp: extract_values_by_kind_def Let_def t a(2))
  moreover have "values_at k dev pd = values_of dev k (matched_values l pts (type_id_code t) ?conv
      (map (to_second ch (t \<noteq> M_SP_NA_1)) xs))" for k dev
    using extract_infos_exact [OF e] by (cases k) (simp_all add: values_at_def)
  moreover have "total_infos st = length xs" using extract_infos_exact(3) [OF e] by simp
  ultimately show ?thesis using a(1) by blast
qed

section \<open>Examples\<close>

definition no_transform :: Transform where
  "no_transform = \<lparr>transform_data_type = None, transform_scale = None, transform_offset = None, transform_negate = False\<rparr>"

definition rtu :: Iec104Device where
  "rtu = \<lparr>id_id = 1, id_device_name = ''rtu'', id_ca = 1\<rparr>"

definition breaker :: Iec104Point where
  "breaker = \<lparr>ip_id = 10, ip_key = ''breaker'', ip_type = Telemetry, ip_data_type = T_Boolean, ip_access_mode = AM_Read,
     ip_transform = no_transform, ip_ioa = 7, ip_type_id = 30\<rparr>"

definition alarm :: Iec104Point where
  "alarm = breaker\<lparr>ip_id := 11, ip_key := ''alarm'', ip_ioa := 8\<rparr>"

lemmas sample_points = rtu_def breaker_def alarm_def no_transform_def point_key_def

definition sample_snapshot :: CaSnapshot where
  "sample_snapshot = fold (add_point rtu) [breaker, alarm] empty_snapshot"

lemma sample_points_config: "put_points rtu [breaker, alarm] Map.empty = [10 \<mapsto> (rtu, breaker), 11 \<mapsto> (rtu, alarm)]"
  by (simp add: put_points_def sample_points)

lemma sample_legal: "legal_adds rtu [breaker, alarm] Map.empty"
  by (auto simp: free_for_def sample_points split: if_splits)

lemma sample_represents: "represents sample_snapshot [10 \<mapsto> (rtu, breaker), 11 \<mapsto> (rtu, alarm)]"
  using adds_represent [OF empty_represents sample_legal] by (simp only: sample_snapshot_def sample_points_config)

theorem iec104_snapshot_follows_config_witness:
  "represents (snapshot_of 1 (points_changed rtu [breaker, alarm] [breaker\<lparr>ip_ioa := 9\<rparr>] [alarm] Map.empty))
     [10 \<mapsto> (rtu, breaker\<lparr>ip_ioa := 9\<rparr>)]"
proof -
  have "legal_updates rtu [breaker\<lparr>ip_ioa := 9\<rparr>] (put_points rtu [breaker, alarm] Map.empty)"
    unfolding sample_points_config by (auto simp: free_for_def same_owner_def sample_points split: if_splits)
  moreover have cfg: "put_points rtu [breaker\<lparr>ip_ioa := 9\<rparr>] (put_points rtu [breaker, alarm] Map.empty)
      = [10 \<mapsto> (rtu, breaker\<lparr>ip_ioa := 9\<rparr>), 11 \<mapsto> (rtu, alarm)]"
    unfolding sample_points_config by (auto simp: put_points_def sample_points)
  moreover have "legal_removes rtu [alarm] (put_points rtu [breaker\<lparr>ip_ioa := 9\<rparr>] (put_points rtu [breaker, alarm] Map.empty))"
    unfolding cfg by (simp add: sample_points)
  moreover have "drop_points [alarm] [10 \<mapsto> (rtu, breaker\<lparr>ip_ioa := 9\<rparr>), 11 \<mapsto> (rtu, alarm)] = [10 \<mapsto> (rtu, breaker\<lparr>ip_ioa := 9\<rparr>)]"
    by (auto simp: drop_points_def sample_points)
  moreover have "represents (snapshot_of (id_ca rtu) Map.empty) Map.empty" by (simp add: snapshot_of_def empty_represents)
  ultimately show ?thesis
    using iec104_snapshot_follows_config [OF _ sample_legal, of Map.empty "[breaker\<lparr>ip_ioa := 9\<rparr>]" "[alarm]"]
    by (simp add: rtu_def)
qed

theorem iec104_swap_loses_point_witness:
  "sn_points (fold (update_point rtu) [breaker\<lparr>ip_ioa := 8\<rparr>, alarm\<lparr>ip_ioa := 7\<rparr>] sample_snapshot) (pack_key 8 30) = None"
  using iec104_swap_loses_point [OF sample_represents, of breaker rtu alarm "breaker\<lparr>ip_ioa := 8\<rparr>" "alarm\<lparr>ip_ioa := 7\<rparr>"]
  by (simp add: sample_points)

theorem iec104_device_removal_witness:
  "device_removed (\<lambda>ca ss. None) rtu [1 \<mapsto> sample_snapshot] = None
    \<and> (\<exists>ss. device_removed (\<lambda>ca ss. None) (rtu\<lparr>id_id := 2\<rparr>) [1 \<mapsto> sample_snapshot] = Some ss
         \<and> represents (snapshot_of 1 ss) [10 \<mapsto> (rtu, breaker), 11 \<mapsto> (rtu, alarm)])"
proof -
  let ?c = "[10 \<mapsto> (rtu, breaker), 11 \<mapsto> (rtu, alarm)]"
  have o: "other_devices rtu ?c = Map.empty" "other_devices (rtu\<lparr>id_id := 2\<rparr>) ?c = ?c"
    by (auto simp: other_devices_def rtu_def)
  have a: "id_ca rtu = 1" by (simp add: rtu_def)
  have w: "remove_waits (\<lambda>ca ss. None)" by (simp add: remove_waits_def)
  show ?thesis
    using iec104_device_removal [OF w _ sample_represents, of "[1 \<mapsto> sample_snapshot]" rtu]
      iec104_device_removal [OF w _ sample_represents, of "[1 \<mapsto> sample_snapshot]" "rtu\<lparr>id_id := 2\<rparr>"]
    by (auto simp: o a)
qed

theorem iec104_single_points_published_witness:
  "\<exists>a pd st. single_inner iec104_objects (civil_calendar (2024, 5, 6, 11, 0, 2, 0)) M_SP_TB_1 False 3 1 [sample_event] = Some (Inr a)
    \<and> extract_values_by_kind iec104_objects (civil_calendar (2024, 5, 6, 11, 0, 2, 0)) (sn_points sample_snapshot) a = Some (pd, st)
    \<and> values_at Telemetry 1 pd =
        [\<lparr>tv_point_id = 10, tv_point_key = ''breaker'', tv_value = Boolean True, tv_ts = Some (2024, 5, 6, 10, 59, 58, 0)\<rparr>]"
proof -
  let ?ch = "civil_calendar (2024, 5, 6, 11, 0, 2, 0)"
  have fits: "fits_unit iec104_objects False (tag_ok ?ch M_SP_NA_1 M_SP_TA_1 M_SP_TB_1 M_SP_TB_1) [sample_event]"
    by (simp add: fits_unit_def tag_ok_def stamped_ok_def cp_fields_ok_def cp_seen_def civil_calendar_def sample_event_def)
  have k: "sn_points sample_snapshot (pack_key 7 30) = Some (point_meta rtu breaker)"
    using represents_pointI [OF sample_represents, of 10 rtu breaker] by (simp add: sample_points)
  have a: "ioa_addr iec104_objects 7 = 7" "siq_spi iec104_objects 1 = True" by (simp_all add: iec104_objects_def)
  have "values_of 1 Telemetry (matched_values iec104_objects (sn_points sample_snapshot) (type_id_code M_SP_TB_1)
      (\<lambda>siq m. coerce_bool_to_value (siq_spi iec104_objects siq) (pm_logical_data_type m) (pm_transform m))
      (map (to_second ?ch True) [sample_event]))
    = [\<lparr>tv_point_id = 10, tv_point_key = ''breaker'', tv_value = Boolean True, tv_ts = Some (2024, 5, 6, 10, 59, 58, 0)\<rparr>]"
    using k a by (simp add: matched_values_def values_of_def List.map_filter_def to_second_def sample_event_def point_meta_def
        sample_points cp_seen_def civil_calendar_def coerce_bool_to_value_def pm_logical_data_type_def resolve_logical_datatype_def)
  note expected = this
  have t: "M_SP_TB_1 = M_SP_NA_1 \<or> M_SP_TB_1 = M_SP_TB_1" "(M_SP_TB_1 \<noteq> M_SP_NA_1) = True" by simp_all
  obtain a pd st where "single_inner iec104_objects ?ch M_SP_TB_1 False 3 1 [sample_event] = Some (Inr a)"
      "extract_values_by_kind iec104_objects ?ch (sn_points sample_snapshot) a = Some (pd, st)"
      "values_at Telemetry 1 pd = values_of 1 Telemetry (matched_values iec104_objects (sn_points sample_snapshot)
        (type_id_code M_SP_TB_1)
        (\<lambda>siq m. coerce_bool_to_value (siq_spi iec104_objects siq) (pm_logical_data_type m) (pm_transform m))
        (map (to_second ?ch True) [sample_event]))"
    using iec104_single_points_published [OF iec104_objects_ok t(1) fits, where ct = 3 and ca = 1
        and pts = "sn_points sample_snapshot", unfolded t(2)] by blast
  then show ?thesis unfolding expected by blast
qed

definition position_point :: PointMeta where
  "position_point = \<lparr>pm_point_id = 12, pm_device_id = 1, pm_device_name = ''rtu'', pm_point_key = ''position'',
     pm_data_type = T_UInt8, pm_transform = no_transform\<lparr>transform_data_type := Some T_Int32\<rparr>, pm_kind = Telemetry\<rparr>"

definition position_unit :: Asdu where
  "position_unit = \<lparr>ident = \<lparr>type_id = M_DP_NA_1, variable_struct = 1, cot = 3, orig_addr = 0, common_addr = 1\<rparr>,
     asdu_raw = [7, 0, 0, 2]\<rparr>"

text \<open>A double point whose transform asks for a signed number is published in its wire type.\<close>

lemma position_extracted:
  "extract_values_by_kind iec104_objects ch [pack_key 7 3 \<mapsto> position_point] position_unit
     = Some ([1 \<mapsto> (''rtu'', [\<lparr>tv_point_id = 12, tv_point_key = ''position'', tv_value = UInt8 2, tv_ts = None\<rparr>], [])],
             \<lparr>total_infos = 1, matched_infos = 1, unmatched_ioas = []\<rparr>)"
proof -
  have l: "vs_number iec104_objects 1 = 1" "\<not> vs_is_sequence iec104_objects 1" "ioa_ok iec104_objects v"
      "object_ok iec104_objects b x" "diq_spi iec104_objects 2 = 2" "ioa_addr iec104_objects 7 = 7" for v b x
    by (simp_all add: iec104_objects_def bit_1_iff)
  have r: "read_u24_le [7, 0, 0, 2] = Some (Inr (7, [2]))"
    by (simp add: read_u24_le_def read_n_def)
  have "get_double_point iec104_objects ch position_unit = Some (Inr [\<lparr>io_ioa = 7, io_elem = 2, io_time = None\<rparr>])"
    by (simp add: get_double_point_def get_objects_def position_unit_def Let_def l r read_ioa_def both_def time_tag_def)
  then show ?thesis
    by (simp add: extract_values_by_kind_def Let_def extract_infos_def extract_info_def l position_unit_def
        push_point_value_def position_point_def coerce_u64_to_value_def should_apply_numeric_transform_def no_transform_def
        is_identity_numeric_def narrow_def umax_def)
qed

lemma iec104_double_point_wire_typed:
  "pm_logical_data_type position_point = T_Int32 \<and> data_type (UInt8 2) \<noteq> T_Int32"
  by (simp add: pm_logical_data_type_def position_point_def resolve_logical_datatype_def)

theorem iec104_published_sound_witness:
  "\<exists>ioa m. [pack_key 7 3 \<mapsto> position_point] (pack_key ioa 3) = Some m
    \<and> value_for Telemetry 1 m T_UInt8 \<lparr>tv_point_id = 12, tv_point_key = ''position'', tv_value = UInt8 2, tv_ts = (None :: civil option)\<rparr>"
proof -
  let ?v = "\<lparr>tv_point_id = 12, tv_point_key = ''position'', tv_value = UInt8 2, tv_ts = (None :: civil option)\<rparr>"
  have "?v \<in> set (values_at Telemetry 1 [1 \<mapsto> (''rtu'', [?v], [])])" by (simp add: values_at_def telemetry_at_def)
  from iec104_published_sound [OF position_extracted this]
  obtain ioa m where "[pack_key 7 3 \<mapsto> position_point] (pack_key ioa 3) = Some m"
      "value_for Telemetry 1 m (published_type M_DP_NA_1 m) ?v"
    by (auto simp: position_unit_def)
  moreover from this(1) have "m = position_point" by (simp split: if_splits)
  ultimately show ?thesis by (simp add: published_type_def wire_typed_def position_point_def)
qed

end
