(* ===== verification/Iec104_Command.thy ===== *)
theory Iec104_Command
  imports Iec104_Info
begin

text \<open>
  Units in the control direction: process commands (\<open>frame/cproc.rs\<close>) and system commands (\<open>frame/csys.rs\<close>).
  A command has a single object; commands with a time tag take the clock when none is given.

  The lemmas show that the readers recover the address and the value a command was built with, which causes
  are refused, and that the time-tagged test command is sent under another type identification.
\<close>

section \<open>Process commands\<close>

definition cause_cmd :: "Cause \<Rightarrow> bool" where
  "cause_cmd c \<longleftrightarrow>
     c = Activation \<or> c = ActivationCon \<or> c = Deactivation \<or> c = DeactivationCon \<or> c = UnknownTypeID \<or> c = UnknownCOT
     \<or> c = UnknownCA \<or> c = UnknownIOA"

definition build_command ::
    "bit_objects \<Rightarrow> 'dt calendar \<Rightarrow> TypeID \<Rightarrow> TypeID \<Rightarrow> TypeID \<Rightarrow> u8 \<Rightarrow> u16 \<Rightarrow> ('e \<Rightarrow> bytes) \<Rightarrow> ('e, 'dt) info_object
      \<Rightarrow> Iec104Error + Asdu" where
  "build_command l ch na ta t ct ca w cmd =
     (if \<not> cause_cmd (cot_cause l ct) then Inl (ErrCmdCause ct)
      else
        let buf = put_u24_le (io_ioa cmd) @ w (io_elem cmd);
            unit = \<lambda>raw. \<lparr>ident = \<lparr>type_id = t, variable_struct = vs_new l False 1, cot = ct, orig_addr = 0, common_addr = ca\<rparr>,
                           asdu_raw = raw\<rparr>
        in if t = na then Inr (unit buf)
           else if t = ta then Inr (unit (buf @ cp56time2a ch (stamp ch 0 cmd)))
           else Inl (ErrTypeIDNotMatch t))"

text \<open>The readers unwrap the conversions of the address and of the qualifier: a value they refuse panics.\<close>

definition unwrap_object :: "bit_objects \<Rightarrow> bit_object \<Rightarrow> u8 reader" where
  "unwrap_object l k bs = try_bind (read_u8 bs) (\<lambda>(b, bs). if object_ok l k b then Some (Inr (b, bs)) else None)"

definition read_command ::
    "bit_objects \<Rightarrow> 'dt calendar \<Rightarrow> TypeID \<Rightarrow> TypeID \<Rightarrow> 'e reader \<Rightarrow> Asdu \<Rightarrow> ('e, 'dt) info_object outcome" where
  "read_command l ch na ta r a =
     try_bind (read_u24_le (asdu_raw a)) (\<lambda>(ioa, bs).
       if \<not> ioa_ok l ioa then None
       else try_bind (r bs) (\<lambda>(x, bs).
              let t = type_id (ident a)
              in if t = na then Some (Inr \<lparr>io_ioa = ioa, io_elem = x, io_time = None\<rparr>)
                 else if t = ta then
                   try_bind (decode_cp56time2a ch bs) (\<lambda>(tm, bs). Some (Inr \<lparr>io_ioa = ioa, io_elem = x, io_time = tm\<rparr>))
                 else Some (Inl (ErrTypeIDNotMatch t))))"

type_synonym 'dt SingleCommandInfo = "(u8, 'dt) info_object"
type_synonym 'dt DoubleCommandInfo = "(u8, 'dt) info_object"
type_synonym 'dt StepCommandInfo = "(u8, 'dt) info_object"
type_synonym 'dt SetPointCommandNormalInfo = "(u16 \<times> u8, 'dt) info_object"
type_synonym 'dt SetPointCommandScaledInfo = "(u16 \<times> u8, 'dt) info_object"
type_synonym 'dt SetPointCommandFloatInfo = "(fp \<times> u8, 'dt) info_object"
type_synonym 'dt BitsString32CommandInfo = "(u32, 'dt) info_object"

definition single_command_new :: "bit_objects \<Rightarrow> u16 \<Rightarrow> bool \<Rightarrow> bool \<Rightarrow> 'dt SingleCommandInfo" where
  "single_command_new l addr v se = \<lparr>io_ioa = ioa_new l 0 addr, io_elem = sco_new l se 0 0 v, io_time = None\<rparr>"

definition double_command_new :: "bit_objects \<Rightarrow> u16 \<Rightarrow> u8 \<Rightarrow> bool \<Rightarrow> 'dt DoubleCommandInfo" where
  "double_command_new l addr v se = \<lparr>io_ioa = ioa_new l 0 addr, io_elem = dco_new l se 0 (v mod 4), io_time = None\<rparr>"

definition step_command_new :: "bit_objects \<Rightarrow> u16 \<Rightarrow> u8 \<Rightarrow> bool \<Rightarrow> 'dt StepCommandInfo" where
  "step_command_new l addr v se = \<lparr>io_ioa = ioa_new l 0 addr, io_elem = rco_new l se 0 (v mod 4), io_time = None\<rparr>"

definition set_point_normal_new :: "bit_objects \<Rightarrow> u16 \<Rightarrow> u16 \<Rightarrow> 'dt SetPointCommandNormalInfo" where
  "set_point_normal_new l addr v = \<lparr>io_ioa = ioa_new l 0 addr, io_elem = (v, qos_new l 0 0), io_time = None\<rparr>"

definition set_point_scaled_new :: "bit_objects \<Rightarrow> u16 \<Rightarrow> u16 \<Rightarrow> 'dt SetPointCommandScaledInfo" where
  "set_point_scaled_new l addr v = \<lparr>io_ioa = ioa_new l 0 addr, io_elem = (v, qos_new l 0 0), io_time = None\<rparr>"

definition set_point_float_new :: "bit_objects \<Rightarrow> u16 \<Rightarrow> fp \<Rightarrow> 'dt SetPointCommandFloatInfo" where
  "set_point_float_new l addr v = \<lparr>io_ioa = ioa_new l 0 addr, io_elem = (v, qos_new l 0 0), io_time = None\<rparr>"

definition bits_string32_new :: "bit_objects \<Rightarrow> u16 \<Rightarrow> u32 \<Rightarrow> 'dt BitsString32CommandInfo" where
  "bits_string32_new l addr v = \<lparr>io_ioa = ioa_new l 0 addr, io_elem = v, io_time = None\<rparr>"

definition single_cmd ::
    "bit_objects \<Rightarrow> 'dt calendar \<Rightarrow> TypeID \<Rightarrow> u8 \<Rightarrow> u16 \<Rightarrow> 'dt SingleCommandInfo \<Rightarrow> Iec104Error + Asdu" where
  "single_cmd l ch t ct ca cmd = build_command l ch C_SC_NA_1 C_SC_TA_1 t ct ca (\<lambda>sco. [sco]) cmd"

definition double_cmd ::
    "bit_objects \<Rightarrow> 'dt calendar \<Rightarrow> TypeID \<Rightarrow> u8 \<Rightarrow> u16 \<Rightarrow> 'dt DoubleCommandInfo \<Rightarrow> Iec104Error + Asdu" where
  "double_cmd l ch t ct ca cmd = build_command l ch C_DC_NA_1 C_DC_TA_1 t ct ca (\<lambda>dco. [dco]) cmd"

definition step_cmd ::
    "bit_objects \<Rightarrow> 'dt calendar \<Rightarrow> TypeID \<Rightarrow> u8 \<Rightarrow> u16 \<Rightarrow> 'dt StepCommandInfo \<Rightarrow> Iec104Error + Asdu" where
  "step_cmd l ch t ct ca cmd = build_command l ch C_RC_NA_1 C_RC_TA_1 t ct ca (\<lambda>rco. [rco]) cmd"

definition set_point_cmd_normal ::
    "bit_objects \<Rightarrow> 'dt calendar \<Rightarrow> TypeID \<Rightarrow> u8 \<Rightarrow> u16 \<Rightarrow> 'dt SetPointCommandNormalInfo \<Rightarrow> Iec104Error + Asdu" where
  "set_point_cmd_normal l ch t ct ca cmd = build_command l ch C_SE_NA_1 C_SE_TA_1 t ct ca (\<lambda>(nva, qos). u16_to_le nva @ [qos]) cmd"

definition set_point_cmd_scaled ::
    "bit_objects \<Rightarrow> 'dt calendar \<Rightarrow> TypeID \<Rightarrow> u8 \<Rightarrow> u16 \<Rightarrow> 'dt SetPointCommandScaledInfo \<Rightarrow> Iec104Error + Asdu" where
  "set_point_cmd_scaled l ch t ct ca cmd = build_command l ch C_SE_NB_1 C_SE_TB_1 t ct ca (\<lambda>(sva, qos). u16_to_le sva @ [qos]) cmd"

definition set_point_cmd_float ::
    "bit_objects \<Rightarrow> 'dt calendar \<Rightarrow> TypeID \<Rightarrow> u8 \<Rightarrow> u16 \<Rightarrow> 'dt SetPointCommandFloatInfo \<Rightarrow> Iec104Error + Asdu" where
  "set_point_cmd_float l ch t ct ca cmd = build_command l ch C_SE_NC_1 C_SE_TC_1 t ct ca (\<lambda>(r, qos). u32_to_le (f32_to_bits r) @ [qos]) cmd"

definition bits_string32_cmd ::
    "bit_objects \<Rightarrow> 'dt calendar \<Rightarrow> TypeID \<Rightarrow> u8 \<Rightarrow> u16 \<Rightarrow> 'dt BitsString32CommandInfo \<Rightarrow> Iec104Error + Asdu" where
  "bits_string32_cmd l ch t ct ca cmd = build_command l ch C_BO_NA_1 C_BO_TA_1 t ct ca u32_to_le cmd"

definition get_single_cmd :: "bit_objects \<Rightarrow> 'dt calendar \<Rightarrow> Asdu \<Rightarrow> 'dt SingleCommandInfo outcome" where
  "get_single_cmd l ch a = read_command l ch C_SC_NA_1 C_SC_TA_1 (unwrap_object l SCO) a"

definition get_double_cmd :: "bit_objects \<Rightarrow> 'dt calendar \<Rightarrow> Asdu \<Rightarrow> 'dt DoubleCommandInfo outcome" where
  "get_double_cmd l ch a = read_command l ch C_DC_NA_1 C_DC_TA_1 (unwrap_object l DCO) a"

definition get_set_point_normal_cmd :: "bit_objects \<Rightarrow> 'dt calendar \<Rightarrow> Asdu \<Rightarrow> 'dt SetPointCommandNormalInfo outcome" where
  "get_set_point_normal_cmd l ch a = read_command l ch C_SE_NA_1 C_SE_TA_1 (both read_u16_le (unwrap_object l QOS)) a"

definition get_set_point_scaled_cmd :: "bit_objects \<Rightarrow> 'dt calendar \<Rightarrow> Asdu \<Rightarrow> 'dt SetPointCommandScaledInfo outcome" where
  "get_set_point_scaled_cmd l ch a = read_command l ch C_SE_NB_1 C_SE_TB_1 (both read_u16_le (unwrap_object l QOS)) a"

definition get_set_point_float_cmd :: "bit_objects \<Rightarrow> 'dt calendar \<Rightarrow> Asdu \<Rightarrow> 'dt SetPointCommandFloatInfo outcome" where
  "get_set_point_float_cmd l ch a = read_command l ch C_SE_NC_1 C_SE_TC_1 (both read_f32_le (unwrap_object l QOS)) a"

definition get_bits_string32_cmd :: "bit_objects \<Rightarrow> 'dt calendar \<Rightarrow> Asdu \<Rightarrow> 'dt BitsString32CommandInfo outcome" where
  "get_bits_string32_cmd l ch a = read_command l ch C_BO_NA_1 C_BO_TA_1 read_u32_le a"

section \<open>System commands\<close>

definition FBPTEST_WORD :: u16 where "FBPTEST_WORD = 0x55aa"

definition INFO_OBJ_ADDR_IRRELEVANT :: u16 where "INFO_OBJ_ADDR_IRRELEVANT = 0"

definition system_command :: "bit_objects \<Rightarrow> TypeID \<Rightarrow> u8 \<Rightarrow> u16 \<Rightarrow> bytes \<Rightarrow> Asdu" where
  "system_command l t ct ca body =
     \<lparr>ident = \<lparr>type_id = t, variable_struct = vs_new l False 1, cot = ct, orig_addr = 0, common_addr = ca\<rparr>,
      asdu_raw = put_u24_le (ioa_new l 0 INFO_OBJ_ADDR_IRRELEVANT) @ body\<rparr>"

definition interrogation_cmd :: "bit_objects \<Rightarrow> u8 \<Rightarrow> u16 \<Rightarrow> u8 \<Rightarrow> Iec104Error + Asdu" where
  "interrogation_cmd l ct ca qoi =
     (if \<not> (cot_cause l ct = Activation \<or> cot_cause l ct = Deactivation) then Inl (ErrCmdCause ct)
      else Inr (system_command l C_IC_NA_1 ct ca [qoi]))"

definition counter_interrogation_cmd :: "bit_objects \<Rightarrow> u8 \<Rightarrow> u16 \<Rightarrow> u8 \<Rightarrow> Iec104Error + Asdu" where
  "counter_interrogation_cmd l ct ca qcc = Inr (system_command l C_CI_NA_1 (cot_set_cause l Activation ct) ca [qcc])"

definition read_cmd :: "bit_objects \<Rightarrow> u8 \<Rightarrow> u16 \<Rightarrow> u32 \<Rightarrow> Iec104Error + Asdu" where
  "read_cmd l ct ca ioa =
     Inr \<lparr>ident = \<lparr>type_id = C_RD_NA_1, variable_struct = vs_new l False 1, cot = cot_set_cause l Request ct,
                    orig_addr = 0, common_addr = ca\<rparr>,
          asdu_raw = put_u24_le ioa\<rparr>"

definition clock_synchronization_cmd :: "bit_objects \<Rightarrow> 'dt calendar \<Rightarrow> u8 \<Rightarrow> u16 \<Rightarrow> 'dt \<Rightarrow> Iec104Error + Asdu" where
  "clock_synchronization_cmd l ch ct ca time =
     Inr (system_command l C_CS_NA_1 (cot_set_cause l Activation ct) ca (cp56time2a ch time))"

definition test_command :: "bit_objects \<Rightarrow> u8 \<Rightarrow> u16 \<Rightarrow> Iec104Error + Asdu" where
  "test_command l ct ca = Inr (system_command l C_TS_NA_1 (cot_set_cause l Activation ct) ca (u16_to_le FBPTEST_WORD))"

definition reset_process_cmd :: "bit_objects \<Rightarrow> u8 \<Rightarrow> u16 \<Rightarrow> u8 \<Rightarrow> Iec104Error + Asdu" where
  "reset_process_cmd l ct ca qrp = Inr (system_command l C_RP_NA_1 (cot_set_cause l Activation ct) ca [qrp])"

definition delay_acquire_command :: "bit_objects \<Rightarrow> u8 \<Rightarrow> u16 \<Rightarrow> u16 \<Rightarrow> Iec104Error + Asdu" where
  "delay_acquire_command l ct ca msec =
     (if \<not> (cot_cause l ct = Spontaneous \<or> cot_cause l ct = Activation) then Inl (ErrCmdCause ct)
      else Inr (system_command l C_CD_NA_1 ct ca (cp16time2a_from_msec msec)))"

definition test_command_cp56time2a :: "bit_objects \<Rightarrow> 'dt calendar \<Rightarrow> u8 \<Rightarrow> u16 \<Rightarrow> 'dt \<Rightarrow> Iec104Error + Asdu" where
  "test_command_cp56time2a l ch ct ca time =
     Inr (system_command l C_CD_NA_1 (cot_set_cause l Activation ct) ca (u16_to_le FBPTEST_WORD @ cp56time2a ch time))"

definition read_qualifier :: "bit_objects \<Rightarrow> bit_object \<Rightarrow> Asdu \<Rightarrow> (u32 \<times> u8) outcome" where
  "read_qualifier l k a =
     try_bind (read_u24_le (asdu_raw a)) (\<lambda>(ioa, bs).
       if \<not> ioa_ok l ioa then Some (Inl ErrAnyHow)
       else try_bind (read_object l k bs) (\<lambda>(q, bs). Some (Inr (ioa, q))))"

definition get_interrogation_cmd :: "bit_objects \<Rightarrow> Asdu \<Rightarrow> (u32 \<times> u8) outcome" where
  "get_interrogation_cmd l a = read_qualifier l QOI a"

definition get_counter_interrogation_cmd :: "bit_objects \<Rightarrow> Asdu \<Rightarrow> (u32 \<times> u8) outcome" where
  "get_counter_interrogation_cmd l a = read_qualifier l QCC a"

definition get_reset_process_cmd :: "bit_objects \<Rightarrow> Asdu \<Rightarrow> (u32 \<times> u8) outcome" where
  "get_reset_process_cmd l a = read_qualifier l QRP a"

section \<open>Commands are read back\<close>

lemma unwrap_object_Cons [simp]: "object_ok l k b \<Longrightarrow> unwrap_object l k (b # bs) = Some (Inr (b, bs))"
  by (simp add: unwrap_object_def)

text \<open>What a command is read back as: its address, its element and its time to the second.\<close>

definition command_ok :: "bit_objects \<Rightarrow> 'dt calendar \<Rightarrow> TypeID \<Rightarrow> TypeID \<Rightarrow> TypeID \<Rightarrow> u8 \<Rightarrow> ('e, 'dt) info_object \<Rightarrow> bool" where
  "command_ok l ch na ta t ct cmd \<longleftrightarrow>
     bit_objects_ok l \<and> cause_cmd (cot_cause l ct) \<and> io_ioa cmd < 2 ^ 24
     \<and> (t = na \<or> t = ta \<and> stamped_ok ch (io_time cmd))"

context element_codec
begin

lemma command_roundtrip:
  assumes "command_ok l ch na ta t ct cmd" "ok (io_elem cmd)"
  shows "\<exists>a. build_command l ch na ta t ct ca W cmd = Inr a
      \<and> ident a = \<lparr>type_id = t, variable_struct = vs_new l False 1, cot = ct, orig_addr = 0, common_addr = ca\<rparr>
      \<and> read_command l ch na ta R a = Some (Inr (to_second ch (t \<noteq> na) cmd))"
proof -
  have "ioa_ok l (io_ioa cmd)" "io_ioa cmd < 2 ^ 24" using assms(1) by (auto simp: command_ok_def bit_objects_ok_def)
  moreover have "decode_cp56time2a ch (cp56time2a ch (stamp ch 0 cmd)) = Some (Inr (io_time (to_second ch True cmd), []))"
    if "stamped_ok ch (io_time cmd)" using decode_stamp [OF that, of 0 "[]"] by simp
  ultimately show ?thesis
    using assms element [of "io_elem cmd" "[]"]
    by (auto simp: command_ok_def build_command_def read_command_def Let_def element to_second_def)
qed

end

interpretation sc: element_codec "\<lambda>sco. [sco]" "unwrap_object l k" "\<lambda>_. bit_objects_ok l" for l k
  by unfold_locales (simp add: object_okI)

interpretation sn: element_codec "\<lambda>(v, qos). u16_to_le v @ [qos]" "both read_u16_le (unwrap_object l QOS)"
    "\<lambda>_. bit_objects_ok l" for l
  by unfold_locales (auto simp: both_def object_okI)

interpretation sf: element_codec "\<lambda>(r, qos). u32_to_le (f32_to_bits r) @ [qos]" "both read_f32_le (unwrap_object l QOS)"
    "\<lambda>(r, _). bit_objects_ok l \<and> r \<in> range f32_of_bits" for l
  by unfold_locales (auto simp: both_def object_okI read_f32_le_def)

interpretation bc: element_codec u32_to_le read_u32_le "\<lambda>_. True"
  by unfold_locales simp

section \<open>The time-tagged test command\<close>

text \<open>The command documented as \<open>C_TS_TA_1\<close> is sent with the type of a delay acquisition.\<close>

lemma test_command_sent_as_delay_acquisition:
  "map_sum id (\<lambda>a. type_id (ident a)) (test_command_cp56time2a l ch ct ca t) = Inr C_CD_NA_1"
  by (simp add: test_command_cp56time2a_def system_command_def)

end
