(* ===== verification/Iec104_Handle.thy ===== *)
theory Iec104_Handle
  imports Iec104_Points Iec104_Command Sdk_Value
begin

text \<open>
  The data-plane handle of the IEC 60870-5-104 driver (\<open>iec104/src/handle.rs\<close>): publishing a received unit,
  commands for written points and actions, changes of the configuration, and interrogations.

  The attached session is seen through its sending side (\<open>Session::send_asdu\<close>): whether it is connected and active,
  whether its request channel is open and has room, and the units it has queued.  A full channel keeps
  the sender waiting until the operation times out.

  The lemmas show that a write which succeeds has queued exactly one unit, that this unit is read by
  the receiver as the command the point asks for with the written value, and that a write which
  fails has queued nothing.
\<close>

section \<open>The session and the metrics\<close>

record session_port =
  pt_connected :: bool
  pt_active :: bool
  pt_open :: bool
  pt_full :: bool
  pt_queued :: "Asdu list"

definition command_error_text :: "Iec104Error \<Rightarrow> string" where
  "command_error_text e =
     (case e of
        ErrIo \<Rightarrow> ''I/O error: ''
      | ErrTypeIDNotMatch _ \<Rightarrow> ''asdu: [type identifier] doesn't match call or time tag''
      | ErrCmdCause _ \<Rightarrow> ''asdu: [cause of transmission] for command not standard requirement''
      | ErrAnyHow \<Rightarrow> ''anyhow error'')"

text \<open>A command under the operation timeout: built, then handed to \<open>send_asdu\<close>.\<close>

definition send_command :: "Iec104Error + Asdu \<Rightarrow> session_port \<Rightarrow> (DriverError + unit) \<times> session_port" where
  "send_command built s =
     (case built of
        Inl e \<Rightarrow> (Inl (ExecutionError (command_error_text e)), s)
      | Inr a \<Rightarrow>
          if \<not> pt_connected s then (Inl (ExecutionError ''''), s)
          else if \<not> pt_active s then (Inl (ExecutionError ''''), s)
          else if \<not> pt_open s then (Inl (ExecutionError ''SendError ''), s)
          else if pt_full s then (Inl DriverTimeout, s)
          else (Inr (), s\<lparr>pt_queued := pt_queued s @ [a]\<rparr>))"

record Iec104Metrics =
  im_total_requests :: u64
  im_successful_requests :: u64
  im_failed_requests :: u64
  im_last_avg_response_time_ms :: u64

definition count_request :: "u64 \<Rightarrow> bool \<Rightarrow> Iec104Metrics \<Rightarrow> Iec104Metrics" where
  "count_request elapsed success m =
     (let m = m\<lparr>im_total_requests := im_total_requests m + 1\<rparr>
      in if success then
           let prev = im_last_avg_response_time_ms m;
               new_avg = (if prev = 0 then elapsed
                          else (of_nat (min (unat prev * 9) (2 ^ 64 - 1)) + elapsed) div 10)
           in m\<lparr>im_successful_requests := im_successful_requests m + 1, im_last_avg_response_time_ms := new_avg\<rparr>
         else m\<lparr>im_failed_requests := im_failed_requests m + 1\<rparr>)"

section \<open>Publishing a unit\<close>

datatype 'dt Published =
    PublishTelemetry int string "'dt TimedValue list"
  | PublishAttributes int string "'dt TimedValue list"

text \<open>The messages of one device, each counted as a request that succeeds when the publisher accepts it;
  \<open>accept\<close> and \<open>elapsed\<close> give the publisher's answer and the time for the n-th message.\<close>

definition publish_message ::
    "(nat \<Rightarrow> bool) \<Rightarrow> (nat \<Rightarrow> u64) \<Rightarrow> 'dt Published \<Rightarrow> 'dt Published list \<times> Iec104Metrics \<Rightarrow> 'dt Published list \<times> Iec104Metrics" where
  "publish_message accept elapsed d acc =
     (let (msgs, m) = acc; n = length msgs
      in (msgs @ [d], count_request (elapsed n) (accept n) m))"

definition publish_device ::
    "(nat \<Rightarrow> bool) \<Rightarrow> (nat \<Rightarrow> u64) \<Rightarrow> int \<Rightarrow> string \<times> 'dt TimedValue list \<times> 'dt TimedValue list
      \<Rightarrow> 'dt Published list \<times> Iec104Metrics \<Rightarrow> 'dt Published list \<times> Iec104Metrics" where
  "publish_device accept elapsed dev entry acc =
     (let (name, telemetry, attributes) = entry;
          acc = (if telemetry \<noteq> [] then publish_message accept elapsed (PublishTelemetry dev name telemetry) acc else acc)
      in if attributes \<noteq> [] then publish_message accept elapsed (PublishAttributes dev name attributes) acc else acc)"

text \<open>\<open>order\<close> is the order in which the map of the devices is visited.\<close>

definition process_asdu ::
    "bit_objects \<Rightarrow> 'dt calendar \<Rightarrow> int list \<Rightarrow> (nat \<Rightarrow> bool) \<Rightarrow> (nat \<Rightarrow> u64) \<Rightarrow> snapshots \<Rightarrow> Asdu \<Rightarrow> Iec104Metrics
      \<Rightarrow> ('dt Published list \<times> Iec104Metrics) option" where
  "process_asdu l ch order accept elapsed ss a m =
     (case ss (common_addr (ident a)) of
        None \<Rightarrow> Some ([], m)
      | Some s \<Rightarrow>
          (case extract_values_by_kind l ch (sn_points s) a of
             None \<Rightarrow> None
           | Some (per_device, stats) \<Rightarrow>
               Some (fold (\<lambda>dev acc. case per_device dev of
                                       Some entry \<Rightarrow> publish_device accept elapsed dev entry acc
                                     | None \<Rightarrow> acc) order ([], m))))"

section \<open>Commands\<close>

text \<open>The command a value is turned into; the caller chooses the error for a value that does not fit.\<close>

definition or_fail :: "DriverError \<Rightarrow> NGValueCastError + 'a \<Rightarrow> DriverError + 'a" where
  "or_fail err r = (case r of Inl _ \<Rightarrow> Inl err | Inr x \<Rightarrow> Inr x)"

definition activation :: "bit_objects \<Rightarrow> u8" where
  "activation l = cot_new l False False Activation"

definition value_command ::
    "bit_objects \<Rightarrow> 'dt calendar \<Rightarrow> (TypeID \<Rightarrow> DriverError) \<Rightarrow> TypeID \<Rightarrow> u16 \<Rightarrow> u16 \<Rightarrow> 'dt option \<Rightarrow> NGValue
      \<Rightarrow> (DriverError + (Iec104Error + Asdu)) option" where
  "value_command l ch err t ca ioa tm v =
     (let ct = activation l
      in if t = C_SC_NA_1 \<or> t = C_SC_TA_1 then
           Some (res_bind (or_fail (err t) (bool_try_from v)) (\<lambda>b.
             Inr (single_cmd l ch t ct ca ((single_command_new l ioa b False)\<lparr>io_time := tm\<rparr>))))
         else if t = C_DC_NA_1 \<or> t = C_DC_TA_1 then
           Some (res_bind (or_fail (err t) (u8_try_from v)) (\<lambda>x.
             Inr (double_cmd l ch t ct ca ((double_command_new l ioa x False)\<lparr>io_time := tm\<rparr>))))
         else if t = C_RC_NA_1 \<or> t = C_RC_TA_1 then
           Some (res_bind (or_fail (err t) (u8_try_from v)) (\<lambda>x.
             Inr (step_cmd l ch t ct ca ((step_command_new l ioa x False)\<lparr>io_time := tm\<rparr>))))
         else if t = C_SE_NA_1 \<or> t = C_SE_TA_1 then
           Some (res_bind (or_fail (err t) (i16_try_from v)) (\<lambda>x.
             Inr (set_point_cmd_normal l ch t ct ca ((set_point_normal_new l ioa x)\<lparr>io_time := tm\<rparr>))))
         else if t = C_SE_NB_1 \<or> t = C_SE_TB_1 then
           Some (res_bind (or_fail (err t) (i16_try_from v)) (\<lambda>x.
             Inr (set_point_cmd_scaled l ch t ct ca ((set_point_scaled_new l ioa x)\<lparr>io_time := tm\<rparr>))))
         else if t = C_SE_NC_1 \<or> t = C_SE_TC_1 then
           Some (res_bind (or_fail (err t) (f32_try_from v)) (\<lambda>x.
             Inr (set_point_cmd_float l ch t ct ca ((set_point_float_new l ioa x)\<lparr>io_time := tm\<rparr>))))
         else if t = C_BO_NA_1 \<or> t = C_BO_TA_1 then
           Some (res_bind (or_fail (err t) (i32_try_from v)) (\<lambda>x.
             Inr (bits_string32_cmd l ch t ct ca ((bits_string32_new l ioa x)\<lparr>io_time := tm\<rparr>))))
         else None)"

definition write_text :: "TypeID \<Rightarrow> string" where
  "write_text t =
     (if t = C_SC_NA_1 \<or> t = C_SC_TA_1 then ''single command expects bool: ''
      else if t = C_DC_NA_1 \<or> t = C_DC_TA_1 then ''double command expects u8: ''
      else if t = C_RC_NA_1 \<or> t = C_RC_TA_1 then ''step command expects u8: ''
      else if t = C_SE_NA_1 \<or> t = C_SE_TA_1 then ''set point (normal) expects i16-compatible value: ''
      else if t = C_SE_NB_1 \<or> t = C_SE_TB_1 then ''set point (scaled) expects i16-compatible value: ''
      else if t = C_SE_NC_1 \<or> t = C_SE_TC_1 then ''set point (float) expects f32-compatible value: ''
      else ''bits string 32 command expects i32-compatible value: '')"

definition action_text :: "TypeID \<Rightarrow> string" where
  "action_text t =
     (if t = C_SC_NA_1 \<or> t = C_SC_TA_1 then ''Expected boolean-compatible value for single command: ''
      else if t = C_DC_NA_1 \<or> t = C_DC_TA_1 then ''Expected numeric value for double command: ''
      else if t = C_RC_NA_1 \<or> t = C_RC_TA_1 then ''Expected numeric value for step command: ''
      else if t = C_SE_NA_1 \<or> t = C_SE_TA_1 then ''Expected numeric value for set point command normal: ''
      else if t = C_SE_NB_1 \<or> t = C_SE_TB_1 then ''Expected numeric value for set point command scaled: ''
      else if t = C_SE_NC_1 \<or> t = C_SE_TC_1 then ''Expected numeric value for set point command float: ''
      else ''Expected numeric value for bits string 32 command: '')"

definition iec104_write_point ::
    "bit_objects \<Rightarrow> 'dt calendar \<Rightarrow> u64 \<Rightarrow> Iec104Device \<Rightarrow> Iec104Point \<Rightarrow> NGValue \<Rightarrow> session_port option \<Rightarrow> Iec104Metrics
      \<Rightarrow> (DriverError + NGValue) \<times> session_port option \<times> Iec104Metrics" where
  "iec104_write_point l ch elapsed d p v session m =
     (if \<not> (ip_access_mode p = AM_Write \<or> ip_access_mode p = AM_ReadWrite)
      then (Inl (ValidationError ''point is not writeable''), session, m)
      else case type_id_try_from (ip_type_id p) of
        None \<Rightarrow> (Inl (ConfigurationError ''Unknown IEC104 type id: ''), session, m)
      | Some pt \<Rightarrow>
        (case map_to_command pt of
           None \<Rightarrow> (Inl (ConfigurationError ''IEC104 point type is not supported for write_point''), session, m)
         | Some t \<Rightarrow>
           (case session of
              None \<Rightarrow> (Inl ServiceUnavailable, session, m)
            | Some s \<Rightarrow>
                let tm = (if needs_time t then Some (utc_now ch 0) else None)
                in case value_command l ch (\<lambda>t. ValidationError (write_text t)) t (id_ca d) (ip_ioa p) tm v of
                     None \<Rightarrow> (Inl (ConfigurationError ''Unsupported IEC104 write command type: ''), session,
                              count_request elapsed False m)
                   | Some (Inl e) \<Rightarrow> (Inl e, session, m)
                   | Some (Inr built) \<Rightarrow>
                       (case send_command built s of
                          (Inr _, s) \<Rightarrow> (Inr v, Some s, count_request elapsed True m)
                        | (Inl e, s) \<Rightarrow> (Inl e, Some s, count_request elapsed False m)))))"

record Iec104ChannelConfig =
  auto_startup_general_interrogation :: bool
  auto_startup_counter_interrogation :: bool
  startup_qoi :: u8
  startup_qcc :: u8

record Iec104Parameter =
  ap_ioa :: u16
  ap_type_id :: u8

definition action_command ::
    "bit_objects \<Rightarrow> 'dt calendar \<Rightarrow> Iec104ChannelConfig \<Rightarrow> u16 \<Rightarrow> Iec104Parameter \<Rightarrow> NGValue
      \<Rightarrow> DriverError + (Iec104Error + Asdu)" where
  "action_command l ch cfg ca p v =
     (case type_id_try_from (ap_type_id p) of
        None \<Rightarrow> Inl (ConfigurationError ''Unknown IEC104 type id: '')
      | Some t \<Rightarrow>
          (case value_command l ch (\<lambda>t. ConfigurationError (action_text t)) t ca (ap_ioa p) None v of
             Some r \<Rightarrow> r
           | None \<Rightarrow>
               if t = C_IC_NA_1 then Inr (interrogation_cmd l (activation l) ca (startup_qoi cfg))
               else if t = C_CI_NA_1 then Inr (counter_interrogation_cmd l (activation l) ca (startup_qcc cfg))
               else Inl (ConfigurationError ''Unsupported IEC104 write type: '')))"

fun execute_parameters ::
    "bit_objects \<Rightarrow> 'dt calendar \<Rightarrow> Iec104ChannelConfig \<Rightarrow> (nat \<Rightarrow> u64) \<Rightarrow> u16 \<Rightarrow> (Iec104Parameter \<times> NGValue) list
      \<Rightarrow> session_port \<Rightarrow> Iec104Metrics \<Rightarrow> (DriverError + unit) \<times> session_port \<times> Iec104Metrics" where
  "execute_parameters l ch cfg elapsed ca [] s m = (Inr (), s, m)"
| "execute_parameters l ch cfg elapsed ca ((p, v) # ps) s m =
     (case action_command l ch cfg ca p v of
        Inl e \<Rightarrow> (Inl e, s, m)
      | Inr built \<Rightarrow>
          (case send_command built s of
             (Inl e, s) \<Rightarrow> (Inl e, s, count_request (elapsed (length ps)) False m)
           | (Inr _, s) \<Rightarrow> execute_parameters l ch cfg elapsed ca ps s (count_request (elapsed (length ps)) True m)))"

definition iec104_execute_action ::
    "bit_objects \<Rightarrow> 'dt calendar \<Rightarrow> Iec104ChannelConfig \<Rightarrow> (nat \<Rightarrow> u64) \<Rightarrow> Iec104Device \<Rightarrow> string
      \<Rightarrow> (Iec104Parameter \<times> NGValue) list \<Rightarrow> session_port option \<Rightarrow> Iec104Metrics
      \<Rightarrow> (DriverError + string) \<times> session_port option \<times> Iec104Metrics" where
  "iec104_execute_action l ch cfg elapsed d name params session m =
     (case session of
        None \<Rightarrow> (Inl ServiceUnavailable, session, m)
      | Some s \<Rightarrow>
          (case execute_parameters l ch cfg elapsed (id_ca d) params s m of
             (Inl e, s, m) \<Rightarrow> (Inl e, Some s, m)
           | (Inr _, s, m) \<Rightarrow> (Inr (''Action '' @ [CHR 0x27] @ name @ [CHR 0x27] @ '' executed''), Some s, m)))"

section \<open>Interrogations and changes of the configuration\<close>

datatype StartupAction = CounterInterrogation u16 u8 | GeneralInterrogation u16 u8

text \<open>\<open>cas\<close> are the common addresses in the order in which the map is visited.\<close>

definition build_startup_actions :: "Iec104ChannelConfig \<Rightarrow> u16 list \<Rightarrow> StartupAction list" where
  "build_startup_actions cfg cas =
     concat (map (\<lambda>ca.
       (if auto_startup_counter_interrogation cfg then [CounterInterrogation ca (startup_qcc cfg)] else [])
       @ (if auto_startup_general_interrogation cfg then [GeneralInterrogation ca (startup_qoi cfg)] else [])) cas)"

text \<open>Interrogations after a change; their results are ignored.\<close>

definition interrogate :: "bit_objects \<Rightarrow> Iec104ChannelConfig \<Rightarrow> u16 \<Rightarrow> session_port \<Rightarrow> session_port" where
  "interrogate l cfg ca s =
     (let s = (if auto_startup_general_interrogation cfg
               then snd (send_command (interrogation_cmd l (activation l) ca (startup_qoi cfg)) s) else s)
      in if auto_startup_counter_interrogation cfg
         then snd (send_command (counter_interrogation_cmd l (activation l) ca (startup_qcc cfg)) s) else s)"

datatype RuntimeDelta =
    DevicesChanged "Iec104Device list" "Iec104Device list" "Iec104Device list"
  | PointsChanged Iec104Device "Iec104Point list" "Iec104Point list" "Iec104Point list"
  | ActionsChanged

text \<open>\<open>order\<close> arranges the set of affected common addresses, \<open>remove_held\<close> removes an entry of the map under a held
  reference; \<open>None\<close> is a call that never returns.\<close>

fun apply_runtime_delta ::
    "bit_objects \<Rightarrow> Iec104ChannelConfig \<Rightarrow> (u16 set \<Rightarrow> u16 list) \<Rightarrow> map_remove \<Rightarrow> RuntimeDelta \<Rightarrow> snapshots \<times> session_port option
      \<Rightarrow> (snapshots \<times> session_port option) option" where
  "apply_runtime_delta l cfg order remove_held (DevicesChanged added updated removed) (ss, session) =
     (let cas = id_ca ` set added \<union> id_ca ` set updated \<union> id_ca ` set removed
      in case devices_removed remove_held removed ss of
           None \<Rightarrow> None
         | Some ss \<Rightarrow> Some (ss, map_option (fold (interrogate l cfg) (order cas)) session))"
| "apply_runtime_delta l cfg order remove_held (PointsChanged d added updated removed) (ss, session) =
     Some (points_changed d added updated removed ss,
       if added \<noteq> [] \<or> updated \<noteq> [] then map_option (interrogate l cfg (id_ca d)) session else session)"
| "apply_runtime_delta l cfg order remove_held ActionsChanged (ss, session) = Some (ss, session)"

section \<open>What a write sends\<close>

lemma send_command_cases:
  assumes "send_command built s = (r, s')"
  obtains a where "built = Inr a" "r = Inr ()" "s' = s\<lparr>pt_queued := pt_queued s @ [a]\<rparr>"
  | e where "r = Inl e" "s' = s"
  using assms by (auto simp: send_command_def split: sum.splits if_splits)

text \<open>The receiver's view of a unit: the object has the address \<open>ioa\<close> and the element the value asks for.\<close>

definition read_as :: "bit_objects \<Rightarrow> u16 \<Rightarrow> 'e \<Rightarrow> ('e, 'dt) info_object outcome \<Rightarrow> bool" where
  "read_as l ioa e r \<longleftrightarrow> (\<exists>x. r = Some (Inr x) \<and> ioa_addr l (io_ioa x) = ioa \<and> io_elem x = e)"

definition carries :: "bit_objects \<Rightarrow> 'dt calendar \<Rightarrow> TypeID \<Rightarrow> u16 \<Rightarrow> NGValue \<Rightarrow> Asdu \<Rightarrow> bool" where
  "carries l ch t ioa v a \<longleftrightarrow>
     (if t = C_SC_NA_1 \<or> t = C_SC_TA_1 then
        \<exists>b. bool_try_from v = Inr b \<and> read_as l ioa (sco_new l False 0 0 b) (get_single_cmd l ch a)
      else if t = C_DC_NA_1 \<or> t = C_DC_TA_1 then
        \<exists>x. u8_try_from v = Inr x \<and> read_as l ioa (dco_new l False 0 x) (get_double_cmd l ch a)
      else if t = C_RC_NA_1 \<or> t = C_RC_TA_1 then
        \<exists>x. u8_try_from v = Inr x
          \<and> read_as l ioa (rco_new l False 0 x) (read_command l ch C_RC_NA_1 C_RC_TA_1 (unwrap_object l RCO) a)
      else if t = C_SE_NA_1 \<or> t = C_SE_TA_1 then
        \<exists>x. i16_try_from v = Inr x \<and> read_as l ioa (x, qos_new l 0 0) (get_set_point_normal_cmd l ch a)
      else if t = C_SE_NB_1 \<or> t = C_SE_TB_1 then
        \<exists>x. i16_try_from v = Inr x \<and> read_as l ioa (x, qos_new l 0 0) (get_set_point_scaled_cmd l ch a)
      else if t = C_SE_NC_1 \<or> t = C_SE_TC_1 then
        \<exists>x. f32_try_from v = Inr x \<and> read_as l ioa (x, qos_new l 0 0) (get_set_point_float_cmd l ch a)
      else \<exists>x. i32_try_from v = Inr x \<and> read_as l ioa x (get_bits_string32_cmd l ch a))"

text \<open>The instant a time-tagged command is stamped with can be represented.\<close>

definition clock_ok :: "'dt calendar \<Rightarrow> bool" where
  "clock_ok ch \<longleftrightarrow> stamped_ok ch (Some (utc_now ch 0))"

lemma or_fail_Inr [simp]: "or_fail err r = Inr x \<longleftrightarrow> r = Inr x"
  by (cases r) (auto simp: or_fail_def)

definition command_ident :: "bit_objects \<Rightarrow> TypeID \<Rightarrow> u16 \<Rightarrow> Identifier" where
  "command_ident l t ca =
     \<lparr>type_id = t, variable_struct = vs_new l False 1, cot = activation l, orig_addr = 0, common_addr = ca\<rparr>"

context element_codec
begin

lemma command_read_as:
  assumes "bit_objects_ok l" "cot_cause l (activation l) = Activation" "ok e"
    and "t = na \<or> t = ta \<and> stamped_ok ch tm"
    and "build_command l ch na ta t (activation l) ca W \<lparr>io_ioa = ioa_new l 0 ioa, io_elem = e, io_time = tm\<rparr> = Inr a"
  shows "read_as l ioa e (read_command l ch na ta R a) \<and> ident a = command_ident l t ca"
proof -
  let ?cmd = "\<lparr>io_ioa = ioa_new l 0 ioa, io_elem = e, io_time = tm\<rparr>"
  have "command_ok l ch na ta t (activation l) ?cmd"
    using assms(1,2,4) by (simp add: command_ok_def cause_cmd_def bit_objects_ok_def)
  from command_roundtrip [OF this, of ca] assms(3,5)
  have "ident a = command_ident l t ca" "read_command l ch na ta R a = Some (Inr (to_second ch (t \<noteq> na) ?cmd))"
    by (auto simp: command_ident_def)
  moreover have "ioa_addr l (ioa_new l 0 ioa) = ioa" using assms(1) by (simp add: bit_objects_ok_def)
  ultimately show ?thesis by (simp add: read_as_def to_second_def)
qed

lemma value_read_as:
  assumes "bit_objects_ok l" "cot_cause l (activation l) = Activation" "t = na \<or> t = ta \<and> stamped_ok ch tm"
    and "\<And>x. r = Inr x \<Longrightarrow> ok (f x)"
    and "res_bind (or_fail err r) (\<lambda>x. Inr (build_command l ch na ta t (activation l) ca W
        \<lparr>io_ioa = ioa_new l 0 ioa, io_elem = f x, io_time = tm\<rparr>)) = Inr (Inr a)"
  shows "(\<exists>x. r = Inr x \<and> read_as l ioa (f x) (read_command l ch na ta R a)) \<and> ident a = command_ident l t ca"
proof (cases r)
  case (Inr x)
  with assms(5) have "build_command l ch na ta t (activation l) ca W
      \<lparr>io_ioa = ioa_new l 0 ioa, io_elem = f x, io_time = tm\<rparr> = Inr a" by (simp add: or_fail_def res_bind_def)
  from command_read_as [OF assms(1,2) assms(4) [OF Inr] assms(3) this] Inr show ?thesis by blast
qed (use assms(5) in \<open>simp add: or_fail_def res_bind_def\<close>)

end

lemma stamp_for:
  assumes "needs_time t \<Longrightarrow> clock_ok ch" "t = na \<or> t = ta" "needs_time ta" "\<not> needs_time na"
  shows "t = na \<or> t = ta \<and> stamped_ok ch (if needs_time t then Some (utc_now ch 0) else None)"
  using assms by (auto simp: clock_ok_def)

lemmas command_new_defs = single_command_new_def double_command_new_def step_command_new_def set_point_normal_new_def
  set_point_scaled_new_def set_point_float_new_def bits_string32_new_def

lemmas command_defs = single_cmd_def double_cmd_def step_cmd_def set_point_cmd_normal_def set_point_cmd_scaled_def
  set_point_cmd_float_def bits_string32_cmd_def

lemmas command_readers = get_single_cmd_def get_double_cmd_def get_set_point_normal_cmd_def get_set_point_scaled_cmd_def
  get_set_point_float_cmd_def get_bits_string32_cmd_def

lemmas write_simps = value_command_def Let_def command_new_defs command_defs carries_def command_readers needs_time_def

lemma two_bit_state: "(x :: u8) < 4 \<Longrightarrow> x mod 4 = x"
  by (simp add: word_less_nat_alt word_arith_nat_mod)

text \<open>What the receiver reads of a double or a step command: the two lowest bits of the value.\<close>

lemma double_command_reads:
  assumes l: "bit_objects_ok l" "cot_cause l (activation l) = Activation"
    and clock: "needs_time t \<Longrightarrow> clock_ok ch" and dc: "t = C_DC_NA_1 \<or> t = C_DC_TA_1"
    and built: "value_command l ch err t ca ioa (if needs_time t then Some (utc_now ch 0) else None) v = Some (Inr (Inr a))"
  shows "\<exists>x. u8_try_from v = Inr x \<and> read_as l ioa (dco_new l False 0 (x mod 4)) (get_double_cmd l ch a)
             \<and> ident a = command_ident l t ca"
  using sc.value_read_as [OF l stamp_for [OF clock dc], where err = "err t" and r = "u8_try_from v"
      and f = "\<lambda>x. dco_new l False 0 (x mod 4)" and ioa = ioa and ca = ca and a = a] built dc l
  by (auto simp: write_simps)

lemma step_command_reads:
  assumes l: "bit_objects_ok l" "cot_cause l (activation l) = Activation"
    and clock: "needs_time t \<Longrightarrow> clock_ok ch" and rc: "t = C_RC_NA_1 \<or> t = C_RC_TA_1"
    and built: "value_command l ch err t ca ioa (if needs_time t then Some (utc_now ch 0) else None) v = Some (Inr (Inr a))"
  shows "\<exists>x. u8_try_from v = Inr x
             \<and> read_as l ioa (rco_new l False 0 (x mod 4)) (read_command l ch C_RC_NA_1 C_RC_TA_1 (unwrap_object l RCO) a)
             \<and> ident a = command_ident l t ca"
  using sc.value_read_as [OF l stamp_for [OF clock rc], where err = "err t" and r = "u8_try_from v"
      and f = "\<lambda>x. rco_new l False 0 (x mod 4)" and ioa = ioa and ca = ca and a = a] built rc l
  by (auto simp: write_simps)

lemma value_command_carries:
  assumes l: "bit_objects_ok l" "cot_cause l (activation l) = Activation"
    and clock: "needs_time t \<Longrightarrow> clock_ok ch"
    and bits: "\<And>x. t \<in> {C_DC_NA_1, C_DC_TA_1, C_RC_NA_1, C_RC_TA_1} \<Longrightarrow> u8_try_from v = Inr x \<Longrightarrow> x < 4"
    and built: "value_command l ch err t ca ioa (if needs_time t then Some (utc_now ch 0) else None) v = Some (Inr (Inr a))"
  shows "carries l ch t ioa v a \<and> ident a = command_ident l t ca"
proof -
  consider (sc) "t = C_SC_NA_1 \<or> t = C_SC_TA_1" | (dc) "t = C_DC_NA_1 \<or> t = C_DC_TA_1"
    | (rc) "t = C_RC_NA_1 \<or> t = C_RC_TA_1" | (na) "t = C_SE_NA_1 \<or> t = C_SE_TA_1" | (nb) "t = C_SE_NB_1 \<or> t = C_SE_TB_1"
    | (nc) "t = C_SE_NC_1 \<or> t = C_SE_TC_1" | (bo) "t = C_BO_NA_1 \<or> t = C_BO_TA_1"
    using built unfolding value_command_def Let_def by (auto split: if_splits)
  then show ?thesis
  proof cases
    case sc
    show ?thesis
      using sc.value_read_as [OF l stamp_for [OF clock sc], where err = "err t" and r = "bool_try_from v" and f = "sco_new l False 0 0" and ioa = ioa
          and ca = ca and a = a] built sc l f32_try_from_bits
      by (auto simp: write_simps)
  next
    case dc
    from double_command_reads [OF l clock dc built] obtain x where
      x: "u8_try_from v = Inr x" "read_as l ioa (dco_new l False 0 (x mod 4)) (get_double_cmd l ch a)"
      "ident a = command_ident l t ca" by blast
    moreover have "x mod 4 = x" using bits [of x] dc x(1) two_bit_state by auto
    ultimately show ?thesis using dc by (auto simp: carries_def)
  next
    case rc
    from step_command_reads [OF l clock rc built] obtain x where
      x: "u8_try_from v = Inr x"
      "read_as l ioa (rco_new l False 0 (x mod 4)) (read_command l ch C_RC_NA_1 C_RC_TA_1 (unwrap_object l RCO) a)"
      "ident a = command_ident l t ca" by blast
    moreover have "x mod 4 = x" using bits [of x] rc x(1) two_bit_state by auto
    ultimately show ?thesis using rc by (auto simp: carries_def)
  next
    case na
    show ?thesis
      using sn.value_read_as [OF l stamp_for [OF clock na], where err = "err t" and r = "i16_try_from v" and f = "\<lambda>x. (x, qos_new l 0 0)" and ioa = ioa
          and ca = ca and a = a] built na l f32_try_from_bits
      by (auto simp: write_simps)
  next
    case nb
    show ?thesis
      using sn.value_read_as [OF l stamp_for [OF clock nb], where err = "err t" and r = "i16_try_from v" and f = "\<lambda>x. (x, qos_new l 0 0)" and ioa = ioa
          and ca = ca and a = a] built nb l f32_try_from_bits
      by (auto simp: write_simps)
  next
    case nc
    show ?thesis
      using sf.value_read_as [OF l stamp_for [OF clock nc], where err = "err t" and r = "f32_try_from v" and f = "\<lambda>x. (x, qos_new l 0 0)" and ioa = ioa
          and ca = ca and a = a] built nc l f32_try_from_bits
      by (auto simp: write_simps)
  next
    case bo
    show ?thesis
      using bc.value_read_as [OF l stamp_for [OF clock bo], where err = "err t" and r = "i32_try_from v" and f = "\<lambda>x. x" and ioa = ioa
          and ca = ca and a = a] built bo l f32_try_from_bits
      by (auto simp: write_simps)
  qed
qed

text \<open>A double or step command has two bits for the state: the value fits them.\<close>

definition state_fits :: "Iec104Point \<Rightarrow> NGValue \<Rightarrow> bool" where
  "state_fits p v \<longleftrightarrow>
     (\<forall>pt t x. type_id_try_from (ip_type_id p) = Some pt \<and> map_to_command pt = Some t
        \<and> t \<in> {C_DC_NA_1, C_DC_TA_1, C_RC_NA_1, C_RC_TA_1} \<and> u8_try_from v = Inr x \<longrightarrow> x < 4)"

lemma iec104_write_cases:
  assumes "iec104_write_point l ch elapsed d p v (Some s) m = (r, session, m')"
  obtains e where "r = Inl e" "session = Some s"
  | pt t a where "type_id_try_from (ip_type_id p) = Some pt" "map_to_command pt = Some t"
      "value_command l ch (\<lambda>t. ValidationError (write_text t)) t (id_ca d) (ip_ioa p)
        (if needs_time t then Some (utc_now ch 0) else None) v = Some (Inr (Inr a))"
      "r = Inr v" "session = Some (s\<lparr>pt_queued := pt_queued s @ [a]\<rparr>)"
proof (cases "ip_access_mode p = AM_Write \<or> ip_access_mode p = AM_ReadWrite")
  case writable: True
  show thesis
  proof (cases "type_id_try_from (ip_type_id p)")
    case None
    with assms writable that(1) show thesis by (auto simp: iec104_write_point_def)
  next
    case pt: (Some pt)
    show thesis
    proof (cases "map_to_command pt")
      case None
      with assms writable pt that(1) show thesis by (auto simp: iec104_write_point_def)
    next
      case t: (Some t)
      let ?c = "value_command l ch (\<lambda>t. ValidationError (write_text t)) t (id_ca d) (ip_ioa p)
        (if needs_time t then Some (utc_now ch 0) else None) v"
      consider "?c = None" | e where "?c = Some (Inl e)" | built where "?c = Some (Inr built)"
        by (metis old.sum.exhaust option.exhaust)
      then show thesis
      proof cases
        case (3 built)
        obtain q s' where q: "send_command built s = (q, s')" by fastforce
        from q show thesis
          by (rule send_command_cases) (use assms writable pt t 3 q that in \<open>auto simp: iec104_write_point_def Let_def\<close>)
      qed (use assms writable pt t that(1) in \<open>auto simp: iec104_write_point_def Let_def\<close>)
    qed
  qed
qed (use assms that(1) in \<open>auto simp: iec104_write_point_def\<close>)

text \<open>C40: A write that succeeds has queued exactly one unit on the session: its type is the command the point's
  type is mapped to, it goes to the common address of the device with the cause of an activation, and the
  receiver's reader recovers the address of the point and the written value, converted to the type of
  the command.  A write that fails leaves the session as it was.  Values written as double or step
  commands are below 4; a larger one is sent with its two lowest bits only
  (\<open>iec104_double_write_reduced\<close>).\<close>

theorem iec104_write_point_sends:
  assumes "bit_objects_ok l" "cot_cause l (activation l) = Activation" "clock_ok ch"
    and "state_fits p v"
    and "iec104_write_point l ch elapsed d p v (Some s) m = (r, session, m')"
  shows "case r of
      Inl e \<Rightarrow> session = Some s
    | Inr w \<Rightarrow> w = v \<and> (\<exists>pt t a. type_id_try_from (ip_type_id p) = Some pt \<and> map_to_command pt = Some t
          \<and> session = Some (s\<lparr>pt_queued := pt_queued s @ [a]\<rparr>)
          \<and> ident a = command_ident l t (id_ca d) \<and> carries l ch t (ip_ioa p) v a)"
  using assms(5)
proof (cases rule: iec104_write_cases)
  case (2 pt t a)
  have "t \<in> {C_DC_NA_1, C_DC_TA_1, C_RC_NA_1, C_RC_TA_1} \<Longrightarrow> u8_try_from v = Inr x \<Longrightarrow> x < 4" for x
    using assms(4) 2(1,2) unfolding state_fits_def by blast
  from value_command_carries [OF assms(1,2) assms(3) this 2(3)] 2 show ?thesis by auto
qed simp

section \<open>Examples\<close>

definition online :: session_port where
  "online = \<lparr>pt_connected = True, pt_active = True, pt_open = True, pt_full = False, pt_queued = []\<rparr>"

definition no_requests :: Iec104Metrics where
  "no_requests = \<lparr>im_total_requests = 0, im_successful_requests = 0, im_failed_requests = 0, im_last_avg_response_time_ms = 0\<rparr>"

text \<open>A double point, type 3, that may be written.\<close>

definition switch_point :: Iec104Point where
  "switch_point = breaker\<lparr>ip_type_id := 3, ip_access_mode := AM_ReadWrite, ip_data_type := T_UInt8\<rparr>"

lemma iec104_activation: "cot_cause iec104_objects (activation iec104_objects) = Activation"
  by (simp add: activation_def iec104_objects_def)

lemma switch_type: "type_id_try_from 3 = Some M_DP_NA_1" "map_to_command M_DP_NA_1 = Some C_DC_NA_1"
  using type_id_roundtrip [of M_DP_NA_1]
  by (simp_all add: map_to_command_def is_command_def measurement_command_def)

lemma u8_of_uint8: "u8_try_from (UInt8 x) = Inr x"
  using uint_bounded [of x]
  by (simp add: u8_try_from_def or_range_def narrow_def umax_def)

lemma write_switch:
  "\<exists>a m. iec104_write_point iec104_objects ch 5 rtu switch_point (UInt8 x) (Some online) no_requests
      = (Inr (UInt8 x), Some (online\<lparr>pt_queued := [a]\<rparr>), m)"
  by (simp add: iec104_write_point_def switch_point_def breaker_def switch_type needs_time_def Let_def value_command_def
      u8_of_uint8 or_fail_def res_bind_def double_cmd_def build_command_def iec104_activation cause_cmd_def
      send_command_def online_def)

lemma sample_clock_ok: "clock_ok (civil_calendar (2024, 5, 6, 11, 0, 2, 0))"
  by (simp add: clock_ok_def stamped_ok_def cp_fields_ok_def cp_seen_def civil_calendar_def)

theorem iec104_write_point_sends_witness:
  "\<exists>a m. iec104_write_point iec104_objects (civil_calendar (2024, 5, 6, 11, 0, 2, 0)) 5 rtu switch_point (UInt8 2) (Some online) no_requests
      = (Inr (UInt8 2), Some (online\<lparr>pt_queued := [a]\<rparr>), m)
    \<and> ident a = command_ident iec104_objects C_DC_NA_1 1
    \<and> read_as iec104_objects 7 (dco_new iec104_objects False 0 2) (get_double_cmd iec104_objects (civil_calendar (2024, 5, 6, 11, 0, 2, 0)) a)"
proof -
  let ?ch = "civil_calendar (2024, 5, 6, 11, 0, 2, 0)"
  obtain a m where w: "iec104_write_point iec104_objects ?ch 5 rtu switch_point (UInt8 2) (Some online) no_requests
      = (Inr (UInt8 2), Some (online\<lparr>pt_queued := [a]\<rparr>), m)"
    using write_switch by blast
  have "state_fits switch_point (UInt8 2)" by (simp add: state_fits_def u8_of_uint8)
  then have "ident a = command_ident iec104_objects C_DC_NA_1 1 \<and> carries iec104_objects ?ch C_DC_NA_1 7 (UInt8 2) a"
    using iec104_write_point_sends [OF iec104_objects_ok iec104_activation sample_clock_ok _ w]
    by (auto simp: switch_point_def sample_points switch_type online_def)
  with w show ?thesis by (auto simp: carries_def u8_of_uint8)
qed

text \<open>A double command has two bits: a value that does not fit is reduced, not refused.  Six is sent as two, and
  reported as applied.\<close>

theorem iec104_double_write_reduced:
  "\<exists>a m. iec104_write_point iec104_objects (civil_calendar (2024, 5, 6, 11, 0, 2, 0)) 5 rtu switch_point (UInt8 6) (Some online) no_requests
      = (Inr (UInt8 6), Some (online\<lparr>pt_queued := [a]\<rparr>), m)
    \<and> read_as iec104_objects 7 (dco_new iec104_objects False 0 2) (get_double_cmd iec104_objects (civil_calendar (2024, 5, 6, 11, 0, 2, 0)) a)"
proof -
  let ?ch = "civil_calendar (2024, 5, 6, 11, 0, 2, 0)"
  obtain a m where w: "iec104_write_point iec104_objects ?ch 5 rtu switch_point (UInt8 6) (Some online) no_requests
      = (Inr (UInt8 6), Some (online\<lparr>pt_queued := [a]\<rparr>), m)"
    using write_switch by blast
  from w have "\<exists>x. u8_try_from (UInt8 6) = Inr x
      \<and> read_as iec104_objects 7 (dco_new iec104_objects False 0 (x mod 4)) (get_double_cmd iec104_objects ?ch a)"
  proof (cases rule: iec104_write_cases)
    case (2 pt t a')
    then have "t = C_DC_NA_1" "a' = a" by (auto simp: switch_point_def sample_points switch_type online_def)
    with double_command_reads [OF iec104_objects_ok iec104_activation sample_clock_ok _ 2(3)] show ?thesis
      by (auto simp: switch_point_def sample_points)
  qed simp
  with w show ?thesis by (auto simp: u8_of_uint8)
qed

text \<open>A normalized value is published as a fraction of full scale but written as the raw number: half of full
  scale, which is what is published for 16384, is written as one.\<close>

lemma normal_half: "is_finite (normal_value 16384)" "fp_val (normal_value 16384) = 1 / 2" "fp_ok F64 (normal_value 16384)"
proof -
  have x: "f64_of_int 16384 = fp_round F64 False 16384" "f64_of_int 32768 = fp_round F64 False 32768"
    by (simp_all add: f64_of_int_def fp_of_rat_def)
  obtain m e where a: "fp_round F64 False 16384 = Fin False m e" "of_nat m * 2 powi e = (16384 :: rat)"
    using fp_round_exact [of 16384 16384 0 F64 False] by auto
  obtain n d where b: "fp_round F64 False 32768 = Fin False n d" "of_nat n * 2 powi d = (32768 :: rat)"
    using fp_round_exact [of 32768 32768 0 F64 False] by auto
  have "n \<noteq> 0" using b(2) by (intro notI) simp
  then have h: "normal_value 16384 = fp_round F64 False (1 / 2)"
    using a b by (simp add: normal_value_def x)
  have "(1 / 2 :: rat) = of_nat 1 * 2 powi (- 1)" by (simp add: power_int_minus)
  from fp_round_val [OF this, of F64 False] show "is_finite (normal_value 16384)" "fp_val (normal_value 16384) = 1 / 2"
      "fp_ok F64 (normal_value 16384)"
    by (simp_all add: h)
qed

lemma iec104_normal_write_back: "i16_try_from (Float64 (normal_value 16384)) = Inr 1"
proof -
  have "is_finite (f64_round (normal_value 16384))" "fp_val (f64_round (normal_value 16384)) = of_int (nearest (1 / 2))"
    using f64_round_correct [OF normal_half(1,3)] by (simp_all only: normal_half(2))
  moreover have "nearest (1 / 2) = 1" by (simp add: nearest_def)
  ultimately show ?thesis
    by (simp add: i16_try_from_def float_to_int_def smin_def smax_def f64_of_int_exact fp_as_int_finite rat_trunc_def)
qed

end
