(* ===== verification/Modbus_Codec.thy ===== *)
theory Modbus_Codec
  imports Sdk_Codec
begin

text \<open>
  The Modbus register codec (\<open>ng-gateway-southward/modbus/src/codec.rs\<close>) with the byte orders and
  function codes of \<open>types.rs\<close>: registers to bytes and back under both byte orders and both word
  orders, strings, bit fields, decoding of a register slice into a typed value, and encoding of a
  value for a write.  The lemmas show that the conversions between registers and bytes are inverse, that
  bit fields address bit \<open>i mod 16\<close> of register \<open>i div 16\<close>, that an encoded integer or float is
  decoded as itself, and two places where the code departs from that: padded strings with
  little-endian word order, and large integers under a transform.
\<close>

section \<open>Byte order and function codes\<close>

datatype Endianness = BigEndian | LittleEndian

datatype ModbusFunctionCode =
    ReadCoils | ReadDiscreteInputs | ReadHoldingRegisters | ReadInputRegisters
  | WriteSingleCoil | WriteSingleRegister | WriteMultipleCoils | WriteMultipleRegisters

fun function_code_u8 :: "ModbusFunctionCode \<Rightarrow> u8" where
  "function_code_u8 ReadCoils = 1"
| "function_code_u8 ReadDiscreteInputs = 2"
| "function_code_u8 ReadHoldingRegisters = 3"
| "function_code_u8 ReadInputRegisters = 4"
| "function_code_u8 WriteSingleCoil = 5"
| "function_code_u8 WriteSingleRegister = 6"
| "function_code_u8 WriteMultipleCoils = 15"
| "function_code_u8 WriteMultipleRegisters = 16"

definition function_code_try_from :: "u8 \<Rightarrow> DriverError + ModbusFunctionCode" where
  "function_code_try_from value =
     (if value = 1 then Inr ReadCoils
      else if value = 2 then Inr ReadDiscreteInputs
      else if value = 3 then Inr ReadHoldingRegisters
      else if value = 4 then Inr ReadInputRegisters
      else if value = 5 then Inr WriteSingleCoil
      else if value = 6 then Inr WriteSingleRegister
      else if value = 15 then Inr WriteMultipleCoils
      else if value = 16 then Inr WriteMultipleRegisters
      else Inl (ConfigurationError ''Invalid function code''))"

section \<open>Registers and bytes\<close>

definition word_bytes :: "Endianness \<Rightarrow> u16 \<Rightarrow> bytes" where
  "word_bytes byte_order w =
     (case byte_order of BigEndian \<Rightarrow> u16_to_be w | LittleEndian \<Rightarrow> rev (u16_to_be w))"

definition words_to_bytes :: "u16 list \<Rightarrow> Endianness \<Rightarrow> Endianness \<Rightarrow> bytes" where
  "words_to_bytes words byte_order word_order =
     (if length words > 1 \<and> word_order = LittleEndian
      then concat (map (word_bytes byte_order) (rev words))
      else concat (map (word_bytes byte_order) words))"

text \<open>The register of two consecutive bytes.\<close>

definition pair_word :: "Endianness \<Rightarrow> u8 \<Rightarrow> u8 \<Rightarrow> u16" where
  "pair_word byte_order a b =
     (case byte_order of BigEndian \<Rightarrow> u16_of a b | LittleEndian \<Rightarrow> u16_of b a)"

fun pair_words :: "Endianness \<Rightarrow> bytes \<Rightarrow> u16 list" where
  "pair_words byte_order (a # b # r) = pair_word byte_order a b # pair_words byte_order r"
| "pair_words byte_order [a] = [pair_word byte_order a 0]"
| "pair_words byte_order [] = []"

definition order_words :: "Endianness \<Rightarrow> u16 list \<Rightarrow> u16 list" where
  "order_words word_order words =
     (if length words > 1 \<and> word_order = LittleEndian then rev words else words)"

definition bytes_to_words :: "bytes \<Rightarrow> Endianness \<Rightarrow> Endianness \<Rightarrow> u16 list" where
  "bytes_to_words bs byte_order word_order = order_words word_order (pair_words byte_order bs)"

text \<open>The loop of \<open>encode_string_to_registers\<close>, which stops at \<open>target_limit\<close> words.\<close>

fun string_words :: "Endianness \<Rightarrow> nat \<Rightarrow> nat \<Rightarrow> bytes \<Rightarrow> u16 list" where
  "string_words byte_order target_limit produced (a # b # r) =
     (if produced < target_limit
      then pair_word byte_order a b # string_words byte_order target_limit (Suc produced) r else [])"
| "string_words byte_order target_limit produced [a] =
     (if produced < target_limit then [pair_word byte_order a 0] else [])"
| "string_words byte_order target_limit produced [] = []"

definition encode_string_to_registers ::
    "string \<Rightarrow> Endianness \<Rightarrow> Endianness \<Rightarrow> nat option \<Rightarrow> u16 list" where
  "encode_string_to_registers s byte_order word_order target_words =
     (let target_limit = (case target_words of None \<Rightarrow> 2 ^ 64 - 1 | Some n \<Rightarrow> n);
          words = string_words byte_order target_limit 0 (str_bytes s);
          ordered = order_words word_order words
      in case target_words of
           None \<Rightarrow> ordered
         | Some tw \<Rightarrow> if length words < tw then ordered @ replicate (tw - length ordered) 0 else ordered)"

section \<open>Bit fields\<close>

text \<open>The inner loop of \<open>parse_bit_field\<close>: the bits pushed and the remaining count.\<close>

fun push_bits :: "nat \<Rightarrow> u32 \<Rightarrow> nat \<Rightarrow> bool list \<times> nat" where
  "push_bits 0 n remaining = ([], remaining)"
| "push_bits (Suc k) n remaining =
     (if remaining = 0 then ([], 0)
      else let (out, r) = push_bits k (drop_bit 1 n) (remaining - 1) in ((n AND 1 \<noteq> 0) # out, r))"

fun parse_bit_field :: "u16 list \<Rightarrow> nat \<Rightarrow> bool list" where
  "parse_bit_field [] bit_len = replicate bit_len False"
| "parse_bit_field (w # ws) bit_len =
     (let (out, remaining) = push_bits 16 (ucast w) bit_len
      in if remaining = 0 then out else out @ parse_bit_field ws remaining)"

definition encode_bit_word :: "bool list \<Rightarrow> nat \<Rightarrow> u16" where
  "encode_bit_word bits idx =
     fold (\<lambda>k w. if idx + k < length bits \<and> bits ! (idx + k) then w OR push_bit k 1 else w) [0..<16] 0"

definition encode_bit_field :: "bool list \<Rightarrow> u16 list" where
  "encode_bit_field bits =
     (if bits = [] then []
      else map (\<lambda>i. encode_bit_word bits (16 * i)) [0..<(length bits + 15) div 16])"

section \<open>Decoding a register slice\<close>

definition out_of_range :: "NGValue option \<Rightarrow> DriverError + NGValue" where
  "out_of_range r = ok_or (CodecError ''Value out of range'') r"

definition insufficient :: "DriverError + NGValue" where
  "insufficient = Inl (CodecError ''Insufficient bytes'')"

definition decode_numeric :: "bytes \<Rightarrow> DataType \<Rightarrow> DataType \<Rightarrow> Transform \<Rightarrow> DriverError + NGValue" where
  "decode_numeric bs wire_dt logical_dt t =
     (let len = length bs
      in case wire_dt of
           T_Float32 \<Rightarrow>
             (if len < 4 then insufficient
              else out_of_range (coerce_f64_to_value (f32_as_f64 (f32_of_bits (be_word (take 4 bs)))) logical_dt t))
         | T_Float64 \<Rightarrow>
             (if len < 8 then insufficient
              else out_of_range (coerce_f64_to_value (f64_of_bits (be_word (take 8 bs))) logical_dt t))
         | T_UInt8 \<Rightarrow>
             out_of_range (coerce_u64_to_value (ucast (case bs of [] \<Rightarrow> 0 | b # _ \<Rightarrow> b)) logical_dt t)
         | T_Int8 \<Rightarrow>
             out_of_range (coerce_i64_to_value (scast (case bs of [] \<Rightarrow> 0 | b # _ \<Rightarrow> b)) logical_dt t)
         | T_UInt16 \<Rightarrow>
             (if len < 2 then insufficient
              else out_of_range (coerce_u64_to_value (ucast (be_word (take 2 bs) :: u16)) logical_dt t))
         | T_Int16 \<Rightarrow>
             (if len < 2 then insufficient
              else out_of_range (coerce_i64_to_value (scast (be_word (take 2 bs) :: u16)) logical_dt t))
         | T_UInt32 \<Rightarrow>
             (if len < 4 then insufficient
              else out_of_range (coerce_u64_to_value (ucast (be_word (take 4 bs) :: u32)) logical_dt t))
         | T_Int32 \<Rightarrow>
             (if len < 4 then insufficient
              else out_of_range (coerce_i64_to_value (scast (be_word (take 4 bs) :: u32)) logical_dt t))
         | T_UInt64 \<Rightarrow>
             (if len < 8 then insufficient
              else out_of_range (coerce_u64_to_value (be_word (take 8 bs)) logical_dt t))
         | T_Int64 \<Rightarrow>
             (if len < 8 then insufficient
              else out_of_range (coerce_i64_to_value (be_word (take 8 bs)) logical_dt t))
         | _ \<Rightarrow> Inl (CodecError ''Unsupported numeric wire data type''))"

definition parse_register_value ::
    "u16 list \<Rightarrow> DataType \<Rightarrow> DataType \<Rightarrow> Endianness \<Rightarrow> Endianness \<Rightarrow> Transform \<Rightarrow> DriverError + NGValue" where
  "parse_register_value words wire_dt logical_dt byte_order word_order t =
     (if words = [] then Inl (CodecError ''Empty register words'')
      else
        let bs = words_to_bytes words byte_order word_order; len = length bs
        in case wire_dt of
             T_Boolean \<Rightarrow> out_of_range (coerce_bool_to_value (hd words \<noteq> 0) logical_dt t)
           | T_String \<Rightarrow>
               (let s = bytes_str (utf8_lossy (rev (dropWhile (\<lambda>b. b = 0) (rev bs))))
                in case logical_dt of
                     T_String \<Rightarrow> Inr (Str s)
                   | T_Boolean \<Rightarrow> Inr (Boolean (trim s \<noteq> []))
                   | _ \<Rightarrow>
                       (case parse_f64 (trim s) of
                          None \<Rightarrow> Inl (CodecError ''Failed to parse string as number'')
                        | Some n \<Rightarrow> out_of_range (coerce_f64_to_value n logical_dt t)))
           | T_Binary \<Rightarrow> Inr (Binary bs)
           | T_Timestamp \<Rightarrow>
               (if len \<ge> 8 then Inr (Timestamp (be_word (take 8 bs)))
                else if len \<ge> 4 then Inr (Timestamp (ucast (be_word (take 4 bs) :: u32) * 1000))
                else Inl (CodecError ''Insufficient bytes for timestamp''))
           | _ \<Rightarrow> decode_numeric bs wire_dt logical_dt t)"

section \<open>Encoding a value for a write\<close>

definition encode_coils :: "NGValue \<Rightarrow> nat option \<Rightarrow> DriverError + bool list" where
  "encode_coils value target_len =
     res_bind (map_cast ''Expected boolean value'' (bool_try_from value)) (\<lambda>b.
       let out = (case target_len of Some n \<Rightarrow> replicate n b | None \<Rightarrow> [b])
       in case target_len of
            None \<Rightarrow> Inr out
          | Some n \<Rightarrow>
              Inr (if length out > n then take n out
                   else if length out < n then out @ replicate (n - length out) b else out))"

definition raw_bytes :: "NGValue \<Rightarrow> DataType \<Rightarrow> u16 \<Rightarrow> DriverError + bytes" where
  "raw_bytes value dt quantity =
     (let cast_err = ''Cast failed''
      in if dt = T_Float32 \<and> quantity = 2
         then res_bind (map_cast cast_err (f32_try_from value)) (\<lambda>v. Inr (be_bytes (f32_to_bits v)))
         else if dt = T_Float64 \<and> quantity = 4
         then res_bind (map_cast cast_err (f64_try_from value)) (\<lambda>v. Inr (be_bytes (f64_to_bits v)))
         else if dt = T_Int32 \<and> quantity = 2
         then res_bind (map_cast cast_err (i32_try_from value)) (\<lambda>v. Inr (be_bytes v))
         else if dt = T_UInt32 \<and> quantity = 2
         then res_bind (map_cast cast_err (u32_try_from value)) (\<lambda>v. Inr (be_bytes v))
         else if dt = T_Int64 \<and> quantity = 4
         then res_bind (map_cast cast_err (i64_try_from value)) (\<lambda>v. Inr (be_bytes v))
         else if dt = T_UInt64 \<and> quantity = 4
         then res_bind (map_cast cast_err (u64_try_from value)) (\<lambda>v. Inr (be_bytes v))
         else if dt = T_Int16 \<and> quantity = 1
         then res_bind (map_cast cast_err (i16_try_from value)) (\<lambda>v. Inr (be_bytes v))
         else if dt = T_UInt16 \<and> quantity = 1
         then res_bind (map_cast cast_err (u16_try_from value)) (\<lambda>v. Inr (be_bytes v))
         else Inl (ValidationError ''Unsupported type/quantity combination''))"

definition encode_registers_from_value ::
    "NGValue \<Rightarrow> DataType \<Rightarrow> Endianness \<Rightarrow> Endianness \<Rightarrow> u16 \<Rightarrow> DriverError + u16 list" where
  "encode_registers_from_value value dt byte_order word_order quantity =
     (case (dt, value) of
        (T_String, Str s) \<Rightarrow> Inr (encode_string_to_registers s byte_order word_order (Some (unat quantity)))
      | (T_Binary, Binary b) \<Rightarrow>
          (let words = bytes_to_words b byte_order word_order; q = unat quantity
           in Inr (if length words > q then take q words else words @ replicate (q - length words) 0))
      | _ \<Rightarrow>
          let target_bytes = unat quantity * 2
          in res_bind (raw_bytes value dt quantity) (\<lambda>raw.
               if length raw > target_bytes then Inl (ValidationError ''Value size exceeds target size'')
               else
                 Inr (bytes_to_words
                        (if length raw < target_bytes then replicate (target_bytes - length raw) 0 @ raw else raw)
                        byte_order word_order)))"

section \<open>Registers and bytes determine each other\<close>

lemma order_words_order [simp]: "order_words wo (order_words wo ws) = ws"
  by (simp add: order_words_def)

lemma length_order_words [simp]: "length (order_words wo ws) = length ws"
  by (simp add: order_words_def)

lemma words_to_bytes_order: "words_to_bytes ws bo wo = concat (map (word_bytes bo) (order_words wo ws))"
  by (simp add: words_to_bytes_def order_words_def)

lemma pair_word_of_bytes: "\<exists>a b. word_bytes bo w = [a, b] \<and> pair_word bo a b = w"
  by (cases bo) (simp_all add: word_bytes_def u16_to_be_def pair_word_def)

lemma word_bytes_pair: "word_bytes bo (pair_word bo a b) = [a, b]"
  by (cases bo) (simp_all add: word_bytes_def u16_to_be_def pair_word_def)

lemma length_word_bytes [simp]: "length (word_bytes bo w) = 2"
  by (cases bo) (simp_all add: word_bytes_def)

lemma pair_words_concat: "pair_words bo (concat (map (word_bytes bo) ws)) = ws"
proof (induction ws)
  case (Cons w ws)
  then show ?case using pair_word_of_bytes [of bo w] by auto
qed simp

lemma concat_pair_words: "even (length bs) \<Longrightarrow> concat (map (word_bytes bo) (pair_words bo bs)) = bs"
  by (induction bo bs rule: pair_words.induct) (simp_all add: word_bytes_pair)

lemma length_words_to_bytes [simp]: "length (words_to_bytes ws bo wo) = 2 * length ws"
  by (simp add: words_to_bytes_order length_concat o_def sum_list_triv)

lemma words_of_bytes: "even (length bs) \<Longrightarrow> words_to_bytes (bytes_to_words bs bo wo) bo wo = bs"
  by (simp add: words_to_bytes_order bytes_to_words_def concat_pair_words)

lemma bytes_of_words: "bytes_to_words (words_to_bytes ws bo wo) bo wo = ws"
  by (simp add: words_to_bytes_order bytes_to_words_def pair_words_concat)

lemma length_pair_words: "length (pair_words bo bs) = (length bs + 1) div 2"
  by (induction bo bs rule: pair_words.induct) simp_all

lemma string_words_take: "string_words bo n k bs = take (n - k) (pair_words bo bs)"
proof (induction bo n k bs rule: string_words.induct)
  case (1 bo n k a b r)
  then show ?case by (cases "k < n") (auto simp: take_Cons')
qed (auto simp: take_Cons')

section \<open>Bit fields\<close>

lemma map_bit_Suc: "map (bit (n :: u32)) [0..<Suc j] = bit n 0 # map (bit (drop_bit 1 n)) [0..<j]"
  by (simp add: map_upt_Suc bit_drop_bit_eq o_def del: upt_Suc)

lemma push_bits_spec: "push_bits k n r = (map (bit n) [0..<min k r], r - k)"
proof (induction k n r rule: push_bits.induct)
  case (2 k n r)
  show ?case
  proof (cases r)
    case (Suc m)
    have "(n AND 1 \<noteq> 0) = bit n 0" by (simp add: and_one_eq bit_0 mod_2_eq_odd)
    then show ?thesis using 2 Suc map_bit_Suc [of n "min k m"] by (simp del: upt_Suc)
  qed simp
qed simp

definition field_bit :: "u16 list \<Rightarrow> nat \<Rightarrow> bool" where
  "field_bit ws i \<longleftrightarrow> i div 16 < length ws \<and> bit (ws ! (i div 16)) (i mod 16)"

lemma field_bit_Cons: "field_bit (w # ws) i = (if i < 16 then bit w i else field_bit ws (i - 16))"
  by (auto simp: field_bit_def div_if [of i] mod_if [of i])

lemma parse_bit_field_spec: "parse_bit_field ws n = map (field_bit ws) [0..<n]"
proof (induction ws arbitrary: n)
  case Nil
  then show ?case by (simp add: field_bit_def map_replicate_const)
next
  case (Cons w ws)
  have low: "map (field_bit (w # ws)) [0..<min 16 n] = map (bit (ucast w :: u32)) [0..<min 16 n]"
    by (auto simp: field_bit_Cons bit_simps)
  show ?case
  proof (cases "n \<le> 16")
    case True
    then show ?thesis using low by (simp add: push_bits_spec min_def)
  next
    case False
    then have "[0..<n] = [0..<16] @ map (\<lambda>i. i + 16) [0..<n - 16]"
      using upt_add_eq_append [of 0 16 "n - 16"] by (simp add: map_add_upt)
    then have "map (field_bit (w # ws)) [0..<n] = map (bit (ucast w :: u32)) [0..<16] @ map (field_bit ws) [0..<n - 16]"
      using low False by (simp add: field_bit_Cons o_def)
    then show ?thesis using False Cons [of "n - 16"] by (simp add: push_bits_spec min_def)
  qed
qed

lemma encode_bit_fold:
  "j \<le> 16 \<Longrightarrow> bit (fold (\<lambda>k w. if P k then w OR push_bit k 1 else w) [0..<j] (0 :: u16)) i \<longleftrightarrow> i < j \<and> P i"
  by (induction j) (auto simp: bit_simps less_Suc_eq)

lemma bit_encode_bit_word: "bit (encode_bit_word bits idx) i \<longleftrightarrow> i < 16 \<and> idx + i < length bits \<and> bits ! (idx + i)"
  unfolding encode_bit_word_def
  using encode_bit_fold [of 16 "\<lambda>k. idx + k < length bits \<and> bits ! (idx + k)" i] by (simp cong: if_cong)


section \<open>Encoded numbers are decoded as themselves\<close>

text \<open>The combinations of type and register count that can be written.\<close>

definition writable :: "DataType \<Rightarrow> u16 \<Rightarrow> bool" where
  "writable dt q \<longleftrightarrow>
     dt \<in> {T_Int16, T_UInt16} \<and> q = 1 \<or> dt \<in> {T_Int32, T_UInt32} \<and> q = 2 \<or> dt \<in> {T_Int64, T_UInt64} \<and> q = 4"

lemma raw_bytes_cast:
  assumes "writable dt q"
  shows "raw_bytes v dt q =
    (case cast_to dt v of Inl _ \<Rightarrow> Inl (ValidationError ''Cast failed'') | Inr w \<Rightarrow> Inr (bytes_try_from w))"
  using assms by (auto simp: writable_def raw_bytes_def cast_to_def map_cast_def split: sum.splits)

lemma writable_int: "writable dt q \<Longrightarrow> int_type dt"
  by (auto simp: writable_def int_type_def)

lemma writable_length: "writable dt q \<Longrightarrow> data_type w = dt \<Longrightarrow> length (bytes_try_from w) = 2 * unat q"
  by (cases w) (auto simp: writable_def)

lemma writable_not_text: "writable dt q \<Longrightarrow> dt \<noteq> T_String \<and> dt \<noteq> T_Binary"
  by (auto simp: writable_def)

lemma cast_to_same: "int_type (data_type w) \<Longrightarrow> int_of w = Some j \<Longrightarrow> cast_to (data_type w) w = Inr w"
  using cast_to_int [of w j "data_type w"] int_of_range [of w j] int_value_of [of w j] by auto

lemma encode_registers_int:
  assumes "writable dt q" "data_type w = dt" "int_of w = Some j"
  shows "encode_registers_from_value w dt bo wo q = Inr (bytes_to_words (bytes_try_from w) bo wo)"
proof -
  have "raw_bytes w dt q = Inr (bytes_try_from w)"
    using assms cast_to_same [of w j] writable_int [OF assms(1)] by (simp add: raw_bytes_cast)
  then show ?thesis
    using assms writable_length [OF assms(1,2)] writable_not_text [OF assms(1)]
    by (cases dt) (auto simp: encode_registers_from_value_def)
qed

lemma parse_registers_int:
  assumes "writable dt q" "data_type w = dt"
  shows "parse_register_value (bytes_to_words (bytes_try_from w) bo wo) dt ldt bo wo t = out_of_range (coerce_value w ldt t)"
proof -
  define ws where "ws = bytes_to_words (bytes_try_from w) bo wo"
  have len: "length (bytes_try_from w) = 2 * unat q" by (rule writable_length [OF assms])
  then have bs: "words_to_bytes ws bo wo = bytes_try_from w" by (simp add: ws_def words_of_bytes)
  have "2 * length ws = 2 * unat q" using len bs length_words_to_bytes [of ws bo wo] by simp
  moreover have "0 < unat q" using assms(1) by (auto simp: writable_def)
  ultimately have "ws \<noteq> []" by auto
  then show ?thesis
    using assms len bs unfolding ws_def [symmetric]
    by (cases w) (auto simp: writable_def parse_register_value_def decode_numeric_def Let_def)
qed

section \<open>Properties\<close>

text \<open>Packing bits into registers and reading them back returns the bits, and a bit
  field read from any registers is the sequence of bits \<open>i mod 16\<close> of register \<open>i div 16\<close>,
  false beyond the last register.\<close>

theorem bit_field_correct:
  "parse_bit_field ws n = map (\<lambda>i. i div 16 < length ws \<and> bit (ws ! (i div 16)) (i mod 16)) [0..<n]
   \<and> parse_bit_field (encode_bit_field bits) (length bits) = bits"
proof
  show "parse_bit_field ws n = map (\<lambda>i. i div 16 < length ws \<and> bit (ws ! (i div 16)) (i mod 16)) [0..<n]"
    by (simp add: parse_bit_field_spec field_bit_def)
  have "field_bit (encode_bit_field bits) i = bits ! i" if "i < length bits" for i
  proof -
    have "i div 16 < (length bits + 15) div 16" using that by linarith
    moreover have "bits \<noteq> []" using that by auto
    ultimately show ?thesis using that by (simp add: field_bit_def encode_bit_field_def bit_encode_bit_word)
  qed
  then show "parse_bit_field (encode_bit_field bits) (length bits) = bits"
    unfolding parse_bit_field_spec by (intro nth_equalityI) simp_all
qed

text \<open>C17: the value of an integer point survives the trip through the registers of the device.  For a
  logical integer type, a wire type of 16, 32 or 64 bits with its one, two or four registers, every byte
  order and word order, a transform without a scale whose offset is an integer, and numbers of at
  most 53 bits before and after the offset: when the SDK maps a logical value to the wire type,
  the codec encodes it into exactly the configured number of registers, and decoding these registers with the
  point's transform returns the value.\<close>

theorem modbus_point_roundtrip:
  assumes "shift_by t k" "int_of v = Some i" "int_type (data_type v)" "writable wdt q"
    "\<bar>i\<bar> \<le> 2 ^ 53" "\<bar>signed_by t i - k\<bar> \<le> 2 ^ 53"
    and "logical_to_wire_value v (data_type v) wdt t = Inr w"
  shows "\<exists>ws. encode_registers_from_value w wdt bo wo q = Inr ws \<and> length ws = unat q
    \<and> parse_register_value ws wdt (data_type v) bo wo t = Inr v"
proof -
  note c = write_coerce_back [OF assms(1-3) writable_int [OF assms(4)] assms(5-7)]
  have "length (bytes_to_words (bytes_try_from w) bo wo) = unat q"
    using writable_length [OF assms(4) c(1)] by (simp add: bytes_to_words_def length_pair_words)
  then show ?thesis
    using encode_registers_int [OF assms(4) c(1,2)] parse_registers_int [OF assms(4) c(1)] c(3)
    by (simp add: out_of_range_def ok_or_def)
qed

theorem modbus_point_roundtrip_witness:
  "\<exists>ws. encode_registers_from_value (Int32 100) T_Int32 BigEndian LittleEndian 2 = Inr ws \<and> length ws = 2
    \<and> parse_register_value ws T_Int32 T_Int64 BigEndian LittleEndian
        \<lparr>transform_data_type = Some T_Int64, transform_scale = None, transform_offset = None,
          transform_negate = False\<rparr> = Inr (Int64 100)"
proof -
  define t where "t = \<lparr>transform_data_type = Some T_Int64, transform_scale = None,
       transform_offset = (None :: fp option), transform_negate = False\<rparr>"
  have t: "shift_by t 0" "is_identity_numeric t" "signed_by t 100 = 100"
    by (simp_all add: t_def shift_by_def is_identity_numeric_def signed_by_def)
  have v: "int_of (Int64 100) = Some 100" "int_type (data_type (Int64 100))" "int_type T_Int32" "writable T_Int32 2"
    by (simp_all add: int_type_def writable_def)
  have "logical_to_wire_value (Int64 100) (data_type (Int64 100)) T_Int32 t = Inr (Int32 100)"
    using downlink_integer [OF t(2) v(1,2,3)] by (simp add: in_range_def)
  then show ?thesis
    using modbus_point_roundtrip [OF t(1) v(1,2,4), of "Int32 100" BigEndian LittleEndian] t(3) by (simp add: t_def)
qed

text \<open>The text of a string point comes back changed when the device uses little-endian word order and
  the text needs fewer registers than the point has: the padding is appended after the words were
  reversed, so the decoder finds it in front of the text.\<close>

theorem modbus_string_padding_leads:
  "encode_registers_from_value (Str ''AB'') T_String BigEndian LittleEndian 2 = Inr [0x4142, 0]
   \<and> parse_register_value [0x4142, 0] T_String T_String BigEndian LittleEndian t
       = Inr (Str ([CHR 0x00, CHR 0x00] @ ''AB''))"
proof -
  have "string_words BigEndian 2 0 (str_bytes ''AB'') = [0x4142]"
    by (simp add: str_bytes_def pair_word_def u16_of_def)
  then have "encode_registers_from_value (Str ''AB'') T_String BigEndian LittleEndian 2 = Inr [0x4142, 0]"
    by (simp add: encode_registers_from_value_def encode_string_to_registers_def order_words_def)
  moreover have "words_to_bytes [0x4142, 0] BigEndian LittleEndian = [0, 0, 0x41, 0x42]"
    by (simp add: words_to_bytes_def word_bytes_def u16_to_be_def)
  moreover have "utf8_lossy [0, 0, 0x41, 0x42] = [0, 0, 0x41, 0x42]" by (rule utf8_lossy_ascii) simp
  moreover have "char_of (0 :: nat) = CHR 0x00" "char_of (65 :: nat) = CHR ''A''" "char_of (66 :: nat) = CHR ''B''"
    using char_of_char [of "CHR 0x00"] char_of_char [of "CHR ''A''"] char_of_char [of "CHR ''B''"] by simp_all
  ultimately show ?thesis
    by (simp add: parse_register_value_def bytes_str_def)
qed

text \<open>The SDK refuses to transform a 64-bit integer beyond \<open>2^53\<close>, where \<open>f64\<close> is no longer
  exact, but the register codec does not go through that check: with a negating transform the
  register value \<open>2^53 + 1\<close> is reported as \<open>- 2^53\<close>.\<close>

theorem modbus_transform_lossy:
  assumes "t = \<lparr>transform_data_type = Some T_Int64, transform_scale = None, transform_offset = None, transform_negate = True\<rparr>"
  shows "parse_register_value [0x0020, 0, 0, 1] T_UInt64 T_Int64 BigEndian BigEndian t = Inr (Int64 (- (2 ^ 53)))
    \<and> wire_to_logical_value (UInt64 (2 ^ 53 + 1)) T_UInt64 T_Int64 t
        = Inl (ValidationError ''numeric uplink value too large for safe transform'')"
proof -
  have "lg (2 ^ 53 + 1) = 53" by (rule lg_unique) simp_all
  moreover have "rne ((2 ^ 53 + 1) / 2 powi 1) = 2 ^ 52"
  proof -
    have "\<lfloor>(2 ^ 53 + 1) / 2 powi 1 :: rat\<rfloor> = 2 ^ 52" by (rule floor_unique) simp_all
    then show ?thesis by (simp add: rne_def)
  qed
  ultimately have f: "f64_of_int (2 ^ 53 + 1) = Fin False (2 ^ 52) 1"
    by (simp add: f64_of_int_def fp_of_rat_def fp_round_def)
  have "f64_int (fp_neg (Fin False (2 ^ 52) 1)) (- (2 ^ 53))"
    by (simp add: f64_int_def fp_ok_def)
  then have "coerce_f64_to_value_after_transform (fp_neg (Fin False (2 ^ 52) 1)) T_Int64 = Some (Int64 (- (2 ^ 53)))"
    using coerce_after_int [of _ "- (2 ^ 53)" T_Int64] by (simp add: int_type_def in_range_def)
  then have c: "coerce_u64_to_value (2 ^ 53 + 1) T_Int64 t = Some (Int64 (- (2 ^ 53)))"
    using f by (simp add: coerce_u64_to_value_def should_apply_numeric_transform_def assms is_identity_numeric_def
        is_numeric_def apply_f64_def)
  have "words_to_bytes [0x0020, 0, 0, 1] BigEndian BigEndian = be_bytes (2 ^ 53 + 1 :: u64)"
    by (simp add: words_to_bytes_def word_bytes_def u16_to_be_def be_bytes_def upt_rec)
  then have "parse_register_value [0x0020, 0, 0, 1] T_UInt64 T_Int64 BigEndian BigEndian t
      = out_of_range (coerce_u64_to_value (2 ^ 53 + 1) T_Int64 t)"
    by (simp add: parse_register_value_def decode_numeric_def Let_def del: power_numeral)
  then show ?thesis
    using c by (simp add: out_of_range_def ok_or_def wire_to_logical_value_def validate_datatype_def assms
        is_identity_numeric_def is_numeric_def F64_EXACT_INT_MAX_def)
qed

theorem modbus_transform_lossy_witness:
  "parse_register_value [0x0020, 0, 0, 1] T_UInt64 T_Int64 BigEndian BigEndian
     \<lparr>transform_data_type = Some T_Int64, transform_scale = None, transform_offset = None, transform_negate = True\<rparr>
   = Inr (Int64 (- (2 ^ 53)))"
  using modbus_transform_lossy [OF refl] by blast

end
