(* ===== verification/Modbus_Planner.thy ===== *)
theory Modbus_Planner
  imports Modbus_Codec
begin

text \<open>
  The Modbus request planner (\<open>ng-gateway-southward/modbus/src/planner.rs\<close>) and the part of the driver
  handle that cuts the replies (\<open>handle.rs\<close>): points are grouped by function code, sorted by
  address and merged into range reads, writes are encoded into plans.  The two loops of the
  planner are modelled with their index as in the source; the lemmas show that they end and compute
  a recursive reference, that every point is read exactly once by a batch of its
  function that covers its registers and keeps the configured limit, and that the values cut from the
  batched replies are the values the points would have read on their own.
\<close>

section \<open>Points, batches and plans\<close>

record ModbusPoint =
  mp_id :: u32
  mp_device_id :: u32
  mp_name :: string
  mp_key :: string
  mp_type :: DataPointType
  mp_data_type :: DataType
  mp_access_mode :: AccessMode
  mp_unit :: "string option"
  mp_min_value :: "fp option"
  mp_max_value :: "fp option"
  mp_transform :: Transform
  mp_function_code :: ModbusFunctionCode
  mp_address :: u16
  mp_quantity :: u16

text \<open>The default value of a parameter is JSON, which only other components read.\<close>

record 'json ModbusParameter =
  pa_name :: string
  pa_key :: string
  pa_data_type :: DataType
  pa_required :: bool
  pa_default_value :: "'json option"
  pa_max_value :: "fp option"
  pa_min_value :: "fp option"
  pa_transform :: Transform
  pa_function_code :: ModbusFunctionCode
  pa_address :: u16
  pa_quantity :: u16

record ReadBatch =
  rb_function :: ModbusFunctionCode
  rb_start_addr :: u16
  rb_quantity :: u16
  rb_points :: "ModbusPoint list"

record WritePlan =
  wp_function :: ModbusFunctionCode
  wp_address :: u16
  wp_coils :: "bool list option"
  wp_registers :: "u16 list option"

record ModbusPlannerConfig =
  max_gap_registers :: u16
  max_batch_registers :: u16
  max_gap_bits :: u16
  max_batch_bits :: u16

section \<open>Planning reads\<close>

text \<open>\<open>groups.entry(fc).or_default().push(p)\<close>, point after point.\<close>

definition group_points :: "ModbusPoint list \<Rightarrow> u8 \<Rightarrow> ModbusPoint list option" where
  "group_points points =
     fold (\<lambda>p g. let k = function_code_u8 (mp_function_code p)
                  in g(k := Some (case g k of None \<Rightarrow> [p] | Some v \<Rightarrow> v @ [p])))
       points (\<lambda>_. None)"

definition batch_limits :: "ModbusPlannerConfig \<Rightarrow> ModbusFunctionCode \<Rightarrow> u16 \<times> u16" where
  "batch_limits cfg f =
     (case f of
        ReadCoils \<Rightarrow> (max_gap_bits cfg, max_batch_bits cfg)
      | ReadDiscreteInputs \<Rightarrow> (max_gap_bits cfg, max_batch_bits cfg)
      | ReadHoldingRegisters \<Rightarrow> (max_gap_registers cfg, max_batch_registers cfg)
      | ReadInputRegisters \<Rightarrow> (max_gap_registers cfg, max_batch_registers cfg)
      | _ \<Rightarrow> (max_gap_registers cfg, max_batch_registers cfg))"

definition point_end :: "ModbusPoint \<Rightarrow> u16" where
  "point_end p = sat_add (mp_address p) (max (mp_quantity p) 1 - 1)"

definition mergeable :: "u16 \<Rightarrow> u16 \<Rightarrow> u16 \<Rightarrow> u16 \<Rightarrow> ModbusPoint \<Rightarrow> bool" where
  "mergeable max_gap max_batch batch_start batch_end p \<longleftrightarrow>
     (let span_if_merged = sat_sub (point_end p) batch_start + 1;
          gap_ok = sat_sub (mp_address p) batch_end \<le> max_gap
      in gap_ok \<and> span_if_merged \<le> max_batch)"

text \<open>The inner loop: the index, the end of the batch and its points so far.\<close>

partial_function (option) merge_loop ::
    "ModbusPoint list \<Rightarrow> u16 \<Rightarrow> u16 \<Rightarrow> u16 \<Rightarrow> nat \<Rightarrow> u16 \<Rightarrow> ModbusPoint list
      \<Rightarrow> (nat \<times> u16 \<times> ModbusPoint list) option" where
  "merge_loop vecp max_gap max_batch batch_start i batch_end batch_points =
     (if i < length vecp then
        (let p = vecp ! i
         in if mergeable max_gap max_batch batch_start batch_end p
            then merge_loop vecp max_gap max_batch batch_start (i + 1) (max batch_end (point_end p)) (batch_points @ [p])
            else Some (i, batch_end, batch_points))
      else Some (i, batch_end, batch_points))"

definition make_batch :: "u16 \<Rightarrow> u16 \<Rightarrow> ModbusPoint list \<Rightarrow> ReadBatch" where
  "make_batch batch_start batch_end batch_points =
     \<lparr>rb_function = mp_function_code (hd batch_points), rb_start_addr = batch_start,
      rb_quantity = sat_sub batch_end batch_start + 1, rb_points = batch_points\<rparr>"

partial_function (option) batch_loop ::
    "ModbusPoint list \<Rightarrow> u16 \<Rightarrow> u16 \<Rightarrow> nat \<Rightarrow> ReadBatch list \<Rightarrow> ReadBatch list option" where
  "batch_loop vecp max_gap max_batch i batches =
     (if i < length vecp then
        (let first = vecp ! i; batch_start = mp_address first
         in Option.bind (merge_loop vecp max_gap max_batch batch_start (i + 1) (point_end first) [first])
              (\<lambda>(i', batch_end, batch_points).
                 batch_loop vecp max_gap max_batch i' (batches @ [make_batch batch_start batch_end batch_points])))
      else Some batches)"

text \<open>The loop over the groups; \<open>ks\<close> is the order in which the hash map yields its keys.\<close>

fun plan_groups ::
    "ModbusPlannerConfig \<Rightarrow> (u8 \<Rightarrow> ModbusPoint list option) \<Rightarrow> u8 list \<Rightarrow> ReadBatch list \<Rightarrow> ReadBatch list option" where
  "plan_groups cfg groups [] batches = Some batches"
| "plan_groups cfg groups (k # ks) batches =
     (case groups k of
        None \<Rightarrow> plan_groups cfg groups ks batches
      | Some v \<Rightarrow>
          let vecp = sort_key mp_address v;
              f = (case vecp of [] \<Rightarrow> ReadHoldingRegisters | p # _ \<Rightarrow> mp_function_code p);
              (max_gap, max_batch) = batch_limits cfg f
          in Option.bind (batch_loop vecp max_gap max_batch 0 batches) (plan_groups cfg groups ks))"

definition plan_read_batches ::
    "u8 list \<Rightarrow> ModbusPlannerConfig \<Rightarrow> ModbusPoint list \<Rightarrow> ReadBatch list option" where
  "plan_read_batches iter_order cfg points =
     (if points = [] then Some [] else plan_groups cfg (group_points points) iter_order [])"

section \<open>Planning writes\<close>

definition plan_write ::
    "'json ModbusParameter \<Rightarrow> NGValue \<Rightarrow> Endianness \<Rightarrow> Endianness \<Rightarrow> DriverError + WritePlan" where
  "plan_write mp value byte_order word_order =
     (let plan = (\<lambda>c r. \<lparr>wp_function = pa_function_code mp, wp_address = pa_address mp, wp_coils = c, wp_registers = r\<rparr>)
      in case pa_function_code mp of
           WriteSingleCoil \<Rightarrow> res_bind (encode_coils value (Some 1)) (\<lambda>c. Inr (plan (Some c) None))
         | WriteMultipleCoils \<Rightarrow>
             res_bind (encode_coils value (Some (unat (pa_quantity mp)))) (\<lambda>c. Inr (plan (Some c) None))
         | WriteSingleRegister \<Rightarrow>
             res_bind (encode_registers_from_value value (pa_data_type mp) byte_order word_order 1) (\<lambda>regs.
               if regs = [] then Inl (PlannerError ''Encoded register payload is empty'')
               else Inr (plan None (Some (take 1 regs))))
         | WriteMultipleRegisters \<Rightarrow>
             res_bind (encode_registers_from_value value (pa_data_type mp) byte_order word_order (max (pa_quantity mp) 1))
               (\<lambda>regs. Inr (plan None (Some regs)))
         | _ \<Rightarrow> Inl (ConfigurationError ''Unsupported function for write action''))"

fun plan_write_plans ::
    "('json ModbusParameter \<times> NGValue) list \<Rightarrow> Endianness \<Rightarrow> Endianness \<Rightarrow> DriverError + WritePlan list" where
  "plan_write_plans [] byte_order word_order = Inr []"
| "plan_write_plans ((mp, value) # items) byte_order word_order =
     res_bind (plan_write mp value byte_order word_order) (\<lambda>p.
       res_bind (plan_write_plans items byte_order word_order) (\<lambda>ps. Inr (p # ps)))"

section \<open>Cutting the replies\<close>

datatype NorthwardReadResult = Coils "bool list" | Registers "u16 list"

definition logical_data_type :: "ModbusPoint \<Rightarrow> DataType" where
  "logical_data_type p = resolve_logical_datatype (mp_transform p) (mp_data_type p)"

text \<open>The points of a batch with their values; \<open>known\<close> tells the devices that have a buffer.\<close>

fun coil_values :: "(u32 \<Rightarrow> bool) \<Rightarrow> u16 \<Rightarrow> bool list \<Rightarrow> ModbusPoint list \<Rightarrow> (ModbusPoint \<times> NGValue) list" where
  "coil_values known start bits [] = []"
| "coil_values known start bits (p # ps) =
     (let offset = unat (sat_sub (mp_address p) start);
          val = (if offset < length bits then bits ! offset else False);
          rest = coil_values known start bits ps
      in if \<not> known (mp_device_id p) then rest
         else case coerce_bool_to_value val (logical_data_type p) (mp_transform p) of
                None \<Rightarrow> rest
              | Some v \<Rightarrow> (p, v) # rest)"

fun register_values ::
    "(u32 \<Rightarrow> bool) \<Rightarrow> Endianness \<Rightarrow> Endianness \<Rightarrow> u16 \<Rightarrow> u16 list \<Rightarrow> ModbusPoint list
      \<Rightarrow> DriverError + (ModbusPoint \<times> NGValue) list" where
  "register_values known byte_order word_order start words [] = Inr []"
| "register_values known byte_order word_order start words (p # ps) =
     (let offset = unat (sat_sub (mp_address p) start); qty = unat (max (mp_quantity p) 1)
      in if offset + qty > length words \<or> \<not> known (mp_device_id p)
         then register_values known byte_order word_order start words ps
         else
           res_bind
             (parse_register_value (subslice words offset (offset + qty)) (mp_data_type p) (logical_data_type p)
                byte_order word_order (mp_transform p))
             (\<lambda>v. res_bind (register_values known byte_order word_order start words ps) (\<lambda>vs. Inr ((p, v) # vs))))"

definition batch_values ::
    "(u32 \<Rightarrow> bool) \<Rightarrow> Endianness \<Rightarrow> Endianness \<Rightarrow> ReadBatch \<Rightarrow> NorthwardReadResult
      \<Rightarrow> DriverError + (ModbusPoint \<times> NGValue) list" where
  "batch_values known byte_order word_order batch res =
     (case res of
        Coils bits \<Rightarrow> Inr (coil_values known (rb_start_addr batch) bits (rb_points batch))
      | Registers words \<Rightarrow>
          register_values known byte_order word_order (rb_start_addr batch) words (rb_points batch))"

section \<open>The loops compute a recursive reference\<close>

text \<open>The longest run of points that can join a batch, and what is left.\<close>

fun take_run :: "u16 \<Rightarrow> u16 \<Rightarrow> u16 \<Rightarrow> u16 \<Rightarrow> ModbusPoint list \<Rightarrow> u16 \<times> ModbusPoint list \<times> ModbusPoint list" where
  "take_run g m start e [] = (e, [], [])"
| "take_run g m start e (p # ps) =
     (if mergeable g m start e p
      then let (e', run, rest) = take_run g m start (max e (point_end p)) ps in (e', p # run, rest)
      else (e, [], p # ps))"

lemma take_run_split: "take_run g m start e ps = (e', run, rest) \<Longrightarrow> ps = run @ rest"
  by (induction ps arbitrary: e e' run rest) (auto split: if_splits prod.splits)

function batches_of :: "u16 \<Rightarrow> u16 \<Rightarrow> ModbusPoint list \<Rightarrow> ReadBatch list" where
  "batches_of g m [] = []"
| "batches_of g m (p # ps) =
     (let (e, run, rest) = take_run g m (mp_address p) (point_end p) ps
      in make_batch (mp_address p) e (p # run) # batches_of g m rest)"
  by pat_completeness auto
termination
proof (relation "measure (length \<circ> snd \<circ> snd)", goal_cases)
  case (2 g m p ps r e x run rest)
  then have "ps = run @ rest" by (metis take_run_split)
  then show ?case by simp
qed simp

lemma merge_loop_run:
  assumes "take_run g m start e (drop i vecp) = (e', run, rest)"
  shows "merge_loop vecp g m start i e pts = Some (i + length run, e', pts @ run)"
  using assms
proof (induction "length vecp - i" arbitrary: i e pts run)
  case 0
  then show ?case by (subst merge_loop.simps) simp
next
  case (Suc n)
  then have i: "i < length vecp" by simp
  then have d: "drop i vecp = vecp ! i # drop (Suc i) vecp" by (simp add: Cons_nth_drop_Suc)
  show ?case
  proof (cases "mergeable g m start e (vecp ! i)")
    case True
    then obtain run' where run: "run = vecp ! i # run'"
        and r: "take_run g m start (max e (point_end (vecp ! i))) (drop (Suc i) vecp) = (e', run', rest)"
      using Suc.prems d by (auto split: prod.splits)
    show ?thesis
      using True i Suc.hyps(1) [OF _ r, of "pts @ [vecp ! i]"] Suc.hyps(2) run
      by (subst merge_loop.simps) simp
  next
    case False
    then show ?thesis using Suc.prems d i by (subst merge_loop.simps) simp
  qed
qed

lemma batch_loop_batches:
  "batch_loop vecp g m i acc = Some (acc @ batches_of g m (drop i vecp))"
proof (induction "length vecp - i" arbitrary: i acc rule: less_induct)
  case less
  show ?case
  proof (cases "i < length vecp")
    case False
    then show ?thesis by (subst batch_loop.simps) simp
  next
    case True
    then have d: "drop i vecp = vecp ! i # drop (Suc i) vecp" by (simp add: Cons_nth_drop_Suc)
    obtain e run rest where r: "take_run g m (mp_address (vecp ! i)) (point_end (vecp ! i)) (drop (Suc i) vecp) = (e, run, rest)"
      by (metis prod_cases3)
    have split: "drop (Suc i) vecp = run @ rest" by (rule take_run_split [OF r])
    then have rest: "drop (Suc i + length run) vecp = rest"
      by (metis add.commute append_eq_conv_conj drop_drop)
    let ?b = "make_batch (mp_address (vecp ! i)) e (vecp ! i # run)"
    have "batch_loop vecp g m (Suc i + length run) (acc @ [?b]) = Some ((acc @ [?b]) @ batches_of g m rest)"
      using less [of "Suc i + length run" "acc @ [?b]"] True rest by simp
    then show ?thesis
      using True d r merge_loop_run [OF r, of "[vecp ! i]"] by (subst batch_loop.simps) (simp add: Let_def)
  qed
qed

section \<open>Groups\<close>

definition of_code :: "u8 \<Rightarrow> ModbusPoint \<Rightarrow> bool" where
  "of_code k p \<longleftrightarrow> function_code_u8 (mp_function_code p) = k"

lemma group_points_filter:
  "group_points ps k = (let v = filter (of_code k) ps in if v = [] then None else Some v)"
proof (induction ps rule: rev_induct)
  case Nil
  then show ?case by (simp add: group_points_def)
next
  case (snoc p ps)
  then show ?case
    by (auto simp: group_points_def of_code_def Let_def split: option.splits if_splits)
qed

definition planned :: "ModbusPlannerConfig \<Rightarrow> ModbusPoint list \<Rightarrow> u8 \<Rightarrow> ReadBatch list" where
  "planned cfg points k =
     (let vecp = sort_key mp_address (filter (of_code k) points)
      in case vecp of [] \<Rightarrow> [] | p # _ \<Rightarrow>
           (case batch_limits cfg (mp_function_code p) of (g, m) \<Rightarrow> batches_of g m vecp))"

lemma plan_groups_planned:
  "plan_groups cfg (group_points points) ks acc = Some (acc @ concat (map (planned cfg points) ks))"
proof (induction ks arbitrary: acc)
  case Nil
  then show ?case by simp
next
  case (Cons k ks)
  show ?case
  proof (cases "filter (of_code k) points = []")
    case True
    then show ?thesis using Cons by (simp add: group_points_filter planned_def)
  next
    case False
    then obtain p ps where v: "sort_key mp_address (filter (of_code k) points) = p # ps"
      by (metis length_0_conv length_sort list.exhaust)
    obtain g m where l: "batch_limits cfg (mp_function_code p) = (g, m)" by fastforce
    show ?thesis
      using False v l Cons batch_loop_batches [of "p # ps" g m 0 acc]
      by (simp add: group_points_filter planned_def)
  qed
qed

section \<open>What a batch covers\<close>

definition width :: "ModbusPoint \<Rightarrow> nat" where
  "width p = unat (max (mp_quantity p) 1)"

text \<open>The point lies below the last address and is not longer than the limit.\<close>

definition ok_point :: "u16 \<Rightarrow> ModbusPoint \<Rightarrow> bool" where
  "ok_point m p \<longleftrightarrow> unat (mp_address p) + width p \<le> 65535 \<and> width p \<le> unat m"

lemma width_pos: "0 < width p"
proof -
  have "(1 :: u16) \<le> max (mp_quantity p) 1" by simp
  then have "unat (1 :: u16) \<le> width p" by (simp add: width_def word_le_nat_alt)
  then show ?thesis by simp
qed

lemma unat_point_end:
  assumes "unat (mp_address p) + width p \<le> 65535"
  shows "unat (point_end p) = unat (mp_address p) + width p - 1"
proof -
  have "unat (max (mp_quantity p) 1 - 1) = width p - 1"
    using unat_sub [of 1 "max (mp_quantity p) 1"] by (simp add: width_def)
  then show ?thesis using assms width_pos [of p] by (simp add: point_end_def unat_sat_add)
qed

lemma unat_span:
  assumes "unat e < 65535"
  shows "unat (sat_sub e start + 1 :: u16) = unat e - unat start + 1"
  using assms by (simp add: unat_word_ariths unat_sat_sub)

lemma take_run_bounds:
  assumes "take_run g m start e ps = (e', run, rest)" "\<And>p. p \<in> set ps \<Longrightarrow> ok_point m p"
    "unat e < 65535" "start \<le> e" "unat e - unat start + 1 \<le> unat m"
  shows "e \<le> e' \<and> unat e' < 65535 \<and> unat e' - unat start + 1 \<le> unat m \<and> (\<forall>p \<in> set run. point_end p \<le> e')"
  using assms
proof (induction ps arbitrary: e run)
  case Nil
  then show ?case by simp
next
  case (Cons p ps)
  show ?case
  proof (cases "mergeable g m start e p")
    case False
    then show ?thesis using Cons.prems by auto
  next
    case True
    let ?e = "max e (point_end p)"
    obtain run' where r: "take_run g m start ?e ps = (e', run', rest)" and run: "run = p # run'"
      using True Cons.prems(1) by (auto split: prod.splits)
    have "ok_point m p" using Cons.prems(2) by simp
    then have pe: "unat (point_end p) < 65535"
      using unat_point_end [of p] width_pos [of p] by (auto simp: ok_point_def)
    have "sat_sub (point_end p) start + 1 \<le> m" using True by (simp add: mergeable_def Let_def)
    then have "unat (point_end p) - unat start + 1 \<le> unat m"
      using unat_span [OF pe] by (simp add: word_le_nat_alt)
    then have "unat ?e < 65535" "start \<le> ?e" "unat ?e - unat start + 1 \<le> unat m"
      using pe Cons.prems(3-5) by (auto simp: max_def)
    from Cons.IH [OF r _ this] Cons.prems(2) show ?thesis by (auto simp: run)
  qed
qed

definition covers :: "ReadBatch \<Rightarrow> ModbusPoint \<Rightarrow> bool" where
  "covers b p \<longleftrightarrow> rb_function b = mp_function_code p \<and> rb_start_addr b \<le> mp_address p
     \<and> unat (mp_address p) - unat (rb_start_addr b) + width p \<le> unat (rb_quantity b)"

lemma batches_of_cover:
  assumes "sorted (map mp_address ps)" "\<And>p. p \<in> set ps \<Longrightarrow> ok_point m p \<and> mp_function_code p = f"
    "b \<in> set (batches_of g m ps)"
  shows "rb_points b \<noteq> [] \<and> rb_quantity b \<le> m \<and> (\<forall>p \<in> set (rb_points b). covers b p)"
  using assms
proof (induction g m ps rule: batches_of.induct)
  case (1 g m)
  then show ?case by simp
next
  case (2 g m p ps)
  obtain e run rest where r: "take_run g m (mp_address p) (point_end p) ps = (e, run, rest)" by (metis prod_cases3)
  have split: "ps = run @ rest" by (rule take_run_split [OF r])
  have okp: "ok_point m p" using 2 by simp
  then have pe: "unat (point_end p) = unat (mp_address p) + width p - 1"
    by (simp add: ok_point_def unat_point_end)
  have first: "unat (point_end p) < 65535" "mp_address p \<le> point_end p"
      "unat (point_end p) - unat (mp_address p) + 1 \<le> unat m"
    using okp pe width_pos [of p] by (auto simp: ok_point_def word_le_nat_alt)
  have run: "point_end p \<le> e \<and> unat e < 65535 \<and> unat e - unat (mp_address p) + 1 \<le> unat m \<and> (\<forall>q \<in> set run. point_end q \<le> e)"
    using take_run_bounds [OF r _ first] 2(3) by simp
  show ?case
  proof (cases "b = make_batch (mp_address p) e (p # run)")
    case True
    have q: "unat (rb_quantity b) = unat e - unat (mp_address p) + 1"
      using run by (simp add: True make_batch_def unat_span)
    have "covers b q" if "q \<in> set (p # run)" for q
    proof -
      have q': "ok_point m q" "mp_function_code q = f" "point_end q \<le> e" "mp_address p \<le> mp_address q"
        using that 2(2,3) run split by auto
      then have "unat (point_end q) = unat (mp_address q) + width q - 1" by (simp add: ok_point_def unat_point_end)
      moreover have "unat (point_end q) \<le> unat e" "unat (mp_address p) \<le> unat (mp_address q)"
        using q'(3,4) by (simp_all add: word_le_nat_alt)
      ultimately show ?thesis using q q' 2(3) width_pos [of q] by (auto simp: covers_def True make_batch_def)
    qed
    moreover have "rb_quantity b \<le> m" using q run by (simp add: word_le_nat_alt)
    ultimately show ?thesis by (simp add: True make_batch_def)
  next
    case False
    then have "b \<in> set (batches_of g m rest)" using 2(4) r by simp
    then show ?thesis using 2(1) [OF r [symmetric] refl refl] 2(2,3) split by (auto simp: sorted_append)
  qed
qed

lemma batches_of_points: "concat (map rb_points (batches_of g m ps)) = ps"
proof (induction g m ps rule: batches_of.induct)
  case (2 g m p ps)
  obtain e run rest where r: "take_run g m (mp_address p) (point_end p) ps = (e, run, rest)" by (metis prod_cases3)
  then show ?case using 2 take_run_split [OF r] by (simp add: make_batch_def)
qed simp

section \<open>All groups together\<close>

lemma mset_groups:
  "distinct ks \<Longrightarrow> mset (concat (map (\<lambda>k. filter (of_code k) ps) ks))
     = filter_mset (\<lambda>p. function_code_u8 (mp_function_code p) \<in> set ks) (mset ps)"
proof (induction ks)
  case Nil
  then show ?case by simp
next
  case (Cons k ks)
  have "filter_mset (\<lambda>p. function_code_u8 (mp_function_code p) \<in> set (k # ks)) (mset ps)
      = filter_mset (of_code k) (mset ps) + filter_mset (\<lambda>p. function_code_u8 (mp_function_code p) \<in> set ks) (mset ps)"
    using Cons.prems by (auto simp: of_code_def multiset_eq_iff)
  then show ?case using Cons by (simp add: mset_filter)
qed

lemma planned_points: "mset (concat (map rb_points (planned cfg points k))) = mset (filter (of_code k) points)"
proof -
  have "concat (map rb_points (planned cfg points k)) = sort_key mp_address (filter (of_code k) points)"
    using batches_of_points by (auto simp: planned_def Let_def simp del: batches_of.simps split: list.splits prod.splits)
  then show ?thesis by simp
qed

lemma function_code_u8_inj: "function_code_u8 f = function_code_u8 g \<longleftrightarrow> f = g"
  by (cases f; cases g) auto

lemma planned_cover:
  assumes "\<And>p. p \<in> set points \<Longrightarrow> ok_point (snd (batch_limits cfg (mp_function_code p))) p"
    and "b \<in> set (planned cfg points k)"
  shows "rb_points b \<noteq> [] \<and> rb_quantity b \<le> snd (batch_limits cfg (rb_function b))
    \<and> (\<forall>p \<in> set (rb_points b). covers b p)"
proof -
  let ?v = "sort_key mp_address (filter (of_code k) points)"
  obtain p ps where v: "?v = p # ps"
    using assms(2) by (cases ?v) (auto simp: planned_def Let_def)
  obtain g m where l: "batch_limits cfg (mp_function_code p) = (g, m)" by fastforce
  have code: "q \<in> set ?v \<Longrightarrow> mp_function_code q = mp_function_code p \<and> q \<in> set points" for q
  proof -
    assume q: "q \<in> set ?v"
    have "p \<in> set ?v" by (simp only: v list.set_intros)
    then have "of_code k p" "of_code k q" "q \<in> set points" using q by simp_all
    then show ?thesis by (auto simp: of_code_def function_code_u8_inj [symmetric])
  qed
  have "b \<in> set (batches_of g m ?v)" using assms(2) v l by (simp add: planned_def Let_def)
  moreover have "sorted (map mp_address ?v)" by simp
  moreover have "ok_point m q \<and> mp_function_code q = mp_function_code p" if "q \<in> set ?v" for q
    using assms(1) [of q] code [OF that] l by simp
  ultimately have *: "rb_points b \<noteq> [] \<and> rb_quantity b \<le> m \<and> (\<forall>p \<in> set (rb_points b). covers b p)"
    using batches_of_cover [of ?v m "mp_function_code p" b g] by blast
  then have "hd (rb_points b) \<in> set (rb_points b)" by simp
  moreover have "set (rb_points b) \<subseteq> set ?v"
    using \<open>b \<in> set (batches_of g m ?v)\<close> arg_cong [OF batches_of_points [of g m ?v], of set] by auto
  ultimately have "rb_function b = mp_function_code p"
    using * code by (metis covers_def subsetD)
  then show ?thesis using * l by simp
qed

section \<open>Batched reads and single reads\<close>

text \<open>What a device with the given registers and bits answers to a read, the request for one point alone, and
  the values of several replies.  For a batch with a function code for writing there is no request: the
  handle runs into \<open>unreachable!\<close>, and here its reply is only compared with itself.\<close>

definition device_reply ::
    "(ModbusFunctionCode \<Rightarrow> nat \<Rightarrow> u16) \<Rightarrow> (ModbusFunctionCode \<Rightarrow> nat \<Rightarrow> bool) \<Rightarrow> ReadBatch \<Rightarrow> NorthwardReadResult" where
  "device_reply regs bits b =
     (let r = [unat (rb_start_addr b)..<unat (rb_start_addr b) + unat (rb_quantity b)]
      in if rb_function b \<in> {ReadCoils, ReadDiscreteInputs} then Coils (map (bits (rb_function b)) r)
         else Registers (map (regs (rb_function b)) r))"

definition single :: "ModbusPoint \<Rightarrow> ReadBatch" where
  "single p = \<lparr>rb_function = mp_function_code p, rb_start_addr = mp_address p,
     rb_quantity = max (mp_quantity p) 1, rb_points = [p]\<rparr>"

fun all_values :: "(DriverError + 'a list) list \<Rightarrow> DriverError + 'a list" where
  "all_values [] = Inr []"
| "all_values (r # rs) = res_bind r (\<lambda>x. res_bind (all_values rs) (\<lambda>xs. Inr (x @ xs)))"

lemma subslice_map_upt:
  "j + w \<le> n \<Longrightarrow> subslice (map f [s..<s + n]) j (j + w) = map f [s + j..<s + j + w]"
  by (rule nth_equalityI) (auto simp: subslice_def add.assoc)

lemma all_values_coils: "all_values (map (\<lambda>p. Inr (f p)) ps) = Inr (concat (map f ps))"
  by (induction ps) simp_all

lemma coil_values_concat:
  "coil_values known start bits ps = concat (map (\<lambda>p. coil_values known start bits [p]) ps)"
  by (induction ps) (auto simp: Let_def split: option.splits)

lemma register_values_all:
  "register_values known bo wo start words ps = all_values (map (\<lambda>p. register_values known bo wo start words [p]) ps)"
proof (induction ps)
  case (Cons p ps)
  show ?case
    by (subst register_values.simps) (simp add: Cons Let_def res_bind_def split: sum.splits)
qed simp

lemma batch_values_single:
  assumes "covers b p"
  shows "batch_values known bo wo (b\<lparr>rb_points := [p]\<rparr>) (device_reply regs bits b)
    = batch_values known bo wo (single p) (device_reply regs bits (single p))"
proof -
  define s where "s = unat (rb_start_addr b)"
  define j where "j = unat (mp_address p) - s"
  have f: "rb_function b = mp_function_code p" and a: "rb_start_addr b \<le> mp_address p"
    and q: "j + width p \<le> unat (rb_quantity b)"
    using assms by (simp_all add: covers_def s_def j_def)
  then have addr: "unat (mp_address p) = s + j" and off: "unat (sat_sub (mp_address p) (rb_start_addr b)) = j"
    by (simp_all add: s_def j_def word_le_nat_alt unat_sat_sub)
  have lt: "j < unat (rb_quantity b)" using q width_pos [of p] by simp
  have sl0: "subslice (map g [s + j..<s + j + width p]) 0 (width p) = map g [s + j..<s + j + width p]" for g :: "nat \<Rightarrow> u16"
    by (simp add: subslice_def)
  show ?thesis
    using f q lt width_pos [of p] subslice_map_upt [OF q, of "regs (mp_function_code p)" s] sl0
    by (simp add: batch_values_def device_reply_def single_def Let_def off addr s_def [symmetric] width_def [symmetric] unat_sat_sub)
qed

lemma batch_values_all:
  assumes "\<forall>p \<in> set (rb_points b). covers b p"
  shows "batch_values known bo wo b (device_reply regs bits b)
    = all_values (map (\<lambda>p. batch_values known bo wo (single p) (device_reply regs bits (single p))) (rb_points b))"
proof -
  have "batch_values known bo wo b r = all_values (map (\<lambda>p. batch_values known bo wo (b\<lparr>rb_points := [p]\<rparr>) r) (rb_points b))" for r
    using coil_values_concat [of known] register_values_all [of known bo wo]
    by (cases r) (simp_all add: batch_values_def all_values_coils [symmetric])
  also have "map (\<lambda>p. batch_values known bo wo (b\<lparr>rb_points := [p]\<rparr>) (device_reply regs bits b)) (rb_points b)
      = map (\<lambda>p. batch_values known bo wo (single p) (device_reply regs bits (single p))) (rb_points b)"
    using assms batch_values_single by simp
  finally show ?thesis .
qed

section \<open>Properties\<close>

text \<open>The keys of the hash map, each once, in some order.\<close>

definition iterates :: "u8 list \<Rightarrow> ModbusPoint list \<Rightarrow> bool" where
  "iterates ks points \<longleftrightarrow> distinct ks \<and> set ks = {k. group_points points k \<noteq> None}"

lemma iterates_codes:
  "iterates ks points \<Longrightarrow> p \<in> set points \<Longrightarrow> function_code_u8 (mp_function_code p) \<in> set ks"
  by (auto simp: iterates_def group_points_filter of_code_def filter_empty_conv)

text \<open>C19: the planner's loops end, whatever the configuration, the points and the order in which the
  hash map yields the groups, and the batches contain every point exactly once.\<close>

theorem planner_terminates_partition:
  assumes "iterates ks points"
  shows "\<exists>bs. plan_read_batches ks cfg points = Some bs \<and> mset (concat (map rb_points bs)) = mset points"
proof -
  have "mset (concat (map rb_points (concat (map (planned cfg points) ks)))) = mset (concat (map (\<lambda>k. filter (of_code k) points) ks))"
    using planned_points by (induction ks) (simp_all)
  also have "\<dots> = mset points"
    using assms iterates_codes [OF assms] by (simp add: mset_groups iterates_def filter_mset_eq_conv)
  finally show ?thesis
    by (cases "points = []") (simp_all add: plan_read_batches_def plan_groups_planned)
qed

text \<open>C18: reading in batches is reading point by point.  When every point ends below the last
  address and is not longer than the limit of its function, every batch keeps the limit, and the
  values cut from the device's replies to the batches are those of separate requests for the points of the
  batch.\<close>

theorem batched_read_equivalent:
  assumes "\<forall>p \<in> set points. ok_point (snd (batch_limits cfg (mp_function_code p))) p"
    and "plan_read_batches ks cfg points = Some bs" "b \<in> set bs"
  shows "rb_quantity b \<le> snd (batch_limits cfg (rb_function b)) \<and>
    batch_values known bo wo b (device_reply regs bits b)
      = all_values (map (\<lambda>p. batch_values known bo wo (single p) (device_reply regs bits (single p))) (rb_points b))"
proof -
  obtain k where "b \<in> set (planned cfg points k)"
    using assms(2,3) by (auto simp: plan_read_batches_def plan_groups_planned split: if_splits)
  then have "rb_quantity b \<le> snd (batch_limits cfg (rb_function b))" "\<forall>p \<in> set (rb_points b). covers b p"
    using planned_cover assms(1) by blast+
  then show ?thesis using batch_values_all by blast
qed

section \<open>Concrete plans\<close>

definition register_point :: "u16 \<Rightarrow> u16 \<Rightarrow> ModbusPoint" where
  "register_point a q = \<lparr>mp_id = 1, mp_device_id = 1, mp_name = ''n'', mp_key = ''k'', mp_type = Telemetry,
     mp_data_type = T_UInt16, mp_access_mode = AM_Read, mp_unit = None, mp_min_value = None, mp_max_value = None,
     mp_transform = \<lparr>transform_data_type = None, transform_scale = None, transform_offset = None, transform_negate = False\<rparr>,
     mp_function_code = ReadHoldingRegisters, mp_address = a, mp_quantity = q\<rparr>"

definition some_limits :: "u16 \<Rightarrow> ModbusPlannerConfig" where
  "some_limits gap = \<lparr>max_gap_registers = gap, max_batch_registers = 125, max_gap_bits = gap, max_batch_bits = 2000\<rparr>"

lemma register_point_simps [simp]:
  "mp_address (register_point a q) = a" "mp_quantity (register_point a q) = q"
  "mp_function_code (register_point a q) = ReadHoldingRegisters"
  by (simp_all add: register_point_def)

lemma iterates_registers: "iterates [3] [register_point a q, register_point b r]"
  by (auto simp: iterates_def group_points_filter of_code_def)

theorem planner_terminates_partition_witness:
  "\<exists>bs. plan_read_batches [3] (some_limits 4) [register_point 13 1, register_point 10 2] = Some bs
     \<and> mset (concat (map rb_points bs)) = {#register_point 13 1, register_point 10 2#}"
  using planner_terminates_partition [OF iterates_registers] by simp

lemma plan_two:
  "plan_read_batches [3] (some_limits 4) [register_point 13 1, register_point 10 2] =
     Some [make_batch 10 13 [register_point 10 2, register_point 13 1]]"
  by (simp add: plan_read_batches_def plan_groups_planned planned_def of_code_def some_limits_def
      batch_limits_def mergeable_def point_end_def sat_add_def sat_sub_def del: plan_groups.simps)

theorem batched_read_equivalent_witness:
  "rb_quantity (make_batch 10 13 [register_point 10 2, register_point 13 1]) \<le> 125
   \<and> batch_values (\<lambda>_. True) BigEndian BigEndian (make_batch 10 13 [register_point 10 2, register_point 13 1])
       (device_reply (\<lambda>_. of_nat) (\<lambda>_ _. False) (make_batch 10 13 [register_point 10 2, register_point 13 1]))
     = all_values (map (\<lambda>p. batch_values (\<lambda>_. True) BigEndian BigEndian (single p)
         (device_reply (\<lambda>_. of_nat) (\<lambda>_ _. False) (single p))) [register_point 10 2, register_point 13 1])"
proof -
  let ?b = "make_batch 10 13 [register_point 10 2, register_point 13 1]"
  have "\<forall>p \<in> set [register_point 13 1, register_point 10 2]. ok_point (snd (batch_limits (some_limits 4) (mp_function_code p))) p"
    by (simp add: ok_point_def width_def register_point_def some_limits_def batch_limits_def)
  note * = batched_read_equivalent [OF this plan_two, of ?b "\<lambda>_. True" BigEndian BigEndian "\<lambda>_. of_nat" "\<lambda>_ _. False"]
  have "snd (batch_limits (some_limits 4) (rb_function ?b)) = 125" "rb_points ?b = [register_point 10 2, register_point 13 1]"
    by (simp_all add: make_batch_def register_point_def some_limits_def batch_limits_def)
  with * show ?thesis by (simp only: list.set insert_iff simp_thms)
qed

text \<open>The span of a batch is computed in 16 bits.  With a gap limit that admits it, points at the first
  and the last address are merged into one batch of 65536 registers, whose quantity is 0.\<close>

theorem planner_span_wraps:
  "plan_read_batches [3] (some_limits 65535) [register_point 0 1, register_point 65535 1] =
     Some [\<lparr>rb_function = ReadHoldingRegisters, rb_start_addr = 0, rb_quantity = 0,
            rb_points = [register_point 0 1, register_point 65535 1]\<rparr>]"
  by (simp add: plan_read_batches_def plan_groups_planned planned_def of_code_def some_limits_def
      batch_limits_def mergeable_def point_end_def sat_add_def sat_sub_def make_batch_def del: plan_groups.simps)

end
