(* ===== verification/Mc_Device.thy ===== *)
theory Mc_Device
  imports Sdk_Text
begin

text \<open>
  The vocabulary of the Mitsubishi MC driver (\<open>mc/src/protocol\<close>): frame variants and PLC series
  with their request limits (\<open>types.rs\<close>), soft devices (\<open>frame/device.rs\<close>), textual addresses
  (\<open>frame/addr.rs\<close>) and command codes (\<open>frame/command.rs\<close>).

  The lemmas show that no device symbol shadows another when an address is read back, so that
  every address has a text that parses to it, and that device and command codes are unambiguous.
\<close>

section \<open>Frame variants and series\<close>

datatype McFrameVariant =
    Frame1EBinary | Frame3EBinary | Frame4EBinary | Frame3EAscii | Frame4EAscii

primrec sub_header :: "McFrameVariant \<Rightarrow> u16" where
  "sub_header Frame3EBinary = 0x0050"
| "sub_header Frame3EAscii = 0x0050"
| "sub_header Frame4EBinary = 0x0054"
| "sub_header Frame4EAscii = 0x0054"
| "sub_header Frame1EBinary = 0x0000"

text \<open>The constructor \<open>Series_A\<close> is the source's \<open>A\<close>.\<close>

datatype McSeries = Series_A | QnA | QL | IQR

primrec uses_1e :: "McSeries \<Rightarrow> bool" where
  "uses_1e Series_A = True"
| "uses_1e QnA = False"
| "uses_1e QL = False"
| "uses_1e IQR = False"

primrec frame_variant :: "McSeries \<Rightarrow> McFrameVariant" where
  "frame_variant Series_A = Frame1EBinary"
| "frame_variant QnA = Frame3EBinary"
| "frame_variant QL = Frame3EBinary"
| "frame_variant IQR = Frame3EBinary"

primrec device_batch_in_word_points_max :: "McSeries \<Rightarrow> u16" where
  "device_batch_in_word_points_max Series_A = 10"
| "device_batch_in_word_points_max QnA = 480"
| "device_batch_in_word_points_max QL = 960"
| "device_batch_in_word_points_max IQR = 960"

primrec device_random_read_in_word_points_max :: "McSeries \<Rightarrow> u16" where
  "device_random_read_in_word_points_max Series_A = 0"
| "device_random_read_in_word_points_max QnA = 96"
| "device_random_read_in_word_points_max QL = 192"
| "device_random_read_in_word_points_max IQR = 96"

primrec device_random_write_in_word_points_max :: "McSeries \<Rightarrow> u16" where
  "device_random_write_in_word_points_max Series_A = 10"
| "device_random_write_in_word_points_max QnA = 960"
| "device_random_write_in_word_points_max QL = 1920"
| "device_random_write_in_word_points_max IQR = 960"

primrec device_random_write_in_bit_points_max :: "McSeries \<Rightarrow> u16" where
  "device_random_write_in_bit_points_max Series_A = 80"
| "device_random_write_in_bit_points_max QnA = 94"
| "device_random_write_in_bit_points_max QL = 188"
| "device_random_write_in_bit_points_max IQR = 94"

section \<open>Soft devices\<close>

text \<open>A device constructor is its name in the source behind \<open>Dev_\<close>.\<close>

datatype McNotation = Dec | Hex

datatype (plugins only: code) McDeviceType =
    Dev_SM | Dev_SD | Dev_X | Dev_Y | Dev_M | Dev_L | Dev_F | Dev_V
  | Dev_B | Dev_D | Dev_W | Dev_TS | Dev_TC | Dev_TN | Dev_LTS | Dev_LTC
  | Dev_LTN | Dev_STS | Dev_STC | Dev_STN | Dev_LSTS | Dev_LSTC | Dev_LSTN | Dev_CS
  | Dev_CC | Dev_CN | Dev_LCS | Dev_LCC | Dev_LCN | Dev_SB | Dev_SW | Dev_DX
  | Dev_DY | Dev_Z | Dev_LZ | Dev_R | Dev_ZR | Dev_RD

text \<open>The discriminant \<open>device as u8\<close>.\<close>

primrec device_index :: "McDeviceType \<Rightarrow> nat" where
  "device_index Dev_SM = 0"
| "device_index Dev_SD = 1"
| "device_index Dev_X = 2"
| "device_index Dev_Y = 3"
| "device_index Dev_M = 4"
| "device_index Dev_L = 5"
| "device_index Dev_F = 6"
| "device_index Dev_V = 7"
| "device_index Dev_B = 8"
| "device_index Dev_D = 9"
| "device_index Dev_W = 10"
| "device_index Dev_TS = 11"
| "device_index Dev_TC = 12"
| "device_index Dev_TN = 13"
| "device_index Dev_LTS = 14"
| "device_index Dev_LTC = 15"
| "device_index Dev_LTN = 16"
| "device_index Dev_STS = 17"
| "device_index Dev_STC = 18"
| "device_index Dev_STN = 19"
| "device_index Dev_LSTS = 20"
| "device_index Dev_LSTC = 21"
| "device_index Dev_LSTN = 22"
| "device_index Dev_CS = 23"
| "device_index Dev_CC = 24"
| "device_index Dev_CN = 25"
| "device_index Dev_LCS = 26"
| "device_index Dev_LCC = 27"
| "device_index Dev_LCN = 28"
| "device_index Dev_SB = 29"
| "device_index Dev_SW = 30"
| "device_index Dev_DX = 31"
| "device_index Dev_DY = 32"
| "device_index Dev_Z = 33"
| "device_index Dev_LZ = 34"
| "device_index Dev_R = 35"
| "device_index Dev_ZR = 36"
| "device_index Dev_RD = 37"

primrec dev_is_bit :: "McDeviceType \<Rightarrow> bool" where
  "dev_is_bit Dev_SM = True"
| "dev_is_bit Dev_SD = False"
| "dev_is_bit Dev_X = True"
| "dev_is_bit Dev_Y = True"
| "dev_is_bit Dev_M = True"
| "dev_is_bit Dev_L = True"
| "dev_is_bit Dev_F = True"
| "dev_is_bit Dev_V = True"
| "dev_is_bit Dev_B = True"
| "dev_is_bit Dev_D = False"
| "dev_is_bit Dev_W = False"
| "dev_is_bit Dev_TS = True"
| "dev_is_bit Dev_TC = True"
| "dev_is_bit Dev_TN = False"
| "dev_is_bit Dev_LTS = True"
| "dev_is_bit Dev_LTC = True"
| "dev_is_bit Dev_LTN = False"
| "dev_is_bit Dev_STS = True"
| "dev_is_bit Dev_STC = True"
| "dev_is_bit Dev_STN = False"
| "dev_is_bit Dev_LSTS = True"
| "dev_is_bit Dev_LSTC = True"
| "dev_is_bit Dev_LSTN = False"
| "dev_is_bit Dev_CS = True"
| "dev_is_bit Dev_CC = True"
| "dev_is_bit Dev_CN = False"
| "dev_is_bit Dev_LCS = True"
| "dev_is_bit Dev_LCC = True"
| "dev_is_bit Dev_LCN = False"
| "dev_is_bit Dev_SB = True"
| "dev_is_bit Dev_SW = False"
| "dev_is_bit Dev_DX = True"
| "dev_is_bit Dev_DY = True"
| "dev_is_bit Dev_Z = False"
| "dev_is_bit Dev_LZ = False"
| "dev_is_bit Dev_R = False"
| "dev_is_bit Dev_ZR = False"
| "dev_is_bit Dev_RD = False"

primrec dev_is_word :: "McDeviceType \<Rightarrow> bool" where
  "dev_is_word Dev_SM = False"
| "dev_is_word Dev_SD = True"
| "dev_is_word Dev_X = False"
| "dev_is_word Dev_Y = False"
| "dev_is_word Dev_M = False"
| "dev_is_word Dev_L = False"
| "dev_is_word Dev_F = False"
| "dev_is_word Dev_V = False"
| "dev_is_word Dev_B = False"
| "dev_is_word Dev_D = True"
| "dev_is_word Dev_W = True"
| "dev_is_word Dev_TS = False"
| "dev_is_word Dev_TC = False"
| "dev_is_word Dev_TN = True"
| "dev_is_word Dev_LTS = False"
| "dev_is_word Dev_LTC = False"
| "dev_is_word Dev_LTN = False"
| "dev_is_word Dev_STS = False"
| "dev_is_word Dev_STC = False"
| "dev_is_word Dev_STN = True"
| "dev_is_word Dev_LSTS = False"
| "dev_is_word Dev_LSTC = False"
| "dev_is_word Dev_LSTN = False"
| "dev_is_word Dev_CS = False"
| "dev_is_word Dev_CC = False"
| "dev_is_word Dev_CN = True"
| "dev_is_word Dev_LCS = False"
| "dev_is_word Dev_LCC = False"
| "dev_is_word Dev_LCN = False"
| "dev_is_word Dev_SB = False"
| "dev_is_word Dev_SW = True"
| "dev_is_word Dev_DX = False"
| "dev_is_word Dev_DY = False"
| "dev_is_word Dev_Z = True"
| "dev_is_word Dev_LZ = False"
| "dev_is_word Dev_R = True"
| "dev_is_word Dev_ZR = True"
| "dev_is_word Dev_RD = True"

primrec dev_is_dword :: "McDeviceType \<Rightarrow> bool" where
  "dev_is_dword Dev_SM = False"
| "dev_is_dword Dev_SD = False"
| "dev_is_dword Dev_X = False"
| "dev_is_dword Dev_Y = False"
| "dev_is_dword Dev_M = False"
| "dev_is_dword Dev_L = False"
| "dev_is_dword Dev_F = False"
| "dev_is_dword Dev_V = False"
| "dev_is_dword Dev_B = False"
| "dev_is_dword Dev_D = False"
| "dev_is_dword Dev_W = False"
| "dev_is_dword Dev_TS = False"
| "dev_is_dword Dev_TC = False"
| "dev_is_dword Dev_TN = False"
| "dev_is_dword Dev_LTS = False"
| "dev_is_dword Dev_LTC = False"
| "dev_is_dword Dev_LTN = True"
| "dev_is_dword Dev_STS = False"
| "dev_is_dword Dev_STC = False"
| "dev_is_dword Dev_STN = False"
| "dev_is_dword Dev_LSTS = False"
| "dev_is_dword Dev_LSTC = False"
| "dev_is_dword Dev_LSTN = True"
| "dev_is_dword Dev_CS = False"
| "dev_is_dword Dev_CC = False"
| "dev_is_dword Dev_CN = False"
| "dev_is_dword Dev_LCS = False"
| "dev_is_dword Dev_LCC = False"
| "dev_is_dword Dev_LCN = True"
| "dev_is_dword Dev_SB = False"
| "dev_is_dword Dev_SW = False"
| "dev_is_dword Dev_DX = False"
| "dev_is_dword Dev_DY = False"
| "dev_is_dword Dev_Z = False"
| "dev_is_dword Dev_LZ = True"
| "dev_is_dword Dev_R = False"
| "dev_is_dword Dev_ZR = False"
| "dev_is_dword Dev_RD = False"

primrec dev_notation :: "McDeviceType \<Rightarrow> McNotation" where
  "dev_notation Dev_SM = Dec"
| "dev_notation Dev_SD = Dec"
| "dev_notation Dev_X = Hex"
| "dev_notation Dev_Y = Hex"
| "dev_notation Dev_M = Dec"
| "dev_notation Dev_L = Dec"
| "dev_notation Dev_F = Dec"
| "dev_notation Dev_V = Dec"
| "dev_notation Dev_B = Hex"
| "dev_notation Dev_D = Dec"
| "dev_notation Dev_W = Hex"
| "dev_notation Dev_TS = Dec"
| "dev_notation Dev_TC = Dec"
| "dev_notation Dev_TN = Dec"
| "dev_notation Dev_LTS = Dec"
| "dev_notation Dev_LTC = Dec"
| "dev_notation Dev_LTN = Dec"
| "dev_notation Dev_STS = Dec"
| "dev_notation Dev_STC = Dec"
| "dev_notation Dev_STN = Dec"
| "dev_notation Dev_LSTS = Dec"
| "dev_notation Dev_LSTC = Dec"
| "dev_notation Dev_LSTN = Dec"
| "dev_notation Dev_CS = Dec"
| "dev_notation Dev_CC = Dec"
| "dev_notation Dev_CN = Dec"
| "dev_notation Dev_LCS = Dec"
| "dev_notation Dev_LCC = Dec"
| "dev_notation Dev_LCN = Dec"
| "dev_notation Dev_SB = Hex"
| "dev_notation Dev_SW = Hex"
| "dev_notation Dev_DX = Hex"
| "dev_notation Dev_DY = Hex"
| "dev_notation Dev_Z = Dec"
| "dev_notation Dev_LZ = Dec"
| "dev_notation Dev_R = Dec"
| "dev_notation Dev_ZR = Hex"
| "dev_notation Dev_RD = Dec"

primrec symbol :: "McDeviceType \<Rightarrow> string" where
  "symbol Dev_SM = ''SM''"
| "symbol Dev_SD = ''SD''"
| "symbol Dev_X = ''X''"
| "symbol Dev_Y = ''Y''"
| "symbol Dev_M = ''M''"
| "symbol Dev_L = ''L''"
| "symbol Dev_F = ''F''"
| "symbol Dev_V = ''V''"
| "symbol Dev_B = ''B''"
| "symbol Dev_D = ''D''"
| "symbol Dev_W = ''W''"
| "symbol Dev_TS = ''TS''"
| "symbol Dev_TC = ''TC''"
| "symbol Dev_TN = ''TN''"
| "symbol Dev_LTS = ''LTS''"
| "symbol Dev_LTC = ''LTC''"
| "symbol Dev_LTN = ''LTN''"
| "symbol Dev_STS = ''STS''"
| "symbol Dev_STC = ''STC''"
| "symbol Dev_STN = ''STN''"
| "symbol Dev_LSTS = ''LSTS''"
| "symbol Dev_LSTC = ''LSTC''"
| "symbol Dev_LSTN = ''LSTN''"
| "symbol Dev_CS = ''CS''"
| "symbol Dev_CC = ''CC''"
| "symbol Dev_CN = ''CN''"
| "symbol Dev_LCS = ''LCS''"
| "symbol Dev_LCC = ''LCC''"
| "symbol Dev_LCN = ''LCN''"
| "symbol Dev_SB = ''SB''"
| "symbol Dev_SW = ''SW''"
| "symbol Dev_DX = ''DX''"
| "symbol Dev_DY = ''DY''"
| "symbol Dev_Z = ''Z''"
| "symbol Dev_LZ = ''LZ''"
| "symbol Dev_R = ''R''"
| "symbol Dev_ZR = ''ZR''"
| "symbol Dev_RD = ''RD''"

definition ordered_devices :: "McDeviceType list" where
  "ordered_devices =
     [Dev_LSTS, Dev_LSTC, Dev_LSTN, Dev_LCS, Dev_LCC, Dev_LCN, Dev_LTS, Dev_LTC,
      Dev_LTN, Dev_STS, Dev_STC, Dev_STN, Dev_TS, Dev_TC, Dev_TN, Dev_CS,
      Dev_CC, Dev_CN, Dev_SM, Dev_SD, Dev_SB, Dev_SW, Dev_DX, Dev_DY,
      Dev_ZR, Dev_RD, Dev_LZ, Dev_Z, Dev_R, Dev_D, Dev_X, Dev_Y,
      Dev_M, Dev_L, Dev_F, Dev_V, Dev_B, Dev_W]"

text \<open>\<open>to_uppercase\<close> is Unicode's.  The symbols compared with its result are ASCII, so only the letters
  whose uppercase starts with ASCII letters matter: the ASCII letters and the sequences listed here
  (sharp s, dotless i, long s, j with caron, the letters with marks below or above, and the
  ligatures).  Every other letter is left as it is; its uppercase is not ASCII either.\<close>

definition upper_special :: "(nat list \<times> string) list" where
  "upper_special =
     [([0xC3, 0x9F], ''SS''), ([0xC4, 0xB1], ''I''), ([0xC5, 0xBF], ''S''), ([0xC7, 0xB0], ''J''),
      ([0xE1, 0xBA, 0x96], ''H''), ([0xE1, 0xBA, 0x97], ''T''), ([0xE1, 0xBA, 0x98], ''W''),
      ([0xE1, 0xBA, 0x99], ''Y''), ([0xE1, 0xBA, 0x9A], ''A''), ([0xEF, 0xAC, 0x80], ''FF''),
      ([0xEF, 0xAC, 0x81], ''FI''), ([0xEF, 0xAC, 0x82], ''FL''), ([0xEF, 0xAC, 0x83], ''FFI''),
      ([0xEF, 0xAC, 0x84], ''FFL''), ([0xEF, 0xAC, 0x85], ''ST''), ([0xEF, 0xAC, 0x86], ''ST'')]"

definition upper_ascii :: "char \<Rightarrow> char" where
  "upper_ascii c = (let n = (of_char c :: nat) in if 97 \<le> n \<and> n \<le> 122 then char_of (n - 32) else c)"

definition upper_special_at :: "string \<Rightarrow> (nat list \<times> string) option" where
  "upper_special_at s = find (\<lambda>(p, u). map of_char (take (length p) s) = p) upper_special"

function to_uppercase :: "string \<Rightarrow> string" where
  "to_uppercase s =
     (case s of
        [] \<Rightarrow> []
      | c # r \<Rightarrow>
          (case upper_special_at s of
             Some (p, u) \<Rightarrow> u @ to_uppercase (drop (length p - 1) r)
           | None \<Rightarrow> upper_ascii c # to_uppercase r))"
  by pat_completeness auto
termination
  by (relation "measure length") auto

declare to_uppercase.simps [simp del]

text \<open>A byte index is a character boundary unless it is inside the string and the byte there
  continues a character; slicing at any other index panics.\<close>

definition is_char_boundary :: "string \<Rightarrow> nat \<Rightarrow> bool" where
  "is_char_boundary s i \<longleftrightarrow>
     i = length s \<or> i < length s \<and> \<not> (0x80 \<le> (of_char (s ! i) :: nat) \<and> (of_char (s ! i) :: nat) < 0xC0)"

text \<open>The outer \<open>None\<close> is the panic of the slice.\<close>

definition identify_by_prefix :: "string \<Rightarrow> (McDeviceType \<times> string) option option" where
  "identify_by_prefix addr =
     (let upper = to_uppercase (trim addr)
      in case find (\<lambda>dev. take (length (symbol dev)) upper = symbol dev) ordered_devices of
           None \<Rightarrow> Some None
         | Some dev \<Rightarrow>
             if is_char_boundary addr (length (symbol dev))
             then Some (Some (dev, drop (length (symbol dev)) addr)) else None)"

definition unit_size :: "McDeviceType \<Rightarrow> nat" where
  "unit_size d = (if dev_is_dword d then 4 else if dev_is_word d then 2 else 1)"

primrec device_code_1e :: "McDeviceType \<Rightarrow> u16 option" where
  "device_code_1e Dev_SM = None"
| "device_code_1e Dev_SD = None"
| "device_code_1e Dev_X = Some 0x5820"
| "device_code_1e Dev_Y = Some 0x5920"
| "device_code_1e Dev_M = Some 0x4D20"
| "device_code_1e Dev_L = Some 0x4C20"
| "device_code_1e Dev_F = Some 0x4620"
| "device_code_1e Dev_V = None"
| "device_code_1e Dev_B = Some 0x4220"
| "device_code_1e Dev_D = Some 0x4420"
| "device_code_1e Dev_W = Some 0x5720"
| "device_code_1e Dev_TS = Some 0x5453"
| "device_code_1e Dev_TC = Some 0x5443"
| "device_code_1e Dev_TN = Some 0x544E"
| "device_code_1e Dev_LTS = None"
| "device_code_1e Dev_LTC = None"
| "device_code_1e Dev_LTN = None"
| "device_code_1e Dev_STS = None"
| "device_code_1e Dev_STC = None"
| "device_code_1e Dev_STN = None"
| "device_code_1e Dev_LSTS = None"
| "device_code_1e Dev_LSTC = None"
| "device_code_1e Dev_LSTN = None"
| "device_code_1e Dev_CS = Some 0x4353"
| "device_code_1e Dev_CC = Some 0x4343"
| "device_code_1e Dev_CN = Some 0x434E"
| "device_code_1e Dev_LCS = None"
| "device_code_1e Dev_LCC = None"
| "device_code_1e Dev_LCN = None"
| "device_code_1e Dev_SB = None"
| "device_code_1e Dev_SW = None"
| "device_code_1e Dev_DX = None"
| "device_code_1e Dev_DY = None"
| "device_code_1e Dev_Z = None"
| "device_code_1e Dev_LZ = None"
| "device_code_1e Dev_R = Some 0x5220"
| "device_code_1e Dev_ZR = None"
| "device_code_1e Dev_RD = None"

primrec device_code_3e :: "McDeviceType \<Rightarrow> u16 option" where
  "device_code_3e Dev_SM = Some 0x0091"
| "device_code_3e Dev_SD = Some 0x00A9"
| "device_code_3e Dev_X = Some 0x009C"
| "device_code_3e Dev_Y = Some 0x009D"
| "device_code_3e Dev_M = Some 0x0090"
| "device_code_3e Dev_L = Some 0x0092"
| "device_code_3e Dev_F = Some 0x0093"
| "device_code_3e Dev_V = Some 0x0094"
| "device_code_3e Dev_B = Some 0x00A0"
| "device_code_3e Dev_D = Some 0x00A8"
| "device_code_3e Dev_W = Some 0x00B4"
| "device_code_3e Dev_TS = Some 0x00C1"
| "device_code_3e Dev_TC = Some 0x00C0"
| "device_code_3e Dev_TN = Some 0x00C2"
| "device_code_3e Dev_LTS = Some 0x0051"
| "device_code_3e Dev_LTC = Some 0x0050"
| "device_code_3e Dev_LTN = Some 0x0052"
| "device_code_3e Dev_STS = Some 0x00C7"
| "device_code_3e Dev_STC = Some 0x00C6"
| "device_code_3e Dev_STN = Some 0x00C8"
| "device_code_3e Dev_LSTS = Some 0x0059"
| "device_code_3e Dev_LSTC = Some 0x0058"
| "device_code_3e Dev_LSTN = Some 0x005A"
| "device_code_3e Dev_CS = Some 0x00C4"
| "device_code_3e Dev_CC = Some 0x00C3"
| "device_code_3e Dev_CN = Some 0x00C5"
| "device_code_3e Dev_LCS = Some 0x0055"
| "device_code_3e Dev_LCC = Some 0x0054"
| "device_code_3e Dev_LCN = Some 0x0056"
| "device_code_3e Dev_SB = Some 0x00A1"
| "device_code_3e Dev_SW = Some 0x00B5"
| "device_code_3e Dev_DX = Some 0x00A2"
| "device_code_3e Dev_DY = Some 0x00A3"
| "device_code_3e Dev_Z = Some 0x00CC"
| "device_code_3e Dev_LZ = Some 0x0062"
| "device_code_3e Dev_R = Some 0x00AF"
| "device_code_3e Dev_ZR = Some 0x00B0"
| "device_code_3e Dev_RD = Some 0x002C"

primrec is_forbidden_batch_word_read :: "McDeviceType \<Rightarrow> bool" where
  "is_forbidden_batch_word_read Dev_SM = False"
| "is_forbidden_batch_word_read Dev_SD = False"
| "is_forbidden_batch_word_read Dev_X = False"
| "is_forbidden_batch_word_read Dev_Y = False"
| "is_forbidden_batch_word_read Dev_M = False"
| "is_forbidden_batch_word_read Dev_L = False"
| "is_forbidden_batch_word_read Dev_F = False"
| "is_forbidden_batch_word_read Dev_V = False"
| "is_forbidden_batch_word_read Dev_B = False"
| "is_forbidden_batch_word_read Dev_D = False"
| "is_forbidden_batch_word_read Dev_W = False"
| "is_forbidden_batch_word_read Dev_TS = False"
| "is_forbidden_batch_word_read Dev_TC = False"
| "is_forbidden_batch_word_read Dev_TN = False"
| "is_forbidden_batch_word_read Dev_LTS = True"
| "is_forbidden_batch_word_read Dev_LTC = True"
| "is_forbidden_batch_word_read Dev_LTN = False"
| "is_forbidden_batch_word_read Dev_STS = False"
| "is_forbidden_batch_word_read Dev_STC = False"
| "is_forbidden_batch_word_read Dev_STN = False"
| "is_forbidden_batch_word_read Dev_LSTS = True"
| "is_forbidden_batch_word_read Dev_LSTC = True"
| "is_forbidden_batch_word_read Dev_LSTN = False"
| "is_forbidden_batch_word_read Dev_CS = False"
| "is_forbidden_batch_word_read Dev_CC = False"
| "is_forbidden_batch_word_read Dev_CN = False"
| "is_forbidden_batch_word_read Dev_LCS = False"
| "is_forbidden_batch_word_read Dev_LCC = False"
| "is_forbidden_batch_word_read Dev_LCN = False"
| "is_forbidden_batch_word_read Dev_SB = False"
| "is_forbidden_batch_word_read Dev_SW = False"
| "is_forbidden_batch_word_read Dev_DX = False"
| "is_forbidden_batch_word_read Dev_DY = False"
| "is_forbidden_batch_word_read Dev_Z = False"
| "is_forbidden_batch_word_read Dev_LZ = True"
| "is_forbidden_batch_word_read Dev_R = False"
| "is_forbidden_batch_word_read Dev_ZR = False"
| "is_forbidden_batch_word_read Dev_RD = False"

primrec is_forbidden_batch_word_write :: "McDeviceType \<Rightarrow> bool" where
  "is_forbidden_batch_word_write Dev_SM = False"
| "is_forbidden_batch_word_write Dev_SD = False"
| "is_forbidden_batch_word_write Dev_X = False"
| "is_forbidden_batch_word_write Dev_Y = False"
| "is_forbidden_batch_word_write Dev_M = False"
| "is_forbidden_batch_word_write Dev_L = False"
| "is_forbidden_batch_word_write Dev_F = False"
| "is_forbidden_batch_word_write Dev_V = False"
| "is_forbidden_batch_word_write Dev_B = False"
| "is_forbidden_batch_word_write Dev_D = False"
| "is_forbidden_batch_word_write Dev_W = False"
| "is_forbidden_batch_word_write Dev_TS = False"
| "is_forbidden_batch_word_write Dev_TC = False"
| "is_forbidden_batch_word_write Dev_TN = False"
| "is_forbidden_batch_word_write Dev_LTS = True"
| "is_forbidden_batch_word_write Dev_LTC = True"
| "is_forbidden_batch_word_write Dev_LTN = True"
| "is_forbidden_batch_word_write Dev_STS = False"
| "is_forbidden_batch_word_write Dev_STC = False"
| "is_forbidden_batch_word_write Dev_STN = False"
| "is_forbidden_batch_word_write Dev_LSTS = True"
| "is_forbidden_batch_word_write Dev_LSTC = True"
| "is_forbidden_batch_word_write Dev_LSTN = True"
| "is_forbidden_batch_word_write Dev_CS = False"
| "is_forbidden_batch_word_write Dev_CC = False"
| "is_forbidden_batch_word_write Dev_CN = False"
| "is_forbidden_batch_word_write Dev_LCS = False"
| "is_forbidden_batch_word_write Dev_LCC = False"
| "is_forbidden_batch_word_write Dev_LCN = False"
| "is_forbidden_batch_word_write Dev_SB = False"
| "is_forbidden_batch_word_write Dev_SW = False"
| "is_forbidden_batch_word_write Dev_DX = False"
| "is_forbidden_batch_word_write Dev_DY = False"
| "is_forbidden_batch_word_write Dev_Z = False"
| "is_forbidden_batch_word_write Dev_LZ = True"
| "is_forbidden_batch_word_write Dev_R = False"
| "is_forbidden_batch_word_write Dev_ZR = False"
| "is_forbidden_batch_word_write Dev_RD = False"

section \<open>Textual addresses\<close>

record McLogicalAddress =
  addr_device :: McDeviceType
  addr_head :: u32
  addr_bit :: "u8 option"

text \<open>\<open>from_str_radix\<close> and \<open>parse\<close> of the unsigned integer types.\<close>

definition uint_from_str_radix :: "nat \<Rightarrow> string \<Rightarrow> 'a::len word option" where
  "uint_from_str_radix radix s =
     (case parse_nat radix (case s of CHR ''+'' # r \<Rightarrow> r | _ \<Rightarrow> s) of
        None \<Rightarrow> None
      | Some n \<Rightarrow> if n < 2 ^ LENGTH('a) then Some (of_nat n) else None)"

definition split_once :: "char \<Rightarrow> string \<Rightarrow> (string \<times> string) option" where
  "split_once c s =
     (case dropWhile (\<lambda>d. d \<noteq> c) s of [] \<Rightarrow> None | _ # r \<Rightarrow> Some (takeWhile (\<lambda>d. d \<noteq> c) s, r))"

definition notation_radix :: "McNotation \<Rightarrow> nat" where
  "notation_radix n = (case n of Dec \<Rightarrow> 10 | Hex \<Rightarrow> 16)"

text \<open>\<open>None\<close> is the panic of the slice inside \<open>identify_by_prefix\<close>.\<close>

definition mc_address_parse :: "string \<Rightarrow> (string + McLogicalAddress) option" where
  "mc_address_parse raw =
     (let trimmed = trim raw
      in if trimmed = [] then Some (Inl ''address is empty'')
         else case identify_by_prefix trimmed of
           None \<Rightarrow> None
         | Some None \<Rightarrow> Some (Inl (''unknown MC device prefix in address: '' @ trimmed))
         | Some (Some (device, rest)) \<Rightarrow>
             let (num_part, bit_part) =
                   (case split_once (CHR ''.'') rest of
                      Some (n, b) \<Rightarrow> (trim n, Some (trim b))
                    | None \<Rightarrow> (trim rest, None))
             in if num_part = [] then Some (Inl (''missing head device number in address: '' @ trimmed))
                else case uint_from_str_radix (notation_radix (dev_notation device)) num_part of
                  None \<Rightarrow> Some (Inl (''invalid head number '' @ num_part))
                | Some head \<Rightarrow>
                    (case bit_part of
                       None \<Rightarrow> Some (Inr \<lparr>addr_device = device, addr_head = head, addr_bit = None\<rparr>)
                     | Some bit_str \<Rightarrow>
                         if bit_str = [] then Some (Inl (''empty bit index in address: '' @ trimmed))
                         else case uint_from_str_radix 10 bit_str of
                           None \<Rightarrow> Some (Inl (''invalid bit index '' @ bit_str))
                         | Some v \<Rightarrow>
                             Some (Inr \<lparr>addr_device = device, addr_head = head, addr_bit = Some v\<rparr>)))"

section \<open>Commands\<close>

datatype (plugins only: code) McCommandKind =
    DeviceAccessBatchReadBit1E | DeviceAccessBatchReadWord1E | DeviceAccessBatchWriteBit1E
  | DeviceAccessBatchWriteWord1E | DeviceAccessRandomWriteBit1E | DeviceAccessRandomWriteWord1E
  | DeviceAccessBatchReadUnits | DeviceAccessBatchWriteUnits | DeviceAccessRandomReadUnits
  | DeviceAccessRandomWriteUnits | DeviceAccessBatchReadMultipleBlocks | DeviceAccessBatchWriteMultipleBlocks
  | LabelAccessBatchReadArray | LabelAccessBatchWriteArray | LabelAccessRandomReadLabels
  | LabelAccessRandomWriteLabels | BufferMemoryBatchRead | BufferMemoryBatchWrite
  | BufferMemoryIFModuleBatchRead | BufferMemoryIFModuleBatchWrite | ModuleControlRemoteRun
  | ModuleControlRemoteStop | ModuleControlRemotePause | ModuleControlRemoteLatchClear
  | ModuleControlRemoteReset | ModuleControlReadCpuModelName | ModuleControlPasswordUnlock
  | ModuleControlPasswordLock | ModuleControlLoopbackTest | ModuleControlClearErrorInformation

datatype McCommandCode = Code1E u8 | Code3E4E u16

primrec to_code :: "McCommandKind \<Rightarrow> McCommandCode" where
  "to_code DeviceAccessBatchReadBit1E = Code1E 0x00"
| "to_code DeviceAccessBatchReadWord1E = Code1E 0x01"
| "to_code DeviceAccessBatchWriteBit1E = Code1E 0x02"
| "to_code DeviceAccessBatchWriteWord1E = Code1E 0x03"
| "to_code DeviceAccessRandomWriteBit1E = Code1E 0x04"
| "to_code DeviceAccessRandomWriteWord1E = Code1E 0x05"
| "to_code DeviceAccessBatchReadUnits = Code3E4E 0x0401"
| "to_code DeviceAccessBatchWriteUnits = Code3E4E 0x1401"
| "to_code DeviceAccessRandomReadUnits = Code3E4E 0x0403"
| "to_code DeviceAccessRandomWriteUnits = Code3E4E 0x1402"
| "to_code DeviceAccessBatchReadMultipleBlocks = Code3E4E 0x0406"
| "to_code DeviceAccessBatchWriteMultipleBlocks = Code3E4E 0x1406"
| "to_code LabelAccessBatchReadArray = Code3E4E 0x041A"
| "to_code LabelAccessBatchWriteArray = Code3E4E 0x141A"
| "to_code LabelAccessRandomReadLabels = Code3E4E 0x041C"
| "to_code LabelAccessRandomWriteLabels = Code3E4E 0x141B"
| "to_code BufferMemoryBatchRead = Code3E4E 0x0613"
| "to_code BufferMemoryBatchWrite = Code3E4E 0x1613"
| "to_code BufferMemoryIFModuleBatchRead = Code3E4E 0x0601"
| "to_code BufferMemoryIFModuleBatchWrite = Code3E4E 0x1601"
| "to_code ModuleControlRemoteRun = Code3E4E 0x1001"
| "to_code ModuleControlRemoteStop = Code3E4E 0x1002"
| "to_code ModuleControlRemotePause = Code3E4E 0x1003"
| "to_code ModuleControlRemoteLatchClear = Code3E4E 0x1005"
| "to_code ModuleControlRemoteReset = Code3E4E 0x1006"
| "to_code ModuleControlReadCpuModelName = Code3E4E 0x0101"
| "to_code ModuleControlPasswordUnlock = Code3E4E 0x1630"
| "to_code ModuleControlPasswordLock = Code3E4E 0x1631"
| "to_code ModuleControlLoopbackTest = Code3E4E 0x0619"
| "to_code ModuleControlClearErrorInformation = Code3E4E 0x1617"

definition from_code :: "McCommandCode \<Rightarrow> McCommandKind option" where
  "from_code code =
     (case code of
        Code1E c \<Rightarrow>
          map_of [
            (0x00, DeviceAccessBatchReadBit1E),
            (0x01, DeviceAccessBatchReadWord1E),
            (0x02, DeviceAccessBatchWriteBit1E),
            (0x03, DeviceAccessBatchWriteWord1E),
            (0x04, DeviceAccessRandomWriteBit1E),
            (0x05, DeviceAccessRandomWriteWord1E)] c
      | Code3E4E c \<Rightarrow>
          map_of [
            (0x0401, DeviceAccessBatchReadUnits),
            (0x1401, DeviceAccessBatchWriteUnits),
            (0x0403, DeviceAccessRandomReadUnits),
            (0x1402, DeviceAccessRandomWriteUnits),
            (0x0406, DeviceAccessBatchReadMultipleBlocks),
            (0x1406, DeviceAccessBatchWriteMultipleBlocks),
            (0x041A, LabelAccessBatchReadArray),
            (0x141A, LabelAccessBatchWriteArray),
            (0x041C, LabelAccessRandomReadLabels),
            (0x141B, LabelAccessRandomWriteLabels),
            (0x0613, BufferMemoryBatchRead),
            (0x1613, BufferMemoryBatchWrite),
            (0x0601, BufferMemoryIFModuleBatchRead),
            (0x1601, BufferMemoryIFModuleBatchWrite),
            (0x1001, ModuleControlRemoteRun),
            (0x1002, ModuleControlRemoteStop),
            (0x1003, ModuleControlRemotePause),
            (0x1005, ModuleControlRemoteLatchClear),
            (0x1006, ModuleControlRemoteReset),
            (0x0101, ModuleControlReadCpuModelName),
            (0x1630, ModuleControlPasswordUnlock),
            (0x1631, ModuleControlPasswordLock),
            (0x0619, ModuleControlLoopbackTest),
            (0x1617, ModuleControlClearErrorInformation)] c)"

definition default_subcommand :: "McCommandKind \<Rightarrow> McSeries \<Rightarrow> u16" where
  "default_subcommand kind series =
     (case series of
        IQR \<Rightarrow>
          (if kind \<in> {DeviceAccessBatchReadUnits, DeviceAccessBatchWriteUnits,
                      DeviceAccessRandomReadUnits, DeviceAccessRandomWriteUnits} then 0x0002 else 0x0000)
      | _ \<Rightarrow> 0x0000)"

section \<open>Lemmas\<close>

lemma command_code_roundtrip: "from_code (to_code kind) = Some kind"
  by (cases kind) (simp_all add: from_code_def)

lemma find_device_index: "find (\<lambda>e. device_index e = device_index d) ordered_devices = Some d"
  by (cases d) (simp_all add: ordered_devices_def)

lemma find_device_code: "find (\<lambda>e. device_code_3e e = device_code_3e d) ordered_devices = Some d"
  by (cases d) (simp_all add: ordered_devices_def)

lemma device_index_inj: "device_index d = device_index e \<longleftrightarrow> d = e"
  by (metis find_device_index option.inject)

lemma device_code_3e_inj: "device_code_3e d = device_code_3e e \<longleftrightarrow> d = e"
  by (metis find_device_code option.inject)

text \<open>Every device is addressed in exactly one unit.\<close>

lemma device_unit:
  "dev_is_bit d \<longleftrightarrow> unit_size d = 1" "dev_is_word d \<longleftrightarrow> unit_size d = 2" "dev_is_dword d \<longleftrightarrow> unit_size d = 4"
  by (cases d; simp add: unit_size_def)+

text \<open>The canonical text of an address.\<close>

definition hex_char :: "nat \<Rightarrow> char" where
  "hex_char d = (if d < 10 then char_of (48 + d) else char_of (55 + d))"

fun hex_of :: "nat \<Rightarrow> string" where
  "hex_of n = (if n < 16 then [hex_char n] else hex_of (n div 16) @ [hex_char (n mod 16)])"

declare hex_of.simps [simp del]

definition mc_head_text :: "McDeviceType \<Rightarrow> u32 \<Rightarrow> string" where
  "mc_head_text d w = (case dev_notation d of Dec \<Rightarrow> digits_of (unat w) | Hex \<Rightarrow> hex_of (unat w))"

definition mc_address_text :: "McLogicalAddress \<Rightarrow> string" where
  "mc_address_text a =
     symbol (addr_device a)
     @ mc_head_text (addr_device a) (addr_head a)
     @ (case addr_bit a of None \<Rightarrow> [] | Some b \<Rightarrow> ''.'' @ digits_of (unat b))"

definition is_hex_char :: "char \<Rightarrow> bool" where
  "is_hex_char c \<longleftrightarrow> (let n = (of_char c :: nat) in 48 \<le> n \<and> n \<le> 57 \<or> 65 \<le> n \<and> n \<le> 70)"

lemma hex_char_ok: "d < 16 \<Longrightarrow> is_hex_char (hex_char d) \<and> to_digit 16 (hex_char d) = Some d"
  by (auto simp: hex_char_def is_hex_char_def to_digit_def Let_def)

lemma hex_of_spec: "list_all is_hex_char (hex_of n) \<and> digits_val 16 0 (hex_of n) = Some n \<and> hex_of n \<noteq> []"
proof (induction n rule: hex_of.induct)
  case (1 n)
  show ?case
    using 1 hex_char_ok [of n] hex_char_ok [of "n mod 16"]
    by (subst (1 2 3) hex_of.simps) (auto simp: digits_val_append)
qed

definition is_dec_char :: "char \<Rightarrow> bool" where
  "is_dec_char c \<longleftrightarrow> (let n = (of_char c :: nat) in 48 \<le> n \<and> n \<le> 57)"

lemma digits_of_dec: "list_all is_dec_char (digits_of n)"
proof (induction n rule: digits_of.induct)
  case (1 n)
  have "is_dec_char (char_of (48 + k))" if "k < 10" for k :: nat
    using that by (simp add: is_dec_char_def)
  with 1 show ?case
    by (subst digits_of.simps) auto
qed

definition upper_safe :: "char \<Rightarrow> bool" where
  "upper_safe c \<longleftrightarrow> (let n = (of_char c :: nat) in 33 \<le> n \<and> n \<le> 90)"

lemma upper_special_none: "upper_safe c \<Longrightarrow> upper_special_at (c # r) = None"
  by (auto simp: upper_special_at_def find_None_iff upper_special_def upper_safe_def Let_def)

lemma to_uppercase_safe: "list_all upper_safe s \<Longrightarrow> to_uppercase s = s"
proof (induction s)
  case Nil
  then show ?case by (simp add: to_uppercase.simps)
next
  case (Cons c r)
  then show ?case
    by (subst to_uppercase.simps) (simp add: upper_special_none upper_ascii_def upper_safe_def Let_def)
qed


lemma dec_char_neq:
  assumes "is_dec_char c"
  shows "c \<noteq> CHR ''X''" "c \<noteq> CHR ''Y''" "c \<noteq> CHR ''S''" "c \<noteq> CHR ''C''" "c \<noteq> CHR ''T''"
    "c \<noteq> CHR ''Z''" "c \<noteq> CHR ''R''" "c \<noteq> CHR ''D''" "c \<noteq> CHR ''+''" "c \<noteq> CHR ''.''"
  using assms by (auto simp: is_dec_char_def Let_def)

lemma hex_char_neq: "is_hex_char c \<Longrightarrow> c \<noteq> CHR ''+''" "is_hex_char c \<Longrightarrow> c \<noteq> CHR ''.''"
  by (auto simp: is_hex_char_def Let_def)

lemma dec_is_hex: "is_dec_char c \<Longrightarrow> is_hex_char c"
  by (auto simp: is_dec_char_def is_hex_char_def Let_def)

lemma hex_upper_safe: "is_hex_char c \<Longrightarrow> upper_safe c"
  by (auto simp: is_hex_char_def upper_safe_def Let_def)

lemma upper_safe_visible: "upper_safe c \<Longrightarrow> visible c"
  by (auto simp: upper_safe_def visible_def Let_def)

lemma trim_upper_safe: "list_all upper_safe s \<Longrightarrow> trim s = s"
  by (rule trim_id) (auto simp: list_all_iff upper_safe_visible)

lemma symbol_safe: "list_all upper_safe (symbol d)"
  by (cases d) (simp_all add: upper_safe_def)

text \<open>No symbol that is tried earlier matches the text of another device's address.\<close>

lemma find_symbol:
  assumes "dev_notation d = Dec \<Longrightarrow> is_dec_char c"
  shows "find (\<lambda>dev. take (length (symbol dev)) (symbol d @ c # t) = symbol dev) ordered_devices = Some d"
  using assms dec_char_neq [of c] by (cases d) (simp_all add: ordered_devices_def)

lemma identify_symbol:
  assumes "list_all upper_safe (c # t)" "dev_notation d = Dec \<Longrightarrow> is_dec_char c"
  shows "identify_by_prefix (symbol d @ c # t) = Some (Some (d, c # t))"
proof -
  have "list_all upper_safe (symbol d @ c # t)" using assms(1) symbol_safe by simp
  moreover have "is_char_boundary (symbol d @ c # t) (length (symbol d))"
    using assms(1) by (simp add: is_char_boundary_def upper_safe_def Let_def)
  ultimately show ?thesis
    using find_symbol [where t = t, OF assms(2)]
    by (simp add: identify_by_prefix_def trim_upper_safe to_uppercase_safe)
qed

lemma uint_from_str_radix_val:
  assumes "digits_val r 0 s = Some (unat (w :: 'a::len word))" "s \<noteq> []" "hd s \<noteq> CHR ''+''"
  shows "uint_from_str_radix r s = Some w"
proof -
  have "(case s of CHR ''+'' # q \<Rightarrow> q | _ \<Rightarrow> s) = s" using assms(2,3) by (cases s) (auto split: list.splits char.splits bool.splits)
  then show ?thesis using assms unsigned_less [of w] by (simp add: uint_from_str_radix_def parse_nat_def)
qed

lemma takeWhile_dot:
  "list_all is_hex_char n \<Longrightarrow> takeWhile (\<lambda>d. d \<noteq> CHR ''.'') n = n"
  "list_all is_hex_char n \<Longrightarrow> dropWhile (\<lambda>d. d \<noteq> CHR ''.'') n = []"
  by (induction n) (auto dest: hex_char_neq)

lemma split_once_dot:
  assumes "list_all is_hex_char n"
  shows "split_once (CHR ''.'') n = None" "split_once (CHR ''.'') (n @ ''.'' @ b) = Some (n, b)"
proof -
  have "takeWhile (\<lambda>d. d \<noteq> CHR ''.'') (n @ ''.'' @ b) = n" "dropWhile (\<lambda>d. d \<noteq> CHR ''.'') (n @ ''.'' @ b) = ''.'' @ b"
    using assms by (induction n) (auto dest: hex_char_neq)
  then show "split_once (CHR ''.'') (n @ ''.'' @ b) = Some (n, b)" by (simp add: split_once_def)
  show "split_once (CHR ''.'') n = None" using assms by (simp add: split_once_def takeWhile_dot)
qed

lemma head_text:
  fixes w :: u32 and d n
  defines "n \<equiv> mc_head_text d w"
  shows "list_all is_hex_char n" "n \<noteq> []" "dev_notation d = Dec \<Longrightarrow> is_dec_char (hd n)"
    "uint_from_str_radix (notation_radix (dev_notation d)) n = Some w"
proof -
  have dec: "list_all is_dec_char (digits_of (unat w))" "digits_of (unat w) \<noteq> []"
    using digits_of_dec digits_of_first [of "unat w"] by auto
  then have hd: "is_dec_char (hd (digits_of (unat w)))" by (cases "digits_of (unat w)") auto
  show n: "list_all is_hex_char n" "n \<noteq> []"
    using dec hex_of_spec [of "unat w"] by (auto simp: n_def mc_head_text_def list_all_iff dec_is_hex split: McNotation.splits)
  show "dev_notation d = Dec \<Longrightarrow> is_dec_char (hd n)" using hd by (simp add: n_def mc_head_text_def)
  have "hd n \<noteq> CHR ''+''" using n by (cases n) (auto dest: hex_char_neq)
  moreover have "digits_val (notation_radix (dev_notation d)) 0 n = Some (unat w)"
    using hex_of_spec [of "unat w"] digits_val_digits_of [of "unat w"]
    by (cases "dev_notation d") (simp_all add: n_def mc_head_text_def notation_radix_def)
  ultimately show "uint_from_str_radix (notation_radix (dev_notation d)) n = Some w"
    using n(2) by (intro uint_from_str_radix_val)
qed


lemma bit_text:
  fixes b :: u8
  shows "list_all is_hex_char (digits_of (unat b))" "digits_of (unat b) \<noteq> []"
    "uint_from_str_radix 10 (digits_of (unat b)) = Some b"
proof -
  obtain c t where ct: "digits_of (unat b) = c # t" using digits_of_first [of "unat b"] by auto
  have dec: "list_all is_dec_char (digits_of (unat b))" by (rule digits_of_dec)
  then show "list_all is_hex_char (digits_of (unat b))" by (auto simp: list_all_iff dec_is_hex)
  show ne: "digits_of (unat b) \<noteq> []" using ct by simp
  show "uint_from_str_radix 10 (digits_of (unat b)) = Some b"
    using dec ct dec_char_neq(9) [of c] by (intro uint_from_str_radix_val digits_val_digits_of ne) auto
qed

lemma hex_list_safe: "list_all is_hex_char s \<Longrightarrow> list_all upper_safe s"
  by (auto simp: list_all_iff hex_upper_safe)

text \<open>Every address of every device has a text that parses back to it: no symbol shadows
  another, hexadecimal heads are not mistaken for symbols, and the bit index survives.\<close>

theorem mc_address_roundtrip: "mc_address_parse (mc_address_text a) = Some (Inr a)"
proof -
  let ?d = "addr_device a" and ?n = "mc_head_text (addr_device a) (addr_head a)"
  define b where "b = (case addr_bit a of None \<Rightarrow> [] | Some b \<Rightarrow> ''.'' @ digits_of (unat b))"
  obtain c t where ct: "?n = c # t" using head_text(2) [of ?d "addr_head a"] by (cases ?n) auto
  have n: "list_all is_hex_char ?n" "dev_notation ?d = Dec \<Longrightarrow> is_dec_char c"
    using head_text [of ?d "addr_head a"] ct by auto
  have b: "list_all upper_safe b"
    using bit_text hex_list_safe by (auto simp: b_def upper_safe_def split: option.splits)
  have safe: "list_all upper_safe (c # t @ b)" using hex_list_safe [OF n(1)] b ct by simp
  have tx: "mc_address_text a = symbol ?d @ c # t @ b" by (simp add: mc_address_text_def b_def ct)
  have trim: "trim (mc_address_text a) = mc_address_text a"
    unfolding tx by (rule trim_upper_safe) (use safe symbol_safe in simp)
  have id: "identify_by_prefix (mc_address_text a) = Some (Some (?d, ?n @ b))"
    using identify_symbol [OF safe n(2)] tx ct by simp
  have nt: "trim ?n = ?n" by (rule trim_upper_safe) (rule hex_list_safe [OF n(1)])
  show ?thesis
  proof (cases "addr_bit a")
    case None
    then show ?thesis
      using tx trim id nt split_once_dot(1) [OF n(1)] head_text [of ?d "addr_head a"]
      by (simp add: mc_address_parse_def b_def)
  next
    case (Some v)
    have "trim (digits_of (unat v)) = digits_of (unat v)"
      by (rule trim_upper_safe) (rule hex_list_safe [OF bit_text(1)])
    then show ?thesis
      using Some tx trim id nt split_once_dot(2) [OF n(1), of "digits_of (unat v)"]
        head_text [of ?d "addr_head a"] bit_text [of v]
      by (simp add: mc_address_parse_def b_def)
  qed
qed

definition ligature_address :: string where
  "ligature_address = [CHR 0xEF, CHR 0xAC, CHR 0x80, CHR ''1'']"

lemma white_space_first:
  "p \<in> set white_space \<Longrightarrow> (of_char (hd p) :: nat) \<noteq> 0xEF \<and> (of_char (last p) :: nat) \<noteq> 49"
  by (auto simp: white_space_def)

lemma lig_trim: "trim ligature_address = ligature_address"
proof -
  have "strip_any white_space ligature_address = ligature_address"
    by (rule strip_any_id) (auto simp: ligature_address_def dest: white_space_first)
  moreover have "strip_any (map rev white_space) (rev ligature_address) = rev ligature_address"
    by (rule strip_any_id) (auto simp: ligature_address_def hd_rev dest: white_space_first)
  ultimately show ?thesis by (simp add: trim_def trim_start_def trim_end_def)
qed

lemma lig_upper: "to_uppercase ligature_address = ''FF1''"
  by (simp add: ligature_address_def to_uppercase.simps upper_special_at_def upper_special_def upper_ascii_def)

text \<open>A ligature in the configured address panics the parser: the uppercase text starts with the
  symbol \<open>F\<close>, and the slice behind one byte cuts the ligature.\<close>

theorem mc_address_parse_panics: "mc_address_parse ligature_address = None"
proof -
  have "identify_by_prefix ligature_address = None"
    by (simp add: identify_by_prefix_def lig_trim lig_upper ordered_devices_def) (simp add: is_char_boundary_def ligature_address_def)
  then show ?thesis by (simp add: mc_address_parse_def lig_trim) (simp add: ligature_address_def)
qed

end
