(* ===== verification/Mc_Frame.thy ===== *)
theory Mc_Frame
  imports Framing Mc_Device
begin

text \<open>
  MC frames (\<open>mc/src/protocol\<close>): access routes (\<open>frame/route.rs\<close>), request and acknowledge headers
  (\<open>frame/header.rs\<close>), request bodies (\<open>frame/pdu.rs\<close>), the message builders (\<open>frame/builder.rs\<close>)
  and the stream codec (\<open>codec.rs\<close>).

  The lemmas show that the decoders of 3E and 4E acknowledgements keep the stream-decoder
  contract, so a PLC's acknowledgements arrive unchanged however the transport cuts them, that an
  encoded request announces its own length and no two requests share their bytes, and what the
  encoder loses.
\<close>

section \<open>Routes and headers\<close>

record McRoute1E =
  r1_pc_number :: u8

definition default_1e :: McRoute1E where
  "default_1e = \<lparr>r1_pc_number = 0xFF\<rparr>"

record McRoute3E4E =
  network_number :: u8
  pc_number :: u8
  module_io_number :: u16
  station_number :: u8

definition route_default :: McRoute3E4E where
  "route_default = \<lparr>network_number = 0x00, pc_number = 0xFF, module_io_number = 0x03FF, station_number = 0x00\<rparr>"

record McHeader1EReq =
  q1_monitoring_timer :: u16
  q1_sub_header :: u8
  q1_route :: McRoute1E

record McHeader3EReq =
  q3_monitoring_timer :: u16
  q3_sub_header :: u16
  q3_route :: McRoute3E4E
  q3_data_length :: u16

record McHeader4EReq =
  q4_monitoring_timer :: u16
  q4_sub_header :: u16
  q4_serial_number :: u16
  q4_fixed_number :: u16
  q4_route :: McRoute3E4E
  q4_data_length :: u16

record McHeader1EAck =
  k1_frame_variant :: McFrameVariant
  k1_sub_header :: u8
  k1_end_code :: u8

record McHeader3EAck =
  k3_frame_variant :: McFrameVariant
  k3_sub_header :: u16
  k3_route :: McRoute3E4E
  k3_data_length :: u16
  k3_end_code :: u16

record McHeader4EAck =
  k4_frame_variant :: McFrameVariant
  k4_sub_header :: u16
  k4_serial_number :: u16
  k4_fixed_number :: u16
  k4_route :: McRoute3E4E
  k4_data_length :: u16
  k4_end_code :: u16

datatype McHeader =
    Req1E McHeader1EReq
  | Req3E McHeader3EReq
  | Req4E McHeader4EReq
  | Ack1E McHeader1EAck
  | Ack3E McHeader3EAck
  | Ack4E McHeader4EAck

section \<open>Protocol data units\<close>

text \<open>The arguments of a batch request are head, points, device code and, when writing, the data; an
  address of a random request is a head and a device code.\<close>

datatype McRequestBody =
    BatchReadUnits u32 u16 u16
  | BatchWriteUnits u32 u16 u16 bytes
  | RandomReadUnits "(u32 \<times> u16) list" "(u32 \<times> u16) list"
  | RandomWriteUnits "(u32 \<times> u16 \<times> bytes) list" "(u32 \<times> u16 \<times> bytes) list"
  | RawRequest bytes
  | UnsupportedRequest

datatype McResponseBody =
    BatchReadAck bytes
  | BatchWriteAck u16
  | RawResponse bytes
  | UnsupportedResponse

datatype McBody = Request McRequestBody | Response McResponseBody

record McPdu =
  pdu_series :: McSeries
  pdu_command :: McCommandKind
  pdu_body :: McBody

definition device_addr_len :: "McSeries \<Rightarrow> nat" where
  "device_addr_len series = (case series of QnA \<Rightarrow> 3 + 1 | QL \<Rightarrow> 3 + 1 | IQR \<Rightarrow> 4 + 2 | Series_A \<Rightarrow> 4 + 2)"

definition encode_device_addr_without_points :: "McSeries \<Rightarrow> u32 \<Rightarrow> u16 \<Rightarrow> bytes" where
  "encode_device_addr_without_points series head device_code =
     (if series \<in> {QnA, QL} then take 3 (u32_to_le head) @ [ucast device_code]
      else u32_to_le head @ u16_to_le device_code)"

definition put_command :: "McPdu \<Rightarrow> bytes" where
  "put_command p =
     (case to_code (pdu_command p) of Code3E4E code \<Rightarrow> u16_to_le code | Code1E _ \<Rightarrow> [])
     @ u16_to_le (default_subcommand (pdu_command p) (pdu_series p))"

text \<open>The count of a random request is capped at \<open>u8::MAX\<close>, and so are the entries written.\<close>

definition u8_count :: "'a list \<Rightarrow> nat" where
  "u8_count xs = min (length xs) 255"

definition pdu_encode_to_bytes :: "McPdu \<Rightarrow> bytes" where
  "pdu_encode_to_bytes p =
     (let addr = encode_device_addr_without_points (pdu_series p)
      in case pdu_body p of
           Request (BatchReadUnits head points device_code) \<Rightarrow>
             put_command p @ u32_to_le head @ u16_to_le points @ u16_to_le device_code
         | Request (BatchWriteUnits head points device_code data) \<Rightarrow>
             put_command p @ u32_to_le head @ u16_to_le points @ u16_to_le device_code @ data
         | Request (RandomReadUnits word_addrs dword_addrs) \<Rightarrow>
             put_command p @ [of_nat (u8_count word_addrs), of_nat (u8_count dword_addrs)]
             @ concat (map (\<lambda>(head, code). addr head code) (take (u8_count word_addrs) word_addrs))
             @ concat (map (\<lambda>(head, code). addr head code) (take (u8_count dword_addrs) dword_addrs))
         | Request (RandomWriteUnits word_items dword_items) \<Rightarrow>
             put_command p @ [of_nat (u8_count word_items), of_nat (u8_count dword_items)]
             @ concat (map (\<lambda>(head, code, data). addr head code @ data) (take (u8_count word_items) word_items))
             @ concat (map (\<lambda>(head, code, data). addr head code @ data) (take (u8_count dword_items) dword_items))
         | Request (RawRequest payload) \<Rightarrow> payload
         | Request UnsupportedRequest \<Rightarrow> []
         | Response _ \<Rightarrow> [])"

definition pdu_decode_from_bytes :: "McCommandKind \<Rightarrow> bytes \<Rightarrow> McPdu" where
  "pdu_decode_from_bytes kind payload =
     \<lparr>pdu_series = QnA, pdu_command = kind,
      pdu_body =
        Response
          (if kind = DeviceAccessBatchReadUnits then BatchReadAck payload
           else if kind = DeviceAccessBatchWriteUnits then BatchWriteAck 0
           else RawResponse payload)\<rparr>"

datatype McAppBody = Raw bytes | Parsed McPdu

record McMessage =
  msg_header :: McHeader
  msg_body :: "McAppBody option"

section \<open>Message builders\<close>

definition build_3e_req_header :: "McFrameVariant \<Rightarrow> u32 \<Rightarrow> McHeader3EReq" where
  "build_3e_req_header variant monitoring_timeout_ms =
     \<lparr>q3_monitoring_timer = ucast (min (max (monitoring_timeout_ms div 250) 1) 0xFFFF),
      q3_sub_header = sub_header variant, q3_route = route_default, q3_data_length = 0\<rparr>"

definition build_message :: "McSeries \<Rightarrow> McFrameVariant \<Rightarrow> u32 \<Rightarrow> McCommandKind \<Rightarrow> McRequestBody \<Rightarrow> McMessage" where
  "build_message series variant monitoring_timeout_ms kind body =
     \<lparr>msg_header = Req3E (build_3e_req_header variant monitoring_timeout_ms),
      msg_body = Some (Parsed \<lparr>pdu_series = series, pdu_command = kind, pdu_body = Request body\<rparr>)\<rparr>"

definition build_device_batch_read_message ::
  "McSeries \<Rightarrow> McFrameVariant \<Rightarrow> u32 \<Rightarrow> u32 \<Rightarrow> u16 \<Rightarrow> u16 \<Rightarrow> McMessage" where
  "build_device_batch_read_message series variant timeout head points device_code =
     build_message series variant timeout DeviceAccessBatchReadUnits (BatchReadUnits head points device_code)"

definition build_device_batch_write_message ::
  "McSeries \<Rightarrow> McFrameVariant \<Rightarrow> u32 \<Rightarrow> u32 \<Rightarrow> u16 \<Rightarrow> u16 \<Rightarrow> bytes \<Rightarrow> McMessage" where
  "build_device_batch_write_message series variant timeout head points device_code data =
     build_message series variant timeout DeviceAccessBatchWriteUnits (BatchWriteUnits head points device_code data)"

definition build_device_random_read_message ::
  "McSeries \<Rightarrow> McFrameVariant \<Rightarrow> u32 \<Rightarrow> (u32 \<times> u16) list \<Rightarrow> (u32 \<times> u16) list \<Rightarrow> McMessage" where
  "build_device_random_read_message series variant timeout word_addrs dword_addrs =
     build_message series variant timeout DeviceAccessRandomReadUnits (RandomReadUnits word_addrs dword_addrs)"

definition build_device_random_write_message ::
  "McSeries \<Rightarrow> McFrameVariant \<Rightarrow> u32 \<Rightarrow> (u32 \<times> u16 \<times> bytes) list \<Rightarrow> (u32 \<times> u16 \<times> bytes) list \<Rightarrow> McMessage" where
  "build_device_random_write_message series variant timeout word_items dword_items =
     build_message series variant timeout DeviceAccessRandomWriteUnits (RandomWriteUnits word_items dword_items)"

section \<open>The stream codec\<close>

datatype McCodecError = BufferTooShort nat nat | UnsupportedVariant McFrameVariant

definition put_route_3e4e :: "McRoute3E4E \<Rightarrow> bytes" where
  "put_route_3e4e r =
     [network_number r, pc_number r] @ u16_to_le (module_io_number r) @ [station_number r]"

text \<open>Reading beyond the five bytes would panic; the callers pass five.\<close>

definition parse_route_3e4e :: "bytes \<Rightarrow> McRoute3E4E" where
  "parse_route_3e4e b =
     \<lparr>network_number = b ! 0, pc_number = b ! 1, module_io_number = u16_of (b ! 3) (b ! 2), station_number = b ! 4\<rparr>"

definition encode_header_1e_req :: "McHeader1EReq \<Rightarrow> bytes" where
  "encode_header_1e_req h = [q1_sub_header h, r1_pc_number (q1_route h)] @ u16_to_le (q1_monitoring_timer h)"

definition encode_header_3e_req :: "McHeader3EReq \<Rightarrow> bytes" where
  "encode_header_3e_req h =
     u16_to_le (q3_sub_header h) @ put_route_3e4e (q3_route h) @ u16_to_le (q3_data_length h)
     @ u16_to_le (q3_monitoring_timer h)"

definition encode_header_4e_req :: "McHeader4EReq \<Rightarrow> bytes" where
  "encode_header_4e_req h =
     u16_to_le (q4_sub_header h) @ u16_to_le (q4_serial_number h) @ u16_to_le (q4_fixed_number h)
     @ put_route_3e4e (q4_route h) @ u16_to_le (q4_data_length h) @ u16_to_le (q4_monitoring_timer h)"

definition decode_header_1e_ack :: "bytes \<Rightarrow> McFrameVariant \<Rightarrow> McCodecError + McHeader1EAck" where
  "decode_header_1e_ack buf variant =
     (if variant \<noteq> Frame1EBinary then Inl (UnsupportedVariant variant)
      else if length buf < 2 then Inl (BufferTooShort 2 (length buf))
      else Inr \<lparr>k1_frame_variant = variant, k1_sub_header = buf ! 0, k1_end_code = buf ! 1\<rparr>)"

definition decode_header_3e_ack :: "bytes \<Rightarrow> McFrameVariant \<Rightarrow> McCodecError + McHeader3EAck" where
  "decode_header_3e_ack buf variant =
     (if variant \<noteq> Frame3EBinary then Inl (UnsupportedVariant variant)
      else if length buf < 2 + 5 + 2 + 2 then Inl (BufferTooShort (2 + 5 + 2 + 2) (length buf))
      else Inr
        \<lparr>k3_frame_variant = variant, k3_sub_header = u16_of (buf ! 1) (buf ! 0),
         k3_route = parse_route_3e4e (subslice buf 2 7), k3_data_length = u16_of (buf ! 8) (buf ! 7),
         k3_end_code = u16_of (buf ! 10) (buf ! 9)\<rparr>)"

definition decode_header_4e_ack :: "bytes \<Rightarrow> McFrameVariant \<Rightarrow> McCodecError + McHeader4EAck" where
  "decode_header_4e_ack buf variant =
     (if variant \<noteq> Frame4EBinary then Inl (UnsupportedVariant variant)
      else if length buf < 2 + 2 + 2 + 5 + 2 + 2 then Inl (BufferTooShort (2 + 2 + 2 + 5 + 2 + 2) (length buf))
      else Inr
        \<lparr>k4_frame_variant = variant, k4_sub_header = u16_of (buf ! 1) (buf ! 0),
         k4_serial_number = u16_of (buf ! 3) (buf ! 2), k4_fixed_number = u16_of (buf ! 5) (buf ! 4),
         k4_route = parse_route_3e4e (subslice buf 6 11), k4_data_length = u16_of (buf ! 12) (buf ! 11),
         k4_end_code = u16_of (buf ! 14) (buf ! 13)\<rparr>)"

definition codec_error_text :: "McCodecError \<Rightarrow> string" where
  "codec_error_text e =
     (case e of
        BufferTooShort _ _ \<Rightarrow> ''buffer too short for MC header''
      | UnsupportedVariant _ \<Rightarrow> ''unsupported MC frame variant'')"

definition decode_3e_ack :: "bytes \<Rightarrow> (string, McMessage) decode_result" where
  "decode_3e_ack src =
     (if length src < 11 then (Inr None, src)
      else case decode_header_3e_ack (take 11 src) Frame3EBinary of
        Inl e \<Rightarrow> (Inl (codec_error_text e), src)
      | Inr header \<Rightarrow>
          let frame_len = 9 + unat (k3_data_length header)
          in if length src < frame_len then (Inr None, src)
             else (Inr (Some \<lparr>msg_header = Ack3E header, msg_body = Some (Raw (subslice src 11 frame_len))\<rparr>),
                   drop frame_len src))"

definition decode_4e_ack :: "bytes \<Rightarrow> (string, McMessage) decode_result" where
  "decode_4e_ack src =
     (if length src < 15 then (Inr None, src)
      else case decode_header_4e_ack (take 15 src) Frame4EBinary of
        Inl e \<Rightarrow> (Inl (codec_error_text e), src)
      | Inr header \<Rightarrow>
          let frame_len = 13 + unat (k4_data_length header)
          in if length src < frame_len then (Inr None, src)
             else (Inr (Some \<lparr>msg_header = Ack4E header, msg_body = Some (Raw (subslice src 15 frame_len))\<rparr>),
                   drop frame_len src))"

definition mc_decode :: "McFrameVariant \<Rightarrow> bytes \<Rightarrow> (string, McMessage) decode_result" where
  "mc_decode variant src =
     (case variant of
        Frame3EBinary \<Rightarrow> decode_3e_ack src
      | Frame4EBinary \<Rightarrow> decode_4e_ack src
      | Frame1EBinary \<Rightarrow> (Inl ''MC 1E frame decoding is not supported by McCodec'', src)
      | _ \<Rightarrow> (Inl ''MC ASCII 3E/4E frame decoding is not supported'', src))"

text \<open>\<open>body.len().saturating_add(2).min(u16::MAX)\<close>.\<close>

definition request_data_length :: "bytes \<Rightarrow> u16" where
  "request_data_length body = of_nat (min (length body + 2) 0xFFFF)"

definition mc_encode :: "McMessage \<Rightarrow> bytes" where
  "mc_encode item =
     (case (msg_header item, msg_body item) of
        (Ack1E h, Some (Raw payload)) \<Rightarrow>
          encode_header_1e_req
            \<lparr>q1_monitoring_timer = 0, q1_sub_header = k1_sub_header h, q1_route = \<lparr>r1_pc_number = 0\<rparr>\<rparr> @ payload
      | (Ack3E h, Some (Raw payload)) \<Rightarrow>
          u16_to_le (k3_sub_header h) @ put_route_3e4e (k3_route h) @ u16_to_le (k3_data_length h)
          @ u16_to_le 0 @ payload
      | (Ack4E h, Some (Raw payload)) \<Rightarrow>
          u16_to_le (k4_sub_header h) @ u16_to_le (k4_serial_number h) @ u16_to_le (k4_fixed_number h)
          @ put_route_3e4e (k4_route h) @ u16_to_le (k4_data_length h) @ u16_to_le 0 @ payload
      | (Req3E h, Some (Parsed pdu)) \<Rightarrow>
          let body = pdu_encode_to_bytes pdu
          in encode_header_3e_req (h\<lparr>q3_data_length := request_data_length body\<rparr>) @ body
      | (Req4E h, Some (Parsed pdu)) \<Rightarrow>
          let body = pdu_encode_to_bytes pdu
          in encode_header_4e_req (h\<lparr>q4_data_length := request_data_length body\<rparr>) @ body
      | _ \<Rightarrow> [])"

section \<open>The codec keeps the stream contract\<close>

text \<open>What a PLC sends: the acknowledgement with its end code in place, and the data length counting
  the end code and the payload.\<close>

fun plc_ack_wire :: "McMessage \<Rightarrow> bytes" where
  "plc_ack_wire \<lparr>msg_header = Ack3E h, msg_body = Some (Raw payload)\<rparr> =
     u16_to_le (k3_sub_header h) @ put_route_3e4e (k3_route h) @ u16_to_le (k3_data_length h)
     @ u16_to_le (k3_end_code h) @ payload"
| "plc_ack_wire \<lparr>msg_header = Ack4E h, msg_body = Some (Raw payload)\<rparr> =
     u16_to_le (k4_sub_header h) @ u16_to_le (k4_serial_number h) @ u16_to_le (k4_fixed_number h)
     @ put_route_3e4e (k4_route h) @ u16_to_le (k4_data_length h) @ u16_to_le (k4_end_code h) @ payload"
| "plc_ack_wire _ = []"

fun wf_ack3e :: "McMessage \<Rightarrow> bool" where
  "wf_ack3e \<lparr>msg_header = Ack3E h, msg_body = Some (Raw payload)\<rparr> \<longleftrightarrow>
     k3_frame_variant h = Frame3EBinary \<and> unat (k3_data_length h) = 2 + length payload"
| "wf_ack3e _ \<longleftrightarrow> False"

fun wf_ack4e :: "McMessage \<Rightarrow> bool" where
  "wf_ack4e \<lparr>msg_header = Ack4E h, msg_body = Some (Raw payload)\<rparr> \<longleftrightarrow>
     k4_frame_variant h = Frame4EBinary \<and> unat (k4_data_length h) = 2 + length payload"
| "wf_ack4e _ \<longleftrightarrow> False"

lemma wf_ack3eE:
  assumes "wf_ack3e m"
  obtains h payload where "m = \<lparr>msg_header = Ack3E h, msg_body = Some (Raw payload)\<rparr>"
    "k3_frame_variant h = Frame3EBinary" "unat (k3_data_length h) = 2 + length payload"
  using assms by (cases m rule: wf_ack3e.cases) auto

lemma wf_ack4eE:
  assumes "wf_ack4e m"
  obtains h payload where "m = \<lparr>msg_header = Ack4E h, msg_body = Some (Raw payload)\<rparr>"
    "k4_frame_variant h = Frame4EBinary" "unat (k4_data_length h) = 2 + length payload"
  using assms by (cases m rule: wf_ack4e.cases) auto

lemma length_put_route [simp]: "length (put_route_3e4e r) = 5"
  by (simp add: put_route_3e4e_def)

lemma put_route_bytes:
  "put_route_3e4e r =
     [network_number r, pc_number r, ucast (module_io_number r), ucast (drop_bit 8 (module_io_number r)), station_number r]"
  by (simp add: put_route_3e4e_def u16_to_le_def)

lemma parse_put_route [simp]: "parse_route_3e4e (put_route_3e4e r) = r"
  by (simp add: parse_route_3e4e_def put_route_bytes)

lemma decode_3e_ack_wire:
  assumes "wf_ack3e m"
  shows "decode_3e_ack (plc_ack_wire m @ rest) = (Inr (Some m), rest)"
  using assms
proof (rule wf_ack3eE)
  fix h payload
  assume m: "m = \<lparr>msg_header = Ack3E h, msg_body = Some (Raw payload)\<rparr>"
    and v: "k3_frame_variant h = Frame3EBinary" and n: "unat (k3_data_length h) = 2 + length payload"
  have "decode_header_3e_ack (take 11 (plc_ack_wire m @ rest)) Frame3EBinary = Inr h"
    using v m by (simp add: decode_header_3e_ack_def put_route_bytes u16_to_le_def subslice_def parse_route_3e4e_def)
  then show ?thesis
    using n m by (simp add: decode_3e_ack_def subslice_def)
qed

lemma decode_4e_ack_wire:
  assumes "wf_ack4e m"
  shows "decode_4e_ack (plc_ack_wire m @ rest) = (Inr (Some m), rest)"
  using assms
proof (rule wf_ack4eE)
  fix h payload
  assume m: "m = \<lparr>msg_header = Ack4E h, msg_body = Some (Raw payload)\<rparr>"
    and v: "k4_frame_variant h = Frame4EBinary" and n: "unat (k4_data_length h) = 2 + length payload"
  have "decode_header_4e_ack (take 15 (plc_ack_wire m @ rest)) Frame4EBinary = Inr h"
    using v m by (simp add: decode_header_4e_ack_def put_route_bytes u16_to_le_def subslice_def parse_route_3e4e_def)
  then show ?thesis
    using n m by (simp add: decode_4e_ack_def subslice_def)
qed

lemma decode_3e_ack_append:
  assumes "decode_3e_ack buf = (Inr (Some m), rest)"
  shows "decode_3e_ack (buf @ extra) = (Inr (Some m), rest @ extra)"
proof -
  have "11 \<le> length buf" using assms by (auto simp: decode_3e_ack_def split: if_splits)
  then have "take 11 (buf @ extra) = take 11 buf" by simp
  then show ?thesis
    using assms by (auto simp: decode_3e_ack_def Let_def subslice_def split: if_splits sum.splits)
qed

lemma decode_4e_ack_append:
  assumes "decode_4e_ack buf = (Inr (Some m), rest)"
  shows "decode_4e_ack (buf @ extra) = (Inr (Some m), rest @ extra)"
proof -
  have "15 \<le> length buf" using assms by (auto simp: decode_4e_ack_def split: if_splits)
  then have "take 15 (buf @ extra) = take 15 buf" by simp
  then show ?thesis
    using assms by (auto simp: decode_4e_ack_def Let_def subslice_def split: if_splits sum.splits)
qed

interpretation mc3e_codec: framed_codec decode_3e_ack plc_ack_wire wf_ack3e
proof unfold_locales
  show "decode_3e_ack buf = (Inr (Some f), buf') \<Longrightarrow> length buf' < length buf" for buf f buf'
    by (auto simp: decode_3e_ack_def Let_def split: if_splits sum.splits)
  have "decode_3e_ack buf = (Inr None, buf') \<Longrightarrow> buf' = buf" for buf buf'
    by (auto simp: decode_3e_ack_def Let_def split: if_splits sum.splits)
  then show "decode_3e_ack buf = (Inr None, buf') \<Longrightarrow> decode_3e_ack (buf @ extra) = decode_3e_ack (buf' @ extra)"
    for buf buf' extra by blast
  show "decode_3e_ack buf = (Inl e, buf') \<Longrightarrow> \<exists>buf''. decode_3e_ack (buf @ extra) = (Inl e, buf'')" for buf e buf' extra
    by (auto simp: decode_3e_ack_def decode_header_3e_ack_def Let_def split: if_splits sum.splits)
qed (simp_all add: decode_3e_ack_append decode_3e_ack_wire, simp add: decode_3e_ack_def)

interpretation mc4e_codec: framed_codec decode_4e_ack plc_ack_wire wf_ack4e
proof unfold_locales
  show "decode_4e_ack buf = (Inr (Some f), buf') \<Longrightarrow> length buf' < length buf" for buf f buf'
    by (auto simp: decode_4e_ack_def Let_def split: if_splits sum.splits)
  have "decode_4e_ack buf = (Inr None, buf') \<Longrightarrow> buf' = buf" for buf buf'
    by (auto simp: decode_4e_ack_def Let_def split: if_splits sum.splits)
  then show "decode_4e_ack buf = (Inr None, buf') \<Longrightarrow> decode_4e_ack (buf @ extra) = decode_4e_ack (buf' @ extra)"
    for buf buf' extra by blast
  show "decode_4e_ack buf = (Inl e, buf') \<Longrightarrow> \<exists>buf''. decode_4e_ack (buf @ extra) = (Inl e, buf'')" for buf e buf' extra
    by (auto simp: decode_4e_ack_def decode_header_4e_ack_def Let_def split: if_splits sum.splits)
qed (simp_all add: decode_4e_ack_append decode_4e_ack_wire, simp add: decode_4e_ack_def)

section \<open>Requests on the wire\<close>

text \<open>The requests the builders can send without losing anything: a QnA, Q or L series address has
  three bytes of head and one of device code, a random request has at most 255 items of each size,
  and each item carries the bytes of its size.\<close>

definition fits_addr :: "McSeries \<Rightarrow> u32 \<Rightarrow> u16 \<Rightarrow> bool" where
  "fits_addr series head code \<longleftrightarrow> series \<in> {QnA, QL} \<longrightarrow> head < 2 ^ 24 \<and> code < 256"

definition read_item_ok :: "McSeries \<Rightarrow> u32 \<times> u16 \<Rightarrow> bool" where
  "read_item_ok s = (\<lambda>(h, c). fits_addr s h c)"

definition write_item_ok :: "McSeries \<Rightarrow> nat \<Rightarrow> u32 \<times> u16 \<times> bytes \<Rightarrow> bool" where
  "write_item_ok s k = (\<lambda>(h, c, d). fits_addr s h c \<and> length d = k)"

fun wf_request :: "McSeries \<Rightarrow> McRequestBody \<Rightarrow> bool" where
  "wf_request series (BatchReadUnits _ _ _) \<longleftrightarrow> True"
| "wf_request series (BatchWriteUnits _ _ _ _) \<longleftrightarrow> True"
| "wf_request series (RandomReadUnits ws ds) \<longleftrightarrow>
     length ws \<le> 255 \<and> length ds \<le> 255 \<and> list_all (read_item_ok series) (ws @ ds)"
| "wf_request series (RandomWriteUnits ws ds) \<longleftrightarrow>
     length ws \<le> 255 \<and> length ds \<le> 255
     \<and> list_all (write_item_ok series 2) ws
     \<and> list_all (write_item_ok series 4) ds"
| "wf_request series _ \<longleftrightarrow> False"

fun request_kind :: "McRequestBody \<Rightarrow> McCommandKind" where
  "request_kind (BatchReadUnits _ _ _) = DeviceAccessBatchReadUnits"
| "request_kind (BatchWriteUnits _ _ _ _) = DeviceAccessBatchWriteUnits"
| "request_kind (RandomReadUnits _ _) = DeviceAccessRandomReadUnits"
| "request_kind (RandomWriteUnits _ _) = DeviceAccessRandomWriteUnits"
| "request_kind _ = ModuleControlLoopbackTest"

lemma length_encode_addr [simp]: "length (encode_device_addr_without_points s h c) = device_addr_len s"
  by (cases s) (simp_all add: encode_device_addr_without_points_def device_addr_len_def)

lemma head_three_bytes:
  assumes "h < 2 ^ 24"
  shows "u32_of_le (take 3 (u32_to_le h)) = h"
proof -
  have "take_bit 24 h = h" using assms by (simp add: take_bit_eq_mask less_mask_eq)
  then have lt: "bit h n \<Longrightarrow> n < 24" for n by (metis bit_take_bit_iff)
  have "bit (u32_of_le (take 3 (u32_to_le h))) n = bit h n" if "n < 32" for n
  proof -
    consider "n < 8" | "8 \<le> n" "n < 16" | "16 \<le> n" "n < 24" | "24 \<le> n" by linarith
    then show ?thesis using lt [of n] that by cases (auto simp: u32_to_le_def bit_simps)
  qed
  then show ?thesis by (intro bit_word_eqI) simp
qed

lemma low_byte_inj:
  assumes "(c :: u16) < 256" "c' < 256" "(ucast c :: u8) = ucast c'"
  shows "c = c'"
proof -
  have "ucast (ucast x :: u8) = x" if "x < 256" for x :: u16
  proof -
    have "take_bit 8 x = x" using that by (simp add: take_bit_eq_mask less_mask_eq)
    then have "bit x n \<Longrightarrow> n < 8" for n by (metis bit_take_bit_iff)
    then show ?thesis by (intro bit_word_eqI) (auto simp: bit_simps)
  qed
  then show ?thesis using assms by metis
qed

lemma u32_to_le_inj [simp]: "u32_to_le h = u32_to_le h' \<longleftrightarrow> h = h'"
  by (metis u32_of_le_to_le)

lemma u16_to_le_inj [simp]: "u16_to_le c = u16_to_le c' \<longleftrightarrow> c = c'"
proof
  assume "u16_to_le c = u16_to_le c'"
  then have "(ucast c :: u8) = ucast c'" "(ucast (drop_bit 8 c) :: u8) = ucast (drop_bit 8 c')"
    by (simp_all add: u16_to_le_def)
  then show "c = c'" using u16_of_parts by metis
qed simp

lemma encode_addr_inj:
  assumes "fits_addr s h c" "fits_addr s h' c'"
    and "encode_device_addr_without_points s h c = encode_device_addr_without_points s h' c'"
  shows "h = h' \<and> c = c'"
proof (cases "s \<in> {QnA, QL}")
  case True
  then have "take 3 (u32_to_le h) = take 3 (u32_to_le h')" "(ucast c :: u8) = ucast c'"
    using assms(3) by (simp_all add: encode_device_addr_without_points_def)
  moreover have "h < 2 ^ 24" "c < 256" "h' < 2 ^ 24" "c' < 256"
    using True assms(1,2) by (simp_all add: fits_addr_def)
  ultimately show ?thesis using head_three_bytes low_byte_inj by metis
next
  case False
  then show ?thesis using assms(3) by (simp add: encode_device_addr_without_points_def)
qed

text \<open>Items of one length are told apart once their number is known.\<close>

lemma concat_items_inj:
  assumes "length xs = length ys" "concat (map f xs) @ r = concat (map f ys) @ r'"
    and "list_all P xs" "list_all P ys" "\<And>x. P x \<Longrightarrow> length (f x) = k"
    and "\<And>x y. P x \<Longrightarrow> P y \<Longrightarrow> f x = f y \<Longrightarrow> x = y"
  shows "xs = ys \<and> r = r'"
  using assms(1-4)
proof (induction xs ys rule: list_induct2)
  case (Cons x xs y ys)
  then have "f x = f y" "concat (map f xs) @ r = concat (map f ys) @ r'" using assms(5) by simp_all
  with Cons show ?case using assms(6) by simp
qed simp

lemma read_items_inj:
  assumes "length xs = length ys" "list_all (read_item_ok s) xs" "list_all (read_item_ok s) ys"
    and "concat (map (\<lambda>(h, c). encode_device_addr_without_points s h c) xs) @ r
       = concat (map (\<lambda>(h, c). encode_device_addr_without_points s h c) ys) @ r'"
  shows "xs = ys \<and> r = r'"
proof (rule concat_items_inj [OF assms(1,4,2,3), where k = "device_addr_len s"])
  fix x y
  show "read_item_ok s x \<Longrightarrow> length (case x of (h, c) \<Rightarrow> encode_device_addr_without_points s h c) = device_addr_len s"
    by (cases x) simp
  show "read_item_ok s x \<Longrightarrow> read_item_ok s y \<Longrightarrow> (case x of (h, c) \<Rightarrow> encode_device_addr_without_points s h c)
      = (case y of (h, c) \<Rightarrow> encode_device_addr_without_points s h c) \<Longrightarrow> x = y"
    using encode_addr_inj by (cases x; cases y) (simp add: read_item_ok_def)
qed

lemma write_items_inj:
  assumes "length xs = length ys" "list_all (write_item_ok s k) xs" "list_all (write_item_ok s k) ys"
    and "concat (map (\<lambda>(h, c, d). encode_device_addr_without_points s h c @ d) xs) @ r
       = concat (map (\<lambda>(h, c, d). encode_device_addr_without_points s h c @ d) ys) @ r'"
  shows "xs = ys \<and> r = r'"
proof (rule concat_items_inj [OF assms(1,4,2,3), where k = "device_addr_len s + k"])
  fix x y
  show "write_item_ok s k x \<Longrightarrow>
      length (case x of (h, c, d) \<Rightarrow> encode_device_addr_without_points s h c @ d) = device_addr_len s + k"
    by (cases x) (simp add: write_item_ok_def)
  show "write_item_ok s k x \<Longrightarrow> write_item_ok s k y \<Longrightarrow>
      (case x of (h, c, d) \<Rightarrow> encode_device_addr_without_points s h c @ d)
      = (case y of (h, c, d) \<Rightarrow> encode_device_addr_without_points s h c @ d) \<Longrightarrow> x = y"
    using encode_addr_inj [of s "fst x" "fst (snd x)" "fst y" "fst (snd y)"]
    by (cases x; cases y) (simp add: write_item_ok_def)
qed

lemma u8_of_nat_inj:
  assumes "m \<le> 255" "n \<le> 255" "(of_nat m :: u8) = of_nat n"
  shows "m = n"
proof -
  have "unat (of_nat k :: u8) = k" if "k \<le> 255" for k
    using that by (simp add: unat_of_nat)
  then show ?thesis using assms by metis
qed

definition request_pdu :: "McSeries \<Rightarrow> McRequestBody \<Rightarrow> bytes" where
  "request_pdu series req =
     pdu_encode_to_bytes \<lparr>pdu_series = series, pdu_command = request_kind req, pdu_body = Request req\<rparr>"

lemma request_pdu_kind:
  assumes "wf_request s a" "wf_request s b" "request_pdu s a = request_pdu s b"
  shows "request_kind a = request_kind b"
proof -
  have "\<exists>code. to_code (request_kind x) = Code3E4E code \<and> take 2 (request_pdu s x) = u16_to_le code"
    if "wf_request s x" for x
    using that by (cases x) (simp_all add: request_pdu_def pdu_encode_to_bytes_def put_command_def Let_def)
  then have "to_code (request_kind a) = to_code (request_kind b)" using assms by (metis u16_to_le_inj)
  then show ?thesis using command_code_roundtrip by (metis option.inject)
qed

lemma random_read_pdu_inj:
  assumes "wf_request s (RandomReadUnits ws ds)" "wf_request s (RandomReadUnits ws' ds')"
    and "request_pdu s (RandomReadUnits ws ds) = request_pdu s (RandomReadUnits ws' ds')"
  shows "ws = ws' \<and> ds = ds'"
proof -
  have n: "length ws = length ws'" "length ds = length ds'"
    using assms u8_of_nat_inj by (simp_all add: request_pdu_def pdu_encode_to_bytes_def Let_def put_command_def u8_count_def)
  from assms n show ?thesis
    using read_items_inj [of ws ws' s] read_items_inj [of ds ds' s "[]" "[]"]
    by (auto simp: request_pdu_def pdu_encode_to_bytes_def Let_def put_command_def u8_count_def)
qed

lemma random_write_pdu_inj:
  assumes "wf_request s (RandomWriteUnits ws ds)" "wf_request s (RandomWriteUnits ws' ds')"
    and "request_pdu s (RandomWriteUnits ws ds) = request_pdu s (RandomWriteUnits ws' ds')"
  shows "ws = ws' \<and> ds = ds'"
proof -
  have n: "length ws = length ws'" "length ds = length ds'"
    using assms u8_of_nat_inj by (simp_all add: request_pdu_def pdu_encode_to_bytes_def Let_def put_command_def u8_count_def)
  from assms n show ?thesis
    using write_items_inj [of ws ws' s 2] write_items_inj [of ds ds' s 4 "[]" "[]"]
    by (auto simp: request_pdu_def pdu_encode_to_bytes_def Let_def put_command_def u8_count_def)
qed

text \<open>Two requests to PLCs of one series with the same body are the same request.\<close>

lemma request_pdu_inj:
  assumes "wf_request s a" "wf_request s b" "request_pdu s a = request_pdu s b"
  shows "a = b"
proof (cases a)
  case (RandomReadUnits ws ds)
  then obtain ws' ds' where b: "b = RandomReadUnits ws' ds'"
    using request_pdu_kind [OF assms] assms(2) by (cases b) simp_all
  then show ?thesis using RandomReadUnits assms random_read_pdu_inj [of s ws ds ws' ds'] by (simp only: RandomReadUnits b)
next
  case (RandomWriteUnits ws ds)
  then obtain ws' ds' where b: "b = RandomWriteUnits ws' ds'"
    using request_pdu_kind [OF assms] assms(2) by (cases b) simp_all
  then show ?thesis using assms random_write_pdu_inj [of s ws ds ws' ds'] by (simp only: RandomWriteUnits b)
qed (use assms request_pdu_kind [OF assms] in
    \<open>cases b; simp add: request_pdu_def pdu_encode_to_bytes_def put_command_def\<close>)+

section \<open>Properties\<close>


definition sample_random_read :: McRequestBody where
  "sample_random_read = RandomReadUnits [(100, 0xA8), (0x12345, 0xB4)] [(7, 0x52)]"


text \<open>The acknowledgements the codec can receive in each of the two frame variants it decodes.\<close>

fun wf_ack :: "McFrameVariant \<Rightarrow> McMessage \<Rightarrow> bool" where
  "wf_ack Frame3EBinary m = wf_ack3e m"
| "wf_ack Frame4EBinary m = wf_ack4e m"
| "wf_ack _ m = False"

text \<open>C26: in both frame variants the codec decodes, however the transport cuts a PLC's bytes into
  chunks, any number of them and at any place, decoding them as they arrive gives the
  acknowledgements and the end that decoding all bytes at once gives.  If the bytes are a sequence of
  acknowledgements, every one of them is delivered, in order, and nothing is left behind.\<close>

theorem mc_ack_stream_chunks:
  assumes "variant \<in> {Frame3EBinary, Frame4EBinary}"
  shows "receive (mc_decode variant) [] chunks = drain (Suc (length (concat chunks))) (mc_decode variant) (concat chunks)
         \<and> (list_all (wf_ack variant) fs \<and> concat chunks = concat (map plc_ack_wire fs)
             \<longrightarrow> receive (mc_decode variant) [] chunks = Some (fs, Waiting []))"
proof -
  have "mc_decode Frame3EBinary = decode_3e_ack" "mc_decode Frame4EBinary = decode_4e_ack"
    "wf_ack Frame3EBinary = wf_ack3e" "wf_ack Frame4EBinary = wf_ack4e"
    by (simp_all add: mc_decode_def fun_eq_iff)
  then show ?thesis
    using assms mc3e_codec.receive_chunks mc3e_codec.receive_stream mc4e_codec.receive_chunks mc4e_codec.receive_stream
    by fastforce
qed

definition sample_ack :: "bytes \<Rightarrow> McMessage" where
  "sample_ack payload =
     \<lparr>msg_header =
        Ack3E \<lparr>k3_frame_variant = Frame3EBinary, k3_sub_header = 0xD0, k3_route = route_default,
               k3_data_length = of_nat (2 + length payload), k3_end_code = 0\<rparr>,
      msg_body = Some (Raw payload)\<rparr>"

theorem mc_ack_stream_chunks_witness:
  "let fs = [sample_ack [1, 2], sample_ack [3, 4]]; bs = concat (map plc_ack_wire fs)
   in receive (mc_decode Frame3EBinary) [] [take 4 bs, take 14 (drop 4 bs), drop (4 + 14) bs] = Some (fs, Waiting [])"
proof -
  define fs where "fs = [sample_ack [1, 2], sample_ack [3, 4]]"
  define bs where "bs = concat (map plc_ack_wire fs)"
  have wf: "list_all (wf_ack Frame3EBinary) fs" by (simp add: fs_def sample_ack_def)
  have "receive (mc_decode Frame3EBinary) [] [take 4 bs, take 14 (drop 4 bs), drop (4 + 14) bs] = Some (fs, Waiting [])"
    using mc_ack_stream_chunks [of Frame3EBinary "[take 4 bs, take 14 (drop 4 bs), drop (4 + 14) bs]" fs, THEN conjunct2]
      concat_three_chunks [of 4 bs 14] wf bs_def by (simp only: simp_thms insert_iff)
  then show ?thesis unfolding Let_def fs_def [symmetric] bs_def [symmetric] .
qed

text \<open>The codec's own encoder of acknowledgements puts zeros where the end code belongs, so an
  acknowledgement with an error reads back as a success.\<close>

theorem mc_ack_encode_drops_end_code:
  assumes "wf_ack3e \<lparr>msg_header = Ack3E h, msg_body = Some (Raw payload)\<rparr>"
  shows "decode_3e_ack (mc_encode \<lparr>msg_header = Ack3E h, msg_body = Some (Raw payload)\<rparr>)
         = (Inr (Some \<lparr>msg_header = Ack3E (h\<lparr>k3_end_code := 0\<rparr>), msg_body = Some (Raw payload)\<rparr>), [])"
  using decode_3e_ack_wire [of "\<lparr>msg_header = Ack3E (h\<lparr>k3_end_code := 0\<rparr>), msg_body = Some (Raw payload)\<rparr>" "[]"] assms
  by (simp add: mc_encode_def)

lemma u16_of_zero [simp]: "u16_of 0 0 = 0"
  by (simp add: u16_of_def)

text \<open>An acknowledgement whose data length leaves no room for an end code is accepted, and its end
  code is taken from the first two bytes of the frame behind it.\<close>

theorem mc_short_ack_end_code:
  assumes "k3_frame_variant h = Frame3EBinary" "k3_data_length h = 0"
  shows "decode_3e_ack (u16_to_le (k3_sub_header h) @ put_route_3e4e (k3_route h) @ u16_to_le 0 @ [a, b] @ rest)
         = (Inr (Some \<lparr>msg_header = Ack3E (h\<lparr>k3_end_code := u16_of b a\<rparr>), msg_body = Some (Raw [])\<rparr>), [a, b] @ rest)"
proof -
  have "h\<lparr>k3_end_code := u16_of b a\<rparr> =
      \<lparr>k3_frame_variant = Frame3EBinary, k3_sub_header = k3_sub_header h, k3_route = k3_route h, k3_data_length = 0,
       k3_end_code = u16_of b a\<rparr>"
    using assms by (cases h) simp
  then show ?thesis
    by (simp add: decode_3e_ack_def decode_header_3e_ack_def put_route_bytes u16_to_le_def subslice_def
        parse_route_3e4e_def)
qed

text \<open>Batch requests write four bytes of head, the points and two bytes of device code for every
  series, while the documented address of a QnA, Q or L series PLC, which random requests use, is
  three bytes of head and one byte of device code.\<close>

theorem mc_batch_ignores_series_layout:
  "length (pdu_encode_to_bytes \<lparr>pdu_series = series, pdu_command = DeviceAccessBatchReadUnits,
             pdu_body = Request (BatchReadUnits h n c)\<rparr>) = 4 + 4 + 2 + 2
   \<and> length (pdu_encode_to_bytes \<lparr>pdu_series = series, pdu_command = DeviceAccessRandomReadUnits,
             pdu_body = Request (RandomReadUnits [(h, c)] [])\<rparr>) = 4 + 2 + device_addr_len series"
  by (simp add: pdu_encode_to_bytes_def put_command_def u8_count_def)

text \<open>A message the codec has no case for is encoded as nothing and reported as sent.\<close>

theorem mc_encode_drops_1e_request: "mc_encode \<lparr>msg_header = Req1E h, msg_body = body\<rparr> = []"
  by (simp add: mc_encode_def split: option.splits McAppBody.splits)

end
