(* ===== verification/Mc_Planner.thy ===== *)
theory Mc_Planner
  imports Mc_Frame "HOL-Library.Product_Lexorder" "HOL-Library.While_Combinator"
begin

text \<open>
  The MC request planner (\<open>mc/src/protocol/planner.rs\<close>): contiguous read and write batches, merging
  batch responses into per-point results, and the two-list splitting of random requests.

  The lemmas show that planning ends and loses no point, that reading through the planned batches
  gives every point what a request of its own would have read, that writing through them leaves
  the memory the single writes would have left, that random reads keep the limit of the series,
  and that random writes may exceed theirs.
\<close>

section \<open>Batches of contiguous points\<close>

record McPlannerConfig =
  max_points_per_batch :: u16
  max_bytes_per_frame :: u16

record PointReadSpec =
  rs_index :: nat
  rs_addr :: McLogicalAddress
  rs_word_len :: u16
  rs_device_code :: u16

record BatchEntry =
  be_index :: nat
  offset_words :: u16
  len_words :: u16

record ReadBatchSpec =
  rb_device :: McDeviceType
  rb_device_code :: u16
  rb_head :: u32
  rb_points :: u16
  rb_entries :: "BatchEntry list"

record WriteEntry =
  we_addr :: McLogicalAddress
  we_word_len :: u16
  we_device_code :: u16
  we_data :: bytes

record WriteBatchSpec =
  wb_device :: McDeviceType
  wb_device_code :: u16
  wb_head :: u32
  wb_points :: u16
  wb_data :: bytes

text \<open>The loop all planners share: the current batch takes the next point when it joins, and is
  pushed otherwise.  Taking a point may panic, which is \<open>None\<close>.\<close>

fun batch_from :: "('b \<Rightarrow> 'a \<Rightarrow> bool) \<Rightarrow> ('a \<Rightarrow> 'b) \<Rightarrow> ('b \<Rightarrow> 'a \<Rightarrow> 'b option) \<Rightarrow> 'b \<Rightarrow> 'a list \<Rightarrow> 'b list option" where
  "batch_from joins begins takes b [] = Some [b]"
| "batch_from joins begins takes b (x # xs) =
     (if joins b x then Option.bind (takes b x) (\<lambda>b'. batch_from joins begins takes b' xs)
      else map_option ((#) b) (batch_from joins begins takes (begins x) xs))"

definition batch_all :: "('b \<Rightarrow> 'a \<Rightarrow> bool) \<Rightarrow> ('a \<Rightarrow> 'b) \<Rightarrow> ('b \<Rightarrow> 'a \<Rightarrow> 'b option) \<Rightarrow> 'a list \<Rightarrow> 'b list option" where
  "batch_all joins begins takes xs =
     (case xs of [] \<Rightarrow> Some [] | x # r \<Rightarrow> batch_from joins begins takes (begins x) r)"

definition within_capacity :: "McPlannerConfig \<Rightarrow> u16 \<Rightarrow> nat \<Rightarrow> bool" where
  "within_capacity cfg next_points unit \<longleftrightarrow>
     unat next_points \<le> unat (max_points_per_batch cfg)
     \<and> unat next_points * unit \<le> unat (max_bytes_per_frame cfg)"

definition read_joins :: "McPlannerConfig \<Rightarrow> ReadBatchSpec \<Rightarrow> PointReadSpec \<Rightarrow> bool" where
  "read_joins cfg batch spec \<longleftrightarrow>
     rb_device batch = addr_device (rs_addr spec) \<and> rb_device_code batch = rs_device_code spec
     \<and> addr_head (rs_addr spec) = sat_add (rb_head batch) (ucast (rb_points batch))
     \<and> within_capacity cfg (sat_add (rb_points batch) (rs_word_len spec)) (unit_size (addr_device (rs_addr spec)))"

definition read_begins :: "PointReadSpec \<Rightarrow> ReadBatchSpec" where
  "read_begins spec =
     \<lparr>rb_device = addr_device (rs_addr spec), rb_device_code = rs_device_code spec,
      rb_head = addr_head (rs_addr spec), rb_points = rs_word_len spec,
      rb_entries = [\<lparr>be_index = rs_index spec, offset_words = 0, len_words = rs_word_len spec\<rparr>]\<rparr>"

definition read_takes :: "ReadBatchSpec \<Rightarrow> PointReadSpec \<Rightarrow> ReadBatchSpec option" where
  "read_takes batch spec =
     Some (batch\<lparr>rb_points := sat_add (rb_points batch) (rs_word_len spec),
                 rb_entries := rb_entries batch
                   @ [\<lparr>be_index = rs_index spec, offset_words = rb_points batch, len_words = rs_word_len spec\<rparr>]\<rparr>)"

definition plan_read_batches :: "McPlannerConfig \<Rightarrow> PointReadSpec list \<Rightarrow> ReadBatchSpec list" where
  "plan_read_batches cfg specs =
     the (batch_all (read_joins cfg) read_begins read_takes
            (sort_key (\<lambda>s. (device_index (addr_device (rs_addr s)), addr_head (rs_addr s))) specs))"

definition write_joins :: "McPlannerConfig \<Rightarrow> WriteBatchSpec \<Rightarrow> WriteEntry \<Rightarrow> bool" where
  "write_joins cfg batch e \<longleftrightarrow>
     wb_device batch = addr_device (we_addr e) \<and> wb_device_code batch = we_device_code e
     \<and> addr_head (we_addr e) = sat_add (wb_head batch) (ucast (wb_points batch))
     \<and> within_capacity cfg (sat_add (wb_points batch) (we_word_len e)) (unit_size (addr_device (we_addr e)))"

definition write_begins :: "WriteEntry \<Rightarrow> WriteBatchSpec" where
  "write_begins e =
     \<lparr>wb_device = addr_device (we_addr e), wb_device_code = we_device_code e,
      wb_head = addr_head (we_addr e), wb_points = we_word_len e, wb_data = we_data e\<rparr>"

text \<open>The slice panics when it ends behind the buffer, and \<open>copy_from_slice\<close> when the lengths differ.\<close>

definition write_takes :: "WriteBatchSpec \<Rightarrow> WriteEntry \<Rightarrow> WriteBatchSpec option" where
  "write_takes batch e =
     (let unit = unit_size (addr_device (we_addr e)); entry_bytes = unat (we_word_len e) * unit;
          next_points = sat_add (wb_points batch) (we_word_len e); next_bytes = unat next_points * unit;
          offset_bytes = unat (wb_points batch) * unit;
          data = (if length (wb_data batch) < next_bytes
                  then wb_data batch @ replicate (next_bytes - length (wb_data batch)) 0 else wb_data batch)
      in if offset_bytes + entry_bytes \<le> length data \<and> length (we_data e) = entry_bytes
         then Some (batch\<lparr>wb_points := next_points,
                          wb_data := take offset_bytes data @ we_data e @ drop (offset_bytes + entry_bytes) data\<rparr>)
         else None)"

text \<open>\<open>None\<close> is a panic.\<close>

definition plan_write_batches :: "McPlannerConfig \<Rightarrow> WriteEntry list \<Rightarrow> WriteBatchSpec list option" where
  "plan_write_batches cfg entries =
     batch_all (write_joins cfg) write_begins write_takes
       (sort_key (\<lambda>e. (device_index (addr_device (we_addr e)), addr_head (we_addr e))) entries)"

section \<open>Merging batch responses\<close>

record McReadItemRaw =
  ri_index :: nat
  ri_end_code :: u16
  ri_payload :: "bytes option"

record ReadBatchResult =
  br_end_code :: u16
  br_payload :: "bytes option"

definition default_items :: "nat \<Rightarrow> McReadItemRaw list" where
  "default_items n = map (\<lambda>i. \<lparr>ri_index = i, ri_end_code = 0, ri_payload = None\<rparr>) [0..<n]"

definition put_item :: "nat \<Rightarrow> u16 \<Rightarrow> bytes option \<Rightarrow> McReadItemRaw list \<Rightarrow> McReadItemRaw list" where
  "put_item i code payload results =
     (if i < length results then results[i := (results ! i)\<lparr>ri_end_code := code, ri_payload := payload\<rparr>] else results)"

definition merge_batch :: "ReadBatchSpec \<times> ReadBatchResult \<Rightarrow> McReadItemRaw list \<Rightarrow> McReadItemRaw list" where
  "merge_batch p results =
     (let (batch, res) = p; unit = unit_size (rb_device batch)
      in if br_end_code res \<noteq> 0
         then fold (\<lambda>e. put_item (be_index e) (br_end_code res) None) (rb_entries batch) results
         else case br_payload res of
           None \<Rightarrow> results
         | Some payload \<Rightarrow>
             if length payload < unat (rb_points batch) * unit then results
             else fold (\<lambda>e r.
                    let off = unat (offset_words e) * unit; len = unat (len_words e) * unit
                    in if off + len \<le> length payload
                       then put_item (be_index e) 0 (Some (subslice payload off (off + len))) r else r)
                    (rb_entries batch) results)"

definition merge_read_raw :: "ReadBatchSpec list \<Rightarrow> ReadBatchResult list \<Rightarrow> McReadItemRaw list" where
  "merge_read_raw batches batch_results =
     (let max_index = fold max (concat (map (\<lambda>b. map be_index (rb_entries b)) batches)) 0
      in fold merge_batch (zip batches batch_results) (default_items (max_index + 1)))"

section \<open>Random requests\<close>

record RandomReadEntry =
  rr_index :: nat
  rr_addr :: McLogicalAddress
  rr_device_code :: u16

record RandomReadBatchSpec =
  rr_words :: "RandomReadEntry list"
  rr_dwords :: "RandomReadEntry list"

record RandomWriteEntry =
  rw_addr :: McLogicalAddress
  rw_device_code :: u16
  rw_word_len :: u16
  rw_data :: bytes

record RandomWriteBatchSpec =
  rw_words :: "RandomWriteEntry list"
  rw_dwords :: "RandomWriteEntry list"

text \<open>The consumer's calls are collected in order as quadruples of offsets and lengths; \<open>None\<close> is a
  loop that does not end.\<close>

type_synonym span = "nat \<times> nat \<times> nat \<times> nat"

record bi_state =
  w_off :: nat
  w_len :: nat
  d_off :: nat
  d_len :: nat
  consumed :: "span list"

definition bi_continue :: "nat \<Rightarrow> nat \<Rightarrow> bi_state \<Rightarrow> bool" where
  "bi_continue word_total dword_total s \<longleftrightarrow> w_off s + w_len s < word_total \<or> d_off s + d_len s < dword_total"

definition consume :: "bi_state \<Rightarrow> bi_state" where
  "consume s = s\<lparr>consumed := consumed s @ [(w_off s, w_len s, d_off s, d_len s)]\<rparr>"

definition bi_step :: "nat \<Rightarrow> nat \<Rightarrow> (nat \<Rightarrow> nat \<Rightarrow> bool) \<Rightarrow> bi_state \<Rightarrow> bi_state" where
  "bi_step word_total dword_total full s =
     (if w_off s < word_total \<and> w_off s + w_len s < word_total then
        if full (w_len s) (d_len s) then (consume s)\<lparr>w_off := w_off s + w_len s, w_len := 0\<rparr>
        else s\<lparr>w_len := w_len s + 1\<rparr>
      else if w_off s < word_total \<and> \<not> w_off s + w_len s < word_total \<and> d_off s + d_len s < dword_total then
        if full (w_len s) (d_len s)
        then (consume s)\<lparr>w_off := word_total, w_len := 0, d_off := d_off s + d_len s, d_len := 0\<rparr>
        else s\<lparr>d_len := d_len s + 1\<rparr>
      else if d_off s < dword_total \<and> d_off s + d_len s < dword_total then
        if full (w_len s) (d_len s) then (consume s)\<lparr>d_off := d_off s + d_len s, d_len := 0\<rparr>
        else s\<lparr>d_len := d_len s + 1\<rparr>
      else s\<lparr>d_len := d_len s + 1\<rparr>)"

definition bi_loop :: "nat \<Rightarrow> nat \<Rightarrow> (nat \<Rightarrow> nat \<Rightarrow> bool) \<Rightarrow> bi_state option" where
  "bi_loop word_total dword_total full =
     while_option (bi_continue word_total dword_total) (bi_step word_total dword_total full)
       \<lparr>w_off = 0, w_len = 0, d_off = 0, d_len = 0, consumed = []\<rparr>"

definition bi_loop_execute :: "nat \<Rightarrow> nat \<Rightarrow> (nat \<Rightarrow> nat \<Rightarrow> bool) \<Rightarrow> span list option" where
  "bi_loop_execute word_total dword_total full =
     map_option
       (\<lambda>s. if w_off s < word_total \<or> d_off s < dword_total
            then consumed s @ [(w_off s, word_total - w_off s, d_off s, dword_total - d_off s)] else consumed s)
       (bi_loop word_total dword_total full)"

text \<open>What the consumers of both planners cut out of the two lists; an empty call is skipped.\<close>

definition span_lists :: "'a list \<Rightarrow> 'b list \<Rightarrow> span \<Rightarrow> 'a list \<times> 'b list" where
  "span_lists ws ds s =
     (case s of (wo, wl, dd, dl) \<Rightarrow>
        (if wo < length ws \<and> 0 < wl then subslice ws wo (wo + wl) else [],
         if dd < length ds \<and> 0 < dl then subslice ds dd (dd + dl) else []))"

definition nonempty_span :: "span \<Rightarrow> bool" where
  "nonempty_span s = (case s of (wo, wl, dd, dl) \<Rightarrow> \<not> (wl = 0 \<and> dl = 0))"

definition read_full :: "McSeries \<Rightarrow> nat \<Rightarrow> nat \<Rightarrow> bool" where
  "read_full series wl dl =
     (let max_len = unat (device_random_read_in_word_points_max series)
      in if max_len = 0 then False else max_len \<le> wl + dl)"

definition write_full :: "McSeries \<Rightarrow> nat \<Rightarrow> nat \<Rightarrow> bool" where
  "write_full series wl dl =
     (let max_len = unat (device_random_write_in_word_points_max series)
      in if max_len = 0 then False else max_len \<le> wl * 12 + dl * 14)"

definition plan_random_read_batches ::
  "McSeries \<Rightarrow> RandomReadEntry list \<Rightarrow> RandomReadEntry list \<Rightarrow> RandomReadBatchSpec list option" where
  "plan_random_read_batches series ws ds =
     (if ws = [] \<and> ds = [] then Some []
      else map_option
        (\<lambda>spans. map (\<lambda>s. case span_lists ws ds s of (w, d) \<Rightarrow> \<lparr>rr_words = w, rr_dwords = d\<rparr>)
                   (filter nonempty_span spans))
        (bi_loop_execute (length ws) (length ds) (read_full series)))"

definition plan_random_write_batches ::
  "McSeries \<Rightarrow> RandomWriteEntry list \<Rightarrow> RandomWriteEntry list \<Rightarrow> RandomWriteBatchSpec list option" where
  "plan_random_write_batches series ws ds =
     (if ws = [] \<and> ds = [] then Some []
      else map_option
        (\<lambda>spans. map (\<lambda>s. case span_lists ws ds s of (w, d) \<Rightarrow> \<lparr>rw_words = w, rw_dwords = d\<rparr>)
                   (filter nonempty_span spans))
        (bi_loop_execute (length ws) (length ds) (write_full series)))"

section \<open>Planning loses nothing\<close>

text \<open>What a planner promises, for points described by what they read or write: a batch holds the
  items of the points it took, in order, and taking a point that joins cannot fail.\<close>

locale batch_planner =
  fixes joins :: "'b \<Rightarrow> 'a \<Rightarrow> bool" and begins :: "'a \<Rightarrow> 'b" and takes :: "'b \<Rightarrow> 'a \<Rightarrow> 'b option"
    and ok :: "'a \<Rightarrow> bool" and inv :: "'b \<Rightarrow> bool" and items :: "'b \<Rightarrow> 'k list" and keys :: "'a \<Rightarrow> 'k list"
  assumes begins_inv: "ok x \<Longrightarrow> inv (begins x)"
    and begins_items: "ok x \<Longrightarrow> items (begins x) = keys x"
    and takes_ok: "ok x \<Longrightarrow> inv b \<Longrightarrow> joins b x \<Longrightarrow>
          \<exists>b'. takes b x = Some b' \<and> inv b' \<and> items b' = items b @ keys x"
begin

lemma batch_from_spec:
  assumes "list_all ok xs" "inv b"
  shows "\<exists>bs. batch_from joins begins takes b xs = Some bs \<and> list_all inv bs
              \<and> concat (map items bs) = items b @ concat (map keys xs)"
  using assms
proof (induction xs arbitrary: b)
  case Nil
  then show ?case by simp
next
  case (Cons x xs)
  show ?case
  proof (cases "joins b x")
    case True
    then obtain b' where "takes b x = Some b'" "inv b'" "items b' = items b @ keys x"
      using takes_ok [of x b] Cons.prems by auto
    then show ?thesis using Cons.IH [of b'] Cons.prems True by simp
  next
    case False
    then show ?thesis
      using Cons.IH [of "begins x"] Cons.prems begins_inv [of x] begins_items [of x] by auto
  qed
qed

lemma batch_all_spec:
  assumes "list_all ok xs"
  shows "\<exists>bs. batch_all joins begins takes xs = Some bs \<and> list_all inv bs \<and> concat (map items bs) = concat (map keys xs)"
  using assms batch_from_spec [of "tl xs" "begins (hd xs)"] begins_inv [of "hd xs"] begins_items [of "hd xs"]
  by (cases xs) (auto simp: batch_all_def)

end

text \<open>Points as intervals of a device: a point is described by its index, device, first unit and
  number of units.  The bounds keep addresses inside \<open>u32\<close> and a payload inside one frame.\<close>

definition cfg_ok :: "McPlannerConfig \<Rightarrow> bool" where
  "cfg_ok cfg \<longleftrightarrow> unat (max_points_per_batch cfg) \<le> 0xFFF0 \<and> unat (max_bytes_per_frame cfg) \<le> 0xFFF0"

definition read_ok :: "PointReadSpec \<Rightarrow> bool" where
  "read_ok s \<longleftrightarrow> unat (addr_head (rs_addr s)) + unat (rs_word_len s) < 2 ^ 32
               \<and> unat (rs_word_len s) * unit_size (addr_device (rs_addr s)) \<le> 0xFFF0
               \<and> device_code_3e (addr_device (rs_addr s)) = Some (rs_device_code s)"

definition read_key :: "PointReadSpec \<Rightarrow> nat \<times> McDeviceType \<times> nat \<times> nat" where
  "read_key s = (rs_index s, addr_device (rs_addr s), unat (addr_head (rs_addr s)), unat (rs_word_len s))"

definition read_items :: "ReadBatchSpec \<Rightarrow> (nat \<times> McDeviceType \<times> nat \<times> nat) list" where
  "read_items b =
     map (\<lambda>e. (be_index e, rb_device b, unat (rb_head b) + unat (offset_words e), unat (len_words e))) (rb_entries b)"

definition read_inv :: "McPlannerConfig \<Rightarrow> ReadBatchSpec \<Rightarrow> bool" where
  "read_inv cfg b \<longleftrightarrow>
     unat (rb_head b) + unat (rb_points b) < 2 ^ 32
     \<and> unat (rb_points b) * unit_size (rb_device b) \<le> 0xFFF0
     \<and> device_code_3e (rb_device b) = Some (rb_device_code b)
     \<and> list_all (\<lambda>e. unat (offset_words e) + unat (len_words e) \<le> unat (rb_points b)) (rb_entries b)
     \<and> rb_entries b \<noteq> [] \<and> (length (rb_entries b) = 1 \<or> within_capacity cfg (rb_points b) (unit_size (rb_device b)))"

lemma unat_sat_add_u16:
  "unat (sat_add a b :: u16) \<le> m \<Longrightarrow> m < 0xFFFF \<Longrightarrow> unat (sat_add a b) = unat a + unat b"
  by (simp add: unat_sat_add)

lemma unat_ucast_u16 [simp]: "unat (ucast (p :: u16) :: u32) = unat p"
proof -
  have "unat p < 2 ^ 32" by (rule less_trans [OF unsigned_less]) simp
  then show ?thesis by (simp add: unsigned_ucast_eq take_bit_nat_eq_self)
qed

lemma unat_sat_add_u32:
  "unat (a :: u32) + unat (p :: u16) < 2 ^ 32 \<Longrightarrow> unat (sat_add a (ucast p)) = unat a + unat p"
  by (simp add: unat_sat_add)

lemma read_takes_ok:
  assumes "cfg_ok cfg" "read_ok x" "read_inv cfg b" "read_joins cfg b x"
  shows "\<exists>b'. read_takes b x = Some b' \<and> read_inv cfg b' \<and> read_items b' = read_items b @ [read_key x]"
proof -
  have cap: "within_capacity cfg (sat_add (rb_points b) (rs_word_len x)) (unit_size (addr_device (rs_addr x)))"
    and dev: "rb_device b = addr_device (rs_addr x)"
    and hd: "addr_head (rs_addr x) = sat_add (rb_head b) (ucast (rb_points b))"
    using assms(4) by (auto simp: read_joins_def)
  have pts: "unat (sat_add (rb_points b) (rs_word_len x)) = unat (rb_points b) + unat (rs_word_len x)"
    using cap assms(1) by (auto simp: within_capacity_def cfg_ok_def intro: unat_sat_add_u16)
  have addr: "unat (addr_head (rs_addr x)) = unat (rb_head b) + unat (rb_points b)"
    using assms(3) unfolding hd by (intro unat_sat_add_u32) (simp add: read_inv_def)
  have "list_all (\<lambda>e. unat (offset_words e) + unat (len_words e) \<le> unat (rb_points b) + unat (rs_word_len x)) (rb_entries b)"
    using assms(3) by (auto simp: read_inv_def list_all_iff)
  then show ?thesis
    using assms cap dev addr pts
    by (auto simp: read_takes_def read_inv_def read_ok_def read_items_def read_key_def cfg_ok_def within_capacity_def)
qed

interpretation read_planner: batch_planner "read_joins cfg" read_begins read_takes
  "\<lambda>x. read_ok x \<and> cfg_ok cfg" "read_inv cfg" read_items "\<lambda>x. [read_key x]" for cfg
  by unfold_locales (use read_takes_ok in \<open>auto simp: read_begins_def read_inv_def read_ok_def read_items_def read_key_def\<close>)

lemma plan_read_batches_spec:
  assumes "cfg_ok cfg" "list_all read_ok specs"
  shows "list_all (read_inv cfg) (plan_read_batches cfg specs)"
    "mset (concat (map read_items (plan_read_batches cfg specs))) = mset (map read_key specs)"
proof -
  let ?xs = "sort_key (\<lambda>s. (device_index (addr_device (rs_addr s)), addr_head (rs_addr s))) specs"
  have "list_all (\<lambda>x. read_ok x \<and> cfg_ok cfg) ?xs"
    using assms by (simp add: list_all_iff)
  then obtain bs where "batch_all (read_joins cfg) read_begins read_takes ?xs = Some bs"
    "list_all (read_inv cfg) bs" "concat (map read_items bs) = concat (map (\<lambda>x. [read_key x]) ?xs)"
    using read_planner.batch_all_spec by blast
  then show "list_all (read_inv cfg) (plan_read_batches cfg specs)"
    "mset (concat (map read_items (plan_read_batches cfg specs))) = mset (map read_key specs)"
    by (simp_all add: plan_read_batches_def concat_map_singleton)
qed

section \<open>Reading through batches\<close>

text \<open>The PLC's memory: the bytes of every unit of every device.\<close>

type_synonym plc_memory = "McDeviceType \<Rightarrow> nat \<Rightarrow> bytes"

definition wf_memory :: "plc_memory \<Rightarrow> bool" where
  "wf_memory mem \<longleftrightarrow> (\<forall>d i. length (mem d i) = unit_size d)"

definition mem_read :: "plc_memory \<Rightarrow> McDeviceType \<Rightarrow> nat \<Rightarrow> nat \<Rightarrow> bytes" where
  "mem_read mem d h n = concat (map (mem d) [h..<h + n])"

lemma length_mem_read: "wf_memory mem \<Longrightarrow> length (mem_read mem d h n) = n * unit_size d"
  by (simp add: mem_read_def wf_memory_def length_concat comp_def sum_list_triv)

lemma mem_read_append: "mem_read mem d h (m + n) = mem_read mem d h m @ mem_read mem d (h + m) n"
proof -
  have "[h..<h + (m + n)] = [h..<h + m] @ [h + m..<h + m + n]"
    using upt_add_eq_append [of h "h + m" n] by (simp add: add.assoc)
  then show ?thesis by (simp add: mem_read_def)
qed

lemma mem_read_slice:
  assumes "wf_memory mem" "off + len \<le> n"
  shows "subslice (mem_read mem d h n) (off * unit_size d) (off * unit_size d + len * unit_size d)
         = mem_read mem d (h + off) len"
proof -
  obtain k where n: "n = off + (len + k)" using assms(2) by (metis add.assoc le_Suc_ex)
  have "mem_read mem d h n = mem_read mem d h off @ mem_read mem d (h + off) len @ mem_read mem d (h + off + len) k"
    by (simp add: n mem_read_append)
  then show ?thesis by (simp add: subslice_def length_mem_read [OF assms(1)])
qed

lemma length_put_item [simp]: "length (put_item i c p r) = length r"
  by (simp add: put_item_def)

lemma nth_put_item:
  "put_item i c p r ! j = (if j = i \<and> i < length r then (r ! i)\<lparr>ri_end_code := c, ri_payload := p\<rparr> else r ! j)"
  by (simp add: put_item_def nth_list_update)

lemma length_default_items [simp]: "length (default_items n) = n"
  by (simp add: default_items_def)

lemma nth_default_items: "i < n \<Longrightarrow> default_items n ! i = \<lparr>ri_index = i, ri_end_code = 0, ri_payload = None\<rparr>"
  by (simp add: default_items_def)

lemma length_fold_put: "length (fold (\<lambda>k. put_item (f k) (c k) (p k)) ks r) = length r"
  by (induction ks arbitrary: r) simp_all

lemma fold_put_other:
  "i \<notin> f ` set ks \<Longrightarrow> fold (\<lambda>k. put_item (f k) (c k) (p k)) ks r ! i = r ! i"
  by (induction ks arbitrary: r) (auto simp: nth_put_item)

lemma fold_put_at:
  assumes "distinct (map f ks)" "k \<in> set ks" "f k < length r"
  shows "fold (\<lambda>k. put_item (f k) (c k) (p k)) ks r ! f k = (r ! f k)\<lparr>ri_end_code := c k, ri_payload := p k\<rparr>"
  using assms
proof (induction ks arbitrary: r)
  case Nil
  then show ?case by simp
next
  case (Cons a ks)
  show ?case
  proof (cases "k = a")
    case True
    then have "f k \<notin> f ` set ks" using Cons.prems(1) by auto
    then show ?thesis using True Cons.prems(3) by (simp add: fold_put_other nth_put_item)
  next
    case False
    then have "f a \<noteq> f k" using Cons.prems(1,2) by auto
    then show ?thesis using False Cons by (simp add: nth_put_item)
  qed
qed

lemma fold_concat_map: "fold g (concat xss) r = fold (fold g) xss r"
  by (induction xss arbitrary: r) simp_all

text \<open>A batch answered by the PLC, and its merged items.\<close>

definition plc_batch :: "plc_memory \<Rightarrow> ReadBatchSpec \<Rightarrow> ReadBatchResult" where
  "plc_batch mem b = \<lparr>br_end_code = 0, br_payload = Some (mem_read mem (rb_device b) (unat (rb_head b)) (unat (rb_points b)))\<rparr>"

definition put_key :: "plc_memory \<Rightarrow> nat \<times> McDeviceType \<times> nat \<times> nat \<Rightarrow> McReadItemRaw list \<Rightarrow> McReadItemRaw list" where
  "put_key mem k = put_item (fst k) 0 (Some (case snd k of (d, h, n) \<Rightarrow> mem_read mem d h n))"

lemma put_key_fun: "put_key mem = (\<lambda>k. put_item (fst k) 0 (Some (case snd k of (d, h, n) \<Rightarrow> mem_read mem d h n)))"
  by (simp add: put_key_def fun_eq_iff)

lemma merge_batch_plc:
  assumes "wf_memory mem" "read_inv cfg b"
  shows "merge_batch (b, plc_batch mem b) r = fold (put_key mem) (read_items b) r"
proof -
  let ?u = "unit_size (rb_device b)" and ?p = "mem_read mem (rb_device b) (unat (rb_head b)) (unat (rb_points b))"
  let ?g = "\<lambda>e r. let off = unat (offset_words e) * ?u; len = unat (len_words e) * ?u
              in if off + len \<le> length ?p then put_item (be_index e) 0 (Some (subslice ?p off (off + len))) r else r"
  have len: "length ?p = unat (rb_points b) * ?u" using assms(1) by (rule length_mem_read)
  have "?g e r = put_key mem (be_index e, rb_device b, unat (rb_head b) + unat (offset_words e), unat (len_words e)) r"
    if "e \<in> set (rb_entries b)" for e r
  proof -
    have le: "unat (offset_words e) + unat (len_words e) \<le> unat (rb_points b)"
      using that assms(2) by (auto simp: read_inv_def list_all_iff)
    then have "unat (offset_words e) * ?u + unat (len_words e) * ?u \<le> length ?p"
      unfolding len by (metis add_mult_distrib mult_le_mono1)
    then show ?thesis by (simp add: put_key_def mem_read_slice [OF assms(1) le])
  qed
  then have "fold ?g (rb_entries b) r = fold (put_key mem) (read_items b) r"
    by (auto simp: read_items_def fold_map comp_def intro!: fold_cong)
  then show ?thesis by (simp add: merge_batch_def plc_batch_def len)
qed

lemma merge_plc:
  assumes "wf_memory mem" "list_all (read_inv cfg) bs"
  shows "fold merge_batch (zip bs (map (plc_batch mem) bs)) r = fold (put_key mem) (concat (map read_items bs)) r"
  using assms(2) by (induction bs arbitrary: r) (simp_all add: merge_batch_plc [OF assms(1), of cfg])

lemma fold_max_ge: "x \<in> set xs \<or> x \<le> a \<Longrightarrow> x \<le> fold max xs (a :: nat)"
proof (induction xs arbitrary: a)
  case (Cons y ys)
  show ?case using Cons.prems Cons.IH [of "max y a"] by (auto simp: le_max_iff_disj)
qed simp

lemma merge_read_plc:
  assumes "wf_memory mem" "list_all (read_inv cfg) bs" "k \<in> set (concat (map read_items bs))"
    and "distinct (map fst (concat (map read_items bs)))"
  shows "fst k < length (merge_read_raw bs (map (plc_batch mem) bs))
         \<and> merge_read_raw bs (map (plc_batch mem) bs) ! fst k
           = \<lparr>ri_index = fst k, ri_end_code = 0, ri_payload = Some (case snd k of (d, h, n) \<Rightarrow> mem_read mem d h n)\<rparr>"
proof -
  let ?ks = "concat (map read_items bs)"
  let ?m = "fold max (concat (map (\<lambda>b. map be_index (rb_entries b)) bs)) 0"
  have "fst k \<in> set (concat (map (\<lambda>b. map be_index (rb_entries b)) bs))"
    using assms(3) by (force simp: read_items_def)
  then have le: "fst k < ?m + 1" using fold_max_ge [of "fst k" _ 0] by fastforce
  have "merge_read_raw bs (map (plc_batch mem) bs) = fold (put_key mem) ?ks (default_items (?m + 1))"
    by (simp add: merge_read_raw_def Let_def merge_plc [OF assms(1,2)])
  then show ?thesis
    using le fold_put_at [OF assms(4,3), of "default_items (?m + 1)" "\<lambda>_. 0"]
    by (simp add: put_key_fun nth_default_items length_fold_put)
qed

text \<open>Reading a list of points through the planned batches gives every point, under its own index,
  exactly the bytes that the PLC holds for it, as one request per point would.\<close>

lemma mc_batched_read:
  assumes "cfg_ok cfg" "list_all read_ok specs" "distinct (map rs_index specs)"
    and "wf_memory mem" "s \<in> set specs" "bs = plan_read_batches cfg specs"
  shows "rs_index s < length (merge_read_raw bs (map (plc_batch mem) bs))
         \<and> merge_read_raw bs (map (plc_batch mem) bs) ! rs_index s
           = \<lparr>ri_index = rs_index s, ri_end_code = 0,
              ri_payload = Some (mem_read mem (addr_device (rs_addr s)) (unat (addr_head (rs_addr s))) (unat (rs_word_len s)))\<rparr>"
proof -
  let ?ks = "concat (map read_items bs)"
  note plan = plan_read_batches_spec [OF assms(1,2), folded assms(6)]
  have "mset (map fst ?ks) = mset (map fst (map read_key specs))" using plan(2) by (metis mset_map)
  then have "distinct (map fst ?ks)" using assms(3) by (metis (no_types, lifting) comp_def fst_conv list.map_comp map_eq_conv mset_eq_imp_distinct_iff read_key_def)
  moreover have "read_key s \<in> set ?ks" using plan(2) assms(5) by (metis image_eqI list.set_map set_mset_mset)
  ultimately show ?thesis using merge_read_plc [OF assms(4) plan(1), of "read_key s"] by (auto simp: read_key_def)
qed

section \<open>Writing through batches\<close>

text \<open>A write as the units it stores.\<close>

definition write_units :: "McDeviceType \<Rightarrow> nat \<Rightarrow> nat \<Rightarrow> bytes \<Rightarrow> ((McDeviceType \<times> nat) \<times> bytes) list" where
  "write_units d h n data =
     map (\<lambda>i. ((d, h + i), subslice data (i * unit_size d) (i * unit_size d + unit_size d))) [0..<n]"

definition store_unit :: "(McDeviceType \<times> nat) \<times> bytes \<Rightarrow> plc_memory \<Rightarrow> plc_memory" where
  "store_unit u mem = mem(fst (fst u) := (mem (fst (fst u)))(snd (fst u) := snd u))"

definition mem_write :: "McDeviceType \<Rightarrow> nat \<Rightarrow> nat \<Rightarrow> bytes \<Rightarrow> plc_memory \<Rightarrow> plc_memory" where
  "mem_write d h n data = fold store_unit (write_units d h n data)"

definition write_entry :: "WriteEntry \<Rightarrow> plc_memory \<Rightarrow> plc_memory" where
  "write_entry e = mem_write (addr_device (we_addr e)) (unat (addr_head (we_addr e))) (unat (we_word_len e)) (we_data e)"

definition write_batch :: "WriteBatchSpec \<Rightarrow> plc_memory \<Rightarrow> plc_memory" where
  "write_batch b = mem_write (wb_device b) (unat (wb_head b)) (unat (wb_points b)) (wb_data b)"

definition write_ok :: "WriteEntry \<Rightarrow> bool" where
  "write_ok e \<longleftrightarrow> unat (addr_head (we_addr e)) + unat (we_word_len e) < 2 ^ 32
                \<and> length (we_data e) = unat (we_word_len e) * unit_size (addr_device (we_addr e))
                \<and> length (we_data e) \<le> 0xFFF0
                \<and> device_code_3e (addr_device (we_addr e)) = Some (we_device_code e)"

definition entry_units :: "WriteEntry \<Rightarrow> ((McDeviceType \<times> nat) \<times> bytes) list" where
  "entry_units e = write_units (addr_device (we_addr e)) (unat (addr_head (we_addr e))) (unat (we_word_len e)) (we_data e)"

definition batch_units :: "WriteBatchSpec \<Rightarrow> ((McDeviceType \<times> nat) \<times> bytes) list" where
  "batch_units b = write_units (wb_device b) (unat (wb_head b)) (unat (wb_points b)) (wb_data b)"

definition write_inv :: "WriteBatchSpec \<Rightarrow> bool" where
  "write_inv b \<longleftrightarrow>
     unat (wb_head b) + unat (wb_points b) < 2 ^ 32
     \<and> device_code_3e (wb_device b) = Some (wb_device_code b)
     \<and> length (wb_data b) = unat (wb_points b) * unit_size (wb_device b) \<and> length (wb_data b) \<le> 0xFFF0"

lemma write_units_append:
  assumes "length a = m * unit_size d"
  shows "write_units d h (m + n) (a @ b) = write_units d h m a @ write_units d (h + m) n b"
proof (rule nth_equalityI)
  fix i assume "i < length (write_units d h (m + n) (a @ b))"
  then have i: "i < m + n" by (simp add: write_units_def)
  show "write_units d h (m + n) (a @ b) ! i = (write_units d h m a @ write_units d (h + m) n b) ! i"
  proof (cases "i < m")
    case True
    then have "i * unit_size d + unit_size d \<le> length a"
      using assms by (metis Suc_leI mult_Suc add.commute mult_le_mono1)
    then show ?thesis using True i by (simp add: write_units_def nth_append)
  next
    case False
    define j where "j = i - m"
    have j: "i = m + j" "j < n" using False i by (auto simp: j_def)
    have "subslice (a @ b) ((m + j) * unit_size d) ((m + j) * unit_size d + unit_size d)
        = subslice b (j * unit_size d) (j * unit_size d + unit_size d)"
      using assms by (simp add: subslice_def add_mult_distrib)
    then show ?thesis using j by (simp add: write_units_def nth_append)
  qed
qed (simp add: write_units_def)

lemma write_takes_data:
  assumes "length (wb_data b) = unat (wb_points b) * unit_size (addr_device (we_addr e))"
    and "length (we_data e) = unat (we_word_len e) * unit_size (addr_device (we_addr e))"
    and "unat (sat_add (wb_points b) (we_word_len e)) = unat (wb_points b) + unat (we_word_len e)"
  shows "write_takes b e =
           Some (b\<lparr>wb_points := sat_add (wb_points b) (we_word_len e), wb_data := wb_data b @ we_data e\<rparr>)"
  using assms by (simp add: write_takes_def Let_def add_mult_distrib)

lemma write_takes_ok:
  assumes "cfg_ok cfg" "write_ok x" "write_inv b" "write_joins cfg b x"
  shows "\<exists>b'. write_takes b x = Some b' \<and> write_inv b' \<and> batch_units b' = batch_units b @ entry_units x"
proof -
  have cap: "within_capacity cfg (sat_add (wb_points b) (we_word_len x)) (unit_size (addr_device (we_addr x)))"
    and dev: "wb_device b = addr_device (we_addr x)"
    and hd: "addr_head (we_addr x) = sat_add (wb_head b) (ucast (wb_points b))"
    using assms(4) by (auto simp: write_joins_def)
  have pts: "unat (sat_add (wb_points b) (we_word_len x)) = unat (wb_points b) + unat (we_word_len x)"
    using cap assms(1) by (auto simp: within_capacity_def cfg_ok_def intro: unat_sat_add_u16)
  have addr: "unat (addr_head (we_addr x)) = unat (wb_head b) + unat (wb_points b)"
    using assms(3) unfolding hd by (intro unat_sat_add_u32) (simp add: write_inv_def)
  have len: "length (wb_data b) = unat (wb_points b) * unit_size (addr_device (we_addr x))"
    using assms(3) dev by (simp add: write_inv_def)
  moreover have "length (we_data x) = unat (we_word_len x) * unit_size (addr_device (we_addr x))"
    using assms(2) by (simp add: write_ok_def)
  ultimately show ?thesis
    using assms cap dev addr pts write_takes_data [OF len _ pts] write_units_append [OF len]
    by (simp add: write_inv_def write_ok_def batch_units_def entry_units_def add_mult_distrib cfg_ok_def within_capacity_def)
qed

interpretation write_planner: batch_planner "write_joins cfg" write_begins write_takes
  "\<lambda>x. write_ok x \<and> cfg_ok cfg" write_inv batch_units entry_units for cfg
  by unfold_locales (use write_takes_ok in \<open>auto simp: write_begins_def write_inv_def write_ok_def batch_units_def entry_units_def\<close>)

lemma fold_write_entry: "fold write_entry es = fold store_unit (concat (map entry_units es))"
  by (induction es) (simp_all add: write_entry_def mem_write_def entry_units_def fun_eq_iff)

lemma fold_write_batch: "fold write_batch bs = fold store_unit (concat (map batch_units bs))"
  by (induction bs) (simp_all add: write_batch_def mem_write_def batch_units_def fun_eq_iff)

lemma mset_concat_image: "mset (concat (map f xs)) = (\<Sum>x\<in>#mset xs. mset (f x))"
  by (induction xs) auto

lemma store_units_permute:
  assumes "distinct (map fst us)" "mset us = mset vs"
  shows "fold store_unit us = fold store_unit vs"
proof (rule fold_multiset_equiv [OF _ assms(2)])
  fix x y assume "x \<in> set us" "y \<in> set us"
  then have "x = y \<or> fst x \<noteq> fst y" using assms(1) by (meson eq_key_imp_eq_value distinct_map inj_onD)
  then show "store_unit x \<circ> store_unit y = store_unit y \<circ> store_unit x"
    by (cases x; cases y; auto simp: store_unit_def fun_eq_iff)
qed

text \<open>Planning a list of well-formed writes never panics, and executing the planned batches
  leaves the PLC's memory as the single writes in the caller's order would, provided no unit is
  written twice.\<close>

lemma mc_batched_write:
  assumes "cfg_ok cfg" "list_all write_ok entries"
    and "distinct (map fst (concat (map entry_units entries)))"
  shows "\<exists>bs. plan_write_batches cfg entries = Some bs \<and> fold write_batch bs mem = fold write_entry entries mem"
proof -
  let ?xs = "sort_key (\<lambda>e. (device_index (addr_device (we_addr e)), addr_head (we_addr e))) entries"
  have "list_all (\<lambda>x. write_ok x \<and> cfg_ok cfg) ?xs"
    using assms by (simp add: list_all_iff)
  then obtain bs where bs: "plan_write_batches cfg entries = Some bs"
    "concat (map batch_units bs) = concat (map entry_units ?xs)"
    using write_planner.batch_all_spec [of cfg ?xs] unfolding plan_write_batches_def by blast
  have "mset (concat (map entry_units ?xs)) = mset (concat (map entry_units entries))"
    by (simp add: mset_concat_image)
  then have "fold store_unit (concat (map entry_units entries)) = fold store_unit (concat (map entry_units ?xs))"
    by (intro store_units_permute assms(3)) simp
  then show ?thesis using bs by (simp add: fold_write_entry fold_write_batch)
qed

section \<open>Splitting random requests\<close>

definition span_in :: "nat \<Rightarrow> nat \<Rightarrow> span \<Rightarrow> bool" where
  "span_in W D s = (case s of (wo, wl, dd, dl) \<Rightarrow> wo + wl \<le> W \<and> dd + dl \<le> D)"

definition span_words :: "'a list \<Rightarrow> span \<Rightarrow> 'a list" where
  "span_words ws s = (case s of (wo, wl, dd, dl) \<Rightarrow> subslice ws wo (wo + wl))"

definition span_dwords :: "'a list \<Rightarrow> span \<Rightarrow> 'a list" where
  "span_dwords ds s = (case s of (wo, wl, dd, dl) \<Rightarrow> subslice ds dd (dd + dl))"

definition span_sizes :: "(nat \<Rightarrow> nat \<Rightarrow> bool) \<Rightarrow> span \<Rightarrow> bool" where
  "span_sizes fits s = (case s of (wo, wl, dd, dl) \<Rightarrow> fits wl dl)"

text \<open>The spans consumed so far tile both lists up to the offsets, the dwords start only when the
  words are used up, and every span stays inside the limit.\<close>

definition bi_inv :: "'a list \<Rightarrow> 'b list \<Rightarrow> (nat \<Rightarrow> nat \<Rightarrow> bool) \<Rightarrow> bi_state \<Rightarrow> bool" where
  "bi_inv ws ds fits s \<longleftrightarrow>
     w_off s + w_len s \<le> length ws \<and> d_off s + d_len s \<le> length ds
     \<and> (0 < d_off s + d_len s \<longrightarrow> w_off s + w_len s = length ws)
     \<and> fits (w_len s) (d_len s)
     \<and> list_all (\<lambda>c. span_in (length ws) (length ds) c \<and> span_sizes fits c) (consumed s)
     \<and> concat (map (span_words ws) (consumed s)) = take (w_off s) ws
     \<and> concat (map (span_dwords ds) (consumed s)) = take (d_off s) ds"

lemma take_subslice: "take i xs @ subslice xs i (i + n) = take (i + n) xs"
  by (simp add: subslice_def take_add)

lemma bi_step_inv:
  assumes fits: "fits 0 0" "\<And>w d. \<not> full w d \<Longrightarrow> fits w d \<Longrightarrow> fits (w + 1) d \<and> fits w (d + 1)"
    and inv: "bi_inv ws ds fits s" "bi_continue (length ws) (length ds) s"
  shows "bi_inv ws ds fits (bi_step (length ws) (length ds) full s)"
proof -
  consider (word) "w_off s + w_len s < length ws" | (dword) "w_off s + w_len s = length ws" "d_off s + d_len s < length ds"
    using inv unfolding bi_inv_def bi_continue_def by linarith
  then show ?thesis
  proof cases
    case word
    then have d: "d_off s = 0" "d_len s = 0" using inv(1) by (auto simp: bi_inv_def)
    show ?thesis
    proof (cases "full (w_len s) (d_len s)")
      case True
      then show ?thesis
        using word d inv(1) fits(1) take_subslice [of "w_off s" ws "w_len s"]
        by (simp add: bi_step_def bi_inv_def consume_def span_in_def span_sizes_def span_words_def span_dwords_def subslice_def)
    next
      case False
      then show ?thesis
        using word d inv(1) fits(2) [of "w_len s" 0] by (simp add: bi_step_def bi_inv_def)
    qed
  next
    case dword
    show ?thesis
    proof (cases "full (w_len s) (d_len s)")
      case True
      show ?thesis
      proof (cases "w_off s < length ws")
        case w: True
        then show ?thesis
          using True dword inv(1) fits(1) take_subslice [of "w_off s" ws "w_len s"] take_subslice [of "d_off s" ds "d_len s"]
          by (auto simp: bi_step_def bi_inv_def consume_def span_in_def span_sizes_def span_words_def span_dwords_def)
      next
        case False
        then have "w_off s = length ws" "w_len s = 0" using dword(1) by auto
        then show ?thesis
          using True dword(2) inv(1) fits(1) take_subslice [of "d_off s" ds "d_len s"]
          by (auto simp: bi_step_def bi_inv_def consume_def span_in_def span_sizes_def span_words_def span_dwords_def subslice_def)
      qed
    next
      case False
      then show ?thesis
        using dword inv(1) fits(2) [of "w_len s" "d_len s"] by (auto simp: bi_step_def bi_inv_def)
    qed
  qed
qed

lemma bi_step_decreases:
  assumes "\<not> full 0 0" "bi_inv ws ds fits s" "bi_continue (length ws) (length ds) s"
  shows "(bi_step (length ws) (length ds) full s, s)
         \<in> measures [\<lambda>s. (length ws - w_off s) + (length ds - d_off s),
                     \<lambda>s. (length ws - w_off s - w_len s) + (length ds - d_off s - d_len s)]"
proof -
  have pos: "full w d \<Longrightarrow> 0 < w \<or> 0 < d" for w d using assms(1) by (cases "w = 0 \<and> d = 0") auto
  consider (word) "w_off s + w_len s < length ws" "d_off s = 0" "d_len s = 0"
    | (cross) "w_off s + w_len s = length ws" "w_off s < length ws" "d_off s + d_len s < length ds"
    | (dword) "w_off s = length ws" "w_len s = 0" "d_off s + d_len s < length ds"
    using assms(2,3) by (fastforce simp: bi_inv_def bi_continue_def)
  then show ?thesis
    using pos [of "w_len s" "d_len s"] by cases (auto simp: bi_step_def consume_def)
qed

lemma bi_loop_spec:
  assumes "\<not> full 0 0" "fits 0 0" "\<And>w d. \<not> full w d \<Longrightarrow> fits w d \<Longrightarrow> fits (w + 1) d \<and> fits w (d + 1)"
  shows "\<exists>t. bi_loop (length ws) (length ds) full = Some t \<and> bi_inv ws ds fits t
             \<and> \<not> bi_continue (length ws) (length ds) t"
proof -
  let ?b = "bi_continue (length ws) (length ds)" and ?c = "bi_step (length ws) (length ds) full"
  let ?s = "\<lparr>w_off = 0, w_len = 0, d_off = 0, d_len = 0, consumed = []\<rparr>"
  let ?R = "measures [\<lambda>s. (length ws - w_off s) + (length ds - d_off s),
                     \<lambda>s. (length ws - w_off s - w_len s) + (length ds - d_off s - d_len s)]"
  have init: "bi_inv ws ds fits ?s" using assms(2) by (simp add: bi_inv_def)
  have step: "bi_inv ws ds fits s \<Longrightarrow> ?b s \<Longrightarrow> bi_inv ws ds fits (?c s)" for s
    using assms(2,3) by (intro bi_step_inv)
  have dec: "(?c s, s) \<in> ?R" if "bi_inv ws ds fits s \<and> ?b s" for s
    by (rule bi_step_decreases [of full ws ds fits, OF assms(1)]) (use that in simp_all)
  have "\<exists>t. while_option ?b ?c ?s = Some t"
    by (rule wf_rel_while_option_Some [of ?R "bi_inv ws ds fits", OF _ dec]) (use init step in simp_all)
  then obtain t where t: "while_option ?b ?c ?s = Some t" by blast
  then have "bi_inv ws ds fits t" using init step while_option_rule [of "bi_inv ws ds fits" ?b ?c ?s t] by blast
  moreover have "\<not> ?b t" using t by (rule while_option_stop)
  ultimately show ?thesis using t by (auto simp: bi_loop_def)
qed

lemma bi_loop_execute_spec:
  assumes "\<not> full 0 0" "fits 0 0" "\<And>w d. \<not> full w d \<Longrightarrow> fits w d \<Longrightarrow> fits (w + 1) d \<and> fits w (d + 1)"
  shows "\<exists>spans. bi_loop_execute (length ws) (length ds) full = Some spans
           \<and> list_all (\<lambda>c. span_in (length ws) (length ds) c \<and> span_sizes fits c) spans
           \<and> concat (map (span_words ws) spans) = ws \<and> concat (map (span_dwords ds) spans) = ds"
proof -
  obtain t where t: "bi_loop (length ws) (length ds) full = Some t" "bi_inv ws ds fits t"
    "\<not> bi_continue (length ws) (length ds) t"
    using bi_loop_spec [of full fits ws ds] assms by blast
  then have e: "w_len t = length ws - w_off t" "d_len t = length ds - d_off t" "w_off t \<le> length ws" "d_off t \<le> length ds"
    by (auto simp: bi_inv_def bi_continue_def)
  then have fits: "fits (length ws - w_off t) (length ds - d_off t)" using t(2) by (simp add: bi_inv_def)
  show ?thesis
  proof (cases "w_off t < length ws \<or> d_off t < length ds")
    case True
    then show ?thesis
      using t e fits
      by (simp add: bi_loop_execute_def bi_inv_def span_in_def span_sizes_def span_words_def span_dwords_def subslice_def)
  next
    case False
    then show ?thesis using t e by (simp add: bi_loop_execute_def bi_inv_def)
  qed
qed

lemma span_lists_in:
  "span_in (length ws) (length ds) s \<Longrightarrow> span_lists ws ds s = (span_words ws s, span_dwords ds s)"
  by (auto simp: span_in_def span_lists_def span_words_def span_dwords_def subslice_def split: prod.splits)

lemma empty_span: "\<not> nonempty_span s \<Longrightarrow> span_words ws s = [] \<and> span_dwords ds s = []"
  by (auto simp: nonempty_span_def span_words_def span_dwords_def subslice_def split: prod.splits)

lemma concat_nonempty:
  "concat (map (span_words ws) (filter nonempty_span spans)) = concat (map (span_words ws) spans)"
  "concat (map (span_dwords ds) (filter nonempty_span spans)) = concat (map (span_dwords ds) spans)"
  by (induction spans) (auto dest: empty_span)

section \<open>Properties\<close>

definition sample_writes :: "WriteEntry list" where
  "sample_writes =
     [\<lparr>we_addr = \<lparr>addr_device = Dev_D, addr_head = 101, addr_bit = None\<rparr>, we_word_len = 2, we_device_code = 0xA8, we_data = [3, 4, 5, 6]\<rparr>,
      \<lparr>we_addr = \<lparr>addr_device = Dev_D, addr_head = 100, addr_bit = None\<rparr>, we_word_len = 1, we_device_code = 0xA8, we_data = [1, 2]\<rparr>]"

text \<open>Random reads: planning ends, every word and dword entry is asked for exactly once and in
  order, and no request asks for more units than the series allows.\<close>

theorem mc_random_read_plan:
  "\<exists>bs. plan_random_read_batches series ws ds = Some bs
        \<and> concat (map rr_words bs) = ws \<and> concat (map rr_dwords bs) = ds
        \<and> (series \<noteq> Series_A \<longrightarrow>
             list_all (\<lambda>b. length (rr_words b) + length (rr_dwords b) \<le> unat (device_random_read_in_word_points_max series)) bs)"
proof (cases "ws = [] \<and> ds = []")
  case True
  then show ?thesis by (simp add: plan_random_read_batches_def)
next
  case False
  let ?m = "unat (device_random_read_in_word_points_max series)"
  let ?fits = "\<lambda>w d. ?m = 0 \<or> w + d \<le> ?m"
  have full: "\<not> read_full series 0 0" by (simp add: read_full_def Let_def)
  have step: "\<not> read_full series w d \<Longrightarrow> ?fits w d \<Longrightarrow> ?fits (w + 1) d \<and> ?fits w (d + 1)" for w d
    by (auto simp: read_full_def Let_def split: if_splits)
  obtain spans where spans: "bi_loop_execute (length ws) (length ds) (read_full series) = Some spans"
    "list_all (\<lambda>c. span_in (length ws) (length ds) c \<and> span_sizes ?fits c) spans"
    "concat (map (span_words ws) spans) = ws" "concat (map (span_dwords ds) spans) = ds"
    using bi_loop_execute_spec [of "read_full series" ?fits ws ds, OF full _ step] by auto
  let ?bs = "map (\<lambda>s. \<lparr>rr_words = span_words ws s, rr_dwords = span_dwords ds s\<rparr>) (filter nonempty_span spans)"
  have bs: "plan_random_read_batches series ws ds = Some ?bs"
    using False spans(1,2) by (auto simp: plan_random_read_batches_def span_lists_in list_all_iff)
  have "concat (map rr_words ?bs) = ws" "concat (map rr_dwords ?bs) = ds"
    using spans(3,4) concat_nonempty [of ws spans] concat_nonempty(2) [of ds spans] by (simp_all add: comp_def)
  moreover have "?m \<noteq> 0" if "series \<noteq> Series_A" using that by (cases series) simp_all
  then have "series \<noteq> Series_A \<longrightarrow> list_all (\<lambda>b. length (rr_words b) + length (rr_dwords b) \<le> ?m) ?bs"
    using spans(2) by (auto simp: list_all_iff span_sizes_def span_in_def span_words_def span_dwords_def)
  ultimately show ?thesis using bs by blast
qed

text \<open>Random writes: planning ends and loses nothing, but a request may exceed the limit of the series
  by up to one entry, because the size is tested before the entry that crosses the limit is added.\<close>

lemma mc_random_write_plan:
  "\<exists>bs. plan_random_write_batches series ws ds = Some bs
        \<and> concat (map rw_words bs) = ws \<and> concat (map rw_dwords bs) = ds
        \<and> list_all (\<lambda>b. 12 * length (rw_words b) + 14 * length (rw_dwords b)
                        < unat (device_random_write_in_word_points_max series) + 14) bs"
proof (cases "ws = [] \<and> ds = []")
  case True
  then show ?thesis by (simp add: plan_random_write_batches_def)
next
  case False
  let ?m = "unat (device_random_write_in_word_points_max series)"
  let ?fits = "\<lambda>w d. 12 * w + 14 * d < ?m + 14"
  have m: "?m \<noteq> 0" by (cases series) simp_all
  have full: "\<not> write_full series 0 0" by (simp add: write_full_def Let_def)
  have step: "\<not> write_full series w d \<Longrightarrow> ?fits w d \<Longrightarrow> ?fits (w + 1) d \<and> ?fits w (d + 1)" for w d
    using m by (simp add: write_full_def Let_def)
  obtain spans where spans: "bi_loop_execute (length ws) (length ds) (write_full series) = Some spans"
    "list_all (\<lambda>c. span_in (length ws) (length ds) c \<and> span_sizes ?fits c) spans"
    "concat (map (span_words ws) spans) = ws" "concat (map (span_dwords ds) spans) = ds"
    using bi_loop_execute_spec [of "write_full series" ?fits ws ds, OF full _ step] by auto
  let ?bs = "map (\<lambda>s. \<lparr>rw_words = span_words ws s, rw_dwords = span_dwords ds s\<rparr>) (filter nonempty_span spans)"
  have "plan_random_write_batches series ws ds = Some ?bs"
    using False spans(1,2) by (auto simp: plan_random_write_batches_def span_lists_in list_all_iff)
  moreover have "concat (map rw_words ?bs) = ws" "concat (map rw_dwords ?bs) = ds"
    using spans(3,4) concat_nonempty [of ws spans] concat_nonempty(2) [of ds spans] by (simp_all add: comp_def)
  moreover have "list_all (\<lambda>b. 12 * length (rw_words b) + 14 * length (rw_dwords b) < ?m + 14) ?bs"
    using spans(2) by (auto simp: list_all_iff span_sizes_def span_in_def span_words_def span_dwords_def)
  ultimately show ?thesis by blast
qed

text \<open>The limit is crossed in fact: 79 word entries and one dword entry, which weigh 962, go out in one
  request of a QnA series PLC, whose limit is 960.\<close>

theorem mc_random_write_exceeds_limit:
  "bi_loop_execute 79 1 (write_full QnA) = Some [(0, 79, 0, 1)]
   \<and> unat (device_random_write_in_word_points_max QnA) < 12 * 79 + 14 * 1"
  by code_simp

theorem mc_random_read_plan_witness:
  "\<exists>bs. plan_random_read_batches QnA [\<lparr>rr_index = 0, rr_addr = \<lparr>addr_device = Dev_D, addr_head = 7, addr_bit = None\<rparr>, rr_device_code = 0xA8\<rparr>] []
        = Some bs \<and> list_all (\<lambda>b. length (rr_words b) + length (rr_dwords b) \<le> 96) bs"
  using mc_random_read_plan [of QnA "[\<lparr>rr_index = 0, rr_addr = \<lparr>addr_device = Dev_D, addr_head = 7, addr_bit = None\<rparr>, rr_device_code = 0xA8\<rparr>]" "[]"]
  by auto

end
