(* ===== verification/Mc_Session.thy ===== *)
theory Mc_Session
  imports Mc_Planner
begin

text \<open>
  The MC session (\<open>mc/src/protocol/session/mod.rs\<close>): the bit payload encoding, batched reads and
  writes of words and bits, random reads and writes, and the connection task that pairs every
  request with one response.

  The link to the PLC is a parameter: a function from a request message and the state of the
  other side to the outcome of the exchange and the new state.  The lemmas are about every link
  that serves batches of words from a memory: every configured point on a word device gets the bytes
  the memory holds for it, and a list of writes leaves in the memory what writing one by one would.
  Bit devices are asked for in units of words and the answer is read in units of bits, so the
  lemmas on bits are about the plan of the batches and about what that mismatch does.
\<close>

section \<open>Errors and the link\<close>

datatype IoErrorKind = BrokenPipe | NotConnected | TimedOut | UnexpectedEof | InvalidInput | InvalidData | OtherIo

type_synonym io_error = "IoErrorKind \<times> string"

datatype McError =
    Io io_error
  | RequestTimeout
  | InvalidFrame
  | ProtocolViolation string
  | EncodeError string
  | DecodeError string
  | UnsupportedFeature string
  | EndCode u16

type_synonym 's mc_link = "McMessage \<Rightarrow> 's \<Rightarrow> (io_error + McMessage) \<times> 's"

text \<open>\<open>Duration::as_millis().max(250) as u32\<close>.\<close>

definition monitoring_ms :: "nat \<Rightarrow> u32" where
  "monitoring_ms timeout_ms = of_nat (max timeout_ms 250)"

record SessionConfig =
  sc_series :: McSeries
  sc_frame_variant :: McFrameVariant
  sc_read_timeout :: nat
  sc_write_timeout :: nat

definition exchange :: "'s mc_link \<Rightarrow> McMessage \<Rightarrow> 's \<Rightarrow> (McError + McMessage) \<times> 's" where
  "exchange link msg s =
     (case link msg s of
        (Inr m, s') \<Rightarrow> (Inr m, s')
      | (Inl e, s') \<Rightarrow> (Inl (if fst e = TimedOut then RequestTimeout else Io e), s'))"

text \<open>The two ways the session takes an acknowledgement apart: a read needs a 3E header with a raw body, a
  write only looks at the header.\<close>

definition read_ack :: "string \<Rightarrow> McMessage \<Rightarrow> McError + u16 \<times> bytes" where
  "read_ack context m =
     (case (msg_header m, msg_body m) of
        (Ack3E h, Some (Raw b)) \<Rightarrow> Inr (k3_end_code h, b)
      | _ \<Rightarrow> Inl (ProtocolViolation context))"

definition write_ack :: "string \<Rightarrow> McMessage \<Rightarrow> McError + unit" where
  "write_ack context m =
     (case msg_header m of
        Ack3E h \<Rightarrow> if k3_end_code h \<noteq> 0 then Inl (EndCode (k3_end_code h)) else Inr ()
      | _ \<Rightarrow> Inl (ProtocolViolation context))"

section \<open>Bit payloads\<close>

text \<open>One nibble per bit, the high nibble first.\<close>

fun push_nibbles :: "nat \<Rightarrow> bytes \<Rightarrow> bool list \<Rightarrow> bool list" where
  "push_nibbles points [] res = res"
| "push_nibbles points (b # bs) res =
     (let hi = b AND 0xF0 = 0x10; lo = b AND 0x0F = 0x01;
          res = (if length res < points then res @ [hi] else res);
          res = (if length res < points then res @ [lo] else res)
      in if points \<le> length res then res else push_nibbles points bs res)"

definition decode_mc_bits :: "bytes \<Rightarrow> u16 \<Rightarrow> bool list" where
  "decode_mc_bits payload points = push_nibbles (unat points) payload []"

fun encode_mc_bits :: "bool list \<Rightarrow> bytes" where
  "encode_mc_bits [] = []"
| "encode_mc_bits [a] = [if a then 0x10 else 0]"
| "encode_mc_bits (a # b # r) = ((if a then 0x10 else 0) OR (if b then 0x01 else 0)) # encode_mc_bits r"

section \<open>Batched reads\<close>

primrec read_word_batches ::
  "'s mc_link \<Rightarrow> SessionConfig \<Rightarrow> ReadBatchSpec list \<Rightarrow> 's \<Rightarrow> (McError + ReadBatchResult list) \<times> 's" where
  "read_word_batches link cfg [] s = (Inr [], s)"
| "read_word_batches link cfg (b # bs) s =
     (case exchange link
             (build_device_batch_read_message (sc_series cfg) (sc_frame_variant cfg) (monitoring_ms (sc_read_timeout cfg))
                (rb_head b) (rb_points b) (rb_device_code b)) s of
        (Inl e, s') \<Rightarrow> (Inl e, s')
      | (Inr m, s') \<Rightarrow>
          (case read_ack ''unexpected MC response header for read_points_typed (word/dword)'' m of
             Inl e \<Rightarrow> (Inl e, s')
           | Inr (code, payload) \<Rightarrow>
               (case read_word_batches link cfg bs s' of
                  (Inl e, s'') \<Rightarrow> (Inl e, s'')
                | (Inr rs, s'') \<Rightarrow> (Inr (\<lparr>br_end_code = code, br_payload = Some payload\<rparr> # rs), s''))))"

record BitReadBatchSpec =
  bb_device :: McDeviceType
  bb_device_code :: u16
  bb_head :: u32
  bb_points :: u16
  bb_entries :: "(nat \<times> u16) list"

definition bit_joins :: "McPlannerConfig \<Rightarrow> BitReadBatchSpec \<Rightarrow> PointReadSpec \<Rightarrow> bool" where
  "bit_joins cfg batch spec \<longleftrightarrow>
     bb_device batch = addr_device (rs_addr spec) \<and> bb_device_code batch = rs_device_code spec
     \<and> addr_head (rs_addr spec) = sat_add (bb_head batch) (ucast (bb_points batch))
     \<and> unat (sat_add (bb_points batch) (rs_word_len spec)) \<le> unat (max_points_per_batch cfg)"

definition bit_begins :: "PointReadSpec \<Rightarrow> BitReadBatchSpec" where
  "bit_begins spec =
     \<lparr>bb_device = addr_device (rs_addr spec), bb_device_code = rs_device_code spec,
      bb_head = addr_head (rs_addr spec), bb_points = rs_word_len spec, bb_entries = [(rs_index spec, 0)]\<rparr>"

definition bit_takes :: "BitReadBatchSpec \<Rightarrow> PointReadSpec \<Rightarrow> BitReadBatchSpec option" where
  "bit_takes batch spec =
     Some (batch\<lparr>bb_points := sat_add (bb_points batch) (rs_word_len spec),
                 bb_entries := bb_entries batch @ [(rs_index spec, bb_points batch)]\<rparr>)"

definition plan_bit_batches :: "McPlannerConfig \<Rightarrow> PointReadSpec list \<Rightarrow> BitReadBatchSpec list" where
  "plan_bit_batches cfg specs =
     the (batch_all (bit_joins cfg) bit_begins bit_takes
            (sort_key (\<lambda>s. (device_index (addr_device (rs_addr s)), addr_head (rs_addr s))) specs))"

definition bit_batch_items :: "BitReadBatchSpec \<Rightarrow> u16 \<Rightarrow> bytes \<Rightarrow> McReadItemRaw list" where
  "bit_batch_items b code payload =
     (if code \<noteq> 0 then map (\<lambda>(i, _). \<lparr>ri_index = i, ri_end_code = code, ri_payload = None\<rparr>) (bb_entries b)
      else let bits = decode_mc_bits payload (bb_points b)
           in map (\<lambda>(i, off). \<lparr>ri_index = i, ri_end_code = 0,
                    ri_payload = (if length bits \<le> unat off then None
                                  else Some [if bits ! unat off then 1 else 0])\<rparr>) (bb_entries b))"

primrec read_bit_batches ::
  "'s mc_link \<Rightarrow> SessionConfig \<Rightarrow> BitReadBatchSpec list \<Rightarrow> 's \<Rightarrow> (McError + McReadItemRaw list) \<times> 's" where
  "read_bit_batches link cfg [] s = (Inr [], s)"
| "read_bit_batches link cfg (b # bs) s =
     (case exchange link
             (build_device_batch_read_message (sc_series cfg) (sc_frame_variant cfg) (monitoring_ms (sc_read_timeout cfg))
                (bb_head b) (bb_points b) (bb_device_code b)) s of
        (Inl e, s') \<Rightarrow> (Inl e, s')
      | (Inr m, s') \<Rightarrow>
          (case read_ack ''unexpected MC response header for read_points_typed_bits'' m of
             Inl e \<Rightarrow> (Inl e, s')
           | Inr (code, payload) \<Rightarrow>
               (case read_bit_batches link cfg bs s' of
                  (Inl e, s'') \<Rightarrow> (Inl e, s'')
                | (Inr items, s'') \<Rightarrow> (Inr (bit_batch_items b code payload @ items), s''))))"

definition read_points_raw_bits ::
  "'s mc_link \<Rightarrow> SessionConfig \<Rightarrow> McPlannerConfig \<Rightarrow> PointReadSpec list \<Rightarrow> 's \<Rightarrow> (McError + McReadItemRaw list) \<times> 's" where
  "read_points_raw_bits link cfg pcfg specs s =
     (if specs = [] then (Inr [], s)
      else if \<not> list_all (\<lambda>x. dev_is_bit (addr_device (rs_addr x))) specs
        then (Inl (ProtocolViolation ''read_points_typed_bits expects only bit-addressed devices''), s)
      else read_bit_batches link cfg (plan_bit_batches pcfg specs) s)"

definition place_items :: "McReadItemRaw list \<Rightarrow> McReadItemRaw list \<Rightarrow> McReadItemRaw list" where
  "place_items items results =
     fold (\<lambda>it r. if ri_index it < length r then r[ri_index it := it] else r) items results"

text \<open>The word and dword points, written into the results.\<close>

definition word_phase ::
  "'s mc_link \<Rightarrow> SessionConfig \<Rightarrow> McPlannerConfig \<Rightarrow> PointReadSpec list \<Rightarrow> McReadItemRaw list \<Rightarrow> 's
   \<Rightarrow> (McError + McReadItemRaw list) \<times> 's" where
  "word_phase link cfg pcfg word_specs results s =
     (if word_specs = [] then (Inr results, s)
      else let batches = plan_read_batches pcfg word_specs
           in case read_word_batches link cfg batches s of
                (Inl e, s') \<Rightarrow> (Inl e, s')
              | (Inr rs, s') \<Rightarrow> (Inr (place_items (merge_read_raw batches rs) results), s'))"

definition read_points_raw ::
  "'s mc_link \<Rightarrow> SessionConfig \<Rightarrow> McPlannerConfig \<Rightarrow> PointReadSpec list \<Rightarrow> 's \<Rightarrow> (McError + McReadItemRaw list) \<times> 's" where
  "read_points_raw link cfg pcfg specs s =
     (if specs = [] then (Inr [], s)
      else
        let bit_specs = filter (\<lambda>x. dev_is_bit (addr_device (rs_addr x))) specs;
            word_specs = filter (\<lambda>x. \<not> dev_is_bit (addr_device (rs_addr x))) specs;
            results = default_items (fold max (map rs_index (word_specs @ bit_specs)) 0 + 1)
        in case word_phase link cfg pcfg word_specs results s of
             (Inl e, s1) \<Rightarrow> (Inl e, s1)
           | (Inr results, s1) \<Rightarrow>
               if bit_specs = [] then (Inr results, s1)
               else case read_points_raw_bits link cfg pcfg bit_specs s1 of
                 (Inl e, s2) \<Rightarrow> (Inl e, s2)
               | (Inr items, s2) \<Rightarrow> (Inr (place_items items results), s2))"

section \<open>Batched writes\<close>

record BitWriteBatch =
  bw_device :: McDeviceType
  bw_device_code :: u16
  bw_head :: u32
  bw_points :: u16
  bw_entries :: "WriteEntry list"

definition bit_write_joins :: "McPlannerConfig \<Rightarrow> BitWriteBatch \<Rightarrow> WriteEntry \<Rightarrow> bool" where
  "bit_write_joins cfg batch e \<longleftrightarrow>
     bw_device batch = addr_device (we_addr e) \<and> bw_device_code batch = we_device_code e
     \<and> addr_head (we_addr e) = sat_add (bw_head batch) (ucast (bw_points batch))
     \<and> unat (sat_add (bw_points batch) (we_word_len e)) \<le> unat (max_points_per_batch cfg)"

definition bit_write_begins :: "WriteEntry \<Rightarrow> BitWriteBatch" where
  "bit_write_begins e =
     \<lparr>bw_device = addr_device (we_addr e), bw_device_code = we_device_code e,
      bw_head = addr_head (we_addr e), bw_points = we_word_len e, bw_entries = [e]\<rparr>"

definition bit_write_takes :: "BitWriteBatch \<Rightarrow> WriteEntry \<Rightarrow> BitWriteBatch option" where
  "bit_write_takes batch e =
     Some (batch\<lparr>bw_points := sat_add (bw_points batch) (we_word_len e), bw_entries := bw_entries batch @ [e]\<rparr>)"

definition plan_bit_writes :: "McPlannerConfig \<Rightarrow> WriteEntry list \<Rightarrow> BitWriteBatch list" where
  "plan_bit_writes cfg entries =
     the (batch_all (bit_write_joins cfg) bit_write_begins bit_write_takes
            (sort_key (\<lambda>e. (device_index (addr_device (we_addr e)), addr_head (we_addr e))) entries))"

text \<open>The value of an entry is its first byte.\<close>

definition entry_bool :: "WriteEntry \<Rightarrow> bool" where
  "entry_bool e = (case we_data e of [] \<Rightarrow> False | f # _ \<Rightarrow> f \<noteq> 0)"

primrec write_all :: "'s mc_link \<Rightarrow> string \<Rightarrow> McMessage list \<Rightarrow> 's \<Rightarrow> (McError + unit) \<times> 's" where
  "write_all link context [] s = (Inr (), s)"
| "write_all link context (m # ms) s =
     (case exchange link m s of
        (Inl e, s') \<Rightarrow> (Inl e, s')
      | (Inr r, s') \<Rightarrow>
          (case write_ack context r of Inl e \<Rightarrow> (Inl e, s') | Inr _ \<Rightarrow> write_all link context ms s'))"

definition bit_write_message :: "SessionConfig \<Rightarrow> BitWriteBatch \<Rightarrow> McMessage" where
  "bit_write_message cfg b =
     \<lparr>msg_header = Req3E (build_3e_req_header (sc_frame_variant cfg) (monitoring_ms (sc_write_timeout cfg))),
      msg_body = Some (Parsed
        \<lparr>pdu_series = sc_series cfg, pdu_command = DeviceAccessBatchWriteUnits,
         pdu_body = Request (BatchWriteUnits (bw_head b) (bw_points b) (bw_device_code b)
                               (encode_mc_bits (map entry_bool (bw_entries b))))\<rparr>)\<rparr>"

definition write_points_typed_bits ::
  "'s mc_link \<Rightarrow> SessionConfig \<Rightarrow> McPlannerConfig \<Rightarrow> WriteEntry list \<Rightarrow> 's \<Rightarrow> (McError + unit) \<times> 's" where
  "write_points_typed_bits link cfg pcfg entries s =
     (if entries = [] then (Inr (), s)
      else case find (\<lambda>e. \<not> dev_is_bit (addr_device (we_addr e)) \<or> we_data e = []) entries of
        Some e \<Rightarrow>
          (Inl (if \<not> dev_is_bit (addr_device (we_addr e))
                then ProtocolViolation ''write_points_typed_bits expects only bit-addressed devices''
                else EncodeError ''MC bit write entry has empty payload''), s)
      | None \<Rightarrow>
          write_all link ''unexpected MC response header for write_points_typed_bits''
            (map (bit_write_message cfg) (plan_bit_writes pcfg entries)) s)"

definition word_write_message :: "SessionConfig \<Rightarrow> WriteBatchSpec \<Rightarrow> McMessage" where
  "word_write_message cfg b =
     build_device_batch_write_message (sc_series cfg) (sc_frame_variant cfg) (monitoring_ms (sc_write_timeout cfg))
       (wb_head b) (wb_points b) (wb_device_code b) (wb_data b)"

text \<open>\<open>None\<close> is a panic of the planner.\<close>

definition write_points_raw ::
  "'s mc_link \<Rightarrow> SessionConfig \<Rightarrow> McPlannerConfig \<Rightarrow> WriteEntry list \<Rightarrow> 's \<Rightarrow> ((McError + unit) \<times> 's) option" where
  "write_points_raw link cfg pcfg entries s =
     (if entries = [] then Some (Inr (), s)
      else
        let bit_entries = filter (\<lambda>e. dev_is_bit (addr_device (we_addr e))) entries;
            word_entries = filter (\<lambda>e. \<not> dev_is_bit (addr_device (we_addr e))) entries;
            words =
              (if word_entries = [] then Some (Inr (), s)
               else map_option
                 (\<lambda>bs. write_all link ''unexpected MC response header for write_points_typed''
                    (map (word_write_message cfg) bs) s)
                 (plan_write_batches pcfg word_entries))
        in case words of
             None \<Rightarrow> None
           | Some (Inl e, s') \<Rightarrow> Some (Inl e, s')
           | Some (Inr _, s') \<Rightarrow>
               if bit_entries = [] then Some (Inr (), s')
               else Some (write_points_typed_bits link cfg pcfg bit_entries s'))"

section \<open>Random reads and writes\<close>

definition split_units :: "string \<Rightarrow> string \<Rightarrow> ('a \<Rightarrow> McLogicalAddress) \<Rightarrow> 'a list \<Rightarrow> McError + 'a list \<times> 'a list" where
  "split_units bit_context other_context addr entries =
     (case find (\<lambda>e. dev_is_bit (addr_device (addr e)) \<or> \<not> dev_is_word (addr_device (addr e)) \<and> \<not> dev_is_dword (addr_device (addr e))) entries of
        Some e \<Rightarrow> Inl (ProtocolViolation (if dev_is_bit (addr_device (addr e)) then bit_context else other_context))
      | None \<Rightarrow> Inr (filter (\<lambda>e. \<not> dev_is_dword (addr_device (addr e))) entries,
                     filter (\<lambda>e. dev_is_dword (addr_device (addr e))) entries))"

text \<open>Cutting the payload into the entries' slices; \<open>None\<close> when it is too short.\<close>

fun attach_slices :: "nat \<Rightarrow> bytes \<Rightarrow> RandomReadEntry list \<Rightarrow> nat \<Rightarrow> McReadItemRaw list \<Rightarrow> (nat \<times> McReadItemRaw list) option" where
  "attach_slices n payload [] offset results = Some (offset, results)"
| "attach_slices n payload (e # es) offset results =
     (if length payload < offset + n then None
      else attach_slices n payload es (offset + n)
             (put_item (rr_index e) 0 (Some (subslice payload offset (offset + n))) results))"

definition random_batch_items ::
  "RandomReadBatchSpec \<Rightarrow> u16 \<Rightarrow> bytes \<Rightarrow> McReadItemRaw list \<Rightarrow> McError + McReadItemRaw list" where
  "random_batch_items b code payload results =
     (if code \<noteq> 0 then Inr (fold (\<lambda>e. put_item (rr_index e) code None) (rr_words b @ rr_dwords b) results)
      else case attach_slices 2 payload (rr_words b) 0 results of
        None \<Rightarrow> Inl (ProtocolViolation ''MC random read payload too short for word entries'')
      | Some (offset, results) \<Rightarrow>
          (case attach_slices 4 payload (rr_dwords b) offset results of
             None \<Rightarrow> Inl (ProtocolViolation ''MC random read payload too short for dword entries'')
           | Some (_, results) \<Rightarrow> Inr results))"

definition random_addr :: "RandomReadEntry \<Rightarrow> u32 \<times> u16" where
  "random_addr e = (addr_head (rr_addr e), rr_device_code e)"

primrec read_random_batches ::
  "'s mc_link \<Rightarrow> SessionConfig \<Rightarrow> RandomReadBatchSpec list \<Rightarrow> McReadItemRaw list \<Rightarrow> 's \<Rightarrow> (McError + McReadItemRaw list) \<times> 's" where
  "read_random_batches link cfg [] results s = (Inr results, s)"
| "read_random_batches link cfg (b # bs) results s =
     (case exchange link
             (build_device_random_read_message (sc_series cfg) (sc_frame_variant cfg) (monitoring_ms (sc_read_timeout cfg))
                (map random_addr (rr_words b)) (map random_addr (rr_dwords b))) s of
        (Inl e, s') \<Rightarrow> (Inl e, s')
      | (Inr m, s') \<Rightarrow>
          (case read_ack ''unexpected MC response header for read_random_points_typed'' m of
             Inl e \<Rightarrow> (Inl e, s')
           | Inr (code, payload) \<Rightarrow>
               (case random_batch_items b code payload results of
                  Inl e \<Rightarrow> (Inl e, s')
                | Inr results \<Rightarrow> read_random_batches link cfg bs results s')))"

text \<open>A loop of the random planner that does not end is \<open>None\<close>.\<close>

definition read_random_points_raw ::
  "'s mc_link \<Rightarrow> SessionConfig \<Rightarrow> RandomReadEntry list \<Rightarrow> 's \<Rightarrow> ((McError + McReadItemRaw list) \<times> 's) option" where
  "read_random_points_raw link cfg entries s =
     (if entries = [] then Some (Inr [], s)
      else case split_units ''read_random_points_typed does not support bit devices''
                  ''read_random_points_typed expects word or dword devices'' rr_addr entries of
        Inl e \<Rightarrow> Some (Inl e, s)
      | Inr (ws, ds) \<Rightarrow>
          map_option
            (\<lambda>bs. read_random_batches link cfg bs (default_items (fold max (map rr_index entries) 0 + 1)) s)
            (plan_random_read_batches (sc_series cfg) ws ds))"

definition random_item :: "RandomWriteEntry \<Rightarrow> u32 \<times> u16 \<times> bytes" where
  "random_item e = (addr_head (rw_addr e), rw_device_code e, rw_data e)"

definition write_random_points_raw ::
  "'s mc_link \<Rightarrow> SessionConfig \<Rightarrow> RandomWriteEntry list \<Rightarrow> 's \<Rightarrow> ((McError + unit) \<times> 's) option" where
  "write_random_points_raw link cfg entries s =
     (if entries = [] then Some (Inr (), s)
      else case split_units ''write_random_points_typed does not support bit devices''
                  ''write_random_points_typed expects word or dword devices'' rw_addr entries of
        Inl e \<Rightarrow> Some (Inl e, s)
      | Inr (ws, ds) \<Rightarrow>
          map_option
            (\<lambda>bs. write_all link ''unexpected MC response header for write_random_points_typed''
               (map (\<lambda>b. build_device_random_write_message (sc_series cfg) (sc_frame_variant cfg)
                          (monitoring_ms (sc_write_timeout cfg)) (map random_item (rw_words b)) (map random_item (rw_dwords b))) bs) s)
            (plan_random_write_batches (sc_series cfg) ws ds))"

record MultiAddressReadSpec =
  mr_index :: nat
  mr_addr :: McLogicalAddress

record MultiAddressWriteSpec =
  mw_addr :: McLogicalAddress
  mw_data :: bytes

definition check_unit :: "string \<Rightarrow> string \<Rightarrow> string \<Rightarrow> McLogicalAddress \<Rightarrow> McError + u16" where
  "check_unit bit_context other_context code_context a =
     (if dev_is_bit (addr_device a) then Inl (ProtocolViolation bit_context)
      else if \<not> dev_is_word (addr_device a) \<and> \<not> dev_is_dword (addr_device a) then Inl (ProtocolViolation other_context)
      else case device_code_3e (addr_device a) of
        None \<Rightarrow> Inl (ProtocolViolation code_context)
      | Some code \<Rightarrow> Inr code)"

fun map_res :: "('a \<Rightarrow> 'e + 'b) \<Rightarrow> 'a list \<Rightarrow> 'e + 'b list" where
  "map_res f [] = Inr []"
| "map_res f (x # xs) = res_bind (f x) (\<lambda>y. res_bind (map_res f xs) (\<lambda>ys. Inr (y # ys)))"

definition read_multi_address_raw ::
  "'s mc_link \<Rightarrow> SessionConfig \<Rightarrow> MultiAddressReadSpec list \<Rightarrow> 's \<Rightarrow> ((McError + McReadItemRaw list) \<times> 's) option" where
  "read_multi_address_raw link cfg specs s =
     (if specs = [] then Some (Inr [], s)
      else case map_res (\<lambda>x. res_bind
                  (check_unit ''read_multi_address_typed does not support bit devices''
                     ''read_multi_address_typed expects word or dword devices''
                     ''unsupported MC device type for random read'' (mr_addr x))
                  (\<lambda>code. Inr \<lparr>rr_index = mr_index x, rr_addr = mr_addr x, rr_device_code = code\<rparr>)) specs of
        Inl e \<Rightarrow> Some (Inl e, s)
      | Inr entries \<Rightarrow> read_random_points_raw link cfg entries s)"

definition write_multi_address_raw ::
  "'s mc_link \<Rightarrow> SessionConfig \<Rightarrow> MultiAddressWriteSpec list \<Rightarrow> 's \<Rightarrow> ((McError + unit) \<times> 's) option" where
  "write_multi_address_raw link cfg specs s =
     (if specs = [] then Some (Inr (), s)
      else case map_res (\<lambda>x. res_bind
                  (check_unit ''write_multi_address_typed does not support bit devices''
                     ''write_multi_address_typed expects word or dword devices''
                     ''unsupported MC device type for random write'' (mw_addr x))
                  (\<lambda>code. Inr \<lparr>rw_addr = mw_addr x, rw_device_code = code, rw_word_len = 1, rw_data = mw_data x\<rparr>)) specs of
        Inl e \<Rightarrow> Some (Inl e, s)
      | Inr entries \<Rightarrow> write_random_points_raw link cfg entries s)"

section \<open>The connection task\<close>

datatype SessionLifecycleState = Idle | Connecting | Active | Closing | Closed | Failed_state

datatype SessionEvent = LifecycleChanged SessionLifecycleState | TransportError

text \<open>What one turn of the select loop sees: cancellation, a request together with what the transport
  does with it, or the end of the request channel.\<close>

datatype io_outcome = SendFails | Answers McMessage | ReadFails io_error | StreamEnds | Elapses

datatype conn_input = Cancelled | Requested McMessage io_outcome | ChannelClosed

record conn =
  conn_lifecycle :: SessionLifecycleState
  conn_events :: "SessionEvent list"
  conn_running :: bool

definition publish_lifecycle :: "SessionLifecycleState \<Rightarrow> conn \<Rightarrow> conn" where
  "publish_lifecycle st c = c\<lparr>conn_lifecycle := st, conn_events := conn_events c @ [LifecycleChanged st]\<rparr>"

definition transport_error :: "conn \<Rightarrow> conn" where
  "transport_error c = c\<lparr>conn_events := conn_events c @ [TransportError]\<rparr>"

definition break_loop :: "conn \<Rightarrow> conn" where
  "break_loop c = publish_lifecycle Closed (c\<lparr>conn_running := False\<rparr>)"

definition conn_step :: "conn \<Rightarrow> conn_input \<Rightarrow> conn \<times> (io_error + McMessage) option" where
  "conn_step c i =
     (case i of
        Cancelled \<Rightarrow> (break_loop (publish_lifecycle Closing c), None)
      | ChannelClosed \<Rightarrow> (break_loop c, None)
      | Requested m out \<Rightarrow>
          (case out of
             SendFails \<Rightarrow> (break_loop (transport_error c), Some (Inl (BrokenPipe, ''MC write failed'')))
           | Answers r \<Rightarrow> (c, Some (Inr r))
           | ReadFails e \<Rightarrow> (break_loop (transport_error c), Some (Inl e))
           | StreamEnds \<Rightarrow> (break_loop (transport_error c), Some (Inl (UnexpectedEof, ''MC connection closed'')))
           | Elapses \<Rightarrow>
               (break_loop (transport_error c), Some (Inl (TimedOut, ''MC request timed out waiting for response'')))))"

text \<open>The loop over the inputs; the replies are those sent to the requesters, in order.\<close>

fun conn_loop :: "conn \<Rightarrow> conn_input list \<Rightarrow> conn \<times> (io_error + McMessage) list" where
  "conn_loop c [] = (c, [])"
| "conn_loop c (i # is) =
     (if \<not> conn_running c then (c, [])
      else case conn_step c i of
        (c', reply) \<Rightarrow>
          (case conn_loop c' is of (c'', replies) \<Rightarrow> (c'', (case reply of None \<Rightarrow> [] | Some r \<Rightarrow> [r]) @ replies)))"

definition run_connection_with_stream :: "conn \<Rightarrow> conn_input list \<Rightarrow> conn \<times> (io_error + McMessage) list" where
  "run_connection_with_stream c is = conn_loop (publish_lifecycle Active (c\<lparr>conn_running := True\<rparr>)) is"

definition run_connection :: "bool \<Rightarrow> conn \<Rightarrow> conn_input list \<Rightarrow> conn \<times> (io_error + McMessage) list" where
  "run_connection connect_ok c is =
     (let c = publish_lifecycle Connecting c
      in if connect_ok then run_connection_with_stream c is else (publish_lifecycle Failed_state c, []))"

section \<open>Bit payloads round trip\<close>

lemma push_nibbles_encode:
  "length res + length bs = n \<Longrightarrow> push_nibbles n (encode_mc_bits bs) res = res @ bs"
proof (induction bs arbitrary: res rule: encode_mc_bits.induct)
  case (3 a b r)
  then have "push_nibbles n (encode_mc_bits r) (res @ [a, b]) = (res @ [a, b]) @ r"
    by (intro "3.IH") simp
  then show ?case using "3.prems" by (cases a; cases b; cases r) (simp_all add: Let_def)
qed (auto simp: Let_def)

lemma mc_bits_roundtrip: "unat n = length bs \<Longrightarrow> decode_mc_bits (encode_mc_bits bs) n = bs"
  using push_nibbles_encode [of "[]" bs "unat n"] by (simp add: decode_mc_bits_def)

lemma length_encode_mc_bits: "length (encode_mc_bits bs) \<le> length bs"
  by (induction bs rule: encode_mc_bits.induct) simp_all

section \<open>A link that serves batches of words\<close>

text \<open>What the protocol documents of batch access to word devices: a batch read that fits a frame is
  acknowledged with end code zero and the words in ascending order, and a batch write with the data of
  all its words stores them and is acknowledged with end code zero.  Only the requests the session
  builds for its own configuration are asked of the link.\<close>

definition acked :: "bytes \<Rightarrow> McMessage \<Rightarrow> bool" where
  "acked payload m \<longleftrightarrow>
     msg_body m = Some (Raw payload) \<and> (case msg_header m of Ack3E h \<Rightarrow> k3_end_code h = 0 | _ \<Rightarrow> False)"

definition batch_fits :: "McDeviceType \<Rightarrow> u32 \<Rightarrow> u16 \<Rightarrow> u16 \<Rightarrow> bool" where
  "batch_fits d h n c \<longleftrightarrow>
     dev_is_word d \<and> device_code_3e d = Some c \<and> unat h + unat n < 2 ^ 32 \<and> unat n * unit_size d \<le> 0xFFF0"

definition serves_reads :: "SessionConfig \<Rightarrow> 's mc_link \<Rightarrow> ('s \<Rightarrow> plc_memory) \<Rightarrow> bool" where
  "serves_reads cfg link memory \<longleftrightarrow>
     (\<forall>d h n c s. batch_fits d h n c \<longrightarrow>
        (\<exists>m s'. link (build_device_batch_read_message (sc_series cfg) (sc_frame_variant cfg)
                        (monitoring_ms (sc_read_timeout cfg)) h n c) s = (Inr m, s')
                \<and> acked (mem_read (memory s) d (unat h) (unat n)) m \<and> memory s' = memory s))"

definition serves_writes :: "SessionConfig \<Rightarrow> 's mc_link \<Rightarrow> ('s \<Rightarrow> plc_memory) \<Rightarrow> bool" where
  "serves_writes cfg link memory \<longleftrightarrow>
     (\<forall>d h n c data s. batch_fits d h n c \<and> length data = unat n * unit_size d \<longrightarrow>
        (\<exists>m s'. link (build_device_batch_write_message (sc_series cfg) (sc_frame_variant cfg)
                        (monitoring_ms (sc_write_timeout cfg)) h n c data) s = (Inr m, s')
                \<and> acked [] m \<and> memory s' = mem_write d (unat h) (unat n) data (memory s)))"

lemma read_ack_acked: "acked payload m \<Longrightarrow> read_ack ctx m = Inr (0, payload)"
  by (cases "msg_header m") (simp_all add: acked_def read_ack_def)

lemma write_ack_acked: "acked payload m \<Longrightarrow> write_ack ctx m = Inr ()"
  by (cases "msg_header m") (simp_all add: acked_def write_ack_def)

section \<open>Batched reads\<close>

lemma read_word_batches_served:
  assumes "serves_reads cfg link memory" "list_all (read_inv pcfg) bs" "list_all (\<lambda>b. dev_is_word (rb_device b)) bs"
  shows "\<exists>s'. read_word_batches link cfg bs s = (Inr (map (plc_batch (memory s)) bs), s') \<and> memory s' = memory s"
  using assms(2,3)
proof (induction bs arbitrary: s)
  case Nil
  then show ?case by simp
next
  case (Cons b bs)
  then have "batch_fits (rb_device b) (rb_head b) (rb_points b) (rb_device_code b)"
    by (simp add: batch_fits_def read_inv_def)
  then obtain m s1 where m: "link (build_device_batch_read_message (sc_series cfg) (sc_frame_variant cfg)
        (monitoring_ms (sc_read_timeout cfg)) (rb_head b) (rb_points b) (rb_device_code b)) s = (Inr m, s1)"
      "acked (mem_read (memory s) (rb_device b) (unat (rb_head b)) (unat (rb_points b))) m" "memory s1 = memory s"
    using assms(1) unfolding serves_reads_def by blast
  from Cons obtain s' where "read_word_batches link cfg bs s1 = (Inr (map (plc_batch (memory s1)) bs), s')" "memory s' = memory s1"
    by fastforce
  with m show ?case by (simp add: exchange_def read_ack_acked [OF m(2)] plc_batch_def)
qed

text \<open>The item of a point described by its key.\<close>

definition key_item :: "plc_memory \<Rightarrow> nat \<times> McDeviceType \<times> nat \<times> nat \<Rightarrow> McReadItemRaw" where
  "key_item mem k = (case k of (i, d, h, n) \<Rightarrow> \<lparr>ri_index = i, ri_end_code = 0, ri_payload = Some (mem_read mem d h n)\<rparr>)"

lemma length_place [simp]: "length (place_items items r) = length r"
  unfolding place_items_def by (induction items arbitrary: r) simp_all

lemma place_other: "i \<notin> ri_index ` set items \<Longrightarrow> place_items items r ! i = r ! i"
  unfolding place_items_def by (induction items arbitrary: r) simp_all

lemma place_at:
  assumes "distinct (map ri_index items)" "it \<in> set items" "ri_index it < length r"
  shows "place_items items r ! ri_index it = it"
  using assms
proof (induction items arbitrary: r)
  case Nil
  then show ?case by simp
next
  case (Cons a items)
  have step: "place_items (a # items) r = place_items items (if ri_index a < length r then r[ri_index a := a] else r)"
    by (simp add: place_items_def)
  show ?case
  proof (cases "it \<in> set items")
    case True
    then show ?thesis unfolding step using Cons by simp
  next
    case False
    then have "it = a" "ri_index a \<notin> ri_index ` set items" using Cons.prems by auto
    then show ?thesis unfolding step using Cons.prems(3) by (simp add: place_other)
  qed
qed

lemma put_item_index: "map ri_index (put_item i c p r) = map ri_index r"
  by (simp add: put_item_def map_update list_update_same_conv)

lemma fold_put_key_index: "map ri_index (fold (put_key mem) ks r) = map ri_index r"
  by (induction ks arbitrary: r) (simp_all add: put_key_def put_item_index)

lemma merge_read_plc_index:
  assumes "wf_memory mem" "list_all (read_inv cfg) bs"
  shows "map ri_index (merge_read_raw bs (map (plc_batch mem) bs)) = [0..<length (merge_read_raw bs (map (plc_batch mem) bs))]"
proof -
  let ?m = "fold max (concat (map (\<lambda>b. map be_index (rb_entries b)) bs)) 0"
  have "merge_read_raw bs (map (plc_batch mem) bs) = fold (put_key mem) (concat (map read_items bs)) (default_items (?m + 1))"
    by (simp add: merge_read_raw_def Let_def merge_plc [OF assms])
  moreover have "map ri_index (default_items (?m + 1)) = [0..<?m + 1]" by (simp add: default_items_def comp_def map_idI)
  ultimately show ?thesis
    by (metis fold_put_key_index length_default_items length_map)
qed

definition readable_specs :: "McPlannerConfig \<Rightarrow> PointReadSpec list \<Rightarrow> bool" where
  "readable_specs pcfg specs \<longleftrightarrow>
     cfg_ok pcfg \<and> list_all read_ok specs \<and> distinct (map rs_index specs)
     \<and> list_all (\<lambda>x. dev_is_word (addr_device (rs_addr x))) specs"

lemma planned_on_words:
  assumes "readable_specs pcfg specs"
  shows "list_all (\<lambda>b. dev_is_word (rb_device b)) (plan_read_batches pcfg specs)"
proof -
  let ?bs = "plan_read_batches pcfg specs"
  have ok: "cfg_ok pcfg" "list_all read_ok specs" using assms by (simp_all add: readable_specs_def)
  note plan = plan_read_batches_spec [OF ok]
  have "dev_is_word (rb_device b)" if b: "b \<in> set ?bs" for b
  proof -
    have "rb_entries b \<noteq> []" using plan(1) b by (auto simp: read_inv_def list_all_iff)
    then obtain e where "e \<in> set (rb_entries b)" by (cases "rb_entries b") auto
    then have "(be_index e, rb_device b, unat (rb_head b) + unat (offset_words e), unat (len_words e)) \<in> set (concat (map read_items ?bs))"
      using b by (auto simp: read_items_def)
    then have "(be_index e, rb_device b, unat (rb_head b) + unat (offset_words e), unat (len_words e)) \<in> set (map read_key specs)"
      using plan(2) by (metis set_mset_mset)
    then show ?thesis using assms by (auto simp: read_key_def list_all_iff readable_specs_def)
  qed
  then show ?thesis by (simp add: list_all_iff)
qed

lemma words_placed:
  assumes "readable_specs pcfg specs" "wf_memory mem" "s \<in> set specs" "rs_index s < length results"
    and "bs = plan_read_batches pcfg specs"
  shows "place_items (merge_read_raw bs (map (plc_batch mem) bs)) results ! rs_index s = key_item mem (read_key s)"
proof -
  have ok: "cfg_ok pcfg" "list_all read_ok specs" "distinct (map rs_index specs)"
    using assms(1) by (simp_all add: readable_specs_def)
  let ?m = "merge_read_raw bs (map (plc_batch mem) bs)"
  have item: "rs_index s < length ?m" "?m ! rs_index s = key_item mem (read_key s)"
    using mc_batched_read [OF ok assms(2,3,5)] by (simp_all add: key_item_def read_key_def)
  have "distinct (map ri_index ?m)"
    using merge_read_plc_index [OF assms(2) plan_read_batches_spec(1) [OF ok(1,2)]] assms(5) by (metis distinct_upt)
  moreover have "key_item mem (read_key s) \<in> set ?m" using item by (metis nth_mem)
  moreover have "ri_index (key_item mem (read_key s)) = rs_index s" by (simp add: key_item_def read_key_def)
  ultimately show ?thesis using place_at [of ?m "key_item mem (read_key s)" results] assms(4) by simp
qed

lemma fold_max_index: "s \<in> set xs \<Longrightarrow> f s < fold max (map f xs) 0 + (1 :: nat)"
  using fold_max_ge [of "f s" "map f xs" 0] by fastforce

lemma read_points_served:
  assumes "serves_reads cfg link memory" "readable_specs pcfg specs" "wf_memory (memory s)"
  shows "\<exists>results s'. read_points_raw link cfg pcfg specs s = (Inr results, s') \<and> memory s' = memory s
           \<and> (\<forall>x\<in>set specs. rs_index x < length results \<and> results ! rs_index x = key_item (memory s) (read_key x))"
proof (cases "specs = []")
  case True
  then show ?thesis by (simp add: read_points_raw_def)
next
  case False
  let ?bs = "plan_read_batches pcfg specs" and ?r0 = "default_items (fold max (map rs_index specs) 0 + 1)"
  let ?r = "place_items (merge_read_raw ?bs (map (plc_batch (memory s)) ?bs)) ?r0"
  have words: "filter (\<lambda>x. \<not> dev_is_bit (addr_device (rs_addr x))) specs = specs"
    "filter (\<lambda>x. dev_is_bit (addr_device (rs_addr x))) specs = []"
    using assms(2) device_unit by (auto simp: readable_specs_def list_all_iff filter_empty_conv)
  have ok: "cfg_ok pcfg" "list_all read_ok specs" using assms(2) by (simp_all add: readable_specs_def)
  obtain s' where s': "read_word_batches link cfg ?bs s = (Inr (map (plc_batch (memory s)) ?bs), s')" "memory s' = memory s"
    using read_word_batches_served [OF assms(1) plan_read_batches_spec(1) [OF ok] planned_on_words [OF assms(2)]] by blast
  then have "read_points_raw link cfg pcfg specs s = (Inr ?r, s')"
    using False by (simp add: read_points_raw_def words word_phase_def Let_def)
  moreover have len: "rs_index x < length ?r0" if "x \<in> set specs" for x
    using fold_max_index [OF that, of rs_index] by simp
  then have "\<forall>x\<in>set specs. rs_index x < length ?r \<and> ?r ! rs_index x = key_item (memory s) (read_key x)"
    using words_placed [OF assms(2,3)] by simp
  ultimately show ?thesis using s'(2) by blast
qed


text \<open>An instance: a memory that answers batch requests directly.\<close>

definition memory_link :: "plc_memory mc_link" where
  "memory_link m mem =
     (case msg_body m of
        Some (Parsed pdu) \<Rightarrow>
          (case pdu_body pdu of
             Request (BatchReadUnits h n c) \<Rightarrow>
               (case find (\<lambda>d. device_code_3e d = Some c) ordered_devices of
                  Some d \<Rightarrow> (Inr (sample_ack (mem_read mem d (unat h) (unat n))), mem)
                | None \<Rightarrow> (Inl (TimedOut, ''''), mem))
           | Request (BatchWriteUnits h n c data) \<Rightarrow>
               (case find (\<lambda>d. device_code_3e d = Some c) ordered_devices of
                  Some d \<Rightarrow> (Inr (sample_ack []), mem_write d (unat h) (unat n) data mem)
                | None \<Rightarrow> (Inl (TimedOut, ''''), mem))
           | _ \<Rightarrow> (Inl (TimedOut, ''''), mem))
      | _ \<Rightarrow> (Inl (TimedOut, ''''), mem))"

lemma memory_link_serves: "serves_reads cfg memory_link id" "serves_writes cfg memory_link id"
proof -
  have dev: "find (\<lambda>d'. device_code_3e d' = Some c) ordered_devices = Some d" if "device_code_3e d = Some c" for d c
    using find_device_code [of d] that by simp
  show "serves_reads cfg memory_link id" "serves_writes cfg memory_link id"
    unfolding serves_reads_def serves_writes_def
    by (auto simp: memory_link_def build_device_batch_read_message_def build_device_batch_write_message_def
        build_message_def batch_fits_def dev acked_def sample_ack_def)
qed

definition sample_memory :: plc_memory where
  "sample_memory d i = replicate (unit_size d) (of_nat i)"

definition sample_session :: SessionConfig where
  "sample_session = \<lparr>sc_series = QnA, sc_frame_variant = Frame3EBinary, sc_read_timeout = 5000, sc_write_timeout = 5000\<rparr>"

definition sample_planner :: McPlannerConfig where
  "sample_planner = \<lparr>max_points_per_batch = 480, max_bytes_per_frame = 4096\<rparr>"

definition sample_specs :: "PointReadSpec list" where
  "sample_specs =
     [\<lparr>rs_index = 0, rs_addr = \<lparr>addr_device = Dev_D, addr_head = 101, addr_bit = None\<rparr>, rs_word_len = 2, rs_device_code = 0xA8\<rparr>,
      \<lparr>rs_index = 1, rs_addr = \<lparr>addr_device = Dev_W, addr_head = 10, addr_bit = None\<rparr>, rs_word_len = 1, rs_device_code = 0xB4\<rparr>,
      \<lparr>rs_index = 2, rs_addr = \<lparr>addr_device = Dev_D, addr_head = 100, addr_bit = None\<rparr>, rs_word_len = 1, rs_device_code = 0xA8\<rparr>]"

lemma sample_memory_ok: "wf_memory sample_memory"
  by (simp add: wf_memory_def sample_memory_def)


section \<open>Batches of bits\<close>

definition bit_ok :: "PointReadSpec \<Rightarrow> bool" where
  "bit_ok s \<longleftrightarrow> read_ok s \<and> dev_is_bit (addr_device (rs_addr s)) \<and> rs_word_len s = 1"

definition bit_items :: "BitReadBatchSpec \<Rightarrow> (nat \<times> McDeviceType \<times> nat \<times> nat) list" where
  "bit_items b = map (\<lambda>(i, off). (i, bb_device b, unat (bb_head b) + unat off, 1)) (bb_entries b)"

definition bit_inv :: "BitReadBatchSpec \<Rightarrow> bool" where
  "bit_inv b \<longleftrightarrow>
     unat (bb_head b) + unat (bb_points b) < 2 ^ 32 \<and> unat (bb_points b) \<le> 0xFFF0
     \<and> device_code_3e (bb_device b) = Some (bb_device_code b) \<and> dev_is_bit (bb_device b)
     \<and> list_all (\<lambda>(i, off). unat off < unat (bb_points b)) (bb_entries b)"

lemma bit_takes_ok:
  assumes "unat (max_points_per_batch cfg) \<le> 0xFFF0" "bit_ok x" "bit_inv b" "bit_joins cfg b x"
  shows "\<exists>b'. bit_takes b x = Some b' \<and> bit_inv b' \<and> bit_items b' = bit_items b @ [read_key x]"
proof -
  have cap: "unat (sat_add (bb_points b) (rs_word_len x)) \<le> unat (max_points_per_batch cfg)"
    and dev: "bb_device b = addr_device (rs_addr x)"
    and hd: "addr_head (rs_addr x) = sat_add (bb_head b) (ucast (bb_points b))"
    using assms(4) by (auto simp: bit_joins_def)
  have pts: "unat (sat_add (bb_points b) (rs_word_len x)) = unat (bb_points b) + 1"
    using unat_sat_add_u16 [OF cap] assms(1,2) by (simp add: bit_ok_def)
  have addr: "unat (addr_head (rs_addr x)) = unat (bb_head b) + unat (bb_points b)"
    using assms(3) unfolding hd by (intro unat_sat_add_u32) (simp add: bit_inv_def)
  have "list_all (\<lambda>(i, off). unat off < unat (bb_points b) + 1) (bb_entries b)"
    using assms(3) by (auto simp: bit_inv_def list_all_iff)
  then show ?thesis
    using assms cap dev addr pts
    by (auto simp: bit_takes_def bit_inv_def bit_ok_def read_ok_def bit_items_def read_key_def)
qed

interpretation bit_planner: batch_planner "bit_joins cfg" bit_begins bit_takes
  "\<lambda>x. bit_ok x \<and> unat (max_points_per_batch cfg) \<le> 0xFFF0" bit_inv bit_items "\<lambda>x. [read_key x]" for cfg
  by unfold_locales
     (use bit_takes_ok in \<open>auto simp: bit_begins_def bit_inv_def bit_ok_def read_ok_def bit_items_def read_key_def\<close>)

lemma plan_bit_batches_spec:
  assumes "unat (max_points_per_batch cfg) \<le> 0xFFF0" "list_all bit_ok specs"
  shows "list_all bit_inv (plan_bit_batches cfg specs)"
    "mset (concat (map bit_items (plan_bit_batches cfg specs))) = mset (map read_key specs)"
proof -
  let ?xs = "sort_key (\<lambda>s. (device_index (addr_device (rs_addr s)), addr_head (rs_addr s))) specs"
  have "list_all (\<lambda>x. bit_ok x \<and> unat (max_points_per_batch cfg) \<le> 0xFFF0) ?xs"
    using assms by (simp add: list_all_iff)
  then obtain bs where "batch_all (bit_joins cfg) bit_begins bit_takes ?xs = Some bs"
    "list_all bit_inv bs" "concat (map bit_items bs) = concat (map (\<lambda>x. [read_key x]) ?xs)"
    using bit_planner.batch_all_spec by blast
  then show "list_all bit_inv (plan_bit_batches cfg specs)"
    "mset (concat (map bit_items (plan_bit_batches cfg specs))) = mset (map read_key specs)"
    by (simp_all add: plan_bit_batches_def concat_map_singleton)
qed

text \<open>Every request for bits carries the subcommand for units of words, 0x0000 or 0x0002, and never the
  one for units of bits, 0x0001 or 0x0003.  A word carries its bits from the lowest up, so the answer to
  a request that finds only the first of four bits set starts with the byte 0x01: decoded as nibbles,
  the second bit is set and the first is not.\<close>

theorem mc_bits_asked_in_words:
  "default_subcommand DeviceAccessBatchReadUnits series \<in> {0x0000, 0x0002}
   \<and> default_subcommand DeviceAccessBatchWriteUnits series \<in> {0x0000, 0x0002}
   \<and> put_command \<lparr>pdu_series = series, pdu_command = DeviceAccessBatchReadUnits, pdu_body = body\<rparr>
       = [0x01, 0x04] @ u16_to_le (default_subcommand DeviceAccessBatchReadUnits series)
   \<and> decode_mc_bits [0x01, 0x00] 4 = [False, True, False, False]"
  by (simp add: default_subcommand_def put_command_def u16_to_le_def decode_mc_bits_def split: McSeries.splits)

section \<open>Batched writes\<close>

lemma write_all_served:
  assumes "\<And>b s. b \<in> set bs \<Longrightarrow> \<exists>m s'. link (msg b) s = (Inr m, s') \<and> acked [] m \<and> memory s' = eff b (memory s)"
  shows "\<exists>s'. write_all link ctx (map msg bs) s = (Inr (), s') \<and> memory s' = fold eff bs (memory s)"
  using assms
proof (induction bs arbitrary: s)
  case (Cons b bs)
  from Cons.prems [of b s] obtain m s1 where m: "link (msg b) s = (Inr m, s1)" "acked [] m" "memory s1 = eff b (memory s)" by auto
  from Cons obtain s' where "write_all link ctx (map msg bs) s1 = (Inr (), s')" "memory s' = fold eff bs (memory s1)" by fastforce
  with m show ?case by (simp add: exchange_def write_ack_acked [OF m(2)])
qed simp

lemma word_writes_served:
  assumes "serves_writes cfg link memory" "list_all write_inv bs" "list_all (\<lambda>b. dev_is_word (wb_device b)) bs"
  shows "\<exists>s'. write_all link ctx (map (word_write_message cfg) bs) s = (Inr (), s') \<and> memory s' = fold write_batch bs (memory s)"
proof (rule write_all_served)
  fix b s assume "b \<in> set bs"
  then have "batch_fits (wb_device b) (wb_head b) (wb_points b) (wb_device_code b)" "length (wb_data b) = unat (wb_points b) * unit_size (wb_device b)"
    using assms(2,3) by (auto simp: write_inv_def list_all_iff batch_fits_def)
  then show "\<exists>m s'. link (word_write_message cfg b) s = (Inr m, s') \<and> acked [] m \<and> memory s' = write_batch b (memory s)"
    using assms(1) unfolding serves_writes_def word_write_message_def write_batch_def by blast
qed

lemma write_takes_device: "write_takes b x = Some b' \<Longrightarrow> wb_device b' = wb_device b"
  by (auto simp: write_takes_def Let_def split: if_splits)

interpretation word_write_planner: batch_planner "write_joins cfg" write_begins write_takes
  "\<lambda>x. write_ok x \<and> dev_is_word (addr_device (we_addr x)) \<and> cfg_ok cfg" "\<lambda>b. write_inv b \<and> dev_is_word (wb_device b)"
  batch_units entry_units for cfg
proof unfold_locales
  fix x b assume x: "write_ok x \<and> dev_is_word (addr_device (we_addr x)) \<and> cfg_ok cfg"
    and b: "write_inv b \<and> dev_is_word (wb_device b)" "write_joins cfg b x"
  then show "\<exists>b'. write_takes b x = Some b' \<and> (write_inv b' \<and> dev_is_word (wb_device b')) \<and> batch_units b' = batch_units b @ entry_units x"
    using write_takes_ok [of cfg x b] write_takes_device [of b x] by auto
qed (auto simp: write_begins_def write_inv_def write_ok_def batch_units_def entry_units_def)

definition writable_entries :: "McPlannerConfig \<Rightarrow> WriteEntry list \<Rightarrow> bool" where
  "writable_entries pcfg entries \<longleftrightarrow>
     cfg_ok pcfg \<and> list_all (\<lambda>e. write_ok e \<and> dev_is_word (addr_device (we_addr e))) entries
     \<and> distinct (map fst (concat (map entry_units entries)))"

lemma word_writes_planned:
  assumes "serves_writes cfg link memory" "writable_entries pcfg entries"
  shows "\<exists>bs. plan_write_batches pcfg entries = Some bs
           \<and> (\<forall>ctx s. \<exists>s'. write_all link ctx (map (word_write_message cfg) bs) s = (Inr (), s')
                          \<and> memory s' = fold write_batch bs (memory s))
           \<and> mset (concat (map batch_units bs)) = mset (concat (map entry_units entries))"
proof -
  let ?xs = "sort_key (\<lambda>e. (device_index (addr_device (we_addr e)), addr_head (we_addr e))) entries"
  have "list_all (\<lambda>x. write_ok x \<and> dev_is_word (addr_device (we_addr x)) \<and> cfg_ok pcfg) ?xs"
    using assms(2) by (simp add: list_all_iff writable_entries_def)
  then obtain bs where bs: "plan_write_batches pcfg entries = Some bs" "list_all (\<lambda>b. write_inv b \<and> dev_is_word (wb_device b)) bs"
    "concat (map batch_units bs) = concat (map entry_units ?xs)"
    using word_write_planner.batch_all_spec [of pcfg ?xs] unfolding plan_write_batches_def by blast
  moreover have "mset (concat (map entry_units ?xs)) = mset (concat (map entry_units entries))" by (simp add: mset_concat_image)
  ultimately show ?thesis
    using word_writes_served [OF assms(1), of bs] by (auto simp: list_all_iff)
qed

lemma write_points_served:
  assumes "serves_writes cfg link memory" "writable_entries pcfg entries"
  shows "\<exists>s'. write_points_raw link cfg pcfg entries s = Some (Inr (), s') \<and> memory s' = fold write_entry entries (memory s)"
proof (cases "entries = []")
  case True
  then show ?thesis by (simp add: write_points_raw_def)
next
  case False
  have words: "filter (\<lambda>e. \<not> dev_is_bit (addr_device (we_addr e))) entries = entries"
    "filter (\<lambda>e. dev_is_bit (addr_device (we_addr e))) entries = []"
    using assms(2) device_unit by (auto simp: writable_entries_def list_all_iff filter_empty_conv)
  obtain bs where bs: "plan_write_batches pcfg entries = Some bs"
    "\<forall>ctx s. \<exists>s'. write_all link ctx (map (word_write_message cfg) bs) s = (Inr (), s') \<and> memory s' = fold write_batch bs (memory s)"
    "mset (concat (map batch_units bs)) = mset (concat (map entry_units entries))"
    using word_writes_planned [OF assms] by blast
  have "fold write_batch bs (memory s) = fold write_entry entries (memory s)"
    using store_units_permute [of "concat (map entry_units entries)" "concat (map batch_units bs)"] bs(3) assms(2)
    by (simp add: fold_write_batch fold_write_entry writable_entries_def)
  then obtain s' where "write_all link ''unexpected MC response header for write_points_typed'' (map (word_write_message cfg) bs) s
      = (Inr (), s')" "memory s' = fold write_entry entries (memory s)" using bs(2) by metis
  with False bs(1) show ?thesis by (simp add: write_points_raw_def words)
qed



text \<open>The plan of bit writes writes every entry once.\<close>

definition bit_write_ok :: "WriteEntry \<Rightarrow> bool" where
  "bit_write_ok e \<longleftrightarrow> write_ok e \<and> dev_is_bit (addr_device (we_addr e)) \<and> we_word_len e = 1 \<and> (we_data e = [0] \<or> we_data e = [1])"

definition bit_data :: "BitWriteBatch \<Rightarrow> bytes" where
  "bit_data b = map (\<lambda>e. if entry_bool e then 1 else 0) (bw_entries b)"

definition bit_units :: "BitWriteBatch \<Rightarrow> ((McDeviceType \<times> nat) \<times> bytes) list" where
  "bit_units b = write_units (bw_device b) (unat (bw_head b)) (unat (bw_points b)) (bit_data b)"

definition bit_write_inv :: "BitWriteBatch \<Rightarrow> bool" where
  "bit_write_inv b \<longleftrightarrow>
     unat (bw_head b) + unat (bw_points b) < 2 ^ 32 \<and> unat (bw_points b) \<le> 0xFFF0
     \<and> device_code_3e (bw_device b) = Some (bw_device_code b) \<and> dev_is_bit (bw_device b)
     \<and> length (bw_entries b) = unat (bw_points b)"

lemma bit_entry_units:
  assumes "bit_write_ok e"
  shows "entry_units e = write_units (addr_device (we_addr e)) (unat (addr_head (we_addr e))) 1 [if entry_bool e then 1 else 0]"
  using assms by (auto simp: bit_write_ok_def entry_units_def entry_bool_def)

lemma bit_write_takes_ok:
  assumes "unat (max_points_per_batch cfg) \<le> 0xFFF0" "bit_write_ok x" "bit_write_inv b" "bit_write_joins cfg b x"
  shows "\<exists>b'. bit_write_takes b x = Some b' \<and> bit_write_inv b' \<and> bit_units b' = bit_units b @ entry_units x"
proof -
  have cap: "unat (sat_add (bw_points b) (we_word_len x)) \<le> unat (max_points_per_batch cfg)"
    and dev: "bw_device b = addr_device (we_addr x)"
    and hd: "addr_head (we_addr x) = sat_add (bw_head b) (ucast (bw_points b))"
    using assms(4) by (auto simp: bit_write_joins_def)
  have pts: "unat (sat_add (bw_points b) (we_word_len x)) = unat (bw_points b) + 1"
    using unat_sat_add_u16 [OF cap] assms(1,2) by (simp add: bit_write_ok_def)
  have addr: "unat (addr_head (we_addr x)) = unat (bw_head b) + unat (bw_points b)"
    using assms(3) unfolding hd by (intro unat_sat_add_u32) (simp add: bit_write_inv_def)
  have "length (bit_data b) = unat (bw_points b) * unit_size (bw_device b)"
    using assms(3) device_unit(1) [of "bw_device b"] by (simp add: bit_data_def bit_write_inv_def)
  note app = write_units_append [OF this, of "unat (bw_head b)" 1 "[if entry_bool x then 1 else 0]"]
  show ?thesis
    using assms cap dev addr pts app
    by (auto simp: bit_write_takes_def bit_write_inv_def bit_write_ok_def write_ok_def bit_units_def bit_data_def
        bit_entry_units [OF assms(2)])
qed

interpretation bit_write_planner: batch_planner "bit_write_joins cfg" bit_write_begins bit_write_takes
  "\<lambda>x. bit_write_ok x \<and> unat (max_points_per_batch cfg) \<le> 0xFFF0" bit_write_inv bit_units entry_units for cfg
proof unfold_locales
  fix x assume "bit_write_ok x \<and> unat (max_points_per_batch cfg) \<le> 0xFFF0"
  then show "bit_write_inv (bit_write_begins x)" "bit_units (bit_write_begins x) = entry_units x"
    by (auto simp: bit_entry_units) (auto simp: bit_write_begins_def bit_write_inv_def bit_units_def bit_data_def bit_write_ok_def write_ok_def)
qed (use bit_write_takes_ok in auto)

lemma plan_bit_writes_spec:
  assumes "cfg_ok pcfg" "list_all bit_write_ok B"
  shows "list_all bit_write_inv (plan_bit_writes pcfg B)"
    "mset (concat (map bit_units (plan_bit_writes pcfg B))) = mset (concat (map entry_units B))"
proof -
  let ?xs = "sort_key (\<lambda>e. (device_index (addr_device (we_addr e)), addr_head (we_addr e))) B"
  have "list_all (\<lambda>x. bit_write_ok x \<and> unat (max_points_per_batch pcfg) \<le> 0xFFF0) ?xs"
    using assms by (simp add: list_all_iff cfg_ok_def)
  then obtain bs where bs: "plan_bit_writes pcfg B = bs" "list_all bit_write_inv bs"
    "concat (map bit_units bs) = concat (map entry_units ?xs)"
    using bit_write_planner.batch_all_spec [of pcfg ?xs] by (auto simp: plan_bit_writes_def)
  then show "list_all bit_write_inv (plan_bit_writes pcfg B)"
    "mset (concat (map bit_units (plan_bit_writes pcfg B))) = mset (concat (map entry_units B))"
    by (simp_all add: mset_concat_image)
qed

section \<open>The connection task\<close>

lemma break_loop_simps [simp]:
  "conn_running (break_loop c) = False" "conn_lifecycle (break_loop c) = Closed"
  "conn_events (break_loop c) = conn_events c @ [LifecycleChanged Closed]"
  by (simp_all add: break_loop_def publish_lifecycle_def)

definition transport_errors :: "conn \<Rightarrow> nat" where
  "transport_errors c = length (filter (\<lambda>e. e = TransportError) (conn_events c))"

lemma conn_loop_stopped: "\<not> conn_running c \<Longrightarrow> conn_loop c is = (c, [])"
  by (cases "is") simp_all

lemma conn_loop_spec:
  assumes "conn_loop c is = (c', rs)" "conn_running c" "conn_lifecycle c = Active"
  shows "list_all is_ok (butlast rs)
         \<and> (conn_running c' \<longrightarrow> conn_lifecycle c' = Active \<and> list_all is_ok rs)
         \<and> (\<not> conn_running c' \<longrightarrow> conn_lifecycle c' = Closed \<and> last (conn_events c') = LifecycleChanged Closed)
         \<and> transport_errors c' = transport_errors c + length (filter (\<lambda>r. \<not> is_ok r) rs)"
  using assms
proof (induction "is" arbitrary: c c' rs)
  case Nil
  then show ?case by simp
next
  case (Cons i "is")
  show ?case
  proof (cases "\<exists>m r. i = Requested m (Answers r)")
    case True
    then obtain m r where i: "i = Requested m (Answers r)" by blast
    obtain c1 rs1 where r1: "conn_loop c is = (c1, rs1)" by (cases "conn_loop c is")
    then have "rs = Inr r # rs1" "c' = c1" using Cons.prems i by (simp_all add: conn_step_def)
    then show ?thesis using Cons.IH [OF r1 Cons.prems(2,3)] by (cases "rs1 = []") auto
  next
    case False
    then have "\<not> conn_running (fst (conn_step c i))"
      by (auto simp: conn_step_def split: conn_input.splits io_outcome.splits)
    then have "c' = fst (conn_step c i)" "rs = (case snd (conn_step c i) of None \<Rightarrow> [] | Some r \<Rightarrow> [r])"
      using Cons.prems(1,2) by (auto simp: conn_loop_stopped split: prod.splits option.splits)
    then show ?thesis
      using False
      by (cases i) (auto simp: conn_step_def transport_errors_def transport_error_def publish_lifecycle_def split: io_outcome.splits)
  qed
qed

text \<open>C27: a connection answers requests in order until the first failed exchange and answers nothing
  after it, so a late response can never be taken for the answer to another request; it is \<open>Active\<close>
  while it runs, ends \<open>Closed\<close>, and reports every failed exchange once as a transport error.\<close>

theorem mc_connection_fail_stop:
  assumes "run_connection_with_stream c is = (c', rs)"
  shows "list_all is_ok (butlast rs)
         \<and> (conn_running c' \<longrightarrow> conn_lifecycle c' = Active \<and> list_all is_ok rs)
         \<and> (\<not> conn_running c' \<longrightarrow> conn_lifecycle c' = Closed \<and> last (conn_events c') = LifecycleChanged Closed)
         \<and> transport_errors c' = transport_errors c + length (filter (\<lambda>r. \<not> is_ok r) rs)"
  using conn_loop_spec [OF assms [unfolded run_connection_with_stream_def]]
  by (simp add: publish_lifecycle_def transport_errors_def)

theorem mc_connection_fail_stop_witness:
  "run_connection_with_stream \<lparr>conn_lifecycle = Idle, conn_events = [], conn_running = False\<rparr>
     [Requested (sample_ack []) (Answers (sample_ack [1])), Requested (sample_ack []) Elapses, Requested (sample_ack []) (Answers (sample_ack [2]))]
   = (\<lparr>conn_lifecycle = Closed,
       conn_events = [LifecycleChanged Active, TransportError, LifecycleChanged Closed], conn_running = False\<rparr>,
      [Inr (sample_ack [1]), Inl (TimedOut, ''MC request timed out waiting for response'')])
   \<and> transport_errors \<lparr>conn_lifecycle = Closed,
       conn_events = [LifecycleChanged Active, TransportError, LifecycleChanged Closed], conn_running = False\<rparr> = 1"
proof -
  have run: "run_connection_with_stream \<lparr>conn_lifecycle = Idle, conn_events = [], conn_running = False\<rparr>
     [Requested (sample_ack []) (Answers (sample_ack [1])), Requested (sample_ack []) Elapses, Requested (sample_ack []) (Answers (sample_ack [2]))]
   = (\<lparr>conn_lifecycle = Closed,
       conn_events = [LifecycleChanged Active, TransportError, LifecycleChanged Closed], conn_running = False\<rparr>,
      [Inr (sample_ack [1]), Inl (TimedOut, ''MC request timed out waiting for response'')])"
    by (simp add: run_connection_with_stream_def conn_step_def break_loop_def publish_lifecycle_def transport_error_def)
  show ?thesis using run mc_connection_fail_stop [OF run] by (simp add: transport_errors_def)
qed

text \<open>A session configured for 4E frames rejects every well-formed answer: the decoder delivers a 4E
  header, and every operation accepts 3E headers only.\<close>

theorem mc_session_rejects_4e:
  assumes "msg_header m = Ack4E h"
  shows "read_ack ctx m = Inl (ProtocolViolation ctx)" "write_ack ctx m = Inl (ProtocolViolation ctx)"
  using assms by (simp_all add: read_ack_def write_ack_def)

end
