(* ===== verification/Sdk_Buffers.thy ===== *)
theory Sdk_Buffers
  imports Sdk_Codec
begin

text \<open>
  The buffers in which a driver gathers the values of one device before it publishes them
  (\<open>ng-gateway-sdk/src/northward/buffer.rs\<close>): a value goes to the telemetry or to the attributes as its
  point says, and the non-empty parts become messages.  Timestamps, metadata and the always empty
  shared and server attributes are left out.
\<close>

record PointValue =
  pv_point_id :: int
  pv_key :: string
  pv_value :: NGValue

record DeviceBuffers =
  db_name :: string
  db_telemetry :: "PointValue list"
  db_attributes :: "PointValue list"

datatype NorthwardData = TelemetryData int string "PointValue list" | AttributeData int string "PointValue list"

definition buffers_push :: "DataPointType \<Rightarrow> PointValue \<Rightarrow> DeviceBuffers \<Rightarrow> DeviceBuffers" where
  "buffers_push kind v b =
     (case kind of
        Telemetry \<Rightarrow> b\<lparr>db_telemetry := db_telemetry b @ [v]\<rparr>
      | Attribute \<Rightarrow> b\<lparr>db_attributes := db_attributes b @ [v]\<rparr>)"

definition into_northward :: "DeviceBuffers \<Rightarrow> int \<Rightarrow> NorthwardData list" where
  "into_northward b device_id =
     (if db_telemetry b = [] then [] else [TelemetryData device_id (db_name b) (db_telemetry b)])
     @ (if db_attributes b = [] then [] else [AttributeData device_id (db_name b) (db_attributes b)])"

end
