(* ===== verification/Mc_Handle.thy ===== *)
theory Mc_Handle
  imports Mc_Session Sdk_Buffers
begin

text \<open>
  The MC driver above its session: the value codec (\<open>mc/src/codec.rs\<close>), the typed interface
  (\<open>mc/src/typed_api.rs\<close>) and the data-plane handle (\<open>mc/src/handle.rs\<close>) with its checks of points
  and parameters, the distribution of points over a connection pool, and the write path.

  The lemmas show that a value encoded for an action decodes to itself, that the distribution keeps
  every point and keeps points of one device code together, that every published value has its
  point's logical type, that an integer written by an action is read back over any link that serves words, and where
  the write paths go wrong.
\<close>

section \<open>The value codec\<close>

text \<open>A JSON value by what the accessors of \<open>serde_json\<close> return for it.\<close>

record json_view =
  as_bool :: "bool option"
  as_i64 :: "u64 option"
  as_u64 :: "u64 option"
  as_f64 :: "fp option"
  as_str :: "string option"

definition json_or :: "string \<Rightarrow> 'a option \<Rightarrow> DriverError + 'a" where
  "json_or msg r = (case r of None \<Rightarrow> Inl (ExecutionError msg) | Some x \<Rightarrow> Inr x)"

definition mc_encode_json :: "DataType \<Rightarrow> json_view \<Rightarrow> DriverError + bytes" where
  "mc_encode_json dt v =
     (case dt of
        T_Boolean \<Rightarrow> res_bind (json_or ''MC encode: expected boolean JSON value for DataType::Boolean'' (as_bool v))
                       (\<lambda>b. Inr [if b then 1 else 0])
      | T_Int8 \<Rightarrow> res_bind (json_or ''MC encode: expected integer JSON value for DataType::Int8'' (as_i64 v))
                       (\<lambda>n. Inr [ucast n])
      | T_UInt8 \<Rightarrow> res_bind (json_or ''MC encode: expected unsigned integer JSON value for DataType::UInt8'' (as_u64 v))
                       (\<lambda>n. Inr [ucast n])
      | T_Int16 \<Rightarrow> res_bind (json_or ''MC encode: expected integer JSON value for DataType::Int16'' (as_i64 v))
                       (\<lambda>n. Inr (le_bytes (ucast n :: u16)))
      | T_UInt16 \<Rightarrow> res_bind (json_or ''MC encode: expected unsigned integer JSON value for DataType::UInt16'' (as_u64 v))
                       (\<lambda>n. Inr (le_bytes (ucast n :: u16)))
      | T_Int32 \<Rightarrow> res_bind (json_or ''MC encode: expected integer JSON value for DataType::Int32'' (as_i64 v))
                       (\<lambda>n. Inr (le_bytes (ucast n :: u32)))
      | T_UInt32 \<Rightarrow> res_bind (json_or ''MC encode: expected unsigned integer JSON value for DataType::UInt32'' (as_u64 v))
                       (\<lambda>n. Inr (le_bytes (ucast n :: u32)))
      | T_Int64 \<Rightarrow> res_bind (json_or ''MC encode: expected integer JSON value for DataType::Int64'' (as_i64 v))
                       (\<lambda>n. Inr (le_bytes n))
      | T_UInt64 \<Rightarrow> res_bind (json_or ''MC encode: expected unsigned integer JSON value for DataType::UInt64'' (as_u64 v))
                       (\<lambda>n. Inr (le_bytes n))
      | T_Float32 \<Rightarrow> res_bind (json_or ''MC encode: expected number JSON value for DataType::Float32'' (as_f64 v))
                       (\<lambda>x. Inr (le_bytes (f32_to_bits (f64_as_f32 x))))
      | T_Float64 \<Rightarrow> res_bind (json_or ''MC encode: expected number JSON value for DataType::Float64'' (as_f64 v))
                       (\<lambda>x. Inr (le_bytes (f64_to_bits x)))
      | T_String \<Rightarrow> res_bind (json_or ''MC encode: expected string JSON value for DataType::String'' (as_str v))
                       (\<lambda>s. Inr (str_bytes s))
      | _ \<Rightarrow> Inl (ExecutionError ''MC encode: DataType::Binary/Timestamp is not supported yet''))"

definition cast_err :: "string \<Rightarrow> NGValueCastError + 'a \<Rightarrow> DriverError + 'a" where
  "cast_err msg r = (case r of Inl _ \<Rightarrow> Inl (ExecutionError msg) | Inr x \<Rightarrow> Inr x)"

definition mc_encode_typed :: "DataType \<Rightarrow> NGValue \<Rightarrow> DriverError + bytes" where
  "mc_encode_typed dt v =
     (case dt of
        T_Boolean \<Rightarrow> res_bind (cast_err ''MC encode: expected bool'' (bool_try_from v)) (\<lambda>b. Inr [if b then 1 else 0])
      | T_Int8 \<Rightarrow> res_bind (cast_err ''MC encode: expected i8'' (i8_try_from v)) (\<lambda>n. Inr [n])
      | T_UInt8 \<Rightarrow> res_bind (cast_err ''MC encode: expected u8'' (u8_try_from v)) (\<lambda>n. Inr [n])
      | T_Int16 \<Rightarrow> res_bind (cast_err ''MC encode: expected i16'' (i16_try_from v)) (\<lambda>n. Inr (le_bytes n))
      | T_UInt16 \<Rightarrow> res_bind (cast_err ''MC encode: expected u16'' (u16_try_from v)) (\<lambda>n. Inr (le_bytes n))
      | T_Int32 \<Rightarrow> res_bind (cast_err ''MC encode: expected i32'' (i32_try_from v)) (\<lambda>n. Inr (le_bytes n))
      | T_UInt32 \<Rightarrow> res_bind (cast_err ''MC encode: expected u32'' (u32_try_from v)) (\<lambda>n. Inr (le_bytes n))
      | T_Int64 \<Rightarrow> res_bind (cast_err ''MC encode: expected i64'' (i64_try_from v)) (\<lambda>n. Inr (le_bytes n))
      | T_UInt64 \<Rightarrow> res_bind (cast_err ''MC encode: expected u64'' (u64_try_from v)) (\<lambda>n. Inr (le_bytes n))
      | T_Float32 \<Rightarrow> res_bind (cast_err ''MC encode: expected f32'' (f32_try_from v)) (\<lambda>x. Inr (le_bytes (f32_to_bits x)))
      | T_Float64 \<Rightarrow> res_bind (cast_err ''MC encode: expected f64'' (f64_try_from v)) (\<lambda>x. Inr (le_bytes (f64_to_bits x)))
      | T_String \<Rightarrow> (case v of Str s \<Rightarrow> Inr (str_bytes s)
                             | _ \<Rightarrow> Inl (ExecutionError ''MC encode: expected string for DataType::String''))
      | T_Binary \<Rightarrow> (case v of Binary b \<Rightarrow> Inr b
                             | _ \<Rightarrow> Inl (ExecutionError ''MC encode: expected binary for DataType::Binary''))
      | T_Timestamp \<Rightarrow> res_bind (cast_err ''MC encode: expected timestamp(i64 ms)'' (i64_try_from v)) (\<lambda>n. Inr (le_bytes n)))"

definition need :: "nat \<Rightarrow> string \<Rightarrow> bytes \<Rightarrow> NGValue \<Rightarrow> DriverError + NGValue" where
  "need n name payload v =
     (if length payload < n then Inl (ExecutionError (''MC decode: insufficient bytes for DataType::'' @ name)) else Inr v)"

definition mc_decode_value :: "DataType \<Rightarrow> bytes \<Rightarrow> DriverError + NGValue" where
  "mc_decode_value dt payload =
     (case dt of
        T_Boolean \<Rightarrow> Inr (Boolean (case payload of [] \<Rightarrow> False | b # _ \<Rightarrow> b \<noteq> 0))
      | T_Int8 \<Rightarrow> need 1 ''Int8'' payload (Int8 (payload ! 0))
      | T_UInt8 \<Rightarrow> need 1 ''UInt8'' payload (UInt8 (payload ! 0))
      | T_Int16 \<Rightarrow> need 2 ''Int16'' payload (Int16 (le_word (take 2 payload)))
      | T_UInt16 \<Rightarrow> need 2 ''UInt16'' payload (UInt16 (le_word (take 2 payload)))
      | T_Int32 \<Rightarrow> need 4 ''Int32'' payload (Int32 (le_word (take 4 payload)))
      | T_UInt32 \<Rightarrow> need 4 ''UInt32'' payload (UInt32 (le_word (take 4 payload)))
      | T_Int64 \<Rightarrow> need 8 ''Int64'' payload (Int64 (le_word (take 8 payload)))
      | T_UInt64 \<Rightarrow> need 8 ''UInt64'' payload (UInt64 (le_word (take 8 payload)))
      | T_Float32 \<Rightarrow> need 4 ''Float32'' payload (Float32 (f32_of_bits (le_word (take 4 payload))))
      | T_Float64 \<Rightarrow> need 8 ''Float64'' payload (Float64 (f64_of_bits (le_word (take 8 payload))))
      | T_String \<Rightarrow> Inr (Str (bytes_str (utf8_lossy payload)))
      | T_Binary \<Rightarrow> Inr (Binary payload)
      | T_Timestamp \<Rightarrow> Inl (ExecutionError ''MC decode: DataType::Timestamp is not supported yet''))"

section \<open>The typed interface\<close>

record McReadItemTyped =
  ti_index :: nat
  ti_end_code :: u16
  ti_value :: "NGValue option"

record TypedPointReadSpec =
  ts_index :: nat
  ts_data_type :: DataType
  ts_addr :: McLogicalAddress
  ts_word_len :: u16
  ts_device_code :: u16

definition raw_spec :: "TypedPointReadSpec \<Rightarrow> PointReadSpec" where
  "raw_spec s = \<lparr>rs_index = ts_index s, rs_addr = ts_addr s, rs_word_len = ts_word_len s, rs_device_code = ts_device_code s\<rparr>"

text \<open>The type of an item is that of the first specification with its index, \<open>Binary\<close> without one; a
  decoding error leaves no value.\<close>

definition typed_item :: "(nat \<times> DataType) list \<Rightarrow> McReadItemRaw \<Rightarrow> McReadItemTyped" where
  "typed_item types raw =
     (let dt = (case map_of types (ri_index raw) of Some t \<Rightarrow> t | None \<Rightarrow> T_Binary)
      in \<lparr>ti_index = ri_index raw, ti_end_code = ri_end_code raw,
          ti_value = (if ri_end_code raw = 0 then
                        case ri_payload raw of
                          Some payload \<Rightarrow> (case mc_decode_value dt payload of Inl _ \<Rightarrow> None | Inr v \<Rightarrow> Some v)
                        | None \<Rightarrow> None
                      else None)\<rparr>)"

definition read_points_typed ::
  "'s mc_link \<Rightarrow> SessionConfig \<Rightarrow> McPlannerConfig \<Rightarrow> TypedPointReadSpec list \<Rightarrow> 's \<Rightarrow> (McError + McReadItemTyped list) \<times> 's" where
  "read_points_typed link cfg pcfg specs s =
     (if specs = [] then (Inr [], s)
      else case read_points_raw link cfg pcfg (map raw_spec specs) s of
        (Inl e, s') \<Rightarrow> (Inl e, s')
      | (Inr items, s') \<Rightarrow> (Inr (map (typed_item (map (\<lambda>x. (ts_index x, ts_data_type x)) specs)) items), s'))"

definition read_multi_address_typed ::
  "'s mc_link \<Rightarrow> SessionConfig \<Rightarrow> (nat \<times> McLogicalAddress \<times> DataType) list \<Rightarrow> 's
   \<Rightarrow> ((McError + McReadItemTyped list) \<times> 's) option" where
  "read_multi_address_typed link cfg specs s =
     (if specs = [] then Some (Inr [], s)
      else map_option
        (\<lambda>(r, s'). (case r of
             Inl e \<Rightarrow> Inl e
           | Inr items \<Rightarrow> Inr (map (typed_item (map (\<lambda>(i, _, dt). (i, dt)) specs)) items), s'))
        (read_multi_address_raw link cfg (map (\<lambda>(i, a, _). \<lparr>mr_index = i, mr_addr = a\<rparr>) specs) s))"

definition write_multi_address_typed ::
  "'s mc_link \<Rightarrow> SessionConfig \<Rightarrow> (McLogicalAddress \<times> DataType \<times> json_view) list \<Rightarrow> 's \<Rightarrow> ((McError + unit) \<times> 's) option" where
  "write_multi_address_typed link cfg specs s =
     (if specs = [] then Some (Inr (), s)
      else case map_res (\<lambda>(a, dt, v). case mc_encode_json dt v of
                   Inl _ \<Rightarrow> Inl (EncodeError ''failed to encode value for random write'')
                 | Inr data \<Rightarrow> Inr \<lparr>mw_addr = a, mw_data = data\<rparr>) specs of
        Inl e \<Rightarrow> Some (Inl e, s)
      | Inr raw \<Rightarrow> write_multi_address_raw link cfg raw s)"

section \<open>Points and the planner configuration\<close>

record McPoint =
  mp_id :: int
  mp_key :: string
  mp_type :: DataPointType
  mp_data_type :: DataType
  mp_access_mode :: AccessMode
  mp_transform :: Transform
  mp_logical :: "McLogicalAddress option"
  mp_string_len :: "u16 option"

definition words_for_data_type :: "DataType \<Rightarrow> u16 option \<Rightarrow> DriverError + u16" where
  "words_for_data_type dt string_len =
     res_bind
       (case dt of
          T_Boolean \<Rightarrow> Inr 1 | T_Int8 \<Rightarrow> Inr 1 | T_UInt8 \<Rightarrow> Inr 1 | T_Int16 \<Rightarrow> Inr 1 | T_UInt16 \<Rightarrow> Inr 1
        | T_Int32 \<Rightarrow> Inr 2 | T_UInt32 \<Rightarrow> Inr 2 | T_Float32 \<Rightarrow> Inr 2
        | T_Int64 \<Rightarrow> Inr 4 | T_UInt64 \<Rightarrow> Inr 4 | T_Float64 \<Rightarrow> Inr 4
        | T_String \<Rightarrow>
            (case string_len of
               None \<Rightarrow> Inl (ConfigurationError ''MC String point requires stringLenBytes configuration'')
             | Some n \<Rightarrow> Inr (of_nat ((unat n + 1) div 2)))
        | _ \<Rightarrow> Inl (ConfigurationError ''MC Binary/Timestamp data types are not supported yet''))
       (\<lambda>words. Inr (max words 1))"

record McChannelConfig =
  ch_series :: McSeries
  ch_max_points :: "u16 option"
  ch_max_bytes :: "u16 option"

definition planner_config :: "McChannelConfig \<Rightarrow> McPlannerConfig" where
  "planner_config c =
     \<lparr>max_points_per_batch =
        max (case ch_max_points c of None \<Rightarrow> device_batch_in_word_points_max (ch_series c) | Some n \<Rightarrow> n) 1,
      max_bytes_per_frame = max (case ch_max_bytes c of None \<Rightarrow> 4096 | Some n \<Rightarrow> n) 1\<rparr>"

definition mc_error_text :: "McError \<Rightarrow> string" where
  "mc_error_text e =
     (case e of
        Io (_, msg) \<Rightarrow> ''I/O error: '' @ msg
      | RequestTimeout \<Rightarrow> ''request timeout''
      | InvalidFrame \<Rightarrow> ''invalid frame''
      | ProtocolViolation c \<Rightarrow> ''protocol violation: '' @ c
      | EncodeError c \<Rightarrow> ''encode error: '' @ c
      | DecodeError c \<Rightarrow> ''decode error: '' @ c
      | UnsupportedFeature c \<Rightarrow> ''unsupported feature: '' @ c
      | EndCode c \<Rightarrow> ''MC end_code error: 0x'' @ map (\<lambda>k. lut ! (unat c div 16 ^ k mod 16)) [3, 2, 1, 0])"

section \<open>The pool and the metrics\<close>

text \<open>A pool by the number of its sessions and the round-robin counter.\<close>

record McSessionPool =
  sessions :: nat
  rr :: u64

definition pool_pick :: "McSessionPool \<Rightarrow> nat option \<times> McSessionPool" where
  "pool_pick p = (if sessions p = 0 then (None, p) else (Some (unat (rr p) mod sessions p), p\<lparr>rr := rr p + 1\<rparr>))"

definition pool_pick_by_index :: "McSessionPool \<Rightarrow> nat \<Rightarrow> nat option" where
  "pool_pick_by_index p idx = (if sessions p = 0 then None else Some (idx mod sessions p))"

record McMetrics =
  total_requests :: u64
  successful_requests :: u64
  failed_requests :: u64
  last_avg_response_time_ms :: u64

definition update_metrics :: "u64 \<Rightarrow> bool \<Rightarrow> McMetrics \<Rightarrow> McMetrics" where
  "update_metrics elapsed_ms success m =
     (let m = m\<lparr>total_requests := total_requests m + 1\<rparr>
      in if success then
           let prev = last_avg_response_time_ms m;
               new_avg = (if prev = 0 then elapsed_ms
                          else (of_nat (min (unat prev * 9) (2 ^ 64 - 1)) + elapsed_ms) div 10)
           in m\<lparr>successful_requests := successful_requests m + 1, last_avg_response_time_ms := new_avg\<rparr>
         else m\<lparr>failed_requests := failed_requests m + 1\<rparr>)"

section \<open>Collecting\<close>

definition address_of :: "McPoint \<Rightarrow> DriverError + McLogicalAddress" where
  "address_of p = ok_or (ConfigurationError (''MC logical address not resolved for point '' @ mp_key p)) (mp_logical p)"

definition point_spec :: "nat \<Rightarrow> McPoint \<Rightarrow> DriverError + TypedPointReadSpec" where
  "point_spec index p =
     res_bind (address_of p) (\<lambda>a.
       if dev_is_bit (addr_device a) then
         if mp_data_type p \<noteq> T_Boolean then Inl (ConfigurationError ''MC bit device only supports Boolean data type'')
         else if addr_bit a \<noteq> None then Inl (ConfigurationError ''Bit-indexed MC address is not supported yet for collect_data'')
         else res_bind (ok_or (ConfigurationError ''Unsupported MC bit device type for batch read'') (device_code_3e (addr_device a)))
                (\<lambda>code. Inr \<lparr>ts_index = index, ts_data_type = mp_data_type p, ts_addr = a, ts_word_len = 1, ts_device_code = code\<rparr>)
       else if addr_bit a \<noteq> None \<or> \<not> dev_is_word (addr_device a) \<and> \<not> dev_is_dword (addr_device a)
         then Inl (ConfigurationError ''Unsupported MC address for collect_data'')
       else if is_forbidden_batch_word_read (addr_device a)
         then Inl (ConfigurationError ''MC device type is not allowed for batch word read'')
       else res_bind (words_for_data_type (mp_data_type p) (mp_string_len p)) (\<lambda>word_len.
              res_bind (ok_or (ConfigurationError ''Unsupported MC device type for batch read'') (device_code_3e (addr_device a)))
                (\<lambda>code. Inr \<lparr>ts_index = index, ts_data_type = mp_data_type p, ts_addr = a, ts_word_len = word_len,
                             ts_device_code = code\<rparr>)))"

text \<open>Points sorted by device code and head go to the members of the pool; the member changes with the
  device code.\<close>

fun assign :: "nat \<Rightarrow> nat \<Rightarrow> u16 option \<Rightarrow> TypedPointReadSpec list \<Rightarrow> (nat \<times> TypedPointReadSpec) list" where
  "assign pool_size idx prev [] = []"
| "assign pool_size idx prev (x # xs) =
     (let idx = (if prev \<noteq> Some (ts_device_code x) then (idx + 1) mod pool_size else idx)
      in (idx, x) # assign pool_size idx (Some (ts_device_code x)) xs)"

definition distribute :: "nat \<Rightarrow> TypedPointReadSpec list \<Rightarrow> TypedPointReadSpec list list" where
  "distribute pool_size specs =
     (let assigned = assign pool_size 0 None (sort_key (\<lambda>s. (ts_device_code s, addr_head (ts_addr s))) specs)
      in map (\<lambda>g. map snd (filter (\<lambda>(i, _). i = g) assigned)) [0..<pool_size])"

text \<open>The reads of the pool's members are a parameter: a function from the member and its points to the
  result.\<close>

definition pool_read ::
  "(nat \<Rightarrow> TypedPointReadSpec list \<Rightarrow> McError + McReadItemTyped list) \<Rightarrow> nat \<Rightarrow> TypedPointReadSpec list
   \<Rightarrow> DriverError + McReadItemTyped list" where
  "pool_read rd pool_size specs =
     (if pool_size \<le> 1 then
        (if pool_size = 0 then Inl ServiceUnavailable
         else case rd 0 specs of Inl e \<Rightarrow> Inl (ExecutionError (mc_error_text e)) | Inr items \<Rightarrow> Inr items)
      else
        let results = map (\<lambda>(i, g). if g = [] then Inr [] else rd i g) (enumerate 0 (distribute pool_size specs));
            oks = concat (map (\<lambda>r. case r of Inl _ \<Rightarrow> [] | Inr items \<Rightarrow> items) results)
        in if oks = [] then Inl (ExecutionError ''All MC pool members failed'') else Inr oks)"

text \<open>The readable points in order, each with its device.\<close>

definition readable_points :: "(int \<times> string \<times> McPoint list) list \<Rightarrow> (int \<times> McPoint) list" where
  "readable_points items =
     concat (map (\<lambda>(d, _, ps). map (Pair d) (filter (\<lambda>p. mp_access_mode p \<in> {AM_Read, AM_ReadWrite}) ps)) items)"

definition point_specs :: "McPoint list \<Rightarrow> DriverError + TypedPointReadSpec list" where
  "point_specs ps = map_res (\<lambda>(i, p). point_spec i p) (enumerate 0 ps)"

text \<open>One result item: dropped when it failed, is out of range, has no value or does not convert.\<close>

definition item_value :: "(int \<times> McPoint) list \<Rightarrow> McReadItemTyped \<Rightarrow> (int \<times> DataPointType \<times> PointValue) option" where
  "item_value pts it =
     (if ti_end_code it \<noteq> 0 \<or> length pts \<le> ti_index it then None
      else let (d, p) = pts ! ti_index it
           in case ti_value it of
                None \<Rightarrow> None
              | Some w \<Rightarrow>
                  (case wire_to_logical_value w (mp_data_type p)
                          (resolve_logical_datatype (mp_transform p) (mp_data_type p)) (mp_transform p) of
                     Inl _ \<Rightarrow> None
                   | Inr v \<Rightarrow> Some (d, mp_type p, \<lparr>pv_point_id = mp_id p, pv_key = mp_key p, pv_value = v\<rparr>)))"

definition push_value ::
  "int \<times> DataPointType \<times> PointValue \<Rightarrow> (int \<rightharpoonup> DeviceBuffers) \<Rightarrow> (int \<rightharpoonup> DeviceBuffers)" where
  "push_value x m =
     (case x of (d, k, v) \<Rightarrow> (case m d of None \<Rightarrow> m | Some b \<Rightarrow> m(d \<mapsto> buffers_push k v b)))"

definition init_buffers :: "(int \<times> string \<times> McPoint list) list \<Rightarrow> (int \<rightharpoonup> DeviceBuffers)" where
  "init_buffers items =
     fold (\<lambda>(d, name, _) m. if m d = None then m(d \<mapsto> \<lparr>db_name = name, db_telemetry = [], db_attributes = []\<rparr>) else m)
       items Map.empty"

definition collect_data ::
  "(nat \<Rightarrow> TypedPointReadSpec list \<Rightarrow> McError + McReadItemTyped list) \<Rightarrow> nat option
   \<Rightarrow> (int \<times> string \<times> McPoint list) list \<Rightarrow> DriverError + NorthwardData list" where
  "collect_data rd pool items =
     (if items = [] then Inl (ValidationError ''collect_data called with empty items'')
      else let pts = readable_points items
           in if pts = [] then Inr []
              else case pool of
                None \<Rightarrow> Inl ServiceUnavailable
              | Some pool_size \<Rightarrow>
                  res_bind (point_specs (map snd pts)) (\<lambda>specs.
                    res_bind (pool_read rd pool_size specs) (\<lambda>results.
                      let buffers = fold push_value (List.map_filter (item_value pts) results) (init_buffers items);
                          ids = sort (remdups (map fst items))
                      in Inr (concat (map (\<lambda>d. case buffers d of None \<Rightarrow> [] | Some b \<Rightarrow> into_northward b d) ids)))))"

section \<open>Writing\<close>

text \<open>The checks of a parameter and of a written point are the same; they give the number of words and the
  device code.\<close>

definition write_unit :: "McPoint \<Rightarrow> DriverError + (McLogicalAddress \<times> u16 \<times> u16)" where
  "write_unit p =
     res_bind (address_of p) (\<lambda>a.
       if dev_is_bit (addr_device a) then
         if mp_data_type p \<noteq> T_Boolean then Inl (ConfigurationError ''MC bit device only supports Boolean data type'')
         else if addr_bit a \<noteq> None then Inl (ConfigurationError ''Bit-indexed MC address is not supported yet'')
         else res_bind (ok_or (ConfigurationError ''Unsupported MC bit device type for batch write'') (device_code_3e (addr_device a)))
                (\<lambda>code. Inr (a, 1, code))
       else if addr_bit a \<noteq> None \<or> \<not> dev_is_word (addr_device a) \<and> \<not> dev_is_dword (addr_device a)
         then Inl (ConfigurationError ''Unsupported MC address'')
       else if is_forbidden_batch_word_write (addr_device a)
         then Inl (ConfigurationError ''MC device type is not allowed for batch word write'')
       else res_bind (words_for_data_type (mp_data_type p) (mp_string_len p)) (\<lambda>word_len.
              res_bind (ok_or (ConfigurationError ''Unsupported MC device type for batch write'') (device_code_3e (addr_device a)))
                (\<lambda>code. Inr (a, word_len, code))))"

definition write_entry_of :: "McLogicalAddress \<times> u16 \<times> u16 \<Rightarrow> bytes \<Rightarrow> WriteEntry" where
  "write_entry_of u data = (case u of (a, n, code) \<Rightarrow> \<lparr>we_addr = a, we_word_len = n, we_device_code = code, we_data = data\<rparr>)"

definition action_entries :: "(McPoint \<times> NGValue) list \<Rightarrow> DriverError + WriteEntry list" where
  "action_entries params =
     map_res (\<lambda>(p, v). res_bind (write_unit p) (\<lambda>u.
       res_bind (mc_encode_typed (mp_data_type p) v) (\<lambda>data. Inr (write_entry_of u data)))) params"

text \<open>The session the pool picks is a parameter, absent when the pool is detached or empty; an outer
  \<open>None\<close> is a panic.\<close>

definition write_points_typed ::
  "'s mc_link \<Rightarrow> SessionConfig \<Rightarrow> McPlannerConfig \<Rightarrow> WriteEntry list \<Rightarrow> 's \<Rightarrow> ((McError + unit) \<times> 's) option" where
  "write_points_typed link cfg pcfg entries s =
     (if entries = [] then Some (Inr (), s) else write_points_raw link cfg pcfg entries s)"

definition driver_result :: "McError + unit \<Rightarrow> DriverError + unit" where
  "driver_result r = (case r of Inl e \<Rightarrow> Inl (ExecutionError (mc_error_text e)) | Inr _ \<Rightarrow> Inr ())"

definition execute_action ::
  "'s mc_link option \<Rightarrow> SessionConfig \<Rightarrow> McChannelConfig \<Rightarrow> (McPoint \<times> NGValue) list \<Rightarrow> 's
   \<Rightarrow> ((DriverError + unit) \<times> 's) option" where
  "execute_action session cfg ch params s =
     (case session of
        None \<Rightarrow> Some (Inl ServiceUnavailable, s)
      | Some link \<Rightarrow>
          (case action_entries params of
             Inl e \<Rightarrow> Some (Inl e, s)
           | Inr entries \<Rightarrow>
               map_option (\<lambda>(r, s'). (driver_result r, s')) (write_points_typed link cfg (planner_config ch) entries s)))"

definition write_point ::
  "'s mc_link option \<Rightarrow> SessionConfig \<Rightarrow> McChannelConfig \<Rightarrow> McPoint \<Rightarrow> NGValue \<Rightarrow> 's
   \<Rightarrow> ((DriverError + unit) \<times> 's) option" where
  "write_point session cfg ch p v s =
     (if mp_access_mode p \<notin> {AM_Write, AM_ReadWrite} then Some (Inl (ValidationError ''point is not writeable''), s)
      else case write_unit p of
        Inl e \<Rightarrow> Some (Inl e, s)
      | Inr u \<Rightarrow>
          (case session of
             None \<Rightarrow> Some (Inl ServiceUnavailable, s)
           | Some link \<Rightarrow>
               map_option (\<lambda>(r, s'). (driver_result r, s'))
                 (write_points_typed link cfg (planner_config ch) [write_entry_of u (bytes_try_from v)] s)))"

section \<open>Types of published values\<close>

lemma mc_decode_type: "mc_decode_value dt bs = Inr v \<Longrightarrow> data_type v = dt"
  by (cases dt) (auto simp: mc_decode_value_def need_def split: if_splits)

lemma item_value_point:
  assumes "item_value pts it = Some (d, k, v)"
  obtains p where "(d, p) \<in> set pts" "k = mp_type p" "pv_point_id v = mp_id p" "pv_key v = mp_key p"
    "data_type (pv_value v) = resolve_logical_datatype (mp_transform p) (mp_data_type p)"
proof -
  from assms have "ti_index it < length pts" by (auto simp: item_value_def split: if_splits)
  then have "pts ! ti_index it \<in> set pts" by (rule nth_mem)
  moreover obtain d' p where "pts ! ti_index it = (d', p)" by fastforce
  ultimately show ?thesis
    using assms that [of p]
    by (auto simp: item_value_def split: if_splits option.splits sum.splits dest: wire_to_logical_type)
qed

text \<open>What holds of every buffered value.\<close>

definition buffers_all :: "(int \<Rightarrow> DataPointType \<Rightarrow> PointValue \<Rightarrow> bool) \<Rightarrow> (int \<rightharpoonup> DeviceBuffers) \<Rightarrow> bool" where
  "buffers_all P m \<longleftrightarrow> (\<forall>d b. m d = Some b \<longrightarrow>
     (\<forall>v\<in>set (db_telemetry b). P d Telemetry v) \<and> (\<forall>v\<in>set (db_attributes b). P d Attribute v))"

lemma push_value_all: "buffers_all P m \<Longrightarrow> (case x of (d, k, v) \<Rightarrow> P d k v) \<Longrightarrow> buffers_all P (push_value x m)"
  by (auto simp: buffers_all_def push_value_def buffers_push_def split: option.splits prod.splits DataPointType.splits)

lemma push_values_all:
  "buffers_all P m \<Longrightarrow> \<forall>(d, k, v)\<in>set xs. P d k v \<Longrightarrow> buffers_all P (fold push_value xs m)"
  by (induction xs arbitrary: m) (auto intro: push_value_all)

lemma init_buffers_all: "buffers_all P (init_buffers items)"
  unfolding init_buffers_def
proof (rule fold_invariant [where P = "buffers_all P" and Q = "\<lambda>_. True"])
  show "buffers_all P Map.empty" by (simp add: buffers_all_def)
next
  fix x :: "int \<times> string \<times> McPoint list" and m assume "buffers_all P m"
  then show "buffers_all P ((case x of (d, name, _) \<Rightarrow> \<lambda>m.
      if m d = None then m(d \<mapsto> \<lparr>db_name = name, db_telemetry = [], db_attributes = []\<rparr>) else m) m)"
    by (cases x) (simp add: buffers_all_def)
qed simp

definition readable :: "(int \<times> string \<times> McPoint list) list \<Rightarrow> int \<Rightarrow> McPoint \<Rightarrow> bool" where
  "readable items d p \<longleftrightarrow>
     (\<exists>name ps. (d, name, ps) \<in> set items \<and> p \<in> set ps) \<and> mp_access_mode p \<noteq> AM_Write"

lemma readable_points: "(d, p) \<in> set (readable_points items) \<Longrightarrow> readable items d p"
  by (auto simp: readable_points_def readable_def)

definition published :: "(int \<times> string \<times> McPoint list) list \<Rightarrow> int \<Rightarrow> DataPointType \<Rightarrow> PointValue \<Rightarrow> bool" where
  "published items d k v \<longleftrightarrow>
     (\<exists>p. readable items d p \<and> k = mp_type p \<and> pv_point_id v = mp_id p \<and> pv_key v = mp_key p
        \<and> data_type (pv_value v) = resolve_logical_datatype (mp_transform p) (mp_data_type p))"

lemma item_values_published:
  "\<forall>(d, k, v)\<in>set (List.map_filter (item_value (readable_points items)) results). published items d k v"
proof -
  have "published items d k v" if "item_value (readable_points items) it = Some (d, k, v)" for it d k v
    by (rule item_value_point [OF that]) (auto simp: published_def dest: readable_points)
  then show ?thesis by (auto simp: map_filter_def)
qed

lemma into_northward_all:
  assumes "buffers_all P m" "m d = Some b" "n \<in> set (into_northward b d)"
  shows "case n of TelemetryData d' _ vs \<Rightarrow> (\<forall>v\<in>set vs. P d' Telemetry v)
                 | AttributeData d' _ vs \<Rightarrow> (\<forall>v\<in>set vs. P d' Attribute v)"
  using assms by (auto simp: buffers_all_def into_northward_def split: if_splits)

text \<open>C24: whatever the pool's sessions answer, each value that a collection publishes belongs to a readable
  point of that device, is published as telemetry or attribute as the point says, and has the
  logical data type the point's transform gives it.\<close>

theorem mc_collect_types:
  assumes "collect_data rd pool items = Inr out" "n \<in> set out"
  shows "case n of TelemetryData d _ vs \<Rightarrow> (\<forall>v\<in>set vs. published items d Telemetry v)
                 | AttributeData d _ vs \<Rightarrow> (\<forall>v\<in>set vs. published items d Attribute v)"
proof (cases "readable_points items = []")
  case True
  then show ?thesis using assms by (auto simp: collect_data_def split: if_splits)
next
  case False
  with assms(1) obtain results where
    out: "out = concat (map (\<lambda>d. case fold push_value (List.map_filter (item_value (readable_points items)) results) (init_buffers items) d
            of None \<Rightarrow> [] | Some b \<Rightarrow> into_northward b d) (sort (remdups (map fst items))))"
    by (auto simp: collect_data_def res_bind_def Let_def split: if_splits option.splits sum.splits)
  have "buffers_all (published items) (fold push_value (List.map_filter (item_value (readable_points items)) results) (init_buffers items))"
    by (rule push_values_all [OF init_buffers_all item_values_published])
  then show ?thesis using assms(2) unfolding out
    by (auto split: option.splits dest!: sym [of "Some _"] intro: into_northward_all)
qed


definition sample_point :: McPoint where
  "sample_point = \<lparr>mp_id = 3, mp_key = ''flow'', mp_type = Telemetry, mp_data_type = T_UInt16, mp_access_mode = AM_Read,
     mp_transform = \<lparr>transform_data_type = Some T_Int32, transform_scale = None, transform_offset = None, transform_negate = False\<rparr>,
     mp_logical = Some \<lparr>addr_device = Dev_D, addr_head = 100, addr_bit = None\<rparr>, mp_string_len = None\<rparr>"

theorem mc_collect_types_witness:
  "published [(7, ''pump'', [sample_point])] 7 Telemetry \<lparr>pv_point_id = 3, pv_key = ''flow'', pv_value = Int32 5\<rparr>"
proof -
  have "collect_data (\<lambda>_ _. Inr [\<lparr>ti_index = 0, ti_end_code = 0, ti_value = Some (UInt16 5)\<rparr>]) (Some 1)
      [(7, ''pump'', [sample_point])]
    = Inr [TelemetryData 7 ''pump'' [\<lparr>pv_point_id = 3, pv_key = ''flow'', pv_value = Int32 5\<rparr>]]"
    by code_simp
  from mc_collect_types [OF this] show ?thesis by simp
qed

section \<open>The distribution over the pool\<close>

lemma assign_snd: "map snd (assign n idx prev xs) = xs"
  by (induction xs arbitrary: idx prev) (simp_all add: Let_def)

lemma assign_less: "0 < n \<Longrightarrow> idx < n \<Longrightarrow> \<forall>(i, _)\<in>set (assign n idx prev xs). i < n"
proof (induction xs arbitrary: idx prev)
  case (Cons x xs)
  then show ?case using Cons.IH [of "Suc idx mod n" "Some (ts_device_code x)"] by (auto simp: Let_def)
qed simp

lemma mset_pool_groups:
  "\<forall>(i, _)\<in>set xs. i < n \<Longrightarrow> mset (concat (map (\<lambda>g. map snd (filter (\<lambda>(i, _). i = g) xs)) [0..<n])) = mset (map snd xs)"
proof (induction xs)
  case Nil
  then show ?case by (induction n) simp_all
next
  case (Cons x xs)
  obtain i y where x: "x = (i, y)" by fastforce
  let ?F = "\<lambda>g. map snd (filter (\<lambda>(i, _). i = g) xs)"
  have "mset (concat (map (\<lambda>g. map snd (filter (\<lambda>(i, _). i = g) (x # xs))) [0..<n]))
      = (\<Sum>g\<leftarrow>[0..<n]. (if i = g then {#y#} else {#}) + mset (?F g))"
    by (simp add: x mset_concat comp_def if_distrib) (rule arg_cong [of _ _ sum_list], simp)
  also have "\<dots> = (\<Sum>g\<leftarrow>[0..<n]. if i = g then {#y#} else {#}) + mset (concat (map ?F [0..<n]))"
    by (simp add: sum_list_addf mset_concat comp_def)
  also have "(\<Sum>g\<leftarrow>[0..<n]. if i = g then {#y#} else {#}) = {#y#}"
    using Cons.prems by (simp add: x interv_sum_list_conv_sum_set_nat)
  finally show ?case using Cons by (simp add: x)
qed

lemma mset_distribute: "0 < n \<Longrightarrow> mset (concat (distribute n specs)) = mset specs"
  using mset_pool_groups [OF assign_less [of n 0]] by (simp add: distribute_def Let_def assign_snd)

lemma assign_by_code:
  assumes "sorted (map ts_device_code xs)" "\<forall>c x. prev = Some c \<longrightarrow> x \<in> set xs \<longrightarrow> c \<le> ts_device_code x"
  shows "\<exists>f. (\<forall>(i, x)\<in>set (assign n idx prev xs). i = f (ts_device_code x)) \<and> (\<forall>c. prev = Some c \<longrightarrow> f c = idx)"
  using assms
proof (induction xs arbitrary: idx prev)
  case Nil
  show ?case by (rule exI [of _ "\<lambda>_. idx"]) simp
next
  case (Cons z zs)
  let ?idx = "if prev \<noteq> Some (ts_device_code z) then (idx + 1) mod n else idx"
  let ?as = "assign n ?idx (Some (ts_device_code z)) zs"
  obtain f where f: "\<forall>(i, x)\<in>set ?as. i = f (ts_device_code x)" "f (ts_device_code z) = ?idx"
    using Cons.IH [of "Some (ts_device_code z)" ?idx] Cons.prems(1) by auto
  show ?case
  proof (cases "prev = None \<or> prev = Some (ts_device_code z)")
    case True
    then show ?thesis using f by (intro exI [of _ f]) (auto simp: Let_def)
  next
    case False
    then obtain c where c: "prev = Some c" "c < ts_device_code z" using Cons.prems(2) by (cases prev) (auto simp: order.strict_iff_order)
    have "x \<in> set zs" if "(i, x) \<in> set ?as" for i x
      using that assign_snd [of n ?idx "Some (ts_device_code z)" zs] by (metis image_eqI list.set_map snd_conv)
    then have "c < ts_device_code x" if "(i, x) \<in> set ?as" for i x
      using that c(2) Cons.prems(1) by fastforce
    then show ?thesis using f c by (intro exI [of _ "f(c := idx)"]) (fastforce simp: Let_def)
  qed
qed

lemma distribute_same_code:
  assumes "i < n" "j < n" "x \<in> set (distribute n specs ! i)" "y \<in> set (distribute n specs ! j)"
    "ts_device_code x = ts_device_code y"
  shows "i = j"
proof -
  let ?k = "\<lambda>s. (ts_device_code s, addr_head (ts_addr s))"
  have "sorted (map ts_device_code (sort_key ?k specs))"
    using sorted_sort_key [of ?k specs] unfolding sorted_map
    by (rule sorted_wrt_mono_rel [rotated]) (auto simp: less_eq_prod_def)
  then obtain f where f: "\<forall>(i, x)\<in>set (assign n 0 None (sort_key ?k specs)). i = f (ts_device_code x)"
    using assign_by_code [of "sort_key ?k specs" None n 0] by auto
  then have "i = f (ts_device_code x)" "j = f (ts_device_code y)"
    using assms(1-4) by (auto simp: distribute_def Let_def)
  then show ?thesis using assms(5) by simp
qed


text \<open>Whatever the size of the pool, when every session answers its group the results carry each point's
  value exactly once.  A session's answer may also contain placeholders, which have no value.\<close>

lemma pool_read_ok:
  assumes "0 < n" "specs \<noteq> []"
    "\<And>i g. \<exists>items. rd i g = Inr items \<and> mset (filter (\<lambda>it. ti_value it \<noteq> None) items) = mset (map item g)"
  shows "\<exists>items. pool_read rd n specs = Inr items \<and> mset (filter (\<lambda>it. ti_value it \<noteq> None) items) = mset (map item specs)"
proof (cases "n = 1")
  case True
  then show ?thesis using assms(3) [of 0 specs] by (auto simp: pool_read_def)
next
  case False
  let ?got = "\<lambda>r :: McError + McReadItemTyped list. case r of Inl _ \<Rightarrow> [] | Inr items \<Rightarrow> items"
  let ?ask = "\<lambda>(i, g). if g = [] then Inr [] else rd i g"
  let ?oks = "concat (map ?got (map ?ask (enumerate 0 (distribute n specs))))"
  have "mset (filter (\<lambda>it. ti_value it \<noteq> None) (concat (map ?got (map ?ask (enumerate k gs))))) = mset (map item (concat gs))" for k gs
  proof (induction gs arbitrary: k)
    case (Cons g gs)
    then show ?case using assms(3) [of k g] by auto
  qed simp
  then have m: "mset (filter (\<lambda>it. ti_value it \<noteq> None) ?oks) = mset (map item specs)"
    using mset_distribute [OF assms(1), of specs] by simp
  have "?oks \<noteq> []"
  proof
    assume "?oks = []"
    with m show False using assms(2) by (simp only: filter.simps mset.simps) simp
  qed
  then show ?thesis using False assms(1) m by (simp add: pool_read_def Let_def)
qed

section \<open>The value codec\<close>

lemma encode_int:
  assumes "int_type dt" "data_type v = dt"
  shows "\<exists>bs. mc_encode_typed dt v = Inr bs \<and> mc_decode_value dt bs = Inr v
           \<and> (dt \<notin> {T_Int8, T_UInt8} \<longrightarrow> (\<exists>n. words_for_data_type dt l = Inr n \<and> length bs = 2 * unat n \<and> n \<le> 4))"
  using assms by (cases v)
    (auto simp: int_type_def mc_encode_typed_def mc_decode_value_def need_def cast_err_def words_for_data_type_def
      try_from_defs or_range_def narrow_def i64_min_def i64_max_def u64_max_def)

lemma subslice_join:
  assumes "length data = n * k"
  shows "concat (map (\<lambda>i. subslice data (i * k) (i * k + k)) [0..<n]) = data"
  using assms
proof (induction n arbitrary: data)
  case (Suc n)
  let ?a = "take (n * k) data"
  have "subslice ?a (i * k) (i * k + k) = subslice data (i * k) (i * k + k)" if "i < n" for i
  proof -
    have "i * k + k \<le> n * k" using that by (metis Suc_leI add.commute mult_Suc mult_le_mono1)
    then show ?thesis by (simp add: subslice_def min_def take_drop)
  qed
  then have eq: "map (\<lambda>i. subslice data (i * k) (i * k + k)) [0..<n] = map (\<lambda>i. subslice ?a (i * k) (i * k + k)) [0..<n]"
    by (intro map_cong) simp_all
  have "concat (map (\<lambda>i. subslice data (i * k) (i * k + k)) [0..<n]) = ?a"
    unfolding eq by (rule Suc.IH) (simp add: Suc.prems)
  then show ?case using Suc.prems by (simp add: subslice_def algebra_simps)
qed simp

lemma store_units_other: "(d, i) \<notin> fst ` set us \<Longrightarrow> fold store_unit us mem d i = mem d i"
  by (induction us arbitrary: mem) (auto simp: store_unit_def)

lemma store_units_at: "distinct (map fst us) \<Longrightarrow> ((d, i), x) \<in> set us \<Longrightarrow> fold store_unit us mem d i = x"
proof (induction us arbitrary: mem)
  case (Cons u us)
  show ?case
  proof (cases "u = ((d, i), x)")
    case True
    with Cons.prems have "(d, i) \<notin> fst ` set us" by simp
    from store_units_other [OF this] show ?thesis by (simp add: True) (simp add: store_unit_def)
  next
    case False
    with Cons show ?thesis by auto
  qed
qed simp

lemma write_units_distinct: "distinct (map fst (write_units d h n data))"
  by (simp add: write_units_def comp_def distinct_map inj_on_def)

lemma mem_read_write:
  assumes "length data = n * unit_size d"
  shows "mem_read (mem_write d h n data mem) d h n = data"
proof -
  have "mem_write d h n data mem d (h + i) = subslice data (i * unit_size d) (i * unit_size d + unit_size d)" if "i < n" for i
    unfolding mem_write_def
    by (rule store_units_at [OF write_units_distinct]) (use that in \<open>auto simp: write_units_def\<close>)
  then have "map (mem_write d h n data mem d) [h..<h + n]
      = map (\<lambda>i. subslice data (i * unit_size d) (i * unit_size d + unit_size d)) [0..<n]"
    by (intro nth_equalityI) simp_all
  then show ?thesis using subslice_join [OF assms] by (simp add: mem_read_def)
qed

lemma mem_write_wf:
  assumes "length data = n * unit_size d" "wf_memory mem"
  shows "wf_memory (mem_write d h n data mem)"
proof -
  have "length (subslice data (i * unit_size d) (i * unit_size d + unit_size d)) = unit_size d" if "i < n" for i
  proof -
    have "i * unit_size d + unit_size d \<le> length data"
      using that assms(1) by (metis Suc_leI add.commute mult_Suc mult_le_mono1)
    then show ?thesis by (simp add: subslice_def)
  qed
  then have u: "\<forall>u\<in>set (write_units d h n data). length (snd u) = unit_size (fst (fst u))" by (auto simp: write_units_def)
  have "wf_memory (fold store_unit us mem)" if "\<forall>u\<in>set us. length (snd u) = unit_size (fst (fst u))" for us
    using that assms(2) by (induction us arbitrary: mem) (auto simp: store_unit_def wf_memory_def)
  with u show ?thesis by (simp add: mem_write_def)
qed


text \<open>A point on a word device that may be read and written.\<close>

definition word_point :: "McPoint \<Rightarrow> McLogicalAddress \<Rightarrow> u16 \<Rightarrow> bool" where
  "word_point p a code \<longleftrightarrow>
     mp_logical p = Some a \<and> addr_bit a = None \<and> dev_is_word (addr_device a)
     \<and> \<not> is_forbidden_batch_word_read (addr_device a) \<and> \<not> is_forbidden_batch_word_write (addr_device a)
     \<and> device_code_3e (addr_device a) = Some code \<and> unat (addr_head a) + 4 < 2 ^ 32"

lemma word_point_units:
  assumes "word_point p a code" "words_for_data_type (mp_data_type p) (mp_string_len p) = Inr n"
  shows "write_unit p = Inr (a, n, code)"
    "point_spec i p = Inr \<lparr>ts_index = i, ts_data_type = mp_data_type p, ts_addr = a, ts_word_len = n, ts_device_code = code\<rparr>"
  using assms device_unit [of "addr_device a"] by (simp_all add: word_point_def write_unit_def point_spec_def address_of_def ok_or_def)

lemma typed_read_served:
  assumes "serves_reads cfg link memory" "cfg_ok pcfg" "wf_memory (memory st)"
    and "read_ok (raw_spec s)" "ts_index s = 0" "dev_is_word (addr_device (ts_addr s))"
    "mc_decode_value (ts_data_type s) (mem_read (memory st) (addr_device (ts_addr s)) (unat (addr_head (ts_addr s))) (unat (ts_word_len s))) = Inr v"
  shows "\<exists>items st'. read_points_typed link cfg pcfg [s] st = (Inr items, st')
           \<and> items ! 0 = \<lparr>ti_index = 0, ti_end_code = 0, ti_value = Some v\<rparr>"
proof -
  have "readable_specs pcfg [raw_spec s]" using assms(2,4,6) by (simp add: readable_specs_def raw_spec_def)
  from read_points_served [OF assms(1) this assms(3)]
  obtain r st' where r: "read_points_raw link cfg pcfg [raw_spec s] st = (Inr r, st')"
    "0 < length r" "r ! 0 = \<lparr>ri_index = 0, ri_end_code = 0, ri_payload =
       Some (mem_read (memory st) (addr_device (ts_addr s)) (unat (addr_head (ts_addr s))) (unat (ts_word_len s)))\<rparr>"
    by (auto simp: raw_spec_def assms(5) key_item_def read_key_def)
  then show ?thesis using assms(5,7) by (simp add: read_points_typed_def typed_item_def)
qed

text \<open>What an action writes to a point on a word device is in the memory afterwards.\<close>

lemma action_stored:
  assumes "serves_writes cfg link memory" "cfg_ok (planner_config ch)" "word_point p a code"
    and "mc_encode_typed (mp_data_type p) v = Inr bs" "words_for_data_type (mp_data_type p) (mp_string_len p) = Inr n"
    "length bs = 2 * unat n" "unat n \<le> 4"
  shows "\<exists>st'. execute_action (Some link) cfg ch [(p, v)] st = Some (Inr (), st')
             \<and> memory st' = mem_write (addr_device a) (unat (addr_head a)) (unat n) bs (memory st)"
proof -
  let ?e = "write_entry_of (a, n, code) bs"
  note u = word_point_units(1) [OF assms(3,5)]
  have d: "dev_is_word (addr_device a)" "unit_size (addr_device a) = 2"
    using assms(3) device_unit [of "addr_device a"] by (auto simp: word_point_def)
  have "write_ok ?e" using assms(3,6,7) d by (simp add: write_ok_def write_entry_of_def word_point_def)
  then have "writable_entries (planner_config ch) [?e]"
    using assms(2) d by (simp add: writable_entries_def entry_units_def write_entry_of_def write_units_distinct)
  from write_points_served [OF assms(1) this, of st] show ?thesis
    by (simp add: execute_action_def action_entries_def u assms(4) write_points_typed_def driver_result_def)
      (auto simp: write_entry_def write_entry_of_def)
qed


definition sample_channel :: McChannelConfig where
  "sample_channel = \<lparr>ch_series = QL, ch_max_points = None, ch_max_bytes = None\<rparr>"


section \<open>Where the write paths go wrong\<close>

text \<open>The single-point write path encodes in big-endian order: the number 0x0102 is read back as 0x0201.\<close>

theorem mc_write_point_swaps_bytes:
  assumes "serves_writes cfg link memory" "p = sample_point\<lparr>mp_access_mode := AM_ReadWrite\<rparr>"
  shows "\<exists>st'. write_point (Some link) cfg sample_channel p (UInt16 0x0102) st = Some (Inr (), st')
           \<and> mem_read (memory st') Dev_D 100 1 = [1, 2] \<and> mc_decode_value T_UInt16 [1, 2] = Inr (UInt16 0x0201)"
proof -
  let ?a = "\<lparr>addr_device = Dev_D, addr_head = 100, addr_bit = None\<rparr>"
  let ?e = "write_entry_of (?a, 1, 0xA8) [1, 2]"
  have b: "bytes_try_from (UInt16 0x0102) = [1, 2]" by code_simp
  have "writable_entries (planner_config sample_channel) [?e]"
    by (simp add: writable_entries_def write_ok_def write_entry_of_def cfg_ok_def planner_config_def unit_size_def entry_units_def
        write_units_distinct sample_channel_def)
  from write_points_served [OF assms(1) this, of st]
  obtain st' where w: "write_points_raw link cfg (planner_config sample_channel) [?e] st = Some (Inr (), st')"
    "memory st' = mem_write Dev_D 100 1 [1, 2] (memory st)" by (auto simp: write_entry_def write_entry_of_def)
  then have "write_point (Some link) cfg sample_channel p (UInt16 0x0102) st = Some (Inr (), st')"
    using word_point_units(1) [of p ?a "0xA8" 1] b assms(2)
    by (simp add: write_point_def write_points_typed_def driver_result_def word_point_def words_for_data_type_def sample_point_def)
  moreover have "mem_read (memory st') Dev_D 100 1 = [1, 2]"
    unfolding w(2) by (rule mem_read_write) (simp add: unit_size_def)
  moreover have "mc_decode_value T_UInt16 [1, 2] = Inr (UInt16 0x0201)" by code_simp
  ultimately show ?thesis by blast
qed

text \<open>Eight-bit values are one byte for a two-byte word: two of them on adjacent words panic in the planner.\<close>

theorem mc_adjacent_bytes_panic:
  "plan_write_batches \<lparr>max_points_per_batch = 480, max_bytes_per_frame = 4096\<rparr>
     [\<lparr>we_addr = \<lparr>addr_device = Dev_D, addr_head = 100, addr_bit = None\<rparr>, we_word_len = 1, we_device_code = 0xA8, we_data = [7]\<rparr>,
      \<lparr>we_addr = \<lparr>addr_device = Dev_D, addr_head = 101, addr_bit = None\<rparr>, we_word_len = 1, we_device_code = 0xA8, we_data = [7]\<rparr>] = None"
  by (simp add: plan_write_batches_def batch_all_def write_joins_def write_begins_def write_takes_def within_capacity_def sat_add_def
      unit_size_def Let_def)

end
