(* ===== verification/Cjt188_Frame.thy ===== *)
theory Cjt188_Frame
  imports Wire Sdk_Text
begin

text \<open>
  The CJ/T 188 frame of water, heat and gas meters: data identifiers, function codes, meter
  types, addresses, the control word and the unit codes (\<open>protocol/frame/defs.rs\<close>), the bodies
  (\<open>protocol/frame/body.rs\<close>), the generic frame (\<open>protocol/frame/mod.rs\<close>) and the request builders
  (\<open>protocol/frame/builder.rs\<close>).

  The lemmas show that the parser inverts the encoder on responses and stops at the end of the
  frame, that it accepts only frames with the announced length, checksum and end mark, and that
  requests for data groups outside a fixed list go out with the identifier of no group.
\<close>

section \<open>Identifiers, function codes and meter types\<close>

datatype Cjt188Version = V2004 | V2018

datatype Cjt188Error =
    CjIo string | CjFrameTooShort string | CjInvalidFrame string | CjChecksumMismatch u8 u8
  | CjSemantic string | CjTransport string | CjTimeout string

datatype DataIdentifier =
    DI_CumulativeFlow | DI_HeatPower | DI_ReturnTemp | DI_SupplyTemp | DI_WorkTime | DI_Time
     | DI_PriceTable | DI_SettlementDate | DI_ReadingDate | DI_PurchaseAmount | DI_NewKey
     | DI_StandardTime | DI_MotorSync | DI_ValveControl | DI_Address | DI_FactoryEnable
     | DI_EnterVerification | DI_ExitVerification | DI_WriteCommParams | DI_WriteFreeze
     | DI_WriteAlarmVol | DI_WriteAlarmMoney | DI_ModifyKey | DI_Unknown

primrec di_to_u16 :: "DataIdentifier \<Rightarrow> u16" where
  "di_to_u16 DI_CumulativeFlow = 0x901F"
| "di_to_u16 DI_HeatPower = 0x903F"
| "di_to_u16 DI_ReturnTemp = 0x904F"
| "di_to_u16 DI_SupplyTemp = 0x905F"
| "di_to_u16 DI_WorkTime = 0x906F"
| "di_to_u16 DI_Time = 0x907F"
| "di_to_u16 DI_PriceTable = 0xA010"
| "di_to_u16 DI_SettlementDate = 0xA011"
| "di_to_u16 DI_ReadingDate = 0xA012"
| "di_to_u16 DI_PurchaseAmount = 0xA013"
| "di_to_u16 DI_NewKey = 0xA014"
| "di_to_u16 DI_StandardTime = 0xA015"
| "di_to_u16 DI_MotorSync = 0xA016"
| "di_to_u16 DI_ValveControl = 0xA017"
| "di_to_u16 DI_Address = 0xA018"
| "di_to_u16 DI_FactoryEnable = 0xA019"
| "di_to_u16 DI_EnterVerification = 0xA101"
| "di_to_u16 DI_ExitVerification = 0xA102"
| "di_to_u16 DI_WriteCommParams = 0xA103"
| "di_to_u16 DI_WriteFreeze = 0xA104"
| "di_to_u16 DI_WriteAlarmVol = 0xA105"
| "di_to_u16 DI_WriteAlarmMoney = 0xA106"
| "di_to_u16 DI_ModifyKey = 0xA107"
| "di_to_u16 DI_Unknown = 0xFFFF"

definition di_from_u16 :: "u16 \<Rightarrow> DataIdentifier" where
  "di_from_u16 val =
     (if val = 0x901F then DI_CumulativeFlow
      else if val = 0x903F then DI_HeatPower
      else if val = 0x904F then DI_ReturnTemp
      else if val = 0x905F then DI_SupplyTemp
      else if val = 0x906F then DI_WorkTime
      else if val = 0x907F then DI_Time
      else if val = 0xA010 then DI_PriceTable
      else if val = 0xA011 then DI_SettlementDate
      else if val = 0xA012 then DI_ReadingDate
      else if val = 0xA013 then DI_PurchaseAmount
      else if val = 0xA014 then DI_NewKey
      else if val = 0xA015 then DI_StandardTime
      else if val = 0xA016 then DI_MotorSync
      else if val = 0xA017 then DI_ValveControl
      else if val = 0xA018 then DI_Address
      else if val = 0xA019 then DI_FactoryEnable
      else if val = 0xA101 then DI_EnterVerification
      else if val = 0xA102 then DI_ExitVerification
      else if val = 0xA103 then DI_WriteCommParams
      else if val = 0xA104 then DI_WriteFreeze
      else if val = 0xA105 then DI_WriteAlarmVol
      else if val = 0xA106 then DI_WriteAlarmMoney
      else if val = 0xA107 then DI_ModifyKey
      else DI_Unknown)"

datatype FunctionCode = FC_Reserved | FC_ReadData | FC_ReadAddr | FC_WriteData | FC_WriteAddr | FC_WriteMotorSync | FC_Unknown

definition fc_from_bits :: "u8 \<Rightarrow> FunctionCode" where
  "fc_from_bits bits =
     (let b = bits AND 0x1F
      in if b = 0x00 then FC_Reserved else if b = 0x01 then FC_ReadData else if b = 0x03 then FC_ReadAddr
         else if b = 0x04 then FC_WriteData else if b = 0x15 then FC_WriteAddr
         else if b = 0x16 then FC_WriteMotorSync else FC_Unknown)"

primrec fc_to_bits :: "FunctionCode \<Rightarrow> u8" where
  "fc_to_bits FC_Reserved = 0x00"
| "fc_to_bits FC_ReadData = 0x01"
| "fc_to_bits FC_ReadAddr = 0x03"
| "fc_to_bits FC_WriteData = 0x04"
| "fc_to_bits FC_WriteAddr = 0x15"
| "fc_to_bits FC_WriteMotorSync = 0x16"
| "fc_to_bits FC_Unknown = 0x00"

datatype MeterTypeFamily = Water | Heat | Gas | Custom

type_synonym MeterType = u8

definition meter_family :: "MeterType \<Rightarrow> MeterTypeFamily" where
  "meter_family t =
     (if 0x10 \<le> t \<and> t \<le> 0x19 then Water else if 0x20 \<le> t \<and> t \<le> 0x29 then Heat
      else if 0x30 \<le> t \<and> t \<le> 0x39 then Gas else Custom)"

section \<open>Addresses\<close>

type_synonym Cjt188Address = bytes

definition wf_cj_address :: "Cjt188Address \<Rightarrow> bool" where
  "wf_cj_address a \<longleftrightarrow> length a = 7"

definition cj_address_from_bytes :: "bytes \<Rightarrow> Cjt188Error + Cjt188Address" where
  "cj_address_from_bytes bs =
     (if length bs < 7 then Inl (CjFrameTooShort ''address requires 7 bytes'') else Inr (take 7 bs))"

definition broadcast_aa :: Cjt188Address where
  "broadcast_aa = replicate 7 0xAA"

definition is_ascii_hexdigit :: "char \<Rightarrow> bool" where
  "is_ascii_hexdigit c \<longleftrightarrow> to_digit 16 c \<noteq> None"

text \<open>The hexadecimal decoder of the \<open>hex\<close> crate is a parameter.\<close>

definition cj_parse_str :: "(string \<Rightarrow> string + bytes) \<Rightarrow> string \<Rightarrow> Cjt188Error + Cjt188Address" where
  "cj_parse_str hex_decode s =
     (let s = trim s
      in if length s = 14 \<and> list_all is_ascii_hexdigit s then
           (case hex_decode s of
              Inl e \<Rightarrow> Inl (CjSemantic (''Invalid hex address: '' @ e))
            | Inr bs \<Rightarrow> if length bs \<noteq> 7 then Inl (CjSemantic ''Invalid address length'') else Inr (rev bs))
         else Inl (CjSemantic ''Invalid address string format''))"

definition hex_upper :: "nat \<Rightarrow> char" where
  "hex_upper n = ''0123456789ABCDEF'' ! (n mod 16)"

definition cj_byte_text :: "u8 \<Rightarrow> string" where
  "cj_byte_text b =
     (let hi = drop_bit 4 b AND 0x0F; lo = b AND 0x0F; fmt = [hex_upper (unat hi), hex_upper (unat lo)]
      in if b = 0xAA \<or> b = 0x99 then fmt
         else if hi \<le> 9 \<and> lo \<le> 9 then [char_of (0x30 + unat hi), char_of (0x30 + unat lo)]
         else fmt)"

definition cj_to_string_be :: "Cjt188Address \<Rightarrow> string" where
  "cj_to_string_be a = concat (map cj_byte_text (rev a))"

section \<open>The control word\<close>

datatype CjDirection = CjMasterToSlave | CjSlaveToMaster

type_synonym ControlWord = u8

definition control_from_parts :: "CjDirection \<Rightarrow> bool \<Rightarrow> bool \<Rightarrow> FunctionCode \<Rightarrow> ControlWord" where
  "control_from_parts dir err follow func =
     (let w = fc_to_bits func AND 0x1F;
          w = (if dir = CjSlaveToMaster then w OR 0x80 else w);
          w = (if err then w OR 0x40 else w)
      in if follow then w OR 0x20 else w)"

definition cj_direction :: "ControlWord \<Rightarrow> CjDirection" where
  "cj_direction w = (if w AND 0x80 \<noteq> 0 then CjSlaveToMaster else CjMasterToSlave)"

definition cj_is_error :: "ControlWord \<Rightarrow> bool" where
  "cj_is_error w \<longleftrightarrow> w AND 0x40 \<noteq> 0"

definition has_follow_up :: "ControlWord \<Rightarrow> bool" where
  "has_follow_up w \<longleftrightarrow> w AND 0x20 \<noteq> 0"

definition cj_function_code :: "ControlWord \<Rightarrow> FunctionCode" where
  "cj_function_code w = fc_from_bits w"

section \<open>Unit codes\<close>

datatype (plugins only: code) Unit =
    U_J | U_Wh | U_WhX10 | U_WhX100 | U_KWh | U_KWhX10 | U_KWhX100 | U_MWh | U_MWhX10 | U_MWhX100 | U_KJ
     | U_KJX10 | U_KJX100 | U_MJ | U_MJX10 | U_MJX100 | U_GJ | U_GJX10 | U_GJX100 | U_W | U_WX10
     | U_WX100 | U_KW | U_KWX10 | U_KWX100 | U_MW | U_MWX10 | U_MWX100 | U_L | U_LX10 | U_LX100 | U_M3
     | U_M3X10 | U_M3X100 | U_Lh | U_LhX10 | U_LhX100 | U_M3h | U_M3hX10 | U_M3hX100 | U_Jh | U_KJh
     | U_KJhX10 | U_KJhX100 | U_MJh | U_MJhX10 | U_MJhX100 | U_GJh | U_GJhX10 | U_GJhX100 | U_Unknown

definition unit_from_code :: "u8 \<Rightarrow> Unit" where
  "unit_from_code code =
     (if code = 0x01 then U_J else if code = 0x02 then U_Wh else if code = 0x03 then U_WhX10
      else if code = 0x04 then U_WhX100 else if code = 0x05 then U_KWh else if code = 0x06 then U_KWhX10
      else if code = 0x07 then U_KWhX100 else if code = 0x08 then U_MWh else if code = 0x09 then U_MWhX10
      else if code = 0x0A then U_MWhX100 else if code = 0x0B then U_KJ else if code = 0x0C then U_KJX10
      else if code = 0x0D then U_KJX100 else if code = 0x0E then U_MJ else if code = 0x0F then U_MJX10
      else if code = 0x10 then U_MJX100 else if code = 0x11 then U_GJ else if code = 0x12 then U_GJX10
      else if code = 0x13 then U_GJX100 else if code = 0x14 then U_W else if code = 0x15 then U_WX10
      else if code = 0x16 then U_WX100 else if code = 0x17 then U_KW else if code = 0x18 then U_KWX10
      else if code = 0x19 then U_KWX100 else if code = 0x1A then U_MW else if code = 0x1B then U_MWX10
      else if code = 0x1C then U_MWX100 else if code = 0x29 then U_L else if code = 0x2A then U_LX10
      else if code = 0x2B then U_LX100 else if code = 0x2C then U_M3 else if code = 0x2D then U_M3X10
      else if code = 0x2E then U_M3X100 else if code = 0x32 then U_Lh else if code = 0x33 then U_LhX10
      else if code = 0x34 then U_LhX100 else if code = 0x35 then U_M3h else if code = 0x36 then U_M3hX10
      else if code = 0x37 then U_M3hX100 else if code = 0x40 then U_Jh else if code = 0x43 then U_KJh
      else if code = 0x44 then U_KJhX10 else if code = 0x45 then U_KJhX100 else if code = 0x46 then U_MJh
      else if code = 0x47 then U_MJhX10 else if code = 0x48 then U_MJhX100 else if code = 0x49 then U_GJh
      else if code = 0x4A then U_GJhX10 else if code = 0x4B then U_GJhX100
      else U_Unknown)"

section \<open>Bodies\<close>

record Cjt188CodecContext =
  cx_function_code :: "FunctionCode option"
  cx_is_error :: bool
  cx_version :: Cjt188Version

definition cx_default :: "Cjt188Version \<Rightarrow> Cjt188CodecContext" where
  "cx_default v = \<lparr>cx_function_code = None, cx_is_error = False, cx_version = v\<rparr>"

datatype Cjt188Body =
    CjRaw bytes
  | ReadData DataIdentifier u8
  | ReadDataResponse DataIdentifier u8 bytes
  | WriteData DataIdentifier u8 bytes
  | WriteDataResponse DataIdentifier u8 u8
  | WriteMotorSync DataIdentifier u8 bytes
  | WriteMotorSyncResponse DataIdentifier u8 u8
  | ReadAddr DataIdentifier u8
  | ReadAddrResponse DataIdentifier u8 Cjt188Address
  | WriteAddr DataIdentifier u8 Cjt188Address
  | WriteAddrResponse DataIdentifier u8 u8
  | ExceptionResponse FunctionCode u8

fun cj_body_function_code :: "Cjt188Body \<Rightarrow> FunctionCode" where
  "cj_body_function_code (CjRaw _) = FC_Unknown"
| "cj_body_function_code (ReadData _ _) = FC_ReadData"
| "cj_body_function_code (ReadDataResponse _ _ _) = FC_ReadData"
| "cj_body_function_code (WriteData _ _ _) = FC_WriteData"
| "cj_body_function_code (WriteDataResponse _ _ _) = FC_WriteData"
| "cj_body_function_code (WriteMotorSync _ _ _) = FC_WriteMotorSync"
| "cj_body_function_code (WriteMotorSyncResponse _ _ _) = FC_WriteMotorSync"
| "cj_body_function_code (ReadAddr _ _) = FC_ReadAddr"
| "cj_body_function_code (ReadAddrResponse _ _ _) = FC_ReadAddr"
| "cj_body_function_code (WriteAddr _ _ _) = FC_WriteAddr"
| "cj_body_function_code (WriteAddrResponse _ _ _) = FC_WriteAddr"
| "cj_body_function_code (ExceptionResponse f _) = f"

fun cj_data_payload :: "Cjt188Body \<Rightarrow> bytes option" where
  "cj_data_payload (CjRaw b) = Some b"
| "cj_data_payload (ReadDataResponse _ _ v) = Some v"
| "cj_data_payload (ReadAddrResponse _ _ a) = Some a"
| "cj_data_payload _ = None"

definition put_di :: "u16 \<Rightarrow> Cjt188Version \<Rightarrow> bytes" where
  "put_di di v = (case v of V2004 \<Rightarrow> be_bytes di | V2018 \<Rightarrow> le_bytes di)"

definition get_di :: "bytes \<Rightarrow> Cjt188Version \<Rightarrow> u16" where
  "get_di bs v = (case v of V2004 \<Rightarrow> be_word (take 2 bs) | V2018 \<Rightarrow> le_word (take 2 bs))"

fun cj_body_encoded_len :: "Cjt188Body \<Rightarrow> Cjt188CodecContext \<Rightarrow> nat" where
  "cj_body_encoded_len (CjRaw b) _ = length b"
| "cj_body_encoded_len (ReadData _ _) _ = 3"
| "cj_body_encoded_len (ReadDataResponse _ _ v) _ = 3 + length v"
| "cj_body_encoded_len (WriteData _ _ v) _ = 3 + length v"
| "cj_body_encoded_len (WriteDataResponse _ _ _) _ = 4"
| "cj_body_encoded_len (WriteMotorSync _ _ v) _ = 3 + length v"
| "cj_body_encoded_len (WriteMotorSyncResponse _ _ _) _ = 4"
| "cj_body_encoded_len (ReadAddr _ _) _ = 3"
| "cj_body_encoded_len (ReadAddrResponse _ _ _) _ = 10"
| "cj_body_encoded_len (WriteAddr _ _ _) _ = 10"
| "cj_body_encoded_len (WriteAddrResponse _ _ _) _ = 4"
| "cj_body_encoded_len (ExceptionResponse _ _) _ = 1"

fun cj_body_bytes :: "Cjt188Body \<Rightarrow> Cjt188CodecContext \<Rightarrow> bytes" where
  "cj_body_bytes (CjRaw b) ctx = b"
| "cj_body_bytes (ReadData di ser) ctx = put_di (di_to_u16 di) (cx_version ctx) @ [ser]"
| "cj_body_bytes (ReadDataResponse di ser v) ctx = put_di (di_to_u16 di) (cx_version ctx) @ [ser] @ v"
| "cj_body_bytes (WriteData di ser v) ctx = put_di (di_to_u16 di) (cx_version ctx) @ [ser] @ v"
| "cj_body_bytes (WriteDataResponse di ser st) ctx = put_di (di_to_u16 di) (cx_version ctx) @ [ser] @ [st]"
| "cj_body_bytes (WriteMotorSync di ser v) ctx = put_di (di_to_u16 di) (cx_version ctx) @ [ser] @ v"
| "cj_body_bytes (WriteMotorSyncResponse di ser st) ctx = put_di (di_to_u16 di) (cx_version ctx) @ [ser] @ [st]"
| "cj_body_bytes (ReadAddr di ser) ctx = put_di (di_to_u16 di) (cx_version ctx) @ [ser]"
| "cj_body_bytes (ReadAddrResponse di ser a) ctx = put_di (di_to_u16 di) (cx_version ctx) @ [ser] @ a"
| "cj_body_bytes (WriteAddr di ser a) ctx = put_di (di_to_u16 di) (cx_version ctx) @ [ser] @ a"
| "cj_body_bytes (WriteAddrResponse di ser st) ctx = put_di (di_to_u16 di) (cx_version ctx) @ [ser] @ [st]"
| "cj_body_bytes (ExceptionResponse _ st) ctx = [st]"

definition cj_body_encode_to :: "Cjt188Body \<Rightarrow> Cjt188CodecContext \<Rightarrow> Cjt188Error wrote" where
  "cj_body_encode_to b ctx = (cj_body_bytes b ctx, Inr ())"

definition cj_body_parse :: "bytes \<Rightarrow> Cjt188CodecContext \<Rightarrow> Cjt188Error + bytes \<times> Cjt188Body" where
  "cj_body_parse input ctx =
     (let func = (case cx_function_code ctx of Some f \<Rightarrow> f | None \<Rightarrow> FC_Unknown);
          di = di_from_u16 (get_di input (cx_version ctx)); ser = input ! 2
      in if cx_is_error ctx then
           (case input of
              [] \<Rightarrow> Inl (CjFrameTooShort ''Exception response missing status byte'')
            | st # r \<Rightarrow> Inr (r, ExceptionResponse func st))
         else case func of
           FC_ReadData \<Rightarrow>
             (if length input < 3 then Inl (CjFrameTooShort ''Body too short for ReadData Response'')
              else Inr ([], ReadDataResponse di ser (drop 3 input)))
         | FC_WriteData \<Rightarrow>
             (if length input < 4 then Inl (CjFrameTooShort ''Body too short for WriteData Response'')
              else Inr ([], WriteDataResponse di ser (input ! 3)))
         | FC_WriteMotorSync \<Rightarrow>
             (if length input < 4 then Inl (CjFrameTooShort ''Body too short for WriteMotorSync Response'')
              else Inr ([], WriteMotorSyncResponse di ser (input ! 3)))
         | FC_ReadAddr \<Rightarrow>
             (if length input < 10 then Inl (CjFrameTooShort ''Body too short for ReadAddr Response (min 10)'')
              else res_bind (cj_address_from_bytes (subslice input 3 10))
                     (\<lambda>a. Inr ([], ReadAddrResponse di ser a)))
         | FC_WriteAddr \<Rightarrow>
             (if length input = 4 then Inr ([], WriteAddrResponse di ser (input ! 3))
              else Inl (CjFrameTooShort ''Body length mismatch for WriteAddr Response (expected 4)''))
         | _ \<Rightarrow> Inr ([], CjRaw input))"

section \<open>The generic frame\<close>

record 'b Cjt188Frame =
  cf_meter_type :: MeterType
  cf_address :: Cjt188Address
  cf_control :: ControlWord
  cf_body :: 'b

type_synonym Cjt188TypedFrame = "Cjt188Body Cjt188Frame"

definition cj_frame_encoded_len ::
    "('b \<Rightarrow> Cjt188CodecContext \<Rightarrow> nat) \<Rightarrow> 'b Cjt188Frame \<Rightarrow> Cjt188CodecContext \<Rightarrow> nat" where
  "cj_frame_encoded_len encoded_len f ctx = 13 + encoded_len (cf_body f) ctx"

definition cj_header :: "MeterType \<Rightarrow> Cjt188Address \<Rightarrow> ControlWord \<Rightarrow> bytes" where
  "cj_header t a c = [0x68] @ [t] @ a @ [c]"

definition cj_checksum :: "MeterType \<Rightarrow> Cjt188Address \<Rightarrow> ControlWord \<Rightarrow> nat \<Rightarrow> bytes \<Rightarrow> u32" where
  "cj_checksum t a c body_len data =
     (let sum = 0x68 + ucast t;
          sum = fold (\<lambda>b sum. sum + ucast b) a sum;
          sum = sum + ucast c;
          sum = sum + of_nat body_len
      in fold (\<lambda>b sum. sum + ucast b) data sum)"

definition cj_frame_encode_to ::
    "('b \<Rightarrow> Cjt188CodecContext \<Rightarrow> nat) \<Rightarrow> ('b \<Rightarrow> Cjt188CodecContext \<Rightarrow> Cjt188Error wrote)
      \<Rightarrow> 'b Cjt188Frame \<Rightarrow> Cjt188CodecContext \<Rightarrow> Cjt188Error wrote" where
  "cj_frame_encode_to encoded_len encode_to f ctx =
     (let header = cj_header (cf_meter_type f) (cf_address f) (cf_control f);
          body_len = encoded_len (cf_body f) ctx
      in if body_len > 255 then (header, Inl (CjSemantic ''Body too large''))
         else
           (case encode_to (cf_body f) ctx of
              (_, Inl e) \<Rightarrow> (header @ [of_nat body_len], Inl e)
            | (body_buf, Inr _) \<Rightarrow>
                (header @ [of_nat body_len] @ body_buf
                   @ [ucast (cj_checksum (cf_meter_type f) (cf_address f) (cf_control f) body_len body_buf), 0x16], Inr ())))"

definition cj_body_ctx :: "Cjt188CodecContext \<Rightarrow> ControlWord \<Rightarrow> Cjt188CodecContext" where
  "cj_body_ctx ctx c =
     (case cx_function_code ctx of
        Some _ \<Rightarrow> ctx\<lparr>cx_is_error := cj_is_error c\<rparr>
      | None \<Rightarrow> ctx\<lparr>cx_function_code := Some (cj_function_code c), cx_is_error := cj_is_error c\<rparr>)"

definition cj_frame_parse ::
    "(bytes \<Rightarrow> Cjt188CodecContext \<Rightarrow> Cjt188Error + bytes \<times> 'b)
      \<Rightarrow> bytes \<Rightarrow> Cjt188CodecContext \<Rightarrow> Cjt188Error + bytes \<times> 'b Cjt188Frame" where
  "cj_frame_parse parse input ctx =
     (if length input < 13 then Inl (CjFrameTooShort ''min length 13'')
      else if input ! 0 \<noteq> 0x68 then Inl (CjInvalidFrame ''missing leading 0x68'')
      else
        res_bind (cj_address_from_bytes (subslice input 2 9)) (\<lambda>a.
          let c = input ! 9; body_ctx = cj_body_ctx ctx c;
              len = unat (input ! 10); expected_total_len = 11 + len + 2;
              cs_calc = byte_sum (subslice input 0 (11 + len)); cs_wire = input ! (11 + len)
          in if length input < expected_total_len then Inl (CjFrameTooShort ''buffer shorter than declared length'')
             else if cs_wire \<noteq> cs_calc then Inl (CjChecksumMismatch cs_wire cs_calc)
             else if input ! (11 + len + 1) \<noteq> 0x16 then Inl (CjInvalidFrame ''missing trailing 0x16'')
             else res_bind (parse (subslice input 11 (11 + len)) body_ctx)
                    (\<lambda>(_, b). Inr (drop expected_total_len input,
                                   \<lparr>cf_meter_type = input ! 1, cf_address = a, cf_control = c, cf_body = b\<rparr>))))"

section \<open>Request builders\<close>

definition cj_frame_new :: "MeterType \<Rightarrow> Cjt188Address \<Rightarrow> ControlWord \<Rightarrow> 'b \<Rightarrow> 'b Cjt188Frame" where
  "cj_frame_new t a c b = \<lparr>cf_meter_type = t, cf_address = a, cf_control = c, cf_body = b\<rparr>"

definition cj_build_read_data_frame :: "MeterType \<Rightarrow> Cjt188Address \<Rightarrow> DataIdentifier \<Rightarrow> u8 \<Rightarrow> Cjt188TypedFrame" where
  "cj_build_read_data_frame t a di ser =
     cj_frame_new t a (control_from_parts CjMasterToSlave False False FC_ReadData) (ReadData di ser)"

definition cj_build_write_data_frame :: "MeterType \<Rightarrow> Cjt188Address \<Rightarrow> DataIdentifier \<Rightarrow> u8 \<Rightarrow> bytes \<Rightarrow> Cjt188TypedFrame" where
  "cj_build_write_data_frame t a di ser v =
     cj_frame_new t a (control_from_parts CjMasterToSlave False False FC_WriteData) (WriteData di ser v)"

definition cj_build_write_motor_sync_frame :: "MeterType \<Rightarrow> Cjt188Address \<Rightarrow> DataIdentifier \<Rightarrow> u8 \<Rightarrow> bytes \<Rightarrow> Cjt188TypedFrame" where
  "cj_build_write_motor_sync_frame t a di ser v =
     cj_frame_new t a (control_from_parts CjMasterToSlave False False FC_WriteMotorSync) (WriteMotorSync di ser v)"

definition cj_build_read_address_frame :: "u8 \<Rightarrow> Cjt188TypedFrame" where
  "cj_build_read_address_frame ser =
     cj_frame_new 0xAA broadcast_aa (control_from_parts CjMasterToSlave False False FC_ReadAddr)
       (ReadAddr (di_from_u16 0x810A) ser)"

definition cj_build_write_address_frame :: "MeterType \<Rightarrow> Cjt188Address \<Rightarrow> Cjt188Address \<Rightarrow> u8 \<Rightarrow> Cjt188TypedFrame" where
  "cj_build_write_address_frame t current new ser =
     cj_frame_new t current (control_from_parts CjMasterToSlave False False FC_WriteAddr) (WriteAddr DI_Address ser new)"

section \<open>Bodies keep the wire contract\<close>

lemma di_roundtrip [simp]: "di_from_u16 (di_to_u16 d) = d"
  by (cases d) (simp_all add: di_from_u16_def)

lemma length_put_di [simp]: "length (put_di di v) = 2"
  by (cases v) (simp_all add: put_di_def)

lemma get_put_di [simp]: "get_di (put_di di v @ r) v = di"
  by (cases v) (simp_all add: put_di_def get_di_def be_word_bytes)

fun wf_cj_body :: "Cjt188Body \<Rightarrow> bool" where
  "wf_cj_body (ReadAddrResponse _ _ a) = wf_cj_address a"
| "wf_cj_body (WriteAddr _ _ a) = wf_cj_address a"
| "wf_cj_body _ = True"

text \<open>The bodies a context can receive: the response of its function, the exception of an error
  response, raw data of the functions without structure.\<close>

definition canonical_cj_body :: "Cjt188CodecContext \<Rightarrow> Cjt188Body \<Rightarrow> bool" where
  "canonical_cj_body ctx b \<longleftrightarrow>
     (let func = (case cx_function_code ctx of Some f \<Rightarrow> f | None \<Rightarrow> FC_Unknown)
      in if cx_is_error ctx then (\<exists>st. b = ExceptionResponse func st)
         else case func of
           FC_ReadData \<Rightarrow> (\<exists>di ser v. b = ReadDataResponse di ser v)
         | FC_WriteData \<Rightarrow> (\<exists>di ser st. b = WriteDataResponse di ser st)
         | FC_WriteMotorSync \<Rightarrow> (\<exists>di ser st. b = WriteMotorSyncResponse di ser st)
         | FC_ReadAddr \<Rightarrow> (\<exists>di ser a. b = ReadAddrResponse di ser a \<and> wf_cj_address a)
         | FC_WriteAddr \<Rightarrow> (\<exists>di ser st. b = WriteAddrResponse di ser st)
         | _ \<Rightarrow> (\<exists>v. b = CjRaw v))"

lemma canonical_cj_body_wf: "canonical_cj_body ctx b \<Longrightarrow> wf_cj_body b"
  by (auto simp: canonical_cj_body_def Let_def split: if_splits FunctionCode.splits)

lemma length_cj_body: "wf_cj_body b \<Longrightarrow> length (cj_body_bytes b ctx) = cj_body_encoded_len b ctx"
  by (cases b) (simp_all add: wf_cj_address_def)

lemma nth_put_di [simp]: "(put_di di v @ ser # r) ! 2 = ser" "(put_di di v @ ser # st # r) ! 3 = st"
  by (simp_all add: nth_append)

lemma drop_put_di [simp]: "drop 3 (put_di di v @ ser # r) = r" "subslice (put_di di v @ ser # r) 3 10 = take 7 r"
  by (simp_all add: subslice_def)

lemma cj_body_parse_encode: "canonical_cj_body ctx b \<Longrightarrow> cj_body_parse (cj_body_bytes b ctx) ctx = Inr ([], b)"
  by (auto simp: canonical_cj_body_def cj_body_parse_def Let_def cj_address_from_bytes_def wf_cj_address_def
      split: if_splits FunctionCode.splits)

text \<open>A body whose encoding depends on the context only through the version.\<close>

locale cjt188_body_codec = wire_codec encoded_len encode_to parse wf canonical
  for encoded_len :: "'b \<Rightarrow> Cjt188CodecContext \<Rightarrow> nat"
    and encode_to :: "'b \<Rightarrow> Cjt188CodecContext \<Rightarrow> Cjt188Error wrote"
    and parse :: "bytes \<Rightarrow> Cjt188CodecContext \<Rightarrow> Cjt188Error + bytes \<times> 'b"
    and wf :: "'b \<Rightarrow> bool" and canonical :: "Cjt188CodecContext \<Rightarrow> 'b \<Rightarrow> bool" +
  assumes encode_version: "cx_version c = cx_version d \<Longrightarrow> encode_to b c = encode_to b d"

interpretation cj_body: cjt188_body_codec cj_body_encoded_len cj_body_encode_to cj_body_parse wf_cj_body canonical_cj_body
proof unfold_locales
  show "cj_body_encode_to b c = cj_body_encode_to b d" if "cx_version c = cx_version d" for b c d
    using that by (cases b) (simp_all add: cj_body_encode_to_def)
qed (simp_all add: canonical_cj_body_wf cj_body_encode_to_def length_cj_body cj_body_parse_encode)

section \<open>The layout of a frame\<close>

definition cj_wire :: "MeterType \<Rightarrow> Cjt188Address \<Rightarrow> ControlWord \<Rightarrow> bytes \<Rightarrow> bytes" where
  "cj_wire t a c data =
     (let covered = cj_header t a c @ [of_nat (length data)] @ data
      in covered @ [byte_sum covered, 0x16])"

lemma ucast_cj_checksum: "(ucast (cj_checksum t a c n data) :: u8) = byte_sum (cj_header t a c @ [of_nat n] @ data)"
  by (simp add: cj_checksum_def cj_header_def Let_def ucast_fold_sum ucast_add_u8 ucast_of_nat_u8 ucast_up_ucast_id
      is_up add.assoc)

lemma length_cj_wire: "wf_cj_address a \<Longrightarrow> length (cj_wire t a c data) = 13 + length data"
  by (simp add: cj_wire_def cj_header_def wf_cj_address_def Let_def)

lemma cj_wire_nth:
  assumes "wf_cj_address a"
  shows "cj_wire t a c data ! 0 = 0x68" "cj_wire t a c data ! Suc 0 = t" "cj_wire t a c data ! 9 = c"
    "cj_wire t a c data ! 10 = of_nat (length data)" "subslice (cj_wire t a c data) 2 9 = a"
  using assms by (simp_all add: cj_wire_def cj_header_def wf_cj_address_def Let_def nth_append subslice_def)

lemma cj_wire_tail:
  assumes "wf_cj_address a"
  shows "subslice (cj_wire t a c data) 11 (11 + length data) = data"
    "cj_wire t a c data ! (11 + length data) = byte_sum (subslice (cj_wire t a c data) 0 (11 + length data))"
    "cj_wire t a c data ! (12 + length data) = 0x16"
proof -
  define covered where "covered = cj_header t a c @ [of_nat (length data)] @ data"
  have w: "cj_wire t a c data = covered @ [byte_sum covered, 0x16]" by (simp add: cj_wire_def covered_def Let_def)
  have len: "length covered = 11 + length data" using assms by (simp add: covered_def cj_header_def wf_cj_address_def)
  show "cj_wire t a c data ! (11 + length data) = byte_sum (subslice (cj_wire t a c data) 0 (11 + length data))"
    "cj_wire t a c data ! (12 + length data) = 0x16"
    unfolding w by (simp_all add: len nth_append subslice_0)
  show "subslice (cj_wire t a c data) 11 (11 + length data) = data"
    using assms by (simp add: w covered_def cj_header_def wf_cj_address_def subslice_def)
qed

lemma cj_frame_parse_wire:
  assumes "wf_cj_address a" "length data \<le> 255"
  shows "cj_frame_parse parse (cj_wire t a c data @ rest) ctx =
     res_bind (parse data (cj_body_ctx ctx c))
       (\<lambda>(_, b). Inr (rest, \<lparr>cf_meter_type = t, cf_address = a, cf_control = c, cf_body = b\<rparr>))"
proof -
  let ?w = "cj_wire t a c data"
  have len: "length ?w = 13 + length data" using assms(1) by (rule length_cj_wire)
  have n: "unat (?w ! 10) = length data" using assms by (simp add: cj_wire_nth unat_of_nat)
  have nth: "(?w @ rest) ! i = ?w ! i" if "i < 13 + length data" for i using that by (simp add: nth_append len)
  have "cj_address_from_bytes a = Inr a" using assms(1) by (simp add: cj_address_from_bytes_def wf_cj_address_def)
  then show ?thesis
    using assms(1) n by (simp add: cj_frame_parse_def Let_def nth len cj_wire_nth cj_wire_tail)
qed

lemma cj_frame_parse_checks:
  assumes "cj_frame_parse parse input ctx = Inr (rest, f)"
  shows "13 + unat (input ! 10) \<le> length input" "input ! 0 = 0x68"
    "input ! (11 + unat (input ! 10)) = byte_sum (take (11 + unat (input ! 10)) input)"
    "input ! (12 + unat (input ! 10)) = 0x16" "rest = drop (13 + unat (input ! 10)) input"
  using assms
  by (auto simp: cj_frame_parse_def Let_def res_bind_eq_Inr subslice_0 cj_address_from_bytes_def split: if_splits)

section \<open>The frame over any conforming body\<close>

definition wf_cj_frame :: "('b \<Rightarrow> bool) \<Rightarrow> 'b Cjt188Frame \<Rightarrow> bool" where
  "wf_cj_frame wfb f \<longleftrightarrow> wf_cj_address (cf_address f) \<and> wfb (cf_body f)"

definition canonical_cj_frame ::
    "('b \<Rightarrow> Cjt188CodecContext \<Rightarrow> nat) \<Rightarrow> (Cjt188CodecContext \<Rightarrow> 'b \<Rightarrow> bool) \<Rightarrow> Cjt188CodecContext \<Rightarrow> 'b Cjt188Frame \<Rightarrow> bool" where
  "canonical_cj_frame encoded_len canonical ctx f \<longleftrightarrow>
     wf_cj_address (cf_address f) \<and> encoded_len (cf_body f) ctx \<le> 255 \<and> canonical (cj_body_ctx ctx (cf_control f)) (cf_body f)"

lemma version_cj_body_ctx [simp]: "cx_version (cj_body_ctx ctx c) = cx_version ctx"
  by (simp add: cj_body_ctx_def split: option.splits)

context cjt188_body_codec
begin

lemma cj_encode_wire:
  assumes "wf (cf_body f)" "snd (encode_to (cf_body f) ctx) = Inr ()" "encoded_len (cf_body f) ctx \<le> 255"
  shows "cj_frame_encode_to encoded_len encode_to f ctx =
     (cj_wire (cf_meter_type f) (cf_address f) (cf_control f) (fst (encode_to (cf_body f) ctx)), Inr ())"
proof -
  obtain bs where bs: "encode_to (cf_body f) ctx = (bs, Inr ())" using assms(2) by (metis prod.collapse)
  then have "encoded_len (cf_body f) ctx = length bs" using encode_length [OF assms(1,2)] by simp
  with assms(3) bs show ?thesis by (simp add: cj_frame_encode_to_def Let_def cj_wire_def ucast_cj_checksum)
qed

lemma cj_canonical_encode:
  assumes "canonical_cj_frame encoded_len canonical ctx f"
  shows "cj_frame_encode_to encoded_len encode_to f ctx =
     (cj_wire (cf_meter_type f) (cf_address f) (cf_control f) (fst (encode_to (cf_body f) ctx)), Inr ())"
    "length (fst (encode_to (cf_body f) ctx)) = encoded_len (cf_body f) ctx"
proof -
  have canon: "canonical (cj_body_ctx ctx (cf_control f)) (cf_body f)" and le: "encoded_len (cf_body f) ctx \<le> 255"
    using assms by (simp_all add: canonical_cj_frame_def)
  have ok: "snd (encode_to (cf_body f) ctx) = Inr ()"
    using canonical_encodes [OF canon] encode_version [of ctx "cj_body_ctx ctx (cf_control f)"] by simp
  show "cj_frame_encode_to encoded_len encode_to f ctx =
     (cj_wire (cf_meter_type f) (cf_address f) (cf_control f) (fst (encode_to (cf_body f) ctx)), Inr ())"
    using canonical_wf [OF canon] ok le by (rule cj_encode_wire)
  show "length (fst (encode_to (cf_body f) ctx)) = encoded_len (cf_body f) ctx"
    using canonical_wf [OF canon] ok by (rule encode_length)
qed

lemma cj_parse_encode:
  assumes "canonical_cj_frame encoded_len canonical ctx f"
  shows "cj_frame_parse parse (fst (cj_frame_encode_to encoded_len encode_to f ctx) @ rest) ctx = Inr (rest, f)"
proof -
  have canon: "canonical (cj_body_ctx ctx (cf_control f)) (cf_body f)" and wf: "wf_cj_address (cf_address f)"
    and le: "encoded_len (cf_body f) ctx \<le> 255"
    using assms by (simp_all add: canonical_cj_frame_def)
  have "parse (fst (encode_to (cf_body f) ctx)) (cj_body_ctx ctx (cf_control f)) = Inr ([], cf_body f)"
    using parse_encode [OF canon] encode_version [of ctx "cj_body_ctx ctx (cf_control f)"] by simp
  then show ?thesis
    using cj_frame_parse_wire [OF wf, where parse = parse and ctx = ctx and data = "fst (encode_to (cf_body f) ctx)"]
      cj_canonical_encode [OF assms] le by simp
qed

end

sublocale cjt188_body_codec \<subseteq> cj_framed: wire_codec "cj_frame_encoded_len encoded_len"
    "cj_frame_encode_to encoded_len encode_to" "cj_frame_parse parse" "wf_cj_frame wf"
    "canonical_cj_frame encoded_len canonical"
proof unfold_locales
  fix c f assume canon: "canonical_cj_frame encoded_len canonical c f"
  show "wf_cj_frame wf f" using canon canonical_wf by (auto simp: canonical_cj_frame_def wf_cj_frame_def)
  show "snd (cj_frame_encode_to encoded_len encode_to f c) = Inr ()" by (simp add: cj_canonical_encode [OF canon])
  show "cj_frame_parse parse (fst (cj_frame_encode_to encoded_len encode_to f c)) c = Inr ([], f)"
    using cj_parse_encode [OF canon, of "[]"] by simp
next
  fix f c assume wf: "wf_cj_frame wf f" and ok: "snd (cj_frame_encode_to encoded_len encode_to f c) = Inr ()"
  have le: "encoded_len (cf_body f) c \<le> 255" and body_ok: "snd (encode_to (cf_body f) c) = Inr ()"
    using ok by (auto simp: cj_frame_encode_to_def Let_def split: if_splits prod.splits sum.splits)
  show "length (fst (cj_frame_encode_to encoded_len encode_to f c)) = cj_frame_encoded_len encoded_len f c"
    using wf cj_encode_wire [OF _ body_ok le] encode_length [OF _ body_ok]
    by (simp add: wf_cj_frame_def length_cj_wire cj_frame_encoded_len_def)
qed

section \<open>Addresses in text\<close>

lemma hex_upper_digit:
  assumes "n < 16"
  shows "to_digit 16 (hex_upper n) = Some n \<and> visible (hex_upper n)"
proof -
  from assms have "n \<in> insert 0 (set [1, 2, 3, 4, 5, 6, 7] \<union> set [8, 9, 10, 11, 12, 13, 14, 15])"
    by simp presburger
  then show ?thesis by (elim insertE UnE) (auto simp: hex_upper_def to_digit_def visible_def)
qed

lemma cj_byte_text: "cj_byte_text b = [hex_upper (unat (drop_bit 4 b AND 0x0F)), hex_upper (unat (b AND 0x0F))]"
proof -
  have "\<forall>n \<in> set [0..<10]. char_of (0x30 + n) = hex_upper n" by code_simp
  then have d: "char_of (0x30 + unat x) = hex_upper (unat x)" if "x \<le> 9" for x :: u8
    using that by (simp add: word_le_nat_alt)
  then show ?thesis by (auto simp: cj_byte_text_def Let_def)
qed

text \<open>What the driver relies on of \<open>hex::decode\<close>: it reads two digits per byte, most significant first.\<close>

definition decodes_hex :: "(string \<Rightarrow> string + bytes) \<Rightarrow> bool" where
  "decodes_hex hex_decode \<longleftrightarrow> (\<forall>bs. hex_decode (concat (map cj_byte_text bs)) = Inr bs)"

lemma cj_text_chars:
  "list_all (\<lambda>c. is_ascii_hexdigit c \<and> visible c) (concat (map cj_byte_text bs))" "length (concat (map cj_byte_text bs)) = 2 * length bs"
proof -
  have "unat (x AND 0x0F) < 16" for x :: u8
    using word_le_nat_alt [of "x AND 0x0F" "0x0F"] word_and_le1 [of x "0x0F"] by simp
  then show "list_all (\<lambda>c. is_ascii_hexdigit c \<and> visible c) (concat (map cj_byte_text bs))"
    using hex_upper_digit by (induction bs) (auto simp: cj_byte_text is_ascii_hexdigit_def)
  show "length (concat (map cj_byte_text bs)) = 2 * length bs" by (induction bs) (simp_all add: cj_byte_text)
qed

lemma cj_address_text_roundtrip:
  assumes "decodes_hex hex_decode" "wf_cj_address a"
  shows "cj_parse_str hex_decode (cj_to_string_be a) = Inr a"
proof -
  let ?s = "concat (map cj_byte_text (rev a))"
  have v: "list_all visible ?s" "list_all is_ascii_hexdigit ?s" "length ?s = 14"
    using cj_text_chars [of "rev a"] assms(2) by (auto simp: list_all_iff wf_cj_address_def)
  have "trim s = s" if "list_all visible s" for s
    by (rule trim_id) (simp_all add: that [unfolded list_all_iff, rule_format])
  from this [OF v(1)] show ?thesis
    using v assms by (simp add: cj_parse_str_def cj_to_string_be_def Let_def decodes_hex_def wf_cj_address_def)
qed


section \<open>Properties\<close>

abbreviation cj_encode :: "Cjt188TypedFrame \<Rightarrow> Cjt188CodecContext \<Rightarrow> Cjt188Error wrote" where
  "cj_encode \<equiv> cj_frame_encode_to cj_body_encoded_len cj_body_encode_to"

abbreviation cj_parse :: "bytes \<Rightarrow> Cjt188CodecContext \<Rightarrow> Cjt188Error + bytes \<times> Cjt188TypedFrame" where
  "cj_parse \<equiv> cj_frame_parse cj_body_parse"

text \<open>C31: parsing the encoding of a response frame, followed by any other bytes, gives the frame back
  and leaves exactly those bytes, for both versions of the protocol.\<close>

theorem cj_frame_roundtrip:
  assumes "canonical_cj_frame cj_body_encoded_len canonical_cj_body ctx f"
  shows "cj_parse (fst (cj_encode f ctx) @ rest) ctx = Inr (rest, f)"
  using assms by (rule cj_body.cj_parse_encode)

definition sample_reading :: Cjt188TypedFrame where
  "sample_reading =
     cj_frame_new 0x10 [1, 0, 0, 0, 0, 0, 0] (control_from_parts CjSlaveToMaster False False FC_ReadData)
       (ReadDataResponse DI_Time 7 [0x55, 0x14, 0x09, 0x09, 0x01, 0x26, 0x20])"

lemma sample_reading_canonical: "canonical_cj_frame cj_body_encoded_len canonical_cj_body (cx_default v) sample_reading"
proof -
  have "cj_body_ctx (cx_default v) (cf_control sample_reading)
      = \<lparr>cx_function_code = Some FC_ReadData, cx_is_error = False, cx_version = v\<rparr>"
    by (simp add: cj_body_ctx_def cx_default_def sample_reading_def cj_frame_new_def control_from_parts_def
        cj_function_code_def fc_from_bits_def cj_is_error_def)
  then show ?thesis
    by (simp add: canonical_cj_frame_def) (simp add: canonical_cj_body_def sample_reading_def cj_frame_new_def wf_cj_address_def)
qed

theorem cj_frame_roundtrip_witness:
  "cj_parse (fst (cj_encode sample_reading (cx_default V2018)) @ [0x68]) (cx_default V2018) = Inr ([0x68], sample_reading)"
  by (rule cj_frame_roundtrip [OF sample_reading_canonical])

text \<open>The request that asks a meter for its address carries the identifier 0xFFFF instead of the 0x810A
  the builder passes, because the type of identifiers has no such member.\<close>

theorem cj_read_address_identifier:
  "cj_body_bytes (cf_body (cj_build_read_address_frame ser)) (cx_default V2004) = [0xFF, 0xFF, ser]"
  by (simp add: cj_build_read_address_frame_def cj_frame_new_def di_from_u16_def cx_default_def put_di_def) code_simp

end
