(* ===== verification/Cjt188_Schema.thy ===== *)
theory Cjt188_Schema
  imports Cjt188_Frame
begin

text \<open>
  The structure of the CJ/T 188 data groups (\<open>codec/di_types.rs\<close>) and the registry of the built-in ones
  (\<open>codec/di_schema.rs\<close>).  The display names of the fields are left out; nothing reads them.

  The lemmas give the registry in closed form, show that every field in it has the length its format
  needs and that the keys of a group differ, that looking a group up does not depend on the order in
  which the hash map is iterated, and that a read request can name only two of the groups.
\<close>

section \<open>Formats, fields and schemas\<close>

datatype DataFormat = BCD u8 | BCDInteger | Binary | DateTime | Status | BCDWithUnit nat u8

fun default_length :: "DataFormat \<Rightarrow> nat" where
  "default_length (BCD _) = 4"
| "default_length BCDInteger = 4"
| "default_length Binary = 2"
| "default_length DateTime = 7"
| "default_length Status = 2"
| "default_length (BCDWithUnit data_length _) = data_length + 1"

record ResponseField =
  rf_key :: string
  rf_format :: DataFormat
  rf_length :: nat
  rf_has_unit_code :: bool

record DIResponseSchema =
  ds_di :: u16
  ds_applicable_meter_types :: "MeterTypeFamily list option"
  ds_fields :: "ResponseField list"

definition total_length :: "DIResponseSchema \<Rightarrow> nat" where
  "total_length schema = sum_list (map rf_length (ds_fields schema))"

definition applies_to :: "DIResponseSchema \<Rightarrow> MeterType \<Rightarrow> bool" where
  "applies_to schema t =
     (case ds_applicable_meter_types schema of None \<Rightarrow> True | Some families \<Rightarrow> meter_family t \<in> set families)"

definition find_field :: "DIResponseSchema \<Rightarrow> string \<Rightarrow> ResponseField option" where
  "find_field schema key = find (\<lambda>f. rf_key f = key) (ds_fields schema)"

section \<open>The built-in groups\<close>

definition fields_901f :: "ResponseField list" where
  "fields_901f =
     [ResponseField.make ''current_flow'' (BCDWithUnit 4 2) 5 True,
      ResponseField.make ''settlement_flow'' (BCDWithUnit 4 2) 5 True,
      ResponseField.make ''datetime'' (DateTime) 7 False,
      ResponseField.make ''status'' (Status) 2 False]"

definition fields_settlement_flow :: "ResponseField list" where
  "fields_settlement_flow =
     [ResponseField.make ''settlement_flow'' (BCDWithUnit 4 2) 5 True]"

definition fields_freeze :: "ResponseField list" where
  "fields_freeze =
     [ResponseField.make ''freeze_datetime'' (DateTime) 7 False,
      ResponseField.make ''cumulative_flow'' (BCDWithUnit 4 2) 5 True,
      ResponseField.make ''flow_rate'' (BCDWithUnit 4 4) 5 True,
      ResponseField.make ''temperature'' (BCD 2) 3 False,
      ResponseField.make ''pressure'' (BCD 2) 3 False]"

definition fields_901f_heat :: "ResponseField list" where
  "fields_901f_heat =
     [ResponseField.make ''settlement_heat'' (BCDWithUnit 4 2) 5 True,
      ResponseField.make ''current_heat'' (BCDWithUnit 4 2) 5 True,
      ResponseField.make ''heat_power'' (BCDWithUnit 3 2) 4 True,
      ResponseField.make ''flow_rate'' (BCDWithUnit 3 3) 4 True,
      ResponseField.make ''cumulative_flow'' (BCDWithUnit 4 2) 5 True,
      ResponseField.make ''supply_temp'' (BCD 2) 2 False,
      ResponseField.make ''return_temp'' (BCD 2) 2 False,
      ResponseField.make ''working_hours'' (BCDInteger) 4 False,
      ResponseField.make ''datetime'' (DateTime) 7 False,
      ResponseField.make ''status'' (Status) 2 False]"

definition fields_911f_heat :: "ResponseField list" where
  "fields_911f_heat =
     [ResponseField.make ''settlement_heat'' (BCDWithUnit 4 2) 5 True,
      ResponseField.make ''settlement_cooling'' (BCDWithUnit 4 2) 5 True,
      ResponseField.make ''current_heat'' (BCDWithUnit 4 2) 5 True,
      ResponseField.make ''current_cooling'' (BCDWithUnit 4 2) 5 True,
      ResponseField.make ''heat_power'' (BCDWithUnit 3 2) 4 True,
      ResponseField.make ''flow_rate'' (BCDWithUnit 3 4) 4 True,
      ResponseField.make ''cumulative_flow'' (BCDWithUnit 4 2) 5 True,
      ResponseField.make ''supply_temp'' (BCD 2) 2 False,
      ResponseField.make ''return_temp'' (BCD 2) 2 False,
      ResponseField.make ''supply_pressure'' (BCD 2) 2 False,
      ResponseField.make ''return_pressure'' (BCD 2) 2 False,
      ResponseField.make ''working_hours'' (BCDInteger) 4 False,
      ResponseField.make ''datetime'' (DateTime) 7 False,
      ResponseField.make ''status'' (Status) 2 False]"

definition fields_settlement_heat :: "ResponseField list" where
  "fields_settlement_heat =
     [ResponseField.make ''settlement_heat'' (BCDWithUnit 4 2) 5 True]"

definition fields_history_heat :: "ResponseField list" where
  "fields_history_heat =
     [ResponseField.make ''settlement_heat'' (BCDWithUnit 4 2) 5 True,
      ResponseField.make ''settlement_cooling'' (BCDWithUnit 4 2) 5 True,
      ResponseField.make ''settlement_flow'' (BCDWithUnit 4 2) 5 True]"

definition fields_907f :: "ResponseField list" where
  "fields_907f =
     [ResponseField.make ''datetime'' (DateTime) 7 False]"

definition fields_8102 :: "ResponseField list" where
  "fields_8102 =
     [ResponseField.make ''price_1'' (BCD 2) 3 False,
      ResponseField.make ''volume_1'' (BCDInteger) 3 False,
      ResponseField.make ''price_2'' (BCD 2) 3 False,
      ResponseField.make ''volume_2'' (BCDInteger) 3 False,
      ResponseField.make ''price_3'' (BCD 2) 3 False]"

definition fields_8103 :: "ResponseField list" where
  "fields_8103 =
     [ResponseField.make ''settlement_day'' (BCDInteger) 1 False]"

definition fields_8104 :: "ResponseField list" where
  "fields_8104 =
     [ResponseField.make ''reading_day'' (BCDInteger) 1 False]"

definition fields_8105 :: "ResponseField list" where
  "fields_8105 =
     [ResponseField.make ''purchase_seq'' (BCDInteger) 1 False,
      ResponseField.make ''this_purchase'' (BCD 2) 4 False,
      ResponseField.make ''total_purchase'' (BCD 2) 4 False,
      ResponseField.make ''remaining'' (BCD 2) 4 False,
      ResponseField.make ''status'' (Status) 2 False]"

section \<open>The registry\<close>

record DISchemaKey =
  sk_di :: u16
  sk_meter_family :: MeterTypeFamily

type_synonym schema_registry = "DISchemaKey \<Rightarrow> DIResponseSchema option"

definition schema_key :: "u16 \<Rightarrow> MeterTypeFamily \<Rightarrow> DISchemaKey" where
  "schema_key di f = \<lparr>sk_di = di, sk_meter_family = f\<rparr>"

definition water_gas :: "u16 \<Rightarrow> ResponseField list \<Rightarrow> DIResponseSchema" where
  "water_gas di fs = \<lparr>ds_di = di, ds_applicable_meter_types = Some [Water, Gas], ds_fields = fs\<rparr>"

definition heat_only :: "u16 \<Rightarrow> ResponseField list \<Rightarrow> DIResponseSchema" where
  "heat_only di fs = \<lparr>ds_di = di, ds_applicable_meter_types = Some [Heat], ds_fields = fs\<rparr>"

definition universal :: "u16 \<Rightarrow> ResponseField list \<Rightarrow> DIResponseSchema" where
  "universal di fs = \<lparr>ds_di = di, ds_applicable_meter_types = None, ds_fields = fs\<rparr>"

definition insert_water_gas :: "u16 \<Rightarrow> ResponseField list \<Rightarrow> schema_registry \<Rightarrow> schema_registry" where
  "insert_water_gas di fs reg =
     reg(schema_key di Water \<mapsto> water_gas di fs, schema_key di Gas \<mapsto> water_gas di fs)"

definition register_water_gas_schemas :: "schema_registry \<Rightarrow> schema_registry" where
  "register_water_gas_schemas reg =
     (let reg = insert_water_gas 0x901F fields_901f reg;
          reg = fold (\<lambda>x. insert_water_gas (0xD120 + x) fields_settlement_flow) (map of_nat [0..<0x0C]) reg;
          reg = fold (\<lambda>xx. insert_water_gas (0xD200 + xx) fields_settlement_flow) (map of_nat [0..<0x100]) reg;
          reg = fold (\<lambda>xx. insert_water_gas (0xD300 + xx) fields_freeze) (map of_nat [0..<0x100]) reg
      in fold (\<lambda>xx. insert_water_gas (0xD400 + xx) fields_freeze) (map of_nat [0..<0x100]) reg)"

definition insert_heat :: "u16 \<Rightarrow> ResponseField list \<Rightarrow> schema_registry \<Rightarrow> schema_registry" where
  "insert_heat di fs reg = reg(schema_key di Heat \<mapsto> heat_only di fs)"

definition register_heat_schemas :: "schema_registry \<Rightarrow> schema_registry" where
  "register_heat_schemas reg =
     (let reg = insert_heat 0x901F fields_901f_heat reg;
          reg = insert_heat 0x911F fields_911f_heat reg;
          reg = fold (\<lambda>x. insert_heat (0xD120 + x) fields_settlement_heat) (map of_nat [0..<0x0C]) reg
      in fold (\<lambda>xx. insert_heat (0xD200 + xx) fields_history_heat) (map of_nat [0..<0x100]) reg)"

definition register_common_schemas :: "schema_registry \<Rightarrow> schema_registry" where
  "register_common_schemas reg =
     fold (\<lambda>family reg.
         reg(schema_key 0x907F family \<mapsto> universal 0x907F fields_907f,
             schema_key 0x8102 family \<mapsto> universal 0x8102 fields_8102,
             schema_key 0x8103 family \<mapsto> universal 0x8103 fields_8103,
             schema_key 0x8104 family \<mapsto> universal 0x8104 fields_8104,
             schema_key 0x8105 family \<mapsto> universal 0x8105 fields_8105))
       [Water, Heat, Gas, Custom] reg"

definition DI_SCHEMA_REGISTRY :: schema_registry where
  "DI_SCHEMA_REGISTRY =
     register_common_schemas (register_heat_schemas (register_water_gas_schemas Map.empty))"

text \<open>The order in which the hash map yields the entries of one identifier is not fixed; it is the
  parameter \<open>order\<close>.\<close>

definition get_di_schema :: "MeterTypeFamily list \<Rightarrow> u16 \<Rightarrow> MeterType \<Rightarrow> DIResponseSchema option" where
  "get_di_schema order di t =
     (case DI_SCHEMA_REGISTRY (schema_key di (meter_family t)) of
        Some schema \<Rightarrow> Some schema
      | None \<Rightarrow>
          Option.bind
            (find (\<lambda>f. case DI_SCHEMA_REGISTRY (schema_key di f) of
                         Some schema \<Rightarrow> ds_applicable_meter_types schema = None
                       | None \<Rightarrow> False) order)
            (\<lambda>f. DI_SCHEMA_REGISTRY (schema_key di f)))"

section \<open>The registry in closed form\<close>

lemma schema_key_eq [simp]: "schema_key d f = schema_key e g \<longleftrightarrow> d = e \<and> f = g"
  by (simp add: schema_key_def)

lemma fold_insert_water_gas:
  "fold (\<lambda>x. insert_water_gas (base + x) fs) xs reg (schema_key d f) =
     (if d - base \<in> set xs \<and> (f = Water \<or> f = Gas) then Some (water_gas d fs) else reg (schema_key d f))"
  by (induction xs arbitrary: reg) (auto simp: insert_water_gas_def algebra_simps)

lemma fold_insert_heat:
  "fold (\<lambda>x. insert_heat (base + x) fs) xs reg (schema_key d f) =
     (if d - base \<in> set xs \<and> f = Heat then Some (heat_only d fs) else reg (schema_key d f))"
  by (induction xs arbitrary: reg) (auto simp: insert_heat_def algebra_simps)

definition in_block :: "u16 \<Rightarrow> nat \<Rightarrow> u16 \<Rightarrow> bool" where
  "in_block base n d \<longleftrightarrow> unat (d - base) < n"

lemma in_upt_word: "n \<le> 2 ^ 16 \<Longrightarrow> (d :: u16) - base \<in> set (map of_nat [0..<n]) \<longleftrightarrow> in_block base n d"
  by (auto simp: in_block_def unat_of_nat image_iff intro!: bexI [of _ "unat (d - base)"])

lemmas in_blocks = in_upt_word [of 256, simplified] in_upt_word [of 12, simplified]

definition common_group :: "u16 \<Rightarrow> DIResponseSchema option" where
  "common_group d =
     (if d = 0x907F then Some (universal d fields_907f)
      else if d = 0x8102 then Some (universal d fields_8102)
      else if d = 0x8103 then Some (universal d fields_8103)
      else if d = 0x8104 then Some (universal d fields_8104)
      else if d = 0x8105 then Some (universal d fields_8105)
      else None)"

definition family_group :: "u16 \<Rightarrow> MeterTypeFamily \<Rightarrow> DIResponseSchema option" where
  "family_group d f =
     (if f = Heat then
        (if in_block 0xD200 256 d then Some (heat_only d fields_history_heat)
         else if in_block 0xD120 12 d then Some (heat_only d fields_settlement_heat)
         else if d = 0x911F then Some (heat_only d fields_911f_heat)
         else if d = 0x901F then Some (heat_only d fields_901f_heat)
         else None)
      else if f = Custom then None
      else if in_block 0xD400 256 d \<or> in_block 0xD300 256 d then Some (water_gas d fields_freeze)
      else if in_block 0xD200 256 d \<or> in_block 0xD120 12 d then Some (water_gas d fields_settlement_flow)
      else if d = 0x901F then Some (water_gas d fields_901f)
      else None)"

definition registered :: "u16 \<Rightarrow> MeterTypeFamily \<Rightarrow> DIResponseSchema option" where
  "registered d f = (case common_group d of Some schema \<Rightarrow> Some schema | None \<Rightarrow> family_group d f)"

lemma registry_eq: "DI_SCHEMA_REGISTRY (schema_key d f) = registered d f"
proof -
  have off: "\<not> in_block 0xD120 12 0x901F" by (simp add: in_block_def)
  have "register_water_gas_schemas reg (schema_key d f) =
     (if f = Heat \<or> f = Custom then reg (schema_key d f)
      else if in_block 0xD400 256 d \<or> in_block 0xD300 256 d then Some (water_gas d fields_freeze)
      else if in_block 0xD200 256 d \<or> in_block 0xD120 12 d then Some (water_gas d fields_settlement_flow)
      else if d = 0x901F then Some (water_gas d fields_901f) else reg (schema_key d f))" for reg
    by (cases f) (simp_all add: register_water_gas_schemas_def Let_def fold_insert_water_gas in_blocks insert_water_gas_def off)
  moreover have "register_heat_schemas reg (schema_key d f) =
     (if f \<noteq> Heat then reg (schema_key d f)
      else if in_block 0xD200 256 d then Some (heat_only d fields_history_heat)
      else if in_block 0xD120 12 d then Some (heat_only d fields_settlement_heat)
      else if d = 0x911F then Some (heat_only d fields_911f_heat)
      else if d = 0x901F then Some (heat_only d fields_901f_heat)
      else reg (schema_key d f))" for reg
    by (simp add: register_heat_schemas_def Let_def fold_insert_heat in_blocks insert_heat_def)
  ultimately show ?thesis
    unfolding DI_SCHEMA_REGISTRY_def register_common_schemas_def registered_def common_group_def family_group_def
    by (cases f) (simp_all del: fun_upd_apply add: fun_upd_def)
qed

section \<open>Well-formed groups\<close>

text \<open>A field has the length its format asks for, short enough for the decoders.\<close>

fun wf_format :: "DataFormat \<Rightarrow> nat \<Rightarrow> bool" where
  "wf_format (BCD decimals) n \<longleftrightarrow> 0 < n \<and> n \<le> 7 \<and> unat decimals \<le> 15"
| "wf_format BCDInteger n \<longleftrightarrow> 0 < n \<and> n \<le> 9"
| "wf_format Binary n \<longleftrightarrow> n = 1 \<or> n = 2 \<or> n = 4"
| "wf_format DateTime n \<longleftrightarrow> n = 7"
| "wf_format Status n \<longleftrightarrow> n = 2"
| "wf_format (BCDWithUnit data_length decimals) n \<longleftrightarrow>
     n = data_length + 1 \<and> 0 < data_length \<and> data_length \<le> 7 \<and> unat decimals \<le> 15"

definition wf_fields :: "ResponseField list \<Rightarrow> bool" where
  "wf_fields fs \<longleftrightarrow> fs \<noteq> [] \<and> distinct (map rf_key fs) \<and> list_all (\<lambda>f. wf_format (rf_format f) (rf_length f)) fs"

lemmas field_lists = fields_901f_def fields_settlement_flow_def fields_freeze_def fields_901f_heat_def
  fields_911f_heat_def fields_settlement_heat_def fields_history_heat_def fields_907f_def fields_8102_def
  fields_8103_def fields_8104_def fields_8105_def

lemma wf_field_lists:
  "wf_fields fields_901f" "wf_fields fields_settlement_flow" "wf_fields fields_freeze" "wf_fields fields_901f_heat"
  "wf_fields fields_911f_heat" "wf_fields fields_settlement_heat" "wf_fields fields_history_heat"
  "wf_fields fields_907f" "wf_fields fields_8102" "wf_fields fields_8103" "wf_fields fields_8104" "wf_fields fields_8105"
  by (simp_all add: wf_fields_def field_lists ResponseField.make_def)

lemma common_group_wf:
  "common_group d = Some schema \<Longrightarrow> ds_di schema = d \<and> wf_fields (ds_fields schema) \<and> ds_applicable_meter_types schema = None"
  by (auto simp: common_group_def universal_def wf_field_lists split: if_splits)

lemma family_group_wf:
  "family_group d f = Some schema \<Longrightarrow>
     ds_di schema = d \<and> wf_fields (ds_fields schema) \<and> (\<exists>fs. ds_applicable_meter_types schema = Some fs \<and> f \<in> set fs)"
  by (cases f) (auto simp: family_group_def heat_only_def water_gas_def wf_field_lists split: if_splits)

lemma registered_wf: "registered d f = Some schema \<Longrightarrow> ds_di schema = d \<and> wf_fields (ds_fields schema)"
  by (auto simp: registered_def dest: common_group_wf family_group_wf split: option.splits)

text \<open>A universal group is registered for every family, so the search behind the exact match finds nothing.\<close>

lemma registered_universal:
  "registered d f = Some schema \<Longrightarrow> ds_applicable_meter_types schema = None \<Longrightarrow> registered d g = Some schema"
  by (auto simp: registered_def dest: family_group_wf split: option.splits)

lemma get_di_schema_eq: "get_di_schema order di t = registered di (meter_family t)"
proof (cases "registered di (meter_family t)")
  case None
  have "\<not> (case registered di f of Some schema \<Rightarrow> ds_applicable_meter_types schema = None | None \<Rightarrow> False)" for f
    using None registered_universal [of di f _ "meter_family t"] by (auto split: option.splits)
  then have "find (\<lambda>f. case registered di f of Some schema \<Rightarrow> ds_applicable_meter_types schema = None | None \<Rightarrow> False) order = None"
    by (simp add: find_None_iff)
  with None show ?thesis by (simp add: get_di_schema_def registry_eq)
qed (simp add: get_di_schema_def registry_eq)

lemma registered_applies: "registered d (meter_family t) = Some schema \<Longrightarrow> applies_to schema t"
  by (auto simp: registered_def applies_to_def dest: common_group_wf family_group_wf split: option.splits)

lemma di_known: "di_from_u16 d \<noteq> DI_Unknown \<Longrightarrow> d = di_to_u16 (di_from_u16 d)"
  unfolding di_from_u16_def by (simp split: if_splits)

section \<open>Properties\<close>

text \<open>The group found for an identifier and a meter type does not depend on the iteration order of the
  registry, has that identifier, applies to the meter type, has fields with different keys, and each
  field has the length its format needs.\<close>

theorem cj_schema_lookup:
  assumes "get_di_schema order di t = Some schema"
  shows "get_di_schema order' di t = Some schema \<and> ds_di schema = di \<and> applies_to schema t \<and> wf_fields (ds_fields schema)"
  using assms registered_wf registered_applies by (auto simp: get_di_schema_eq)

theorem cj_schema_lookup_witness:
  "get_di_schema [Gas, Water] 0xD2FF 0x20 = Some (heat_only 0xD2FF fields_history_heat)
     \<and> ds_di (heat_only 0xD2FF fields_history_heat) = 0xD2FF \<and> applies_to (heat_only 0xD2FF fields_history_heat) 0x20
     \<and> wf_fields (ds_fields (heat_only 0xD2FF fields_history_heat))"
proof (rule cj_schema_lookup [of "[]"])
  show "get_di_schema [] 0xD2FF 0x20 = Some (heat_only 0xD2FF fields_history_heat)"
    by (simp add: get_di_schema_eq registered_def common_group_def family_group_def meter_family_def in_block_def)
qed

text \<open>Only two of the registered groups can be asked for.  The identifier of every other group becomes
  0xFFFF on its way into a read request.\<close>

theorem cj_registered_groups_unreachable:
  assumes "DI_SCHEMA_REGISTRY (schema_key di f) = Some schema" "di \<noteq> 0x901F" "di \<noteq> 0x907F"
  shows "di_to_u16 (di_from_u16 di) = 0xFFFF"
proof (rule ccontr)
  assume "di_to_u16 (di_from_u16 di) \<noteq> 0xFFFF"
  then have "di_from_u16 di \<noteq> DI_Unknown" by auto
  from di_known [OF this] have "registered di f = None"
    using assms(2,3) by (cases "di_from_u16 di") (simp_all add: registered_def common_group_def family_group_def in_block_def)
  with assms(1) show False by (simp add: registry_eq)
qed

theorem cj_registered_groups_unreachable_witness: "di_to_u16 (di_from_u16 0xD120) = 0xFFFF"
proof (rule cj_registered_groups_unreachable [of _ Water])
  show "DI_SCHEMA_REGISTRY (schema_key 0xD120 Water) = Some (water_gas 0xD120 fields_settlement_flow)"
    by (simp add: registry_eq registered_def common_group_def family_group_def in_block_def)
qed simp_all

end
