(* ===== verification/Cjt188_Values.thy ===== *)
theory Cjt188_Values
  imports Cjt188_Frame Sdk_Codec
begin

text \<open>
  The decoders of the CJ/T 188 data formats (\<open>protocol/codec.rs\<close>): BCD numbers with and without
  decimal places, binary integers and dates.  The calendar checks of \<open>chrono\<close> are parameters.

  A BCD number is decoded into a sixty-four bit accumulator.  The lemmas show that its value is the
  decimal number as long as it has at most nine bytes, that the floating-point result is the number
  correctly rounded, that the encoder is inverted, and what happens beyond that size.
\<close>

section \<open>Powers of ten\<close>

text \<open>\<open>f64::powi\<close> with a non-negative exponent: repeated squaring, as the compiler's runtime does it.
  On the powers of ten up to fifteen that the result depends on, every step is exact.\<close>

function powi_loop :: "fp \<Rightarrow> fp \<Rightarrow> nat \<Rightarrow> fp" where
  "powi_loop a r b =
     (let r = (if odd b then f64_mul r a else r); b = b div 2
      in if b = 0 then r else powi_loop (f64_mul a a) r b)"
  by pat_completeness auto
termination by (relation "measure (\<lambda>(a, r, b). b)") auto

definition f64_powi :: "fp \<Rightarrow> nat \<Rightarrow> fp" where
  "f64_powi a b = powi_loop a (f64_of_int 1) b"

section \<open>BCD numbers\<close>

text \<open>The loop both decoders share; additions and multiplications wrap around.\<close>

fun bcd_loop :: "string \<Rightarrow> bytes \<Rightarrow> u64 \<Rightarrow> u64 \<Rightarrow> Cjt188Error + u64" where
  "bcd_loop msg [] value multiplier = Inr value"
| "bcd_loop msg (b # bs) value multiplier =
     (let lo = ucast (b AND 0x0F); hi = ucast (drop_bit 4 b AND 0x0F)
      in if lo > 9 \<or> hi > 9 then Inl (CjSemantic msg)
         else bcd_loop msg bs (value + (lo + hi * 10) * multiplier) (multiplier * 100))"

definition decode_bcd_to_f64 :: "bytes \<Rightarrow> u8 \<Rightarrow> bool \<Rightarrow> Cjt188Error + fp" where
  "decode_bcd_to_f64 bs decimals is_signed =
     (if bs = [] then Inl (CjSemantic ''BCD payload empty'')
      else if length bs > 8 then Inl (CjSemantic ''BCD payload too long'')
      else res_bind (bcd_loop ''Invalid BCD byte: '' bs 0 1) (\<lambda>value.
             let scale = f64_powi (f64_of_int 10) (unat decimals)
             in Inr (f64_div (f64_of_int (uint value)) scale)))"

definition decode_bcd_integer :: "bytes \<Rightarrow> Cjt188Error + u64" where
  "decode_bcd_integer bs =
     (if bs = [] then Inl (CjSemantic ''BCD payload empty'') else bcd_loop ''Invalid BCD byte: 0x'' bs 0 1)"

fun f64_abs :: "fp \<Rightarrow> fp" where
  "f64_abs (NaN _ pl) = NaN False pl"
| "f64_abs (Inf _) = Inf False"
| "f64_abs (Fin _ m e) = Fin False m e"

primrec bcd_digits :: "nat \<Rightarrow> u64 \<Rightarrow> bytes" where
  "bcd_digits 0 int_val = []"
| "bcd_digits (Suc n) int_val =
     (let lo = ucast (int_val mod 10); int_val = int_val div 10;
          hi = ucast (int_val mod 10); int_val = int_val div 10
      in (push_bit 4 hi OR lo) # bcd_digits n int_val)"

definition encode_f64_to_bcd :: "fp \<Rightarrow> nat \<Rightarrow> u8 \<Rightarrow> Cjt188Error + bytes" where
  "encode_f64_to_bcd value len decimals =
     (let scale = f64_powi (f64_of_int 10) (unat decimals);
          scaled = f64_round (f64_mul (f64_abs value) scale);
          int_val = word_of_int (fp_as_int 0 (2 ^ 64 - 1) scaled)
      in Inr (bcd_digits len int_val))"

definition decode_bcd_byte :: "u8 \<Rightarrow> Cjt188Error + u8" where
  "decode_bcd_byte byte =
     (let high = drop_bit 4 byte AND 0x0F; low = byte AND 0x0F
      in if high > 9 \<or> low > 9 then Inl (CjSemantic ''Invalid BCD byte: 0x'') else Inr (high * 10 + low))"

section \<open>Dates and binary integers\<close>

text \<open>What the code uses of \<open>chrono\<close>: the checked constructors of dates and times, and the milliseconds since
  the epoch of a date and time in UTC.\<close>

record ('d, 't) chrono =
  from_ymd_opt :: "int \<Rightarrow> u32 \<Rightarrow> u32 \<Rightarrow> 'd option"
  from_hms_opt :: "u32 \<Rightarrow> u32 \<Rightarrow> u32 \<Rightarrow> 't option"
  timestamp_millis :: "'d \<times> 't \<Rightarrow> 64 word"

definition build_datetime ::
    "('d, 't) chrono \<Rightarrow> int \<Rightarrow> u32 \<Rightarrow> u32 \<Rightarrow> u32 \<Rightarrow> u32 \<Rightarrow> u32 \<Rightarrow> Cjt188Error + ('d \<times> 't)" where
  "build_datetime ch year month day hour minute second =
     (case from_ymd_opt ch year month day of
        None \<Rightarrow> Inl (CjSemantic ''Invalid date: '')
      | Some date \<Rightarrow>
          (case from_hms_opt ch hour minute second of
             None \<Rightarrow> Inl (CjSemantic ''Invalid time: '')
           | Some time \<Rightarrow> Inr (date, time)))"

definition decode_datetime :: "('d, 't) chrono \<Rightarrow> bytes \<Rightarrow> Cjt188Error + ('d \<times> 't)" where
  "decode_datetime ch bs =
     (if length bs \<noteq> 7 then Inl (CjSemantic ''DateTime field must be 7 bytes (SS mm hh DD MM YY CC), got '')
      else
        res_bind (decode_bcd_byte (bs ! 0)) (\<lambda>second.
        res_bind (decode_bcd_byte (bs ! 1)) (\<lambda>minute.
        res_bind (decode_bcd_byte (bs ! 2)) (\<lambda>hour.
        res_bind (decode_bcd_byte (bs ! 3)) (\<lambda>day.
        res_bind (decode_bcd_byte (bs ! 4)) (\<lambda>month.
        res_bind (decode_bcd_byte (bs ! 5)) (\<lambda>yy.
        res_bind (decode_bcd_byte (bs ! 6)) (\<lambda>cc.
          build_datetime ch (uint cc * 100 + uint yy) (ucast month) (ucast day) (ucast hour) (ucast minute)
            (ucast second)))))))))"

definition datetime_to_epoch_ms :: "('d, 't) chrono \<Rightarrow> 'd \<times> 't \<Rightarrow> 64 word" where
  "datetime_to_epoch_ms ch ndt = timestamp_millis ch ndt"

definition decode_binary :: "bytes \<Rightarrow> Cjt188Error + u64" where
  "decode_binary bs =
     (if length bs = 1 then Inr (ucast (bs ! 0))
      else if length bs = 2 then Inr (ucast (le_word [bs ! 0, bs ! 1] :: u16))
      else if length bs = 4 then Inr (ucast (le_word [bs ! 0, bs ! 1, bs ! 2, bs ! 3] :: u32))
      else Inl (CjSemantic ''Unsupported binary field length: ''))"

section \<open>The decimal number of BCD bytes\<close>

definition bcd_byte :: "u8 \<Rightarrow> bool" where
  "bcd_byte b \<longleftrightarrow> b AND 0x0F \<le> 9 \<and> drop_bit 4 b AND 0x0F \<le> 9"

definition bcd_byte_val :: "u8 \<Rightarrow> nat" where
  "bcd_byte_val b = unat (b AND 0x0F) + 10 * unat (drop_bit 4 b AND 0x0F)"

primrec bcd_val :: "bytes \<Rightarrow> nat" where
  "bcd_val [] = 0"
| "bcd_val (b # bs) = bcd_byte_val b + 100 * bcd_val bs"

lemma nine_iff: "(9 :: u64) < ucast (x :: u8) \<longleftrightarrow> \<not> x \<le> 9"
  by (simp add: word_less_def word_le_def not_le)

lemma bcd_byte_val_less: "bcd_byte b \<Longrightarrow> bcd_byte_val b < 100"
  by (simp add: bcd_byte_def bcd_byte_val_def word_le_nat_alt)

lemma bcd_val_less: "list_all bcd_byte bs \<Longrightarrow> bcd_val bs < 100 ^ length bs"
  by (induction bs) (fastforce dest: bcd_byte_val_less)+

lemma bcd_pair:
  "(ucast (b AND 0x0F) + ucast (drop_bit 4 b AND 0x0F) * 10 :: u64) = of_nat (bcd_byte_val b)"
  by (simp add: bcd_byte_val_def mult.commute)

text \<open>The loop computes the decimal number modulo \<open>2 ^ 64\<close>, and fails exactly on a byte with a nibble above
  nine.\<close>

lemma bcd_loop_val:
  "bcd_loop msg bs acc mul =
     (if list_all bcd_byte bs then Inr (acc + of_nat (bcd_val bs) * mul) else Inl (CjSemantic msg))"
proof (induction bs arbitrary: acc mul)
  case (Cons b bs)
  have "bcd_loop msg (b # bs) acc mul =
      (if bcd_byte b then bcd_loop msg bs (acc + of_nat (bcd_byte_val b) * mul) (mul * 100)
       else Inl (CjSemantic msg))"
    by (simp add: Let_def bcd_byte_def nine_iff bcd_pair)
  then show ?case by (simp add: Cons.IH algebra_simps)
qed simp

text \<open>Up to nine bytes nothing wraps around.\<close>

lemma decode_bcd_integer_exact:
  assumes "bs \<noteq> []" "list_all bcd_byte bs" "length bs \<le> 9"
  shows "\<exists>w. decode_bcd_integer bs = Inr w \<and> unat w = bcd_val bs"
proof -
  have "(100 :: nat) ^ length bs \<le> 100 ^ 9" using assms(3) by (rule power_increasing) simp
  then have "bcd_val bs < 2 ^ 64" using bcd_val_less [OF assms(2)] by simp
  then show ?thesis using assms(1,2) by (simp add: decode_bcd_integer_def bcd_loop_val unat_of_nat)
qed

section \<open>Powers of ten are exact\<close>

lemma f64_int_mul:
  assumes "f64_int x i" "f64_int y j" "\<bar>i * j\<bar> \<le> 2 ^ 53"
  shows "f64_int (f64_mul x y) (i * j)"
proof -
  obtain s m e u n d where x: "x = Fin s m e" and y: "y = Fin u n d"
    using assms(1,2) by (cases x; cases y) (auto simp: f64_int_def)
  define a b where "a = (of_nat m * 2 powi e :: rat)" and "b = (of_nat n * 2 powi d :: rat)"
  have pos: "0 \<le> a" "0 \<le> b" by (simp_all add: a_def b_def)
  have val: "of_int i = (if s then - a else a)" "of_int j = (if u then - b else b)"
    using assms(1,2) by (auto simp: x y f64_int_def a_def b_def split: if_splits)
  have "a * b = \<bar>of_int i * of_int j\<bar>" using pos by (simp add: val abs_mult)
  then have ab: "a * b = of_nat (nat \<bar>i * j\<bar>)" by (simp flip: of_int_mult)
  have le: "nat \<bar>i * j\<bar> \<le> 2 ^ 53" using assms(3) by (simp add: nat_le_iff)
  have "f64_mul x y = fp_round F64 (s \<noteq> u) (of_nat (nat \<bar>i * j\<bar>))"
    unfolding ab [symmetric] by (simp add: x y a_def b_def)
  moreover have "(if s \<noteq> u then - (a * b) else a * b) = of_int (i * j)" by (simp add: val)
  ultimately show ?thesis
    using f64_round_nat [OF le, of "s \<noteq> u"] unfolding f64_int_def ab [symmetric] by (simp only: conj_absorb simp_thms)
qed

lemma powi_loop_int:
  assumes "f64_int a i" "f64_int r j" "1 \<le> i" "1 \<le> j" "j * i ^ b \<le> 2 ^ 53"
  shows "f64_int (powi_loop a r b) (j * i ^ b)"
  using assms
proof (induction a r b arbitrary: i j rule: powi_loop.induct)
  case (1 a r b)
  let ?r = "if odd b then f64_mul r a else r" and ?j = "if odd b then j * i else j"
  have b: "i ^ b = (if odd b then i else 1) * (i * i) ^ (b div 2)"
    by (cases "odd b") (auto elim!: oddE evenE simp: power_mult power2_eq_square)
  have i: "1 \<le> i * i" and ji: "1 \<le> j * i"
    using 1(4,5) mult_mono [of 1 i 1 i] mult_mono [of 1 j 1 i] by simp_all
  have r: "f64_int ?r ?j"
  proof (cases "odd b")
    case True
    have "i * 1 \<le> i * (i * i) ^ (b div 2)" using 1(4) i by (intro mult_left_mono one_le_power) simp_all
    then have "i \<le> i ^ b" using True b by simp
    then have "j * i \<le> j * i ^ b" using 1(5) by (intro mult_left_mono) simp_all
    then have "\<bar>j * i\<bar> \<le> 2 ^ 53" using ji 1(6) by linarith
    then show ?thesis using True f64_int_mul [OF 1(3,2)] by simp
  qed (use 1 in simp)
  show ?case
  proof (cases "b div 2 = 0")
    case True
    then show ?thesis using r b by (subst powi_loop.simps) (auto simp: Let_def split: if_splits)
  next
    case False
    have eq: "?j * (i * i) ^ (b div 2) = j * i ^ b" by (simp add: b)
    have j: "1 \<le> ?j" using 1(5) ji by simp
    have "i * i \<le> (i * i) ^ (b div 2)" using i False by (intro self_le_power) simp_all
    also have "\<dots> \<le> ?j * (i * i) ^ (b div 2)" using j i by (simp add: mult_le_cancel_right1)
    finally have "\<bar>i * i\<bar> \<le> 2 ^ 53" using 1(6) i unfolding eq by simp
    then have "f64_int (powi_loop (f64_mul a a) ?r (b div 2)) (?j * (i * i) ^ (b div 2))"
      using 1(1) [OF refl refl False f64_int_mul [OF 1(2,2)] r i j] 1(6) unfolding eq by simp
    then show ?thesis using False unfolding eq by (subst powi_loop.simps) (simp add: Let_def)
  qed
qed

lemma f64_ten_powi: "n \<le> 15 \<Longrightarrow> f64_int (f64_powi (f64_of_int 10) n) (10 ^ n)"
proof -
  assume "n \<le> 15"
  then have "(10 :: int) ^ n \<le> 10 ^ 15" by (rule power_increasing) simp
  then show ?thesis
    using powi_loop_int [OF f64_int_of_int f64_int_of_int, of 10 1 n] by (simp add: f64_powi_def)
qed

text \<open>Dividing an integer by a positive one rounds the quotient once.\<close>

lemma f64_int_div_pos:
  assumes "f64_int x i" "f64_int y j" "0 \<le> i" "0 < j" "i = 0 \<longrightarrow> x = f64_of_int 0"
  shows "f64_div x y = fp_of_rat F64 (of_int i / of_int j)"
proof -
  obtain s m e u n d where x: "x = Fin s m e" and y: "y = Fin u n d"
    using assms(1,2) by (cases x; cases y) (auto simp: f64_int_def)
  define a b where "a = (of_nat m * 2 powi e :: rat)" and "b = (of_nat n * 2 powi d :: rat)"
  have pos: "0 \<le> a" "0 \<le> b" by (simp_all add: a_def b_def)
  have val: "of_int i = (if s then - a else a)" "of_int j = (if u then - b else b)"
    using assms(1,2) by (auto simp: x y f64_int_def a_def b_def split: if_splits)
  have j: "(0 :: rat) < of_int j" and i: "(0 :: rat) \<le> of_int i" using assms(3,4) by simp_all
  have u: "\<not> u" "b = of_int j" using val(2) pos(2) j by (auto split: if_splits)
  have s: "\<not> s" "a = of_int i"
    using val(1) pos(1) i assms(5)
    by (cases "i = 0"; auto simp: x f64_of_int_def fp_of_rat_def fp_round_def split: if_splits)+
  have n: "n \<noteq> 0" using u(2) j by (intro notI) (simp add: b_def)
  have "f64_div x y = fp_round F64 False (a / b)" using s(1) u(1) n by (simp add: x y a_def b_def)
  moreover have "\<not> (of_int i / of_int j :: rat) < 0" "\<bar>of_int i / of_int j :: rat\<bar> = of_int i / of_int j"
    using i j by (simp_all add: not_less)
  ultimately show ?thesis by (simp add: fp_of_rat_def s(2) u(2))
qed

section \<open>Numbers with decimal places\<close>

lemma decode_bcd_to_f64_exact:
  assumes "bs \<noteq> []" "list_all bcd_byte bs" "length bs \<le> 7" "unat decimals \<le> 15"
  shows "decode_bcd_to_f64 bs decimals is_signed = Inr (fp_of_rat F64 (of_nat (bcd_val bs) / 10 ^ unat decimals))"
proof -
  have "(100 :: nat) ^ length bs \<le> 100 ^ 7" using assms(3) by (rule power_increasing) simp
  then have less: "bcd_val bs < 100 ^ 7" using bcd_val_less [OF assms(2)] by simp
  have val: "uint (of_nat (bcd_val bs) :: u64) = int (bcd_val bs)"
    using less by (simp add: unsigned_of_nat take_bit_nat_eq_self)
  have "f64_int (f64_of_int (int (bcd_val bs))) (int (bcd_val bs))" using less by (intro f64_int_of_int) simp
  from f64_int_div_pos [OF this f64_ten_powi [OF assms(4)]]
  have "f64_div (f64_of_int (int (bcd_val bs))) (f64_powi (f64_of_int 10) (unat decimals))
      = fp_of_rat F64 (of_nat (bcd_val bs) / 10 ^ unat decimals)"
    by simp
  then show ?thesis using assms(1-3) by (simp add: decode_bcd_to_f64_def bcd_loop_val val)
qed

section \<open>Encoding\<close>

lemma unat_digit: "unat (ucast (w :: u64) :: u8) = unat w" if "w < 10"
proof -
  have "unat w < 256" using that by (simp add: word_less_nat_alt)
  then show ?thesis by (simp add: unsigned_ucast_eq take_bit_nat_eq_self)
qed

lemma bcd_digits_byte:
  fixes w :: u64
  defines "b \<equiv> push_bit 4 (ucast (w div 10 mod 10)) OR ucast (w mod 10) :: u8"
  shows "bcd_byte b" "bcd_byte_val b = unat w mod 100"
proof -
  have "w mod 10 < 10" "w div 10 mod 10 < 10" by (simp_all add: word_less_nat_alt unat_mod)
  note dig = this [THEN unat_digit]
  have cast: "(ucast y :: u8) = of_nat (unat y)" for y :: u64 by simp
  have ten: "unat (10 :: u64) = 10" by simp
  note small = cast [of "w mod 10", unfolded unat_mod ten] cast [of "w div 10 mod 10", unfolded unat_mod unat_div ten]
  note pack = nibble_pack [OF nibble_small nibble_small, of "unat w div 10 mod 10" "unat w mod 10", folded small]
  have "unat w mod 10 < 16" by (rule less_trans [OF mod_less_divisor]) simp_all
  moreover have "unat w div 10 mod 10 < 16" by (rule less_trans [OF mod_less_divisor]) simp_all
  ultimately have b: "drop_bit 4 b AND 0x0F = ucast (w div 10 mod 10)" "b AND 0x0F = ucast (w mod 10)"
    unfolding b_def using pack by blast+
  have "m mod 10 \<le> 9" for m :: nat using mod_less_divisor [of 10 m] by linarith
  then show "bcd_byte b" using dig by (simp add: bcd_byte_def b word_le_nat_alt unat_mod)
  have "unat w mod 100 = unat w mod 10 + 10 * (unat w div 10 mod 10)" using mod_mult2_eq [of "unat w" 10 10] by simp
  then show "bcd_byte_val b = unat w mod 100" using dig by (simp add: bcd_byte_val_def b unat_mod unat_div)
qed

lemma length_bcd_digits: "length (bcd_digits n w) = n"
  by (induction n arbitrary: w) (simp_all add: Let_def)

lemma bcd_digits_val:
  "list_all bcd_byte (bcd_digits n w) \<and> bcd_val (bcd_digits n w) = unat w mod 100 ^ n"
proof (induction n arbitrary: w)
  case (Suc n)
  have "unat w mod (100 * 100 ^ n) = unat w mod 100 + 100 * (unat w div 100 mod 100 ^ n)"
    by (simp add: mod_mult2_eq add.commute)
  moreover have "unat (w div 10 div 10) = unat w div 100" by (simp add: unat_div flip: div_mult2_eq)
  ultimately show ?case using Suc.IH [of "w div 10 div 10"] by (simp add: Let_def bcd_digits_byte)
qed simp

text \<open>The bytes of an integer, scaled by the decimal places, decode to its last digits.\<close>

lemma f64_int_abs: "f64_int x i \<Longrightarrow> f64_int (f64_abs x) \<bar>i\<bar>"
proof -
  assume x: "f64_int x i"
  then obtain s m e where eq: "x = Fin s m e" by (cases x) (auto simp: f64_int_def)
  have "\<bar>fp_val x\<bar> = of_nat m * 2 powi e" by (simp add: eq abs_mult)
  with x show ?thesis by (simp add: f64_int_def eq fp_ok_def)
qed

lemma encode_bcd_decode:
  assumes "f64_int x i" "unat decimals \<le> 15" "\<bar>i\<bar> * 10 ^ unat decimals \<le> 2 ^ 53" "0 < len" "len \<le> 9"
    and "encode_f64_to_bcd x len decimals = Inr bs"
  shows "\<exists>w. decode_bcd_integer bs = Inr w \<and> unat w = nat (\<bar>i\<bar> * 10 ^ unat decimals) mod 100 ^ len"
proof -
  define N where "N = \<bar>i\<bar> * 10 ^ unat decimals"
  have "f64_int (f64_mul (f64_abs x) (f64_powi (f64_of_int 10) (unat decimals))) N"
    unfolding N_def using assms(3) by (intro f64_int_mul f64_int_abs f64_ten_powi assms(1,2)) (simp add: abs_mult)
  then have r: "is_finite (f64_round (f64_mul (f64_abs x) (f64_powi (f64_of_int 10) (unat decimals))))"
    "fp_val (f64_round (f64_mul (f64_abs x) (f64_powi (f64_of_int 10) (unat decimals)))) = of_int N"
    by (simp_all add: f64_int_round)
  have N: "0 \<le> N" "N \<le> 2 ^ 53" using assms(3) by (simp_all add: N_def)
  then have "bs = bcd_digits len (word_of_int N)"
    using assms(6) r by (simp add: encode_f64_to_bcd_def Let_def fp_as_int_finite)
  moreover have "unat (word_of_int N :: u64) = nat N" using N by (simp add: unat_eq_nat_uint uint_word_of_int_id)
  ultimately have bs: "list_all bcd_byte bs" "bcd_val bs = nat N mod 100 ^ len" "length bs = len"
    using bcd_digits_val [of len "word_of_int N"] by (simp_all add: length_bcd_digits)
  then show ?thesis using decode_bcd_integer_exact [of bs] assms(4,5) unfolding N_def by fastforce
qed

section \<open>Dates\<close>

lemma decode_bcd_byte_val:
  "decode_bcd_byte b = (if bcd_byte b then Inr (of_nat (bcd_byte_val b)) else Inl (CjSemantic ''Invalid BCD byte: 0x''))"
  by (auto simp: decode_bcd_byte_def bcd_byte_def bcd_byte_val_def Let_def not_le mult.commute)

lemma decode_datetime_fields:
  assumes "list_all bcd_byte [ss, mi, hh, dd, mo, yy, cc]"
  shows "decode_datetime ch [ss, mi, hh, dd, mo, yy, cc] =
     build_datetime ch (int (bcd_val [yy, cc])) (of_nat (bcd_byte_val mo)) (of_nat (bcd_byte_val dd))
       (of_nat (bcd_byte_val hh)) (of_nat (bcd_byte_val mi)) (of_nat (bcd_byte_val ss))"
proof -
  have "bcd_byte b \<Longrightarrow> (ucast (of_nat (bcd_byte_val b) :: u8) :: u32) = of_nat (bcd_byte_val b)"
    "bcd_byte b \<Longrightarrow> uint (of_nat (bcd_byte_val b) :: u8) = int (bcd_byte_val b)" for b
    using bcd_byte_val_less [of b] by (simp_all add: unsigned_of_nat take_bit_nat_eq_self)
  with assms show ?thesis by (simp add: decode_datetime_def decode_bcd_byte_val algebra_simps)
qed

section \<open>Properties\<close>

text \<open>C34: a BCD field of up to seven bytes with up to fifteen decimal places is decoded to the
  \<open>f64\<close> nearest to the decimal number its digits denote, least significant byte first.\<close>

theorem cj_bcd_decimal:
  assumes "bs \<noteq> []" "list_all bcd_byte bs" "length bs \<le> 7" "unat decimals \<le> 15"
  shows "decode_bcd_to_f64 bs decimals is_signed = Inr (fp_of_rat F64 (of_nat (bcd_val bs) / 10 ^ unat decimals))"
  using assms by (rule decode_bcd_to_f64_exact)

theorem cj_bcd_decimal_witness:
  "decode_bcd_to_f64 [0x56, 0x34, 0x12] 2 False = Inr (fp_of_rat F64 (123456 / 100))"
  using cj_bcd_decimal [of "[0x56, 0x34, 0x12]" 2 False]
  by (simp add: bcd_byte_def bcd_byte_val_def)

end
