(* ===== verification/Cjt188_Parser.thy ===== *)
theory Cjt188_Parser
  imports Cjt188_Schema Cjt188_Values
begin

text \<open>
  The parser of CJ/T 188 responses (\<open>codec/di_parser.rs\<close>) and the points it serves (\<open>types.rs\<close>).  A field of
  the payload is decoded once and handed to every point that refers to it, converted to the
  point's type.

  The lemmas show that the index of the points and the walk over the fields compute, for every
  point, the value its field has in the payload, and nothing else.
\<close>

section \<open>Points\<close>

record Cjt188Point =
  cp_id :: int
  cp_device_id :: int
  cp_key :: string
  cp_type :: DataPointType
  cp_data_type :: DataType
  cp_access_mode :: AccessMode
  cp_transform :: Transform
  cp_di :: u16
  cp_field_key :: string

definition cp_logical_data_type :: "Cjt188Point \<Rightarrow> DataType" where
  "cp_logical_data_type p = resolve_logical_datatype (cp_transform p) (cp_data_type p)"

section \<open>The parser\<close>

datatype DecodedScalar = D_F64 fp | D_U64 u64 | D_I64 "64 word"

fun decode_scalar :: "('d, 't) chrono \<Rightarrow> DataFormat \<Rightarrow> bytes \<Rightarrow> Cjt188Error + (DecodedScalar \<times> Unit option)" where
  "decode_scalar ch (BCD decimals) data = res_bind (decode_bcd_to_f64 data decimals False) (\<lambda>raw. Inr (D_F64 raw, None))"
| "decode_scalar ch BCDInteger data = res_bind (decode_bcd_integer data) (\<lambda>raw. Inr (D_U64 raw, None))"
| "decode_scalar ch DataFormat.Binary data = res_bind (decode_binary data) (\<lambda>raw. Inr (D_U64 raw, None))"
| "decode_scalar ch DateTime data =
     res_bind (decode_datetime ch data) (\<lambda>ndt. Inr (D_I64 (datetime_to_epoch_ms ch ndt), None))"
| "decode_scalar ch Status data =
     (if length data \<noteq> 2 then Inl (CjSemantic ''Status field must be 2 bytes, got '')
      else Inr (D_U64 (ucast (le_word [data ! 0, data ! 1] :: u16)), None))"
| "decode_scalar ch (BCDWithUnit data_length decimals) data =
     (if length data \<noteq> data_length + 1 then Inl (CjSemantic ''BCDWithUnit field expected '')
      else res_bind (decode_bcd_to_f64 (take data_length data) decimals False)
             (\<lambda>raw. Inr (D_F64 raw, Some (unit_from_code (data ! data_length)))))"

fun coerce_scalar :: "DecodedScalar \<Rightarrow> Cjt188Point \<Rightarrow> NGValue option" where
  "coerce_scalar (D_F64 v) p = coerce_f64_to_value v (cp_logical_data_type p) (cp_transform p)"
| "coerce_scalar (D_U64 v) p = coerce_u64_to_value v (cp_logical_data_type p) (cp_transform p)"
| "coerce_scalar (D_I64 v) p = coerce_i64_to_value v (cp_logical_data_type p) (cp_transform p)"

record ParsedDIValue =
  pd_values :: "int \<Rightarrow> NGValue option"
  pd_unit_code :: "Unit option"

definition cj_parse_field ::
    "('d, 't) chrono \<Rightarrow> ResponseField \<Rightarrow> bytes \<Rightarrow> Cjt188Point list \<Rightarrow> Cjt188Error + ParsedDIValue" where
  "cj_parse_field ch f data ps =
     res_bind (decode_scalar ch (rf_format f) data) (\<lambda>(decoded, unit_code).
       Inr \<lparr>pd_values = fold (\<lambda>p values. case coerce_scalar decoded p of Some v \<Rightarrow> values(cp_id p \<mapsto> v) | None \<Rightarrow> values)
                          ps Map.empty,
            pd_unit_code = unit_code\<rparr>)"

text \<open>The index \<open>field_key -> points\<close>; the lists keep the order of the points.\<close>

definition index_points :: "Cjt188Point list \<Rightarrow> string \<Rightarrow> Cjt188Point list option" where
  "index_points points =
     fold (\<lambda>p m. m(cp_field_key p \<mapsto> (case m (cp_field_key p) of Some ps \<Rightarrow> ps | None \<Rightarrow> []) @ [p])) points Map.empty"

fun cj_parse_fields ::
    "('d, 't) chrono \<Rightarrow> (string \<Rightarrow> Cjt188Point list option) \<Rightarrow> bytes \<Rightarrow> ResponseField list \<Rightarrow> nat
      \<Rightarrow> (int \<Rightarrow> NGValue option) \<Rightarrow> Cjt188Error + (int \<Rightarrow> NGValue option)" where
  "cj_parse_fields ch idx data [] offset point_values = Inr point_values"
| "cj_parse_fields ch idx data (f # fs) offset point_values =
     (let field_data = subslice data offset (offset + rf_length f); offset = offset + rf_length f
      in case idx (rf_key f) of
           None \<Rightarrow> cj_parse_fields ch idx data fs offset point_values
         | Some ps \<Rightarrow>
             res_bind (cj_parse_field ch f field_data ps)
               (\<lambda>parsed. cj_parse_fields ch idx data fs offset (point_values ++ pd_values parsed)))"

record ParsedDIResponse =
  pr_di :: u16
  pr_point_values :: "int \<Rightarrow> NGValue option"

definition cj_di_parse ::
    "('d, 't) chrono \<Rightarrow> MeterTypeFamily list \<Rightarrow> u16 \<Rightarrow> MeterType \<Rightarrow> bytes \<Rightarrow> Cjt188Point list
      \<Rightarrow> Cjt188Error + ParsedDIResponse" where
  "cj_di_parse ch order di meter_type data points =
     (case get_di_schema order di meter_type of
        None \<Rightarrow> Inl (CjSemantic ''No schema found for DI '')
      | Some schema \<Rightarrow>
          let idx = index_points points; expected_len = total_length schema
          in if length data < expected_len then Inl (CjFrameTooShort ''Expected '')
             else res_bind (cj_parse_fields ch idx data (ds_fields schema) 0 Map.empty)
                    (\<lambda>values. Inr \<lparr>pr_di = di, pr_point_values = values\<rparr>))"

section \<open>What the parser computes\<close>

lemma index_points_eq:
  "index_points points k =
     (case filter (\<lambda>p. cp_field_key p = k) points of [] \<Rightarrow> None | p # ps \<Rightarrow> Some (p # ps))"
proof -
  have "fold (\<lambda>p m. m(cp_field_key p \<mapsto> (case m (cp_field_key p) of Some ps \<Rightarrow> ps | None \<Rightarrow> []) @ [p])) points m k =
     (case filter (\<lambda>p. cp_field_key p = k) points of [] \<Rightarrow> m k
      | p # ps \<Rightarrow> Some ((case m k of Some qs \<Rightarrow> qs | None \<Rightarrow> []) @ p # ps))" for m :: "string \<Rightarrow> Cjt188Point list option"
    by (induction points arbitrary: m) (auto split: list.splits option.splits)
  then show ?thesis by (simp add: index_points_def split: list.splits)
qed

lemma find_other_id: "distinct (map cp_id (p # ps)) \<Longrightarrow> find (\<lambda>q. cp_id q = cp_id p) ps = None"
  by (auto simp: find_None_iff) (metis image_eqI)

lemma find_own_id: "p \<in> set ps \<Longrightarrow> distinct (map cp_id ps) \<Longrightarrow> find (\<lambda>q. cp_id q = cp_id p) ps = Some p"
  by (induction ps) (auto dest: find_other_id)

text \<open>The value of a point is that of the first point with its identifier among those of a field.\<close>

lemma fold_values:
  assumes "distinct (map cp_id ps)"
  shows "fold (\<lambda>p values. case coerce_scalar d p of Some v \<Rightarrow> values(cp_id p \<mapsto> v) | None \<Rightarrow> values) ps m i =
     (case find (\<lambda>p. cp_id p = i) ps of None \<Rightarrow> m i
      | Some p \<Rightarrow> (case coerce_scalar d p of Some v \<Rightarrow> Some v | None \<Rightarrow> m i))"
  using assms
proof (induction ps arbitrary: m)
  case (Cons p ps)
  have "find (\<lambda>q. cp_id q = cp_id p) ps = None" using Cons.prems by (rule find_other_id)
  with Cons show ?case by (auto split: option.splits)
qed simp

text \<open>The field of a key and its data, in a walk over the fields.\<close>

fun field_at :: "ResponseField list \<Rightarrow> nat \<Rightarrow> bytes \<Rightarrow> string \<Rightarrow> (ResponseField \<times> bytes) option" where
  "field_at [] offset data k = None"
| "field_at (f # fs) offset data k =
     (if rf_key f = k then Some (f, subslice data offset (offset + rf_length f))
      else field_at fs (offset + rf_length f) data k)"

definition point_value ::
    "('d, 't) chrono \<Rightarrow> ResponseField list \<Rightarrow> nat \<Rightarrow> bytes \<Rightarrow> Cjt188Point \<Rightarrow> NGValue option" where
  "point_value ch fs offset data p =
     (case field_at fs offset data (cp_field_key p) of
        None \<Rightarrow> None
      | Some (f, bs) \<Rightarrow> (case decode_scalar ch (rf_format f) bs of Inl _ \<Rightarrow> None | Inr (d, _) \<Rightarrow> coerce_scalar d p))"

text \<open>Every field a point refers to decodes.\<close>

definition fields_decode ::
    "('d, 't) chrono \<Rightarrow> ResponseField list \<Rightarrow> nat \<Rightarrow> bytes \<Rightarrow> Cjt188Point list \<Rightarrow> bool" where
  "fields_decode ch fs offset data points \<longleftrightarrow>
     list_all (\<lambda>p. case field_at fs offset data (cp_field_key p) of None \<Rightarrow> True
                   | Some (f, bs) \<Rightarrow> \<exists>r. decode_scalar ch (rf_format f) bs = Inr r) points"

lemma field_at_key: "field_at fs offset data k = Some (f, bs) \<Longrightarrow> k \<in> rf_key ` set fs"
  by (induction fs arbitrary: offset) (auto split: if_splits)

lemma find_by_id:
  assumes "distinct (map cp_id points)"
  shows "find (\<lambda>p. cp_id p = i) (filter Q points) =
     (case find (\<lambda>p. cp_id p = i) points of None \<Rightarrow> None | Some p \<Rightarrow> if Q p then Some p else None)"
  using assms
proof (induction points)
  case (Cons p points)
  have "find (\<lambda>q. cp_id q = cp_id p) points = None" using Cons.prems by (rule find_other_id)
  with Cons show ?case by (auto split: option.splits)
qed simp

text \<open>The values of the points after the fields from \<open>offset\<close> on, starting from the values \<open>pv\<close>.\<close>

definition values_after ::
    "('d, 't) chrono \<Rightarrow> ResponseField list \<Rightarrow> nat \<Rightarrow> bytes \<Rightarrow> Cjt188Point list \<Rightarrow> (int \<Rightarrow> NGValue option) \<Rightarrow> int \<Rightarrow> NGValue option" where
  "values_after ch fs offset data points pv i =
     (case Option.bind (find (\<lambda>p. cp_id p = i) points) (point_value ch fs offset data) of Some v \<Rightarrow> Some v | None \<Rightarrow> pv i)"

lemma fields_skip:
  assumes "filter (\<lambda>p. cp_field_key p = rf_key f) points = []"
  shows "fields_decode ch (f # fs) offset data points = fields_decode ch fs (offset + rf_length f) data points"
    "values_after ch (f # fs) offset data points pv = values_after ch fs (offset + rf_length f) data points pv"
proof -
  have skip: "field_at (f # fs) offset data (cp_field_key p) = field_at fs (offset + rf_length f) data (cp_field_key p)"
    if "p \<in> set points" for p
    using that assms by (auto simp: filter_empty_conv)
  then show "fields_decode ch (f # fs) offset data points = fields_decode ch fs (offset + rf_length f) data points"
    by (simp add: fields_decode_def list_all_iff)
  have "find (\<lambda>p. cp_id p = i) points = Some p \<Longrightarrow> p \<in> set points" for i p by (auto simp: find_Some_iff)
  with skip show "values_after ch (f # fs) offset data points pv = values_after ch fs (offset + rf_length f) data points pv"
    by (auto simp: values_after_def point_value_def fun_eq_iff split: option.splits bind_splits)
qed

lemma fields_take:
  assumes "rf_key f \<notin> rf_key ` set fs" "distinct (map cp_id points)"
    and "decode_scalar ch (rf_format f) (subslice data offset (offset + rf_length f)) = Inr (d, u)"
  shows "fields_decode ch (f # fs) offset data points = fields_decode ch fs (offset + rf_length f) data points"
    "values_after ch (f # fs) offset data points pv =
       values_after ch fs (offset + rf_length f) data points
         (pv ++ fold (\<lambda>p values. case coerce_scalar d p of Some v \<Rightarrow> values(cp_id p \<mapsto> v) | None \<Rightarrow> values)
                  (filter (\<lambda>p. cp_field_key p = rf_key f) points) Map.empty)"
proof -
  have none: "field_at fs o' data (rf_key f) = None" for o'
    using assms(1) field_at_key [of fs o' data "rf_key f"] by (cases "field_at fs o' data (rf_key f)") auto
  then show "fields_decode ch (f # fs) offset data points = fields_decode ch fs (offset + rf_length f) data points"
    using assms(3) by (auto simp: fields_decode_def list_all_iff)
  have ids: "distinct (map cp_id (filter Q points))" for Q
    using assms(2) by (simp add: distinct_map_filter)
  show "values_after ch (f # fs) offset data points pv =
       values_after ch fs (offset + rf_length f) data points
         (pv ++ fold (\<lambda>p values. case coerce_scalar d p of Some v \<Rightarrow> values(cp_id p \<mapsto> v) | None \<Rightarrow> values)
                  (filter (\<lambda>p. cp_field_key p = rf_key f) points) Map.empty)"
    using assms(3) none
    by (auto simp: values_after_def point_value_def fun_eq_iff map_add_def fold_values [OF ids] find_by_id [OF assms(2)]
        split: option.splits)
qed

lemma cj_parse_fields_eq:
  assumes "distinct (map rf_key fs)" "distinct (map cp_id points)"
  shows "if fields_decode ch fs offset data points
     then cj_parse_fields ch (index_points points) data fs offset pv = Inr (values_after ch fs offset data points pv)
     else \<exists>e. cj_parse_fields ch (index_points points) data fs offset pv = Inl e"
  using assms(1)
proof (induction fs arbitrary: offset pv)
  case Nil
  then show ?case by (auto simp: fields_decode_def list_all_iff values_after_def point_value_def fun_eq_iff split: option.splits bind_splits)
next
  case (Cons f fs)
  note IH = Cons.IH and prems = Cons.prems
  let ?ps = "filter (\<lambda>p. cp_field_key p = rf_key f) points" and ?off = "offset + rf_length f"
  show ?case
  proof (cases ?ps)
    case Nil
    then have "index_points points (rf_key f) = None" by (simp add: index_points_eq)
    with IH prems show ?thesis by (simp add: fields_skip [OF Nil] Let_def)
  next
    case (Cons p ps)
    then have idx: "index_points points (rf_key f) = Some ?ps" by (simp add: index_points_eq)
    have "p \<in> set ?ps" unfolding Cons by simp
    then have p: "p \<in> set points" "cp_field_key p = rf_key f" by simp_all
    show ?thesis
    proof (cases "decode_scalar ch (rf_format f) (subslice data offset ?off)")
      case (Inl e)
      then have "\<not> fields_decode ch (f # fs) offset data points" using p by (auto simp: fields_decode_def list_all_iff intro!: bexI [of _ p])
      with Inl idx show ?thesis by (simp add: Let_def cj_parse_field_def)
    next
      case (Inr r)
      obtain d u where r: "r = (d, u)" by fastforce
      have key: "rf_key f \<notin> rf_key ` set fs" using prems by simp
      note take = fields_take [OF key assms(2) Inr [unfolded r]]
      show ?thesis using IH prems Inr idx unfolding take by (simp add: Let_def cj_parse_field_def r)
    qed
  qed
qed

text \<open>The slices taken from a payload of the expected length are complete.\<close>

lemma field_at_length:
  assumes "field_at fs offset data k = Some (f, bs)" "offset + sum_list (map rf_length fs) \<le> length data"
  shows "length bs = rf_length f \<and> f \<in> set fs"
  using assms by (induction fs arbitrary: offset) (auto simp: subslice_def split: if_splits)

lemma coerce_scalar_type: "coerce_scalar d p = Some v \<Longrightarrow> data_type v = cp_logical_data_type p"
  using coerce_value_type [of "Float64 _"] coerce_value_type [of "UInt64 _"] coerce_value_type [of "Int64 _"]
  by (cases d) auto

lemma point_value_type: "point_value ch fs offset data p = Some v \<Longrightarrow> data_type v = cp_logical_data_type p"
  by (auto simp: point_value_def dest: coerce_scalar_type split: option.splits sum.splits)

lemma di_parse_iff:
  assumes "distinct (map cp_id points)"
  shows "cj_di_parse ch order di t data points = Inr r \<longleftrightarrow>
     (\<exists>schema. get_di_schema order di t = Some schema \<and> total_length schema \<le> length data
        \<and> fields_decode ch (ds_fields schema) 0 data points
        \<and> r = \<lparr>pr_di = di, pr_point_values =
                 (\<lambda>i. Option.bind (find (\<lambda>p. cp_id p = i) points) (point_value ch (ds_fields schema) 0 data))\<rparr>)"
proof (cases "get_di_schema order di t")
  case (Some schema)
  then have "distinct (map rf_key (ds_fields schema))" using registered_wf by (auto simp: get_di_schema_eq wf_fields_def)
  note parse = cj_parse_fields_eq [OF this assms, of ch 0 data Map.empty]
  have "values_after ch (ds_fields schema) 0 data points Map.empty =
      (\<lambda>i. Option.bind (find (\<lambda>p. cp_id p = i) points) (point_value ch (ds_fields schema) 0 data))"
    by (auto simp: values_after_def fun_eq_iff split: option.splits)
  with Some parse show ?thesis by (auto simp: cj_di_parse_def Let_def split: if_splits)
qed (simp add: cj_di_parse_def)

section \<open>Properties\<close>

text \<open>C28: parsing a response succeeds exactly when the group is known, the payload is long enough and every
  field a point refers to decodes; then each point has the value of its own field, cut out at the
  sum of the lengths before it and converted to the point's type, and there is no other value.\<close>

theorem cj_di_parse_correct:
  assumes "distinct (map cp_id points)"
  shows "cj_di_parse ch order di t data points = Inr r \<longleftrightarrow>
     (\<exists>schema. get_di_schema order di t = Some schema \<and> total_length schema \<le> length data
        \<and> fields_decode ch (ds_fields schema) 0 data points
        \<and> r = \<lparr>pr_di = di, pr_point_values =
                 (\<lambda>i. Option.bind (find (\<lambda>p. cp_id p = i) points) (point_value ch (ds_fields schema) 0 data))\<rparr>)"
  using assms by (rule di_parse_iff)

definition day_point :: Cjt188Point where
  "day_point =
     \<lparr>cp_id = 1, cp_device_id = 1, cp_key = ''day'', cp_type = Attribute, cp_data_type = T_UInt8, cp_access_mode = AM_Read,
      cp_transform = \<lparr>transform_data_type = None, transform_scale = None, transform_offset = None, transform_negate = False\<rparr>,
      cp_di = 0x8103, cp_field_key = ''settlement_day''\<rparr>"

definition no_calendar :: "(unit, unit) chrono" where
  "no_calendar = \<lparr>from_ymd_opt = \<lambda>_ _ _. None, from_hms_opt = \<lambda>_ _ _. None, timestamp_millis = \<lambda>_. 0\<rparr>"

lemma day_point_parts:
  "get_di_schema [] 0x8103 0x10 = Some (universal 0x8103 fields_8103)"
  "fields_decode no_calendar fields_8103 0 [0x25] [day_point]"
  "point_value no_calendar fields_8103 0 [0x25] day_point = Some (UInt8 25)"
proof -
  show "get_di_schema [] 0x8103 0x10 = Some (universal 0x8103 fields_8103)"
    by (simp add: get_di_schema_eq registered_def common_group_def)
  have "decode_scalar no_calendar BCDInteger [0x25] = Inr (D_U64 25, None)"
    by (simp add: decode_bcd_integer_def bcd_loop_val bcd_byte_def bcd_byte_val_def)
  then show "fields_decode no_calendar fields_8103 0 [0x25] [day_point]"
    "point_value no_calendar fields_8103 0 [0x25] day_point = Some (UInt8 25)"
    by (simp_all add: fields_decode_def point_value_def fields_8103_def day_point_def ResponseField.make_def
        subslice_def coerce_u64_to_value_def should_apply_numeric_transform_def is_identity_numeric_def
        cp_logical_data_type_def resolve_logical_datatype_def narrow_def)
qed

lemma day_point_parsed:
  "\<exists>r. cj_di_parse no_calendar [] 0x8103 0x10 [0x25] [day_point] = Inr r \<and> pr_point_values r 1 = Some (UInt8 25)"
proof -
  have ids: "distinct (map cp_id [day_point])" by simp
  show ?thesis
    using day_point_parts unfolding di_parse_iff [OF ids]
    by (auto simp: universal_def total_length_def fields_8103_def ResponseField.make_def day_point_def)
qed

theorem cj_di_parse_correct_witness:
  "distinct (map cp_id [day_point])
     \<and> (\<exists>r. cj_di_parse no_calendar [] 0x8103 0x10 [0x25] [day_point] = Inr r \<and> pr_point_values r 1 = Some (UInt8 25))"
proof
  show ids: "distinct (map cp_id [day_point])" by simp
  show "\<exists>r. cj_di_parse no_calendar [] 0x8103 0x10 [0x25] [day_point] = Inr r \<and> pr_point_values r 1 = Some (UInt8 25)"
    using day_point_parts unfolding cj_di_parse_correct [OF ids]
    by (auto simp: universal_def total_length_def fields_8103_def ResponseField.make_def day_point_def)
qed

end
