(* ===== verification/Cjt188_Codec.thy ===== *)
theory Cjt188_Codec
  imports Cjt188_Frame Framing
begin

text \<open>
  The CJ/T 188 frame codec (\<open>Cjt188FrameCodec\<close> of \<open>protocol/codec.rs\<close>): the decoder and encoder that
  \<open>tokio_util\<close>'s \<open>Framed\<close> drives.

  The decoder drops bytes in front of a frame, also while it waits for more input; the lemmas
  show that this never loses or adds a frame however the stream arrives.
\<close>

section \<open>The frame codec\<close>

text \<open>The loop of \<open>decode\<close> at index \<open>i\<close>; the second component is what is left of the buffer.\<close>

function cj_scan :: "Cjt188Version \<Rightarrow> bytes \<Rightarrow> nat \<Rightarrow> (string, Cjt188TypedFrame) decode_result" where
  "cj_scan v src i =
     (if \<not> i < length src then (Inr None, [])
      else if src ! i \<noteq> 0x68 then cj_scan v src (i + 1)
      else if i + 13 > length src then (Inr None, drop i src)
      else
        let body_len = unat (src ! (i + 10)); total_len = 11 + body_len + 2
        in if i + total_len > length src then (Inr None, drop i src)
           else if src ! (i + total_len - 1) \<noteq> 0x16 then cj_scan v src (i + 1)
           else if src ! (i + 11 + body_len) \<noteq> byte_sum (subslice src i (i + 11 + body_len))
           then cj_scan v src (i + 1)
           else
             let src = drop i src; frame_bytes = take total_len src; src = drop total_len src
             in case cj_parse frame_bytes (cx_default v) of
                  Inr (_, frame) \<Rightarrow> (Inr (Some frame), src)
                | Inl e \<Rightarrow> (Inl ''InvalidData'', src))"
  by pat_completeness auto
termination by (relation "measure (\<lambda>(v, src, i). length src - i)") auto

definition cj_codec_decode :: "Cjt188Version \<Rightarrow> bytes \<Rightarrow> (string, Cjt188TypedFrame) decode_result" where
  "cj_codec_decode v src = (if src = [] then (Inr None, src) else cj_scan v src 0)"

definition cj_codec_encode :: "Cjt188Version \<Rightarrow> Cjt188TypedFrame \<Rightarrow> bytes \<Rightarrow> (string + unit) \<times> bytes" where
  "cj_codec_encode v item dst =
     (case cj_encode item (cx_default v) of
        (bs, Inr _) \<Rightarrow> (Inr (), dst @ bs)
      | (bs, Inl e) \<Rightarrow> (Inl ''InvalidData'', dst @ bs))"

section \<open>The decoder contract\<close>

declare cj_scan.simps [simp del]

lemma cj_scan_shift: "cj_scan v (pre @ src) (length pre + i) = cj_scan v src i"
proof (induction v src i rule: cj_scan.induct)
  case (1 v src i)
  note step = cj_scan.simps [of v "pre @ src" "length pre + i"] cj_scan.simps [of v src i]
  have sub: "subslice (pre @ src) (length pre + i) (length pre + i + 11 + n) = subslice src i (i + 11 + n)" for n
    by (simp add: subslice_def)
  have nths: "(pre @ src) ! (length pre + i) = src ! i" "(pre @ src) ! (length pre + i + 10) = src ! (i + 10)"
    "(pre @ src) ! (length pre + i + (11 + n + 2) - 1) = src ! (i + (11 + n + 2) - 1)"
    "(pre @ src) ! (length pre + i + 11 + n) = src ! (i + 11 + n)" for n
    by (simp_all add: nth_append add.assoc)
  have next_scan: "length pre + i + 1 = length pre + (i + 1)" by simp
  have drop: "drop (length pre + i) (pre @ src) = drop i src" by simp
  show ?case
    unfolding step Let_def nths sub drop next_scan using 1 by (auto simp: Let_def)
qed

text \<open>One step of the scan on the bytes still in the buffer.\<close>

lemma cj_decode_Cons:
  "cj_codec_decode v (x # xs) =
     (if x \<noteq> 0x68 then cj_codec_decode v xs
      else if length xs < 12 then (Inr None, x # xs)
      else
        let n = unat (xs ! 9)
        in if length xs < 12 + n then (Inr None, x # xs)
           else if xs ! (11 + n) \<noteq> 0x16 \<or> xs ! (10 + n) \<noteq> byte_sum (x # take (10 + n) xs) then cj_codec_decode v xs
           else (case cj_parse (x # take (12 + n) xs) (cx_default v) of
                   Inr (_, frame) \<Rightarrow> (Inr (Some frame), drop (12 + n) xs)
                 | Inl e \<Rightarrow> (Inl ''InvalidData'', drop (12 + n) xs)))"
proof -
  have 1: "cj_scan v (y # xs) (Suc 0) = cj_codec_decode v xs" for y
    using cj_scan_shift [of v "[y]" xs 0] by (simp add: cj_codec_decode_def) (simp add: cj_scan.simps)
  show ?thesis
    unfolding cj_codec_decode_def [of v "x # xs"]
    by (subst cj_scan.simps) (auto simp: 1 Let_def subslice_0 take_Cons' drop_Cons' split: sum.splits)
qed

lemma cj_decode_Nil [simp]: "cj_codec_decode v [] = (Inr None, [])"
  by (simp add: cj_codec_decode_def)

lemma cj_decode_progress:
  assumes "cj_codec_decode v buf = (Inr (Some f), buf')"
  shows "length buf' < length buf"
  using assms
proof (induction buf)
  case (Cons x xs)
  then show ?case by (auto simp: cj_decode_Cons Let_def less_Suc_eq split: if_splits sum.splits)
qed simp

lemma cj_decode_stable:
  assumes "cj_codec_decode v buf = (Inr (Some f), buf')"
  shows "cj_codec_decode v (buf @ extra) = (Inr (Some f), buf' @ extra)"
  using assms
proof (induction buf)
  case (Cons x xs)
  then show ?case by (auto simp: cj_decode_Cons Let_def nth_append split: if_splits sum.splits)
qed simp

lemma cj_decode_waits:
  assumes "cj_codec_decode v buf = (Inr None, buf')"
  shows "cj_codec_decode v (buf @ extra) = cj_codec_decode v (buf' @ extra)"
  using assms
proof (induction buf)
  case (Cons x xs)
  show ?case
  proof (cases "cj_codec_decode v (x # xs) = cj_codec_decode v xs \<and> cj_codec_decode v ((x # xs) @ extra) = cj_codec_decode v (xs @ extra)")
    case True
    with Cons show ?thesis by simp
  next
    case False
    with Cons.prems have "buf' = x # xs"
      by (auto simp: cj_decode_Cons Let_def nth_append split: if_splits sum.splits)
    then show ?thesis by simp
  qed
qed simp


lemma cj_decode_fails:
  assumes "cj_codec_decode v buf = (Inl e, buf')"
  shows "\<exists>buf''. cj_codec_decode v (buf @ extra) = (Inl e, buf'')"
  using assms
proof (induction buf)
  case (Cons x xs)
  then show ?case by (auto simp: cj_decode_Cons Let_def nth_append split: if_splits sum.splits)
qed simp

text \<open>The frames that can be received, and the bytes \<open>encode\<close> appends for one.\<close>

definition cj_receivable :: "Cjt188Version \<Rightarrow> Cjt188TypedFrame \<Rightarrow> bool" where
  "cj_receivable v = canonical_cj_frame cj_body_encoded_len canonical_cj_body (cx_default v)"

definition cj_codec_bytes :: "Cjt188Version \<Rightarrow> Cjt188TypedFrame \<Rightarrow> bytes" where
  "cj_codec_bytes v f = snd (cj_codec_encode v f [])"

lemma cj_codec_bytes_eq: "cj_codec_bytes v f = fst (cj_encode f (cx_default v))"
  by (simp add: cj_codec_bytes_def cj_codec_encode_def split: prod.splits sum.splits)

lemma cj_decode_encode:
  assumes "cj_receivable v f"
  shows "cj_codec_decode v (cj_codec_bytes v f @ rest) = (Inr (Some f), rest)"
proof -
  let ?w = "cj_codec_bytes v f"
  obtain data where w: "?w = cj_wire (cf_meter_type f) (cf_address f) (cf_control f) data" and len: "length data \<le> 255"
    using cj_body.cj_canonical_encode [of "cx_default v" f] assms
    by (auto simp: cj_receivable_def cj_codec_bytes_eq canonical_cj_frame_def)
  have wf: "wf_cj_address (cf_address f)" using assms by (simp add: cj_receivable_def canonical_cj_frame_def)
  obtain xs where xs: "?w = 0x68 # xs" by (simp add: w cj_wire_def cj_header_def Let_def)
  have parse: "cj_parse ?w (cx_default v) = Inr ([], f)"
    using cj_body.cj_parse_encode [of "cx_default v" f "[]"] assms by (simp add: cj_receivable_def cj_codec_bytes_eq)
  have n: "length xs = 12 + length data" "unat (xs ! 9) = length data" "xs ! (11 + length data) = 0x16"
    "xs ! (10 + length data) = byte_sum (0x68 # take (10 + length data) xs)"
    using length_cj_wire [OF wf, of "cf_meter_type f" "cf_control f" data] len
      cj_wire_nth(4) [OF wf, of "cf_meter_type f" "cf_control f" data]
      cj_wire_tail(2,3) [OF wf, of "cf_meter_type f" "cf_control f" data]
    unfolding w [symmetric] xs by (simp_all add: unat_of_nat subslice_0 take_Cons' nth_Cons')
  show ?thesis
    using parse n unfolding xs by (simp add: cj_decode_Cons Let_def nth_append)
qed

interpretation cj_codec: framed_codec "cj_codec_decode v" "cj_codec_bytes v" "cj_receivable v" for v
  by unfold_locales
    (blast intro: cj_decode_progress cj_decode_waits cj_decode_stable cj_decode_fails cj_decode_encode cj_decode_Nil)+

text \<open>Noise without a start mark in front of a frame is dropped.\<close>

lemma cj_decode_after_noise:
  assumes "cj_receivable v f" "0x68 \<notin> set noise"
  shows "cj_codec_decode v (noise @ cj_codec_bytes v f @ rest) = (Inr (Some f), rest)"
  using assms(2) by (induction noise) (auto simp: cj_decode_Cons cj_decode_encode [OF assms(1)])

section \<open>Properties\<close>

text \<open>A stream of frames with noise in front of each, such as the bytes that wake a meter up.\<close>

definition cj_noisy :: "Cjt188Version \<Rightarrow> (bytes \<times> Cjt188TypedFrame) list \<Rightarrow> bytes" where
  "cj_noisy v ps = concat (map (\<lambda>(noise, f). noise @ cj_codec_bytes v f) ps)"

lemma cj_drain_noisy:
  assumes "list_all (\<lambda>(noise, f). 0x68 \<notin> set noise \<and> cj_receivable v f) ps"
  shows "drain (Suc (length ps)) (cj_codec_decode v) (cj_noisy v ps) = Some (map snd ps, Waiting [])"
  using assms by (induction ps) (auto simp: cj_noisy_def cj_decode_after_noise)

text \<open>C30: however the transport cuts a byte stream into chunks, any number of them and at any
  place, decoding them as they arrive gives the frames, the failure or the rest that decoding the
  whole stream at once gives, although bytes are dropped while waiting.  If the stream is a sequence
  of frames with noise that has no start byte in front of each, every frame is delivered, in order,
  and nothing is left behind.\<close>

theorem cj_stream_chunks:
  "receive (cj_codec_decode v) [] chunks = drain (Suc (length (concat chunks))) (cj_codec_decode v) (concat chunks)
   \<and> (list_all (\<lambda>(noise, f). 0x68 \<notin> set noise \<and> cj_receivable v f) ps \<and> concat chunks = cj_noisy v ps
       \<longrightarrow> receive (cj_codec_decode v) [] chunks = Some (map snd ps, Waiting []))"
proof -
  have "receive (cj_codec_decode v) [] chunks = Some (map snd ps, Waiting [])"
    if "list_all (\<lambda>(noise, f). 0x68 \<notin> set noise \<and> cj_receivable v f) ps" "concat chunks = cj_noisy v ps"
    using cj_codec.receive_whole [of "Suc (length ps)"] cj_drain_noisy [OF that(1)] that(2) by metis
  then show ?thesis using cj_codec.receive_chunks by blast
qed

text \<open>A reading behind two wake-up bytes, arriving in three chunks.\<close>

theorem cj_stream_chunks_witness:
  "let bs = cj_noisy V2004 [([0xFE, 0xFE], sample_reading)]
   in receive (cj_codec_decode V2004) [] [take 1 bs, take 9 (drop 1 bs), drop (1 + 9) bs] = Some ([sample_reading], Waiting [])"
proof -
  define bs where "bs = cj_noisy V2004 [([0xFE, 0xFE], sample_reading)]"
  have ok: "list_all (\<lambda>(noise, f). 0x68 \<notin> set noise \<and> cj_receivable V2004 f) [([0xFE, 0xFE] :: bytes, sample_reading)]"
    using sample_reading_canonical by (simp add: cj_receivable_def)
  have "receive (cj_codec_decode V2004) [] [take 1 bs, take 9 (drop 1 bs), drop (1 + 9) bs]
      = Some (map snd [([0xFE, 0xFE] :: bytes, sample_reading)], Waiting [])"
    using cj_stream_chunks [of V2004 "[take 1 bs, take 9 (drop 1 bs), drop (1 + 9) bs]" "[([0xFE, 0xFE], sample_reading)]", THEN conjunct2]
      concat_three_chunks [of 1 bs 9] ok bs_def by (simp only: simp_thms)
  then show ?thesis unfolding Let_def bs_def [symmetric] by (simp only: list.map snd_conv)
qed

end
