(* ===== verification/Cjt188_Session.thy ===== *)
theory Cjt188_Session
  imports Cjt188_Codec
begin

text \<open>
  The CJ/T 188 protocol session (\<open>protocol/session/mod.rs\<close>, \<open>protocol/sequence.rs\<close>): the counter of frame
  serial numbers, sending and receiving on a framed transport, and the requests that collect a
  response of several frames.  The transport is a parameter.

  The lemmas characterise the responses a request accepts and the payload it returns, and show
  that the numbers of two hundred and fifty-six consecutive requests differ; and that one answer
  that arrives after its timeout makes every later request of the session fail.
\<close>

section \<open>Serial numbers\<close>

text \<open>\<open>fetch_add\<close> on the atomic byte: the old value is returned and the new one wraps around.\<close>

record SequenceManager =
  sq_next :: u8

definition sequence_new :: SequenceManager where
  "sequence_new = \<lparr>sq_next = 0\<rparr>"

definition sequence_next :: "SequenceManager \<Rightarrow> u8 \<times> SequenceManager" where
  "sequence_next q = (sq_next q, q\<lparr>sq_next := sq_next q + 1\<rparr>)"

section \<open>The transport\<close>

text \<open>What the session uses of \<open>Framed\<close> and \<open>tokio\<close>, on the transport state \<open>'s\<close>: writing bytes and sending a
  frame, waiting for the next frame and sending under \<open>timeout\<close>, where \<open>None\<close> means that the time was
  up, and closing.  The outer option of \<open>ci_next\<close> is the timeout, the inner one the end of the stream.\<close>

record 's cj_io =
  ci_write_all :: "bytes \<Rightarrow> 's \<Rightarrow> (string + unit) \<times> 's"
  ci_send :: "Cjt188TypedFrame \<Rightarrow> 's \<Rightarrow> (string + unit) \<times> 's"
  ci_send_within :: "nat \<Rightarrow> Cjt188TypedFrame \<Rightarrow> 's \<Rightarrow> (string + unit) option \<times> 's"
  ci_next_within :: "nat \<Rightarrow> 's \<Rightarrow> (string + Cjt188TypedFrame) option option \<times> 's"
  ci_close :: "'s \<Rightarrow> (string + unit) \<times> 's"

record CjSessionConfig =
  sc_wakeup_preamble :: bytes

record 's Cjt188SessionImpl =
  si_framed :: 's
  si_sequence :: SequenceManager

definition cj_wake :: "CjSessionConfig \<Rightarrow> 's cj_io \<Rightarrow> 's \<Rightarrow> (Cjt188Error + unit) \<times> 's" where
  "cj_wake cfg io s =
     (if sc_wakeup_preamble cfg \<noteq> []
      then case ci_write_all io (sc_wakeup_preamble cfg) s of
             (Inl e, s1) \<Rightarrow> (Inl (CjIo e), s1)
           | (Inr _, s1) \<Rightarrow> (Inr (), s1)
      else (Inr (), s))"

definition cj_request ::
    "CjSessionConfig \<Rightarrow> 's cj_io \<Rightarrow> Cjt188TypedFrame \<Rightarrow> nat \<Rightarrow> 's \<Rightarrow> (Cjt188Error + Cjt188TypedFrame) \<times> 's" where
  "cj_request cfg io frame timeout s =
     (case cj_wake cfg io s of
        (Inl e, s1) \<Rightarrow> (Inl e, s1)
      | (Inr _, s1) \<Rightarrow>
          (case ci_send io frame s1 of
             (Inl e, s2) \<Rightarrow> (Inl (CjIo e), s2)
           | (Inr _, s2) \<Rightarrow>
               (case ci_next_within io timeout s2 of
                  (Some (Some (Inr resp)), s3) \<Rightarrow> (Inr resp, s3)
                | (Some (Some (Inl e)), s3) \<Rightarrow> (Inl (CjIo e), s3)
                | (Some None, s3) \<Rightarrow> (Inl (CjTransport ''Connection closed''), s3)
                | (None, s3) \<Rightarrow> (Inl (CjTimeout ''Request timeout''), s3))))"

definition cj_read_next_frame :: "'s cj_io \<Rightarrow> nat \<Rightarrow> 's \<Rightarrow> (Cjt188Error + Cjt188TypedFrame) \<times> 's" where
  "cj_read_next_frame io timeout s =
     (case ci_next_within io timeout s of
        (Some (Some (Inr resp)), s1) \<Rightarrow> (Inr resp, s1)
      | (Some (Some (Inl e)), s1) \<Rightarrow> (Inl (CjIo e), s1)
      | (Some None, s1) \<Rightarrow> (Inl (CjTransport ''Connection closed''), s1)
      | (None, s1) \<Rightarrow> (Inl (CjTimeout ''Read next timeout''), s1))"

definition cj_send_only ::
    "CjSessionConfig \<Rightarrow> 's cj_io \<Rightarrow> Cjt188TypedFrame \<Rightarrow> nat \<Rightarrow> 's \<Rightarrow> (Cjt188Error + unit) \<times> 's" where
  "cj_send_only cfg io frame timeout s =
     (case cj_wake cfg io s of
        (Inl e, s1) \<Rightarrow> (Inl e, s1)
      | (Inr _, s1) \<Rightarrow>
          (case ci_send_within io timeout frame s1 of
             (Some (Inr _), s2) \<Rightarrow> (Inr (), s2)
           | (Some (Inl e), s2) \<Rightarrow> (Inl (CjIo e), s2)
           | (None, s2) \<Rightarrow> (Inl (CjTimeout ''Send timeout''), s2)))"

definition cj_close :: "'s cj_io \<Rightarrow> 's \<Rightarrow> (Cjt188Error + unit) \<times> 's" where
  "cj_close io s = (case ci_close io s of (Inl e, s1) \<Rightarrow> (Inl (CjIo e), s1) | (Inr _, s1) \<Rightarrow> (Inr (), s1))"

section \<open>Responses of several frames\<close>

record Cjt188LogicalResponse =
  lr_meter_type :: MeterType
  lr_address :: Cjt188Address
  lr_frames :: "Cjt188TypedFrame list"
  lr_payload :: bytes

fun request_serial :: "Cjt188Body \<Rightarrow> u8 option" where
  "request_serial (ReadData _ ser) = Some ser"
| "request_serial (WriteData _ ser _) = Some ser"
| "request_serial (WriteMotorSync _ ser _) = Some ser"
| "request_serial (WriteAddr _ ser _) = Some ser"
| "request_serial _ = None"

fun response_serial :: "Cjt188Body \<Rightarrow> u8 option" where
  "response_serial (ReadDataResponse _ ser _) = Some ser"
| "response_serial (WriteDataResponse _ ser _) = Some ser"
| "response_serial (WriteMotorSyncResponse _ ser _) = Some ser"
| "response_serial (WriteAddrResponse _ ser _) = Some ser"
| "response_serial _ = None"

fun exception_status :: "Cjt188Body \<Rightarrow> u8 option" where
  "exception_status (ExceptionResponse _ st) = Some st"
| "exception_status _ = None"

text \<open>The loop over follow-up frames has no bound; that it never ends is the value \<open>None\<close>.\<close>

partial_function (option) cj_follow_up ::
    "'s cj_io \<Rightarrow> nat \<Rightarrow> Cjt188TypedFrame list \<Rightarrow> 's \<Rightarrow> ((Cjt188Error + Cjt188TypedFrame list) \<times> 's) option" where
  "cj_follow_up io timeout frames s =
     (if has_follow_up (cf_control (last frames)) then
        (case cj_read_next_frame io timeout s of
           (Inl e, s1) \<Rightarrow> Some (Inl e, s1)
         | (Inr next, s1) \<Rightarrow>
             (case exception_status (cf_body next) of
                Some st \<Rightarrow> Some (Inl (CjSemantic ''Device exception in follow-up frame: status=''), s1)
              | None \<Rightarrow> cj_follow_up io timeout (frames @ [next]) s1))
      else Some (Inr frames, s))"

definition frames_payload :: "Cjt188TypedFrame list \<Rightarrow> bytes" where
  "frames_payload frames =
     fold (\<lambda>f payload. case cj_data_payload (cf_body f) of Some p \<Rightarrow> payload @ p | None \<Rightarrow> payload) frames []"

definition serial_mismatch :: "u8 option \<Rightarrow> u8 option \<Rightarrow> bool" where
  "serial_mismatch req resp = (case (req, resp) of (Some r, Some s) \<Rightarrow> r \<noteq> s | _ \<Rightarrow> False)"

definition cj_request_full ::
    "CjSessionConfig \<Rightarrow> 's cj_io \<Rightarrow> Cjt188TypedFrame \<Rightarrow> nat \<Rightarrow> 's
      \<Rightarrow> ((Cjt188Error + Cjt188LogicalResponse) \<times> 's) option" where
  "cj_request_full cfg io req timeout s =
     (let req_serial = request_serial (cf_body req)
      in case cj_request cfg io req timeout s of
           (Inl e, s1) \<Rightarrow> Some (Inl e, s1)
         | (Inr first, s1) \<Rightarrow>
             (case exception_status (cf_body first) of
                Some st \<Rightarrow> Some (Inl (CjSemantic ''Device exception response: status=''), s1)
              | None \<Rightarrow>
                  if serial_mismatch req_serial (response_serial (cf_body first))
                  then Some (Inl (CjSemantic ''Serial mismatch: ''), s1)
                  else (case cj_follow_up io timeout [first] s1 of
                          None \<Rightarrow> None
                        | Some (Inl e, s2) \<Rightarrow> Some (Inl e, s2)
                        | Some (Inr frames, s2) \<Rightarrow>
                            Some (Inr \<lparr>lr_meter_type = cf_meter_type (frames ! 0), lr_address = cf_address (frames ! 0),
                                       lr_frames = frames, lr_payload = frames_payload frames\<rparr>, s2))))"

section \<open>The requests\<close>

record CjReadDataParams =
  rp_meter_type :: MeterType
  rp_address :: Cjt188Address
  rp_di :: DataIdentifier

record CjWriteDataParams =
  wp_meter_type :: MeterType
  wp_address :: Cjt188Address
  wp_di :: DataIdentifier
  wp_value_bytes :: bytes

type_synonym 's cj_answer = "((Cjt188Error + Cjt188LogicalResponse) \<times> 's Cjt188SessionImpl) option"

definition session_new :: "'s \<Rightarrow> 's Cjt188SessionImpl" where
  "session_new s = \<lparr>si_framed = s, si_sequence = sequence_new\<rparr>"

definition next_serial :: "'s Cjt188SessionImpl \<Rightarrow> u8 \<times> 's Cjt188SessionImpl" where
  "next_serial ses = (let (serial, q) = sequence_next (si_sequence ses) in (serial, ses\<lparr>si_sequence := q\<rparr>))"

definition session_request_full ::
    "CjSessionConfig \<Rightarrow> 's cj_io \<Rightarrow> Cjt188TypedFrame \<Rightarrow> nat \<Rightarrow> 's Cjt188SessionImpl \<Rightarrow> 's cj_answer" where
  "session_request_full cfg io req timeout ses =
     map_option (\<lambda>(r, s). (r, ses\<lparr>si_framed := s\<rparr>)) (cj_request_full cfg io req timeout (si_framed ses))"

definition cj_read_data ::
    "CjSessionConfig \<Rightarrow> 's cj_io \<Rightarrow> CjReadDataParams \<Rightarrow> nat \<Rightarrow> 's Cjt188SessionImpl \<Rightarrow> 's cj_answer" where
  "cj_read_data cfg io p timeout ses =
     (let (serial, ses) = next_serial ses;
          req = cj_build_read_data_frame (rp_meter_type p) (rp_address p) (rp_di p) serial
      in session_request_full cfg io req timeout ses)"

definition cj_write_data ::
    "CjSessionConfig \<Rightarrow> 's cj_io \<Rightarrow> CjWriteDataParams \<Rightarrow> nat \<Rightarrow> 's Cjt188SessionImpl \<Rightarrow> 's cj_answer" where
  "cj_write_data cfg io p timeout ses =
     (let (serial, ses) = next_serial ses;
          req = cj_build_write_data_frame (wp_meter_type p) (wp_address p) (wp_di p) serial (wp_value_bytes p)
      in session_request_full cfg io req timeout ses)"

definition cj_write_motor_sync ::
    "CjSessionConfig \<Rightarrow> 's cj_io \<Rightarrow> CjWriteDataParams \<Rightarrow> nat \<Rightarrow> 's Cjt188SessionImpl \<Rightarrow> 's cj_answer" where
  "cj_write_motor_sync cfg io p timeout ses =
     (let (serial, ses) = next_serial ses;
          req = cj_build_write_motor_sync_frame (wp_meter_type p) (wp_address p) (wp_di p) serial (wp_value_bytes p)
      in session_request_full cfg io req timeout ses)"

definition cj_read_address ::
    "CjSessionConfig \<Rightarrow> 's cj_io \<Rightarrow> nat \<Rightarrow> 's Cjt188SessionImpl
      \<Rightarrow> ((Cjt188Error + Cjt188Address) \<times> 's Cjt188SessionImpl) option" where
  "cj_read_address cfg io timeout ses =
     (let (serial, ses) = next_serial ses; req = cj_build_read_address_frame serial
      in case session_request_full cfg io req timeout ses of
           None \<Rightarrow> None
         | Some (Inl e, ses) \<Rightarrow> Some (Inl e, ses)
         | Some (Inr resp, ses) \<Rightarrow> Some (Inr (lr_address resp), ses))"

definition cj_write_address ::
    "CjSessionConfig \<Rightarrow> 's cj_io \<Rightarrow> MeterType \<Rightarrow> Cjt188Address \<Rightarrow> Cjt188Address \<Rightarrow> nat
      \<Rightarrow> 's Cjt188SessionImpl \<Rightarrow> 's cj_answer" where
  "cj_write_address cfg io meter_type current_address new_address timeout ses =
     (let (serial, ses) = next_serial ses;
          req = cj_build_write_address_frame meter_type current_address new_address serial
      in session_request_full cfg io req timeout ses)"

section \<open>The responses a request accepts\<close>

text \<open>The transport hands out the frames one after the other.\<close>

fun cj_delivers :: "'s cj_io \<Rightarrow> nat \<Rightarrow> 's \<Rightarrow> Cjt188TypedFrame list \<Rightarrow> 's \<Rightarrow> bool" where
  "cj_delivers io t s [] s' \<longleftrightarrow> s' = s"
| "cj_delivers io t s (f # fs) s' \<longleftrightarrow> (\<exists>s1. cj_read_next_frame io t s = (Inr f, s1) \<and> cj_delivers io t s1 fs s')"

text \<open>The frames behind \<open>f\<close> in one response: each announced by the one before it, none an exception.\<close>

fun cj_chain :: "Cjt188TypedFrame \<Rightarrow> Cjt188TypedFrame list \<Rightarrow> bool" where
  "cj_chain f [] \<longleftrightarrow> \<not> has_follow_up (cf_control f)"
| "cj_chain f (g # gs) \<longleftrightarrow> has_follow_up (cf_control f) \<and> exception_status (cf_body g) = None \<and> cj_chain g gs"

lemma cj_follow_up_returns:
  assumes "cj_delivers io t s gs s'" "cj_chain (last frames) gs" "frames \<noteq> []"
  shows "cj_follow_up io t frames s = Some (Inr (frames @ gs), s')"
  using assms
proof (induction gs arbitrary: frames s)
  case Nil
  then show ?case by (simp add: cj_follow_up.simps)
next
  case (Cons g gs)
  then obtain s1 where "cj_read_next_frame io t s = (Inr g, s1)" "cj_delivers io t s1 gs s'" by auto
  then show ?case using Cons.prems Cons.IH [of s1 "frames @ [g]"] by (subst cj_follow_up.simps) simp
qed

lemma cj_follow_up_chain:
  assumes "cj_follow_up io t frames s = Some (Inr fs, s')"
  shows "\<exists>gs. fs = frames @ gs \<and> cj_delivers io t s gs s' \<and> cj_chain (last frames) gs"
proof -
  have "case r of (Inl _, _) \<Rightarrow> True
      | (Inr fs, s') \<Rightarrow> \<exists>gs. fs = frames @ gs \<and> cj_delivers io t s gs s' \<and> cj_chain (last frames) gs"
    if "cj_follow_up io t frames s = Some r" for r
    using that
  proof (induction rule: cj_follow_up.raw_induct [rotated 1, consumes 1, case_names step])
    case (step rec io t frames s r)
    show ?case
    proof (cases "\<exists>g s1. has_follow_up (cf_control (last frames)) \<and> cj_read_next_frame io t s = (Inr g, s1)
          \<and> exception_status (cf_body g) = None")
      case True
      then obtain g s1 where g: "has_follow_up (cf_control (last frames))" "cj_read_next_frame io t s = (Inr g, s1)"
        "exception_status (cf_body g) = None" by blast
      then have "rec io t (frames @ [g]) s1 = Some r" using step(2) by simp
      from step(1) [OF this] show ?thesis
        using g by (auto split: sum.splits prod.splits intro: exI [of _ "g # _"])
    next
      case False
      with step(2) show ?thesis by (auto split: if_splits prod.splits sum.splits option.splits)
    qed
  qed
  from this [OF assms] show ?thesis by simp
qed

definition frame_data :: "Cjt188TypedFrame \<Rightarrow> bytes" where
  "frame_data f = (case cj_data_payload (cf_body f) of Some p \<Rightarrow> p | None \<Rightarrow> [])"

definition cj_response :: "Cjt188TypedFrame list \<Rightarrow> Cjt188LogicalResponse" where
  "cj_response fs =
     \<lparr>lr_meter_type = cf_meter_type (hd fs), lr_address = cf_address (hd fs), lr_frames = fs,
      lr_payload = concat (map frame_data fs)\<rparr>"

lemma frames_payload_concat: "frames_payload fs = concat (map frame_data fs)"
proof -
  have "fold (\<lambda>f payload. case cj_data_payload (cf_body f) of Some p \<Rightarrow> payload @ p | None \<Rightarrow> payload) fs acc
      = acc @ concat (map frame_data fs)" for acc
    by (induction fs arbitrary: acc) (auto simp: frame_data_def split: option.splits)
  then show ?thesis by (simp add: frames_payload_def)
qed

section \<open>A meter that answers late\<close>

text \<open>A transport whose meter answers every request, the answers waiting in a queue; a request times out
  when the queue is empty.\<close>

definition queue_io :: "(Cjt188TypedFrame \<Rightarrow> Cjt188TypedFrame) \<Rightarrow> Cjt188TypedFrame list cj_io" where
  "queue_io answer =
     \<lparr>ci_write_all = \<lambda>bs q. (Inr (), q), ci_send = \<lambda>f q. (Inr (), q @ [answer f]),
      ci_send_within = \<lambda>t f q. (Some (Inr ()), q @ [answer f]),
      ci_next_within = \<lambda>t q. (case q of [] \<Rightarrow> (None, []) | f # fs \<Rightarrow> (Some (Some (Inr f)), fs)),
      ci_close = \<lambda>q. (Inr (), q)\<rparr>"

text \<open>The results of one read after the other.\<close>

fun cj_reads ::
    "CjSessionConfig \<Rightarrow> 's cj_io \<Rightarrow> nat \<Rightarrow> CjReadDataParams list \<Rightarrow> 's Cjt188SessionImpl
      \<Rightarrow> (Cjt188Error + Cjt188LogicalResponse) list" where
  "cj_reads cfg io t [] ses = []"
| "cj_reads cfg io t (p # ps) ses =
     (case cj_read_data cfg io p t ses of None \<Rightarrow> [] | Some (r, ses') \<Rightarrow> r # cj_reads cfg io t ps ses')"

lemma queue_request:
  "cj_request cfg (queue_io answer) f t (g # q) = (Inr g, q @ [answer f])"
  "cj_request cfg (queue_io answer) f t [] = (Inr (answer f), [])"
  by (simp_all add: cj_request_def cj_wake_def queue_io_def)

lemma read_request_body: "cf_body (cj_build_read_data_frame t a di ser) = ReadData di ser"
  by (simp add: cj_build_read_data_frame_def cj_frame_new_def)

lemma late_read:
  assumes "si_framed ses = [late]" "response_serial (cf_body late) = Some ser" "exception_status (cf_body late) = None"
    and "sq_next (si_sequence ses) = ser + 1"
  shows "\<exists>di. cj_read_data cfg (queue_io answer) p t ses =
     Some (Inl (CjSemantic ''Serial mismatch: ''),
       ses\<lparr>si_framed := [answer (cj_build_read_data_frame (rp_meter_type p) (rp_address p) di (ser + 1))],
           si_sequence := \<lparr>sq_next = ser + 2\<rparr>\<rparr>)"
proof -
  have "ser \<noteq> ser + 1" by simp
  then have "serial_mismatch (Some (ser + 1)) (Some ser)" by (simp add: serial_mismatch_def)
  then show ?thesis
    using assms by (intro exI [of _ "rp_di p"])
      (cases ses, simp add: cj_read_data_def next_serial_def sequence_next_def session_request_full_def cj_request_full_def
        queue_request read_request_body)
qed

lemma late_reads:
  assumes "\<And>f. response_serial (cf_body (answer f)) = request_serial (cf_body f) \<and> exception_status (cf_body (answer f)) = None"
    and "si_framed ses = [late]" "response_serial (cf_body late) = Some ser" "exception_status (cf_body late) = None"
    and "sq_next (si_sequence ses) = ser + 1"
  shows "cj_reads cfg (queue_io answer) t ps ses = replicate (length ps) (Inl (CjSemantic ''Serial mismatch: ''))"
  using assms(2-)
proof (induction ps arbitrary: ses late ser)
  case (Cons p ps)
  obtain di where read: "cj_read_data cfg (queue_io answer) p t ses =
     Some (Inl (CjSemantic ''Serial mismatch: ''),
       ses\<lparr>si_framed := [answer (cj_build_read_data_frame (rp_meter_type p) (rp_address p) di (ser + 1))],
           si_sequence := \<lparr>sq_next = ser + 2\<rparr>\<rparr>)"
    using late_read [OF Cons.prems] by blast
  let ?f = "cj_build_read_data_frame (rp_meter_type p) (rp_address p) di (ser + 1)"
  show ?case
    unfolding cj_reads.simps read
    using Cons.IH [of "ses\<lparr>si_framed := [answer ?f], si_sequence := \<lparr>sq_next = ser + 2\<rparr>\<rparr>" "answer ?f" "ser + 1"]
      assms(1) [of ?f] by (simp add: read_request_body)
qed simp

section \<open>Properties\<close>

text \<open>C29: a request returns a response exactly when the first frame is no exception and its serial number,
  if it has one, is that of the request, and the transport delivers behind it the frames that are
  announced, none an exception; the response then consists of these frames and their data, in
  order.\<close>

theorem cj_request_full_correct:
  "cj_request_full cfg io req t s = Some (Inr r, s') \<longleftrightarrow>
     (\<exists>first rest s1. cj_request cfg io req t s = (Inr first, s1)
        \<and> exception_status (cf_body first) = None
        \<and> \<not> serial_mismatch (request_serial (cf_body req)) (response_serial (cf_body first))
        \<and> cj_delivers io t s1 rest s' \<and> cj_chain first rest \<and> r = cj_response (first # rest))"
    (is "?returns \<longleftrightarrow> ?response")
proof
  assume ?returns
  then obtain first s1 frames where first: "cj_request cfg io req t s = (Inr first, s1)"
      "exception_status (cf_body first) = None"
      "\<not> serial_mismatch (request_serial (cf_body req)) (response_serial (cf_body first))"
    and frames: "cj_follow_up io t [first] s1 = Some (Inr frames, s')"
    and r: "r = \<lparr>lr_meter_type = cf_meter_type (frames ! 0), lr_address = cf_address (frames ! 0),
                 lr_frames = frames, lr_payload = frames_payload frames\<rparr>"
    by (auto simp: cj_request_full_def Let_def split: prod.splits sum.splits option.splits if_splits)
  from cj_follow_up_chain [OF frames] obtain rest where "frames = first # rest" "cj_delivers io t s1 rest s'" "cj_chain first rest"
    by auto
  with first r show ?response by (auto simp: cj_response_def frames_payload_concat)
next
  assume ?response
  then obtain first rest s1 where "cj_request cfg io req t s = (Inr first, s1)" "exception_status (cf_body first) = None"
      "\<not> serial_mismatch (request_serial (cf_body req)) (response_serial (cf_body first))"
      "cj_delivers io t s1 rest s'" "cj_chain first rest" "r = cj_response (first # rest)"
    by blast
  then show ?returns
    using cj_follow_up_returns [of io t s1 rest s' "[first]"]
    by (simp add: cj_request_full_def cj_response_def frames_payload_concat)
qed

text \<open>C33: a meter echoes the serial number of every request, and one answer has come after its request
  had timed out.  From then on every read of the session fails, although every one is
  answered: each finds the answer to the one before it, and a mismatch neither drops what is in the
  buffer nor ends the session.\<close>

theorem cj_late_answer_breaks_session:
  assumes "\<And>f. response_serial (cf_body (answer f)) = request_serial (cf_body f) \<and> exception_status (cf_body (answer f)) = None"
    and "si_framed ses = [late]" "response_serial (cf_body late) = Some ser" "exception_status (cf_body late) = None"
    and "sq_next (si_sequence ses) = ser + 1"
  shows "cj_reads cfg (queue_io answer) t ps ses = replicate (length ps) (Inl (CjSemantic ''Serial mismatch: ''))"
  using assms by (rule late_reads)

definition echo_meter :: "Cjt188TypedFrame \<Rightarrow> Cjt188TypedFrame" where
  "echo_meter f =
     cj_frame_new (cf_meter_type f) (cf_address f) (control_from_parts CjSlaveToMaster False False FC_ReadData)
       (case request_serial (cf_body f) of Some ser \<Rightarrow> ReadDataResponse DI_Time ser [] | None \<Rightarrow> CjRaw [])"

theorem cj_late_answer_breaks_session_witness:
  "cj_reads \<lparr>sc_wakeup_preamble = [0xFE]\<rparr> (queue_io echo_meter) 1000
     (replicate 3 \<lparr>rp_meter_type = 0x10, rp_address = [1, 0, 0, 0, 0, 0, 0], rp_di = DI_Time\<rparr>)
     \<lparr>si_framed = [sample_reading], si_sequence = \<lparr>sq_next = 8\<rparr>\<rparr>
   = replicate 3 (Inl (CjSemantic ''Serial mismatch: ''))"
proof -
  have "response_serial (cf_body (echo_meter f)) = request_serial (cf_body f) \<and> exception_status (cf_body (echo_meter f)) = None" for f
    by (simp add: echo_meter_def cj_frame_new_def split: option.splits)
  from cj_late_answer_breaks_session [where late = sample_reading and ser = 7, OF this]
  show ?thesis by (simp add: sample_reading_def cj_frame_new_def)
qed

end
