(* ===== verification/Cjt188_Handle.thy ===== *)
theory Cjt188_Handle
  imports Cjt188_Parser Cjt188_Session Sdk_Buffers
begin

text \<open>
  The data-plane handle of the CJ/T 188 driver (\<open>handle.rs\<close>): the attached session, the policy for protocol
  errors, and the collection of a device's points.  Requests for a reconnect are recorded in the
  order they are made.  Time is not modelled: an operation that is cut off by its timeout has no
  result, and whether that happens is up to the session.

  The lemmas show when consecutive timeouts ask for a reconnect, and what a collection publishes: it
  succeeds exactly when the reads of all groups do, and then publishes the values its points have in
  the answers.
\<close>

section \<open>The handle\<close>

record 's Cjt188Handle =
  hd_session :: "'s option"
  hd_timeout_reconnect_threshold :: u32
  hd_consecutive_timeouts :: u64
  hd_reconnect :: bool
  hd_requests :: "string list"

definition handle_new :: "u32 \<Rightarrow> 's Cjt188Handle" where
  "handle_new max_timeouts =
     \<lparr>hd_session = None, hd_timeout_reconnect_threshold = max_timeouts, hd_consecutive_timeouts = 0,
      hd_reconnect = False, hd_requests = []\<rparr>"

definition attach_session :: "'s \<Rightarrow> 's Cjt188Handle \<Rightarrow> 's Cjt188Handle" where
  "attach_session s h = h\<lparr>hd_session := Some s, hd_consecutive_timeouts := 0\<rparr>"

definition detach_session :: "'s Cjt188Handle \<Rightarrow> 's Cjt188Handle" where
  "detach_session h = h\<lparr>hd_session := None, hd_consecutive_timeouts := 0\<rparr>"

definition set_reconnect :: "'s Cjt188Handle \<Rightarrow> 's Cjt188Handle" where
  "set_reconnect h = h\<lparr>hd_reconnect := True\<rparr>"

definition try_request_reconnect :: "string \<Rightarrow> 's Cjt188Handle \<Rightarrow> 's Cjt188Handle" where
  "try_request_reconnect reason h =
     (if hd_reconnect h then h\<lparr>hd_requests := hd_requests h @ [reason]\<rparr> else h)"

definition on_proto_error :: "Cjt188Error \<Rightarrow> 's Cjt188Handle \<Rightarrow> 's Cjt188Handle" where
  "on_proto_error err h =
     (case err of
        CjTimeout _ \<Rightarrow>
          let old = hd_consecutive_timeouts h; h = h\<lparr>hd_consecutive_timeouts := old + 1\<rparr>;
              count = (if old = - 1 then - 1 else old + 1);
              threshold = ucast (hd_timeout_reconnect_threshold h)
          in if threshold \<noteq> 0 \<and> threshold \<le> count
             then (try_request_reconnect ''cjt188 timeout threshold reached'' h)\<lparr>hd_consecutive_timeouts := 0\<rparr>
             else h
      | CjTransport _ \<Rightarrow> try_request_reconnect ''cjt188 transport/io error'' h
      | CjIo _ \<Rightarrow> try_request_reconnect ''cjt188 transport/io error'' h
      | _ \<Rightarrow> h)"

definition cj_error_text :: "Cjt188Error \<Rightarrow> string" where
  "cj_error_text e =
     (case e of
        CjIo msg \<Rightarrow> ''IO error: '' @ msg
      | CjFrameTooShort msg \<Rightarrow> ''Frame too short: '' @ msg
      | CjInvalidFrame msg \<Rightarrow> ''Invalid frame: '' @ msg
      | CjChecksumMismatch expected calculated \<Rightarrow>
          ''Checksum mismatch: expected 0x'' @ cj_byte_text expected @ '', calculated 0x'' @ cj_byte_text calculated
      | CjSemantic msg \<Rightarrow> ''Semantic error: '' @ msg
      | CjTransport msg \<Rightarrow> ''Transport error: '' @ msg
      | CjTimeout _ \<Rightarrow> ''Timeout awaiting response'')"

text \<open>\<open>op\<close> runs on the attached session; no result means that the timeout cut it off.\<close>

definition run_op ::
    "('s \<Rightarrow> (Cjt188Error + 'a) option \<times> 's) \<Rightarrow> 's Cjt188Handle \<Rightarrow> (DriverError + 'a) \<times> 's Cjt188Handle" where
  "run_op op h =
     (case hd_session h of
        None \<Rightarrow> (Inl ServiceUnavailable, try_request_reconnect ''cjt188 no active session'' h)
      | Some sess \<Rightarrow>
          (case op sess of
             (Some (Inr v), sess') \<Rightarrow> (Inr v, h\<lparr>hd_session := Some sess', hd_consecutive_timeouts := 0\<rparr>)
           | (Some (Inl e), sess') \<Rightarrow>
               (Inl (ExecutionError (cj_error_text e)), on_proto_error e (h\<lparr>hd_session := Some sess'\<rparr>))
           | (None, sess') \<Rightarrow>
               let e = CjTimeout ''Operation timed out after ''
               in (Inl (ExecutionError (cj_error_text e)), on_proto_error e (h\<lparr>hd_session := Some sess'\<rparr>))))"

section \<open>Collecting\<close>

record Cjt188Device =
  cd_id :: int
  cd_device_name :: string
  cd_meter_type :: MeterType
  cd_address :: string

definition address_struct :: "(string \<Rightarrow> string + bytes) \<Rightarrow> Cjt188Device \<Rightarrow> DriverError + Cjt188Address" where
  "address_struct hex_decode d =
     (case cj_parse_str hex_decode (cd_address d) of
        Inl e \<Rightarrow> Inl (ConfigurationError (''Invalid CJ/T 188 address '' @ cd_address d @ cj_error_text e))
      | Inr a \<Rightarrow> Inr a)"

definition publish :: "Cjt188Device \<Rightarrow> Cjt188Point \<Rightarrow> NGValue \<Rightarrow> NorthwardData" where
  "publish d p v =
     (let pv = \<lparr>pv_point_id = cp_id p, pv_key = cp_key p, pv_value = v\<rparr>
      in case cp_type p of
           Telemetry \<Rightarrow> TelemetryData (cd_id d) (cd_device_name d) [pv]
         | Attribute \<Rightarrow> AttributeData (cd_id d) (cd_device_name d) [pv])"

definition publish_group :: "Cjt188Device \<Rightarrow> ParsedDIResponse \<Rightarrow> Cjt188Point list \<Rightarrow> NorthwardData list" where
  "publish_group d parsed ps =
     List.map_filter (\<lambda>p. map_option (publish d p) (pr_point_values parsed (cp_id p))) ps"

text \<open>The groups one after the other; \<open>rd\<close> is the session's read under the operation timeout.  A failed read
  ends the collection, a response that does not parse is skipped.\<close>

fun collect_groups ::
    "('d, 't) chrono \<Rightarrow> MeterTypeFamily list \<Rightarrow> (CjReadDataParams \<Rightarrow> 's \<Rightarrow> (Cjt188Error + Cjt188LogicalResponse) option \<times> 's)
      \<Rightarrow> Cjt188Device \<Rightarrow> Cjt188Address \<Rightarrow> (u16 \<times> Cjt188Point list) list \<Rightarrow> NorthwardData list \<Rightarrow> 's Cjt188Handle
      \<Rightarrow> (DriverError + NorthwardData list) \<times> 's Cjt188Handle" where
  "collect_groups ch order rd d a [] results h = (Inr results, h)"
| "collect_groups ch order rd d a ((di, ps) # gs) results h =
     (case run_op (rd \<lparr>rp_meter_type = cd_meter_type d, rp_address = a, rp_di = di_from_u16 di\<rparr>) h of
        (Inl e, h) \<Rightarrow> (Inl e, h)
      | (Inr resp, h) \<Rightarrow>
          (case cj_di_parse ch order di (cd_meter_type d) (lr_payload resp) ps of
             Inl e \<Rightarrow> collect_groups ch order rd d a gs results h
           | Inr parsed \<Rightarrow> collect_groups ch order rd d a gs (results @ publish_group d parsed ps) h))"

text \<open>The order in which the hash map of groups is iterated is the parameter \<open>perm\<close>.\<close>

definition points_by_di :: "Cjt188Point list \<Rightarrow> (u16 \<times> Cjt188Point list) list" where
  "points_by_di ps = map (\<lambda>di. (di, filter (\<lambda>p. cp_di p = di) ps)) (remdups (map cp_di ps))"

definition cj_collect_data ::
    "('d, 't) chrono \<Rightarrow> (string \<Rightarrow> string + bytes) \<Rightarrow> MeterTypeFamily list
      \<Rightarrow> ((u16 \<times> Cjt188Point list) list \<Rightarrow> (u16 \<times> Cjt188Point list) list)
      \<Rightarrow> (CjReadDataParams \<Rightarrow> 's \<Rightarrow> (Cjt188Error + Cjt188LogicalResponse) option \<times> 's)
      \<Rightarrow> (Cjt188Device option \<times> Cjt188Point option list) list \<Rightarrow> 's Cjt188Handle
      \<Rightarrow> (DriverError + NorthwardData list) \<times> 's Cjt188Handle" where
  "cj_collect_data ch hex_decode order perm rd items h =
     (case items of
        [] \<Rightarrow> (Inl (ValidationError ''collect_data called with empty items''), h)
      | _ # _ # _ \<Rightarrow> (Inl (ConfigurationError ''CJ/T 188 driver does not support grouped collection''), h)
      | [(None, _)] \<Rightarrow> (Inl (InvalidEntity ''Device is not a CJ/T 188 device in this driver''), h)
      | [(Some d, data_points)] \<Rightarrow>
          (case address_struct hex_decode d of
             Inl e \<Rightarrow> (Inl e, h)
           | Inr a \<Rightarrow>
               let ps = List.map_filter id data_points
               in if ps = [] then (Inr [], h) else collect_groups ch order rd d a (perm (points_by_di ps)) [] h))"

definition cj_execute_action :: "DriverError + unit" where
  "cj_execute_action =
     Inl (ConfigurationError ''CJ/T 188 driver does not support execute_action (downlink is not implemented)'')"

definition cj_write_point :: "DriverError + unit" where
  "cj_write_point =
     Inl (ConfigurationError ''CJ/T 188 driver does not support write_point (downlink is not implemented)'')"

section \<open>Timeouts\<close>

lemma timeout_step:
  assumes "hd_reconnect h" "hd_timeout_reconnect_threshold h \<noteq> 0"
    and "unat (hd_consecutive_timeouts h) < unat (hd_timeout_reconnect_threshold h)"
  defines "full \<equiv> unat (hd_consecutive_timeouts h) + 1 = unat (hd_timeout_reconnect_threshold h)"
  shows "on_proto_error (CjTimeout m) h =
     h\<lparr>hd_consecutive_timeouts := if full then 0 else hd_consecutive_timeouts h + 1,
       hd_requests := hd_requests h @ (if full then [''cjt188 timeout threshold reached''] else [])\<rparr>"
proof -
  let ?t = "hd_timeout_reconnect_threshold h" and ?c = "hd_consecutive_timeouts h"
  have t: "unat (ucast ?t :: u64) = unat ?t" by (simp only: unat_eq_nat_uint uint_ucast_64)
  have small: "unat ?c + 1 < 2 ^ 64" using assms(3) unsigned_less [where 'a = nat, of ?t] by simp
  then have c: "unat (?c + 1) = unat ?c + 1" using unat_add_lem [of ?c 1] by simp
  have "?c \<noteq> - 1" using small by (auto simp: unsigned_minus_1_eq_mask mask_eq_exp_minus_1)
  moreover have "(ucast ?t :: u64) \<le> ?c + 1 \<longleftrightarrow> full"
    using assms(3) by (simp add: word_le_nat_alt t c full_def) linarith
  moreover have "(ucast ?t :: u64) \<noteq> 0" using assms(2) t by (metis unat_0 unat_eq_zero)
  ultimately show ?thesis using assms(1) by (simp add: on_proto_error_def Let_def try_request_reconnect_def)
qed

section \<open>What a collection publishes\<close>

text \<open>The reads of a collection one after the other on the session: the payloads, one per group, and the
  session afterwards; \<open>None\<close> when one of them fails or is cut off.  What is requested is the identifier
  that \<open>di_from_u16\<close> gives for the group, which is 0xFFFF for a group without a name.\<close>

fun read_answers ::
    "(CjReadDataParams \<Rightarrow> 's \<Rightarrow> (Cjt188Error + Cjt188LogicalResponse) option \<times> 's)
      \<Rightarrow> Cjt188Device \<Rightarrow> Cjt188Address \<Rightarrow> (u16 \<times> Cjt188Point list) list \<Rightarrow> 's \<Rightarrow> (bytes list \<times> 's) option" where
  "read_answers rd d a [] s = Some ([], s)"
| "read_answers rd d a ((di, ps) # gs) s =
     (case rd \<lparr>rp_meter_type = cd_meter_type d, rp_address = a, rp_di = di_from_u16 di\<rparr> s of
        (Some (Inr resp), s') \<Rightarrow> map_option (\<lambda>(datas, s''). (lr_payload resp # datas, s'')) (read_answers rd d a gs s')
      | _ \<Rightarrow> None)"

text \<open>What the points of one group have in an answer: nothing when the group has no schema, the answer is
  too short for it, or a field that one of the points refers to does not decode.\<close>

definition group_values ::
    "('d, 't) chrono \<Rightarrow> MeterTypeFamily list \<Rightarrow> Cjt188Device \<Rightarrow> (u16 \<times> Cjt188Point list) \<times> bytes \<Rightarrow> (Cjt188Point \<times> NGValue) list" where
  "group_values ch order d g =
     (case g of ((di, ps), data) \<Rightarrow>
        case get_di_schema order di (cd_meter_type d) of
          None \<Rightarrow> []
        | Some schema \<Rightarrow>
            if total_length schema \<le> length data \<and> fields_decode ch (ds_fields schema) 0 data ps
            then List.map_filter (\<lambda>p. map_option (\<lambda>v. (p, v)) (point_value ch (ds_fields schema) 0 data p)) ps
            else [])"

lemma run_op_cases:
  assumes "hd_session h = Some s"
  shows "op s = (Some (Inr v), s') \<Longrightarrow> \<exists>h'. run_op op h = (Inr v, h') \<and> hd_session h' = Some s'"
    "(\<nexists>v. fst (op s) = Some (Inr v)) \<Longrightarrow> \<exists>e. fst (run_op op h) = Inl e"
  using assms by (auto simp: run_op_def Let_def split: option.splits prod.splits sum.splits)

lemma map_filter_cong: "(\<And>x. x \<in> set xs \<Longrightarrow> f x = g x) \<Longrightarrow> List.map_filter f xs = List.map_filter g xs"
  by (induction xs) (simp_all split: option.splits)

lemma map_map_filter: "map f (List.map_filter g xs) = List.map_filter (\<lambda>x. map_option f (g x)) xs"
  by (induction xs) (simp_all split: option.splits)

lemma publish_group_values:
  assumes "distinct (map cp_id ps)"
  shows "(case cj_di_parse ch order di (cd_meter_type d) data ps of Inl e \<Rightarrow> [] | Inr parsed \<Rightarrow> publish_group d parsed ps)
         = map (\<lambda>(p, v). publish d p v) (group_values ch order d ((di, ps), data))"
proof (cases "cj_di_parse ch order di (cd_meter_type d) data ps")
  case (Inl e)
  then have "group_values ch order d ((di, ps), data) = []"
    using di_parse_iff [OF assms, of ch order di "cd_meter_type d" data]
    by (auto simp: group_values_def split: option.splits)
  with Inl show ?thesis by simp
next
  case (Inr parsed)
  then obtain schema where schema: "get_di_schema order di (cd_meter_type d) = Some schema" "total_length schema \<le> length data"
      "fields_decode ch (ds_fields schema) 0 data ps"
    and parsed: "parsed = \<lparr>pr_di = di, pr_point_values =
        (\<lambda>i. Option.bind (find (\<lambda>p. cp_id p = i) ps) (point_value ch (ds_fields schema) 0 data))\<rparr>"
    unfolding di_parse_iff [OF assms] by blast
  have "pr_point_values parsed (cp_id p) = point_value ch (ds_fields schema) 0 data p" if "p \<in> set ps" for p
    using find_own_id [OF that assms] by (simp add: parsed)
  then have "publish_group d parsed ps
      = List.map_filter (\<lambda>p. map_option (publish d p) (point_value ch (ds_fields schema) 0 data p)) ps"
    unfolding publish_group_def by (intro map_filter_cong) simp
  with Inr schema show ?thesis
    by (simp add: group_values_def map_map_filter option.map_comp comp_def)
qed

lemma collect_groups_exact:
  assumes "\<forall>(di, ps) \<in> set gs. distinct (map cp_id ps)" "hd_session h = Some s"
  shows "case read_answers rd d a gs s of
           Some (datas, s') \<Rightarrow>
             (\<exists>h'. collect_groups ch order rd d a gs results h =
                (Inr (results @ map (\<lambda>(p, v). publish d p v) (concat (map (group_values ch order d) (zip gs datas)))), h')
                \<and> hd_session h' = Some s')
         | None \<Rightarrow> (\<exists>e. fst (collect_groups ch order rd d a gs results h) = Inl e)"
  using assms
proof (induction gs arbitrary: results h s)
  case (Cons g gs)
  obtain di ps where g: "g = (di, ps)" by fastforce
  let ?op = "rd \<lparr>rp_meter_type = cd_meter_type d, rp_address = a, rp_di = di_from_u16 di\<rparr>"
  show ?case
  proof (cases "\<exists>resp. fst (?op s) = Some (Inr resp)")
    case False
    then obtain e h1 where "run_op ?op h = (Inl e, h1)" using run_op_cases(2) [OF Cons.prems(2), of ?op] by (metis prod.collapse)
    moreover have "read_answers rd d a (g # gs) s = None"
      using False by (auto simp: g split: prod.splits option.splits sum.splits)
    ultimately show ?thesis by (simp add: g)
  next
    case True
    then obtain resp s1 where op: "?op s = (Some (Inr resp), s1)" by (metis prod.collapse)
    obtain h1 where h1: "run_op ?op h = (Inr resp, h1)" "hd_session h1 = Some s1"
      using run_op_cases(1) [of h s ?op, OF Cons.prems(2) op] by blast
    let ?out = "map (\<lambda>(p, v). publish d p v) (group_values ch order d (g, lr_payload resp))"
    have "distinct (map cp_id ps)" "\<forall>(di, ps) \<in> set gs. distinct (map cp_id ps)" using Cons.prems(1) by (simp_all add: g)
    then have "collect_groups ch order rd d a (g # gs) results h = collect_groups ch order rd d a gs (results @ ?out) h1"
      using publish_group_values [where ps = ps and ch = ch and order = order and di = di and d = d and data = "lr_payload resp"] h1(1) by (auto simp: g split: sum.splits)
    with Cons.IH [OF \<open>\<forall>(di, ps) \<in> set gs. distinct (map cp_id ps)\<close> h1(2), of "results @ ?out"] op show ?thesis
      by (auto simp: g split: option.splits)
  qed
qed simp

lemma group_values_own:
  assumes "(p, v) \<in> set (group_values ch order d ((di, ps), data))"
  shows "p \<in> set ps \<and> data_type v = cp_logical_data_type p"
  using assms by (auto simp: group_values_def List.map_filter_def point_value_type split: option.splits if_splits)

lemma timeouts_count:
  assumes "hd_reconnect h" "hd_timeout_reconnect_threshold h \<noteq> 0" "hd_consecutive_timeouts h = 0"
  defines "n \<equiv> unat (hd_timeout_reconnect_threshold h)"
  shows "\<exists>c. (on_proto_error (CjTimeout m) ^^ k) h =
     h\<lparr>hd_consecutive_timeouts := c,
       hd_requests := hd_requests h @ replicate (k div n) ''cjt188 timeout threshold reached''\<rparr> \<and> unat c = k mod n"
proof (induction k)
  case 0
  show ?case using assms(3) by (intro exI [of _ "0 :: u64"]) (cases h, simp)
next
  case (Suc k)
  then obtain c where IH: "(on_proto_error (CjTimeout m) ^^ k) h =
     h\<lparr>hd_consecutive_timeouts := c,
       hd_requests := hd_requests h @ replicate (k div n) ''cjt188 timeout threshold reached''\<rparr>" "unat c = k mod n"
    by blast
  have n: "0 < n" using assms(2) by (simp add: n_def unat_gt_0)
  have less: "unat c < n" using n IH(2) by simp
  then have c: "unat (c + 1) = unat c + 1"
    using unat_add_lem [of c 1] unsigned_less [where 'a = nat, of "hd_timeout_reconnect_threshold h"] by (simp add: n_def)
  note step = timeout_step [where m = m and h = "h\<lparr>hd_consecutive_timeouts := c,
       hd_requests := hd_requests h @ replicate (k div n) ''cjt188 timeout threshold reached''\<rparr>"]
  have k: "Suc k div n = (if unat c + 1 = n then Suc (k div n) else k div n)" "Suc k mod n = (if unat c + 1 = n then 0 else unat c + 1)"
    using IH(2) by (simp_all add: div_Suc mod_Suc)
  show ?case
    using step assms(1,2) less IH(1) c
    by (intro exI [of _ "if unat c + 1 = n then 0 else c + 1"]) (simp add: k n_def [symmetric] replicate_append_same)
qed

section \<open>Properties\<close>

text \<open>With a threshold set, every time as many timeouts have come in a row as it says, one reconnect is
  asked for and the count starts again; nothing else of the handle changes.\<close>

theorem cj_timeouts_reconnect:
  assumes "hd_reconnect h" "hd_timeout_reconnect_threshold h \<noteq> 0" "hd_consecutive_timeouts h = 0"
  shows "\<exists>c. (on_proto_error (CjTimeout m) ^^ k) h =
     h\<lparr>hd_consecutive_timeouts := c,
       hd_requests := hd_requests h @ replicate (k div unat (hd_timeout_reconnect_threshold h)) ''cjt188 timeout threshold reached''\<rparr>
     \<and> unat c = k mod unat (hd_timeout_reconnect_threshold h)"
  using assms by (rule timeouts_count)

theorem cj_timeouts_reconnect_witness:
  "\<exists>c. (on_proto_error (CjTimeout ''late'') ^^ 7) (set_reconnect (handle_new 3) :: nat Cjt188Handle) =
     (set_reconnect (handle_new 3))\<lparr>hd_consecutive_timeouts := c,
       hd_requests := [''cjt188 timeout threshold reached'', ''cjt188 timeout threshold reached'']\<rparr> \<and> unat c = 1"
proof -
  have "replicate 2 r = [r, r]" for r :: string by (simp add: numeral_2_eq_2)
  then show ?thesis
    using cj_timeouts_reconnect [where h = "set_reconnect (handle_new 3) :: nat Cjt188Handle" and m = "''late''" and k = 7]
    by (simp add: set_reconnect_def handle_new_def)
qed

text \<open>C32: a collection on an attached session reads every group of the device's points once, in the
  iteration order of the hash map, with the device's address and the identifier \<open>di_from_u16\<close> gives for
  the group.  It succeeds exactly when all reads do.  Then it publishes, group by group, exactly the
  values its points have in the answers; a group whose answer does not parse publishes nothing.  Every
  value belongs to a configured point and has the type of that point.\<close>

theorem cj_collect_exact:
  assumes "hd_session h = Some s" "cj_parse_str hex_decode (cd_address d) = Inr a"
    and "distinct (map cp_id (List.map_filter id pts))" "\<And>gs. mset (perm gs) = mset gs"
    and "gs = perm (points_by_di (List.map_filter id pts))"
  shows "(case read_answers rd d a gs s of
            Some (datas, s') \<Rightarrow>
              (\<exists>h'. cj_collect_data ch hex_decode order perm rd [(Some d, pts)] h =
                 (Inr (map (\<lambda>(p, v). publish d p v) (concat (map (group_values ch order d) (zip gs datas)))), h')
                 \<and> hd_session h' = Some s')
              \<and> (\<forall>(p, v) \<in> set (concat (map (group_values ch order d) (zip gs datas))).
                   Some p \<in> set pts \<and> data_type v = cp_logical_data_type p)
          | None \<Rightarrow> (\<exists>e. fst (cj_collect_data ch hex_decode order perm rd [(Some d, pts)] h) = Inl e))"
proof -
  let ?ps = "List.map_filter id pts"
  have set_gs: "set gs = set (points_by_di ?ps)" using assms(4,5) by (metis set_mset_mset)
  have run: "cj_collect_data ch hex_decode order perm rd [(Some d, pts)] h = collect_groups ch order rd d a gs [] h"
  proof (cases "?ps = []")
    case True
    then have "points_by_di ?ps = []" by (simp add: points_by_di_def)
    then have "gs = []" using assms(4) [of "[]"] assms(5) by simp
    with True assms(2) show ?thesis by (simp add: cj_collect_data_def address_struct_def)
  next
    case False
    with assms(2,5) show ?thesis by (simp add: cj_collect_data_def address_struct_def Let_def)
  qed
  have "\<forall>(di, ps) \<in> set gs. distinct (map cp_id ps)"
    using assms(3) by (auto simp: set_gs points_by_di_def distinct_map_filter)
  note exact = collect_groups_exact [OF this assms(1), where rd = rd and d = d and a = a and ch = ch and order = order and results = "[]"]
  have own: "Some p \<in> set pts \<and> data_type v = cp_logical_data_type p"
    if "(p, v) \<in> set (concat (map (group_values ch order d) (zip gs datas)))" for p v datas
  proof -
    from that obtain g data where g: "(g, data) \<in> set (zip gs datas)" "(p, v) \<in> set (group_values ch order d (g, data))" by auto
    then have "g \<in> set (points_by_di ?ps)" using set_gs by (auto dest: set_zip_leftD)
    then have "set (snd g) \<subseteq> set ?ps" by (auto simp: points_by_di_def)
    moreover have "p \<in> set (snd g)" "data_type v = cp_logical_data_type p"
      using g(2) group_values_own [where di = "fst g" and ps = "snd g" and p = p and v = v and ch = ch and order = order and d = d and data = data] by auto
    ultimately show ?thesis by (auto simp: List.map_filter_def)
  qed
  show ?thesis
    using exact own unfolding run by (auto split: option.splits)
qed

definition text_hex :: "string \<Rightarrow> string + bytes" where
  "text_hex s = (case hex_pairs s of Some bs \<Rightarrow> Inr bs | None \<Rightarrow> Inl ''invalid'')"

definition sample_device :: Cjt188Device where
  "sample_device = \<lparr>cd_id = 5, cd_device_name = ''meter'', cd_meter_type = 0x10, cd_address = ''00000000000001''\<rparr>"

definition day_reader :: "CjReadDataParams \<Rightarrow> nat \<Rightarrow> (Cjt188Error + Cjt188LogicalResponse) option \<times> nat" where
  "day_reader p n =
     (Some (Inr \<lparr>lr_meter_type = rp_meter_type p, lr_address = rp_address p, lr_frames = [], lr_payload = [0x25]\<rparr>), n + 1)"

theorem cj_collect_exact_witness:
  "\<exists>h'. cj_collect_data no_calendar text_hex [] id day_reader [(Some sample_device, [Some day_point])]
          (attach_session 0 (handle_new 3)) = (Inr [publish sample_device day_point (UInt8 25)], h')
        \<and> hd_session h' = Some 1"
proof -
  let ?gs = "points_by_di (List.map_filter id [Some day_point])"
  have a: "cj_parse_str text_hex (cd_address sample_device) = Inr [1, 0, 0, 0, 0, 0, 0]" by code_simp
  have gs: "?gs = [(0x8103, [day_point])]" by (simp add: points_by_di_def List.map_filter_def day_point_def)
  have rd: "read_answers day_reader sample_device [1, 0, 0, 0, 0, 0, 0] ?gs 0 = Some ([[0x25]], 1)"
    unfolding gs by (simp add: day_reader_def)
  obtain parsed where "cj_di_parse no_calendar [] 0x8103 0x10 [0x25] [day_point] = Inr parsed" "pr_point_values parsed 1 = Some (UInt8 25)"
    using day_point_parsed by blast
  then have "map (\<lambda>(p, v). publish sample_device p v) (group_values no_calendar [] sample_device ((0x8103, [day_point]), [0x25]))
      = [publish sample_device day_point (UInt8 25)]"
    using publish_group_values [where ps = "[day_point]" and ch = no_calendar and order = "[]" and di = "0x8103" and d = sample_device and data = "[0x25]"]
    by (simp add: sample_device_def publish_group_def List.map_filter_def) (simp add: day_point_def)
  then show ?thesis
    using cj_collect_exact [where h = "attach_session 0 (handle_new 3)" and s = 0 and hex_decode = text_hex and d = sample_device
        and pts = "[Some day_point]" and perm = id and rd = day_reader and ch = no_calendar and order = "[]", OF _ a _ _ refl]
      rd gs by (simp add: attach_session_def List.map_filter_def)
qed

end
