(* ===== verification/Spec2Isabelle.thy ===== *)
theory Spec2Isabelle
  imports Dlt645_Session Iec104_Session Iec104_Handle Modbus_Planner Mc_Handle Cjt188_Handle
begin

text \<open>
  NG Gateway: the southward protocol drivers and the value layer of the SDK they share.

  \<^bold>\<open>The program.\<close>  The gateway polls field devices over industrial protocols and forwards what it reads.
  A driver under \<open>src/ng-gateway-southward/\<close> is built in layers: a wire format (frames with length
  fields, checksums and sequence numbers), a stream codec that finds frames in the bytes a transport
  delivers, a session that exchanges requests and responses or runs the link protocol, a planner
  that merges the points of a device into few requests, and a handle that turns the
  bytes read into typed values and written values into requests.  The types of
  the values, their casts and the transforms of the points are in \<open>src/ng-gateway-sdk/\<close>.  Five drivers
  are modelled: DL/T 645 (electricity meters), CJ/T 188 (water, gas and heat meters),
  IEC 60870-5-104 (telecontrol), Modbus, and Mitsubishi MC.

  \<^bold>\<open>Conventions.\<close>  A Rust integer is a word of its width (signed ones are read with \<open>sint\<close>), \<open>usize\<close> a natural
  number, \<open>Bytes\<close> a list of bytes, a \<open>Result\<close> a sum with the error on the left, a panic the
  value \<open>None\<close> of an option.  Arithmetic wraps as in the release profile.  Structs are records and enums
  datatypes with the names of the source; a method is a function of the state it changes.  Error
  messages keep the fixed text of their format string.  Code outside the sources is a parameter:
  transports, the layout of \<open>bit_struct\<close> fields, the calendar of \<open>chrono\<close>, the order of hash maps.
  What is relied on is a named predicate, and a concrete instance shows it can hold.

  \<^bold>\<open>Shared theories.\<close>
  \<^item> \<open>Prelude\<close>: words, bytes, slices, results.
  \<^item> \<open>Wire\<close>: the contract of \<open>WireEncode\<close> and \<open>WireDecode\<close> (\<open>sdk/src/southward/wire.rs\<close>) as the locales \<open>wire_codec\<close>
    and \<open>exact_wire_codec\<close>.
  \<^item> \<open>Framing\<close>: the contract of a \<open>Decoder\<close> driven by \<open>Framed\<close> as the locales \<open>stream_decoder\<close> and \<open>framed_codec\<close>.
    What follows for each codec: draining the buffer ends, and whatever bytes arrive, in however many
    chunks, what is received is what decoding them in one piece gives.
  \<^item> \<open>Sdk_Float\<close>, \<open>Sdk_Text\<close>: the floating-point formats and the text functions of the Rust standard library.
  \<^item> \<open>Sdk_Value\<close>, \<open>Sdk_Codec\<close>, \<open>Sdk_Buffers\<close>: \<open>value.rs\<close>, \<open>transform.rs\<close>, \<open>southward/codec.rs\<close>, \<open>northward/buffer.rs\<close>.
    Casts return the number they are given or an error, and a value written and read back
    through a transform without a scale is the value.

  \<^bold>\<open>DL/T 645\<close> (\<open>dlt645/src/protocol/\<close>).  \<open>Dlt645_Defs\<close> (\<open>frame/defs.rs\<close>), \<open>Dlt645_Body\<close> (\<open>frame/body.rs\<close>), \<open>Dlt645_Frame\<close>
  (\<open>frame/mod.rs\<close>, \<open>frame/builder.rs\<close>), \<open>Dlt645_Codec\<close> (\<open>codec.rs\<close>), \<open>Dlt645_Session\<close> (\<open>session/mod.rs\<close>).  A frame
  comes back from its encoding exactly when it is canonical, the parser accepts nothing but encodings up to
  bytes it ignores behind commands of a fixed size, a corrupted byte is detected, and \<open>request_full\<close>
  succeeds exactly on a well-formed chain of response frames and returns its payload.

  \<^bold>\<open>CJ/T 188\<close> (\<open>cjt188/src/\<close>).  \<open>Cjt188_Frame\<close> (\<open>protocol/frame/\<close>), \<open>Cjt188_Codec\<close> and \<open>Cjt188_Values\<close> (\<open>protocol/codec.rs\<close>),
  \<open>Cjt188_Session\<close> (\<open>protocol/session/mod.rs\<close>, \<open>protocol/sequence.rs\<close>), \<open>Cjt188_Schema\<close> and \<open>Cjt188_Parser\<close> (\<open>codec/\<close>),
  \<open>Cjt188_Handle\<close> (\<open>handle.rs\<close>).  The same for this frame; moreover a response gives every point the
  value of its own field, decimal numbers are decoded to the nearest float, and a collection publishes
  exactly the values its points have in the answers to its reads.

  \<^bold>\<open>IEC 60870-5-104\<close> (\<open>iec104/src/\<close>).  \<open>Iec104_TypeId\<close>, \<open>Iec104_Frame\<close> (\<open>protocol/frame/asdu.rs\<close>, \<open>apci.rs\<close>, \<open>codec.rs\<close>),
  \<open>Iec104_State\<close> (\<open>protocol/session/state.rs\<close>) and \<open>Iec104_Session\<close>, the event loop \<open>run_connection_with_stream\<close> as steps
  on its state: in every reachable state the window is bounded by \<open>k\<close>, send and receive numbers are
  consecutive, queues keep their limits, nothing is sent before the link is active, and a silent peer
  is detected.  \<open>Iec104_Info\<close> (\<open>mproc.rs\<close>, \<open>msys.rs\<close>, \<open>time.rs\<close>) and \<open>Iec104_Command\<close> (\<open>cproc.rs\<close>, \<open>csys.rs\<close>): reading the
  information objects of a unit inverts building it, shown once in the locales \<open>object_codec\<close> and
  \<open>element_codec\<close> and interpreted for every kind of object.  \<open>Iec104_Points\<close> and \<open>Iec104_Handle\<close> (\<open>handle.rs\<close>,
  \<open>types.rs\<close>): the snapshot of the points follows the configuration, what is published for a unit belongs to
  a configured point, and a successful write queues exactly the command of its point.  The units
  the handle queues are the requests the event loop takes from its channel.

  \<^bold>\<open>Modbus\<close> (\<open>modbus/src/\<close>).  \<open>Modbus_Codec\<close> (\<open>codec.rs\<close>) and \<open>Modbus_Planner\<close> (\<open>planner.rs\<close> and the cutting of replies in
  \<open>handle.rs\<close>): registers and values determine each other for every byte and word order, and batched
  reads give every point what a request of its own would have read.

  \<^bold>\<open>Mitsubishi MC\<close> (\<open>mc/src/\<close>).  \<open>Mc_Device\<close>, \<open>Mc_Frame\<close>, \<open>Mc_Planner\<close>, \<open>Mc_Session\<close> (\<open>protocol/\<close>) and \<open>Mc_Handle\<close> (\<open>codec.rs\<close>,
  \<open>typed_api.rs\<close>, \<open>handle.rs\<close>): over any link that serves batches of words from a memory (\<open>serves_reads\<close>,
  \<open>serves_writes\<close>), reading points on word devices gives the bytes the memory holds for them, writing them
  leaves the memory the single writes would have left, and an integer written by an action is read back.
  Encoded requests are told apart by their bytes and acknowledgements survive the stream.  Bit devices are
  asked for in units of words, so for them only the plan of the batches is shown.  The locale \<open>batch_planner\<close> is the loop all planners share.

  \<^bold>\<open>Loops.\<close>  Recursions that are not structural have a termination proof by a measure.  Loops that could
  run forever are partial functions or \<open>while_option\<close>; the planners are shown to return, and the
  loop over follow-up frames of CJ/T 188 to return exactly when the meter ends its chain.  Draining a codec
  (\<open>drain\<close>) has fuel; one more than the length of the buffer is enough, as every frame consumes a byte.
  The event loop of IEC 60870-5-104 runs as long as events arrive, so its runs are lists of events.

  \<^bold>\<open>Not modelled.\<close>  Time other than the clock readings the code compares, tasks and locks except where one call blocks
  itself, logging, and metrics other than the request counters of the IEC handle.  The connectors,
  supervised sessions, metadata forms and model converters of the drivers, the handle of
  DL/T 645 and most of that of Modbus.  The drivers for S7, DNP3, EtherNet/IP and OPC UA, of which
  the last three are layers over protocol crates; the northward applications (Kafka, Pulsar, ThingsBoard,
  OPC UA server), which are I/O through client libraries; the gateway core, web interface, data models,
  repositories and utilities, which compose tasks, databases and HTTP frameworks.
\<close>

end
